(* ===== verification/Jobs_Prelude.thy ===== *)
theory Jobs_Prelude
  imports Main "HOL-Library.Product_Lexorder"
begin

section \<open>Prelude: Python values, exceptions, dictionaries and list slices\<close>

text \<open>
  What every component of the model shares. A Python method that may raise and that changes its
  object is a function from the state to a result and a state, \<open>('s, 'a) py\<close>: the result is
  \<open>Inl e\<close> for an exception and \<open>Inr x\<close> for a value, and the state is kept in both cases, as
  Python keeps the writes made before an exception. \<open>bind_py\<close>, \<open>try_except\<close> and
  \<open>try_finally\<close> are the sequencing, \<open>try/except Exception\<close> and \<open>try/finally\<close> of the
  language. A \<open>dict\<close> is an association list without duplicate keys, in insertion order.
  Times are \<open>int\<close>: microseconds, the resolution of \<open>datetime\<close>.
\<close>

named_theorems py_defs \<open>the sequencing operators, unfolded when a method body is evaluated\<close>

subsection \<open>Values and exceptions\<close>

text \<open>
  The values a payload can hold: what JSON can hold. A float is identified by its \<open>repr\<close>,
  which determines it. The exceptions are those the package raises or lets through, with the
  text that \<open>str(exc)\<close> gives.
\<close>

datatype pyval =
    PNone
  | PBool bool
  | PInt int
  | PFloat string
  | PStr string
  | PList "pyval list"
  | PDict "(string \<times> pyval) list"

datatype exn =
    ValueError string
  | KeyError string
  | PermissionError string
  | RuntimeError string
  | TimeoutError string
  | DependencyCycleError string
  | IntegrityError string
  | RedisError string
  | OtherException string

primrec exn_str :: "exn \<Rightarrow> string" where
  "exn_str (ValueError m) = m"
| "exn_str (KeyError m) = CHR 0x27 # m @ [CHR 0x27]"
| "exn_str (PermissionError m) = m"
| "exn_str (RuntimeError m) = m"
| "exn_str (TimeoutError m) = m"
| "exn_str (DependencyCycleError m) = m"
| "exn_str (IntegrityError m) = m"
| "exn_str (RedisError m) = m"
| "exn_str (OtherException m) = m"

type_synonym time = int

abbreviation second :: time where
  "second \<equiv> 1000000"

subsection \<open>State and exceptions\<close>

type_synonym ('s, 'a) py = "'s \<Rightarrow> (exn + 'a) \<times> 's"

definition ret :: "'a \<Rightarrow> ('s, 'a) py" where
  "ret x = (\<lambda>s. (Inr x, s))"

definition raise_exn :: "exn \<Rightarrow> ('s, 'a) py" where
  "raise_exn e = (\<lambda>s. (Inl e, s))"

definition bind_py :: "('s, 'a) py \<Rightarrow> ('a \<Rightarrow> ('s, 'b) py) \<Rightarrow> ('s, 'b) py" where
  "bind_py m k = (\<lambda>s. case m s of (Inl e, s') \<Rightarrow> (Inl e, s') | (Inr x, s') \<Rightarrow> k x s')"

definition seq_py :: "('s, 'a) py \<Rightarrow> ('s, 'b) py \<Rightarrow> ('s, 'b) py" where
  "seq_py m k = bind_py m (\<lambda>_. k)"

definition try_except :: "('s, 'a) py \<Rightarrow> (exn \<Rightarrow> ('s, 'a) py) \<Rightarrow> ('s, 'a) py" where
  "try_except m h = (\<lambda>s. case m s of (Inl e, s') \<Rightarrow> h e s' | (Inr x, s') \<Rightarrow> (Inr x, s'))"

definition try_finally :: "('s, 'a) py \<Rightarrow> ('s, unit) py \<Rightarrow> ('s, 'a) py" where
  "try_finally m f =
     (\<lambda>s. case m s of (r, s') \<Rightarrow>
        (case f s' of (Inl e, s'') \<Rightarrow> (Inl e, s'') | (Inr _, s'') \<Rightarrow> (r, s'')))"

definition modify :: "('s \<Rightarrow> 's) \<Rightarrow> ('s, unit) py" where
  "modify f = (\<lambda>s. (Inr (), f s))"

definition gets :: "('s \<Rightarrow> 'a) \<Rightarrow> ('s, 'a) py" where
  "gets f = (\<lambda>s. (Inr (f s), s))"

text \<open>Running a method of an object held in a field of a larger state.\<close>

definition on_field :: "('s \<Rightarrow> 't) \<Rightarrow> ('t \<Rightarrow> 's \<Rightarrow> 's) \<Rightarrow> ('t, 'a) py \<Rightarrow> ('s, 'a) py" where
  "on_field sel upd m = (\<lambda>s. case m (sel s) of (r, t) \<Rightarrow> (r, upd t s))"

text \<open>A \<open>for\<close> loop whose body threads an accumulator and may raise.\<close>

fun fold_py :: "('x \<Rightarrow> 'a \<Rightarrow> ('s, 'a) py) \<Rightarrow> 'x list \<Rightarrow> 'a \<Rightarrow> ('s, 'a) py" where
  "fold_py f [] a = ret a"
| "fold_py f (x # xs) a = bind_py (f x a) (fold_py f xs)"

lemmas py_basic [py_defs] =
  ret_def raise_exn_def bind_py_def seq_py_def try_except_def try_finally_def
  modify_def gets_def on_field_def

lemma bind_py_Inr: "m s = (Inr x, s') \<Longrightarrow> bind_py m k s = k x s'"
  by (simp add: bind_py_def)

lemma bind_py_Inl: "m s = (Inl e, s') \<Longrightarrow> bind_py m k s = (Inl e, s')"
  by (simp add: bind_py_def)

lemma seq_py_Inr: "m s = (Inr x, s') \<Longrightarrow> seq_py m k s = k s'"
  by (simp add: seq_py_def bind_py_def)

text \<open>
  A \<open>for\<close> loop keeps what each pass of its body keeps; \<open>P\<close> may relate the state to the
  accumulator. Both outcomes of the body are covered.
\<close>

lemma fold_py_invariant:
  assumes step: "\<And>x a s r s'. x \<in> set xs \<Longrightarrow> P a s \<Longrightarrow> f x a s = (r, s') \<Longrightarrow>
      (case r of Inl e \<Rightarrow> Q s' | Inr a' \<Rightarrow> P a' s')"
    and start: "P a s" and run: "fold_py f xs a s = (r, s')"
  shows "case r of Inl e \<Rightarrow> Q s' | Inr a' \<Rightarrow> P a' s'"
  using assms
proof (induction xs arbitrary: a s)
  case Nil
  then show ?case by (auto simp: ret_def)
next
  case (Cons x xs)
  obtain r1 s1 where one: "f x a s = (r1, s1)" by (cases "f x a s") auto
  have P1: "case r1 of Inl e \<Rightarrow> Q s1 | Inr a' \<Rightarrow> P a' s1"
    using Cons.prems(1) [of x a s] Cons.prems(2) one by simp
  show ?case
  proof (cases r1)
    case (Inl e)
    then show ?thesis using Cons.prems(3) one P1 by (auto simp: bind_py_def)
  next
    case (Inr a1)
    have rest: "fold_py f xs a1 s1 = (r, s')"
      using Cons.prems(3) one Inr by (simp add: bind_py_def)
    have "P a1 s1" using P1 Inr by simp
    then show ?thesis
      by (intro Cons.IH [OF _ _ rest]) (rule Cons.prems(1), auto)
  qed
qed

subsection \<open>Dictionaries\<close>

type_synonym ('k, 'v) dict = "('k \<times> 'v) list"

abbreviation dict_get :: "('k, 'v) dict \<Rightarrow> 'k \<Rightarrow> 'v option" where
  "dict_get d k \<equiv> map_of d k"

definition dict_get_or :: "('k, 'v) dict \<Rightarrow> 'k \<Rightarrow> 'v \<Rightarrow> 'v" where
  "dict_get_or d k v = (case map_of d k of None \<Rightarrow> v | Some x \<Rightarrow> x)"

text \<open>
  \<open>d[k] = v\<close>: a known key keeps its place, a new key goes last. \<open>d.pop(k, None)\<close> forgets
  a key.
\<close>

fun dict_set :: "('k, 'v) dict \<Rightarrow> 'k \<Rightarrow> 'v \<Rightarrow> ('k, 'v) dict" where
  "dict_set [] k v = [(k, v)]"
| "dict_set ((k', v') # d) k v = (if k' = k then (k, v) # d else (k', v') # dict_set d k v)"

definition dict_pop :: "('k, 'v) dict \<Rightarrow> 'k \<Rightarrow> ('k, 'v) dict" where
  "dict_pop d k = filter (\<lambda>(k', _). k' \<noteq> k) d"

abbreviation dict_keys :: "('k, 'v) dict \<Rightarrow> 'k list" where
  "dict_keys d \<equiv> map fst d"

abbreviation dict_values :: "('k, 'v) dict \<Rightarrow> 'v list" where
  "dict_values d \<equiv> map snd d"

definition dict_ok :: "('k, 'v) dict \<Rightarrow> bool" where
  "dict_ok d \<longleftrightarrow> distinct (dict_keys d)"

text \<open>\<open>collections.Counter\<close> over a list, as a dictionary in order of first occurrence.\<close>

fun counter_from :: "('k, int) dict \<Rightarrow> 'k list \<Rightarrow> ('k, int) dict" where
  "counter_from d [] = d"
| "counter_from d (k # ks) = counter_from (dict_set d k (dict_get_or d k 0 + 1)) ks"

abbreviation counter :: "'k list \<Rightarrow> ('k, int) dict" where
  "counter \<equiv> counter_from []"

lemma dict_get_set [simp]: "dict_get (dict_set d k v) k' = (if k' = k then Some v else dict_get d k')"
  by (induction d k v rule: dict_set.induct) auto

lemma map_of_dict_set: "map_of (dict_set d k v) = (map_of d)(k \<mapsto> v)"
  by (rule ext) simp

lemma dict_get_pop [simp]: "dict_get (dict_pop d k) k' = (if k' = k then None else dict_get d k')"
  by (induction d) (auto simp: dict_pop_def)

lemma dict_get_or_set [simp]:
  "dict_get_or (dict_set d k v) k' w = (if k' = k then v else dict_get_or d k' w)"
  by (simp add: dict_get_or_def)

lemma dict_get_or_pop [simp]:
  "dict_get_or (dict_pop d k) k' w = (if k' = k then w else dict_get_or d k' w)"
  by (simp add: dict_get_or_def)

lemma dict_pop_absent: "k \<notin> set (dict_keys d) \<Longrightarrow> dict_pop d k = d"
  by (induction d) (auto simp: dict_pop_def)

lemma dict_get_or_Nil [simp]: "dict_get_or [] k v = v"
  by (simp add: dict_get_or_def)

lemma set_keys_dict_set: "set (dict_keys (dict_set d k v)) = insert k (set (dict_keys d))"
  by (induction d k v rule: dict_set.induct) auto

lemma dict_ok_Nil [simp]: "dict_ok []"
  by (simp add: dict_ok_def)

lemma dict_ok_set [simp]: "dict_ok d \<Longrightarrow> dict_ok (dict_set d k v)"
  unfolding dict_ok_def
  by (induction d k v rule: dict_set.induct) (auto simp add: set_keys_dict_set simp del: set_map)

lemma dict_ok_pop [simp]: "dict_ok d \<Longrightarrow> dict_ok (dict_pop d k)"
  unfolding dict_ok_def dict_pop_def by (rule distinct_map_filter)

lemma dict_mem_iff: "dict_ok d \<Longrightarrow> (k, v) \<in> set d \<longleftrightarrow> dict_get d k = Some v"
  unfolding dict_ok_def by (metis map_of_eq_Some_iff)

lemma dict_set_same_keys: "dict_get d k \<noteq> None \<Longrightarrow> dict_keys (dict_set d k v) = dict_keys d"
  by (induction d k v rule: dict_set.induct) (auto split: if_splits)

lemma dict_get_Some_fst: "dict_get d k = Some v \<Longrightarrow> k \<in> set (dict_keys d)"
  by (force dest: map_of_SomeD)

lemma dict_get_or_counter_from:
  "dict_get_or (counter_from d ks) k 0 = dict_get_or d k 0 + int (count_list ks k)"
  by (induction d ks rule: counter_from.induct) auto

subsection \<open>Slices and sorting\<close>

text \<open>\<open>xs[:n]\<close>, a negative bound counting from the end.\<close>

definition slice_to :: "'a list \<Rightarrow> int \<Rightarrow> 'a list" where
  "slice_to xs n = (if 0 \<le> n then take (nat n) xs else take (length xs - nat (- n)) xs)"

lemma slice_to_take: "\<exists>m. slice_to xs n = take m xs"
  by (auto simp: slice_to_def)

lemma set_slice_to: "x \<in> set (slice_to xs n) \<Longrightarrow> x \<in> set xs"
  by (auto simp: slice_to_def split: if_splits dest: in_set_takeD)

lemma length_slice_to: "0 \<le> n \<Longrightarrow> int (length (slice_to xs n)) \<le> n"
  by (simp add: slice_to_def)

text \<open>
  A prefix of a list sorted by \<open>k\<close> holds nothing that sorts after what it leaves out.
\<close>

lemma sorted_take_le:
  assumes "sorted (map k xs)" and "x \<in> set (take n xs)" and "y \<in> set (drop n xs)"
  shows "k x \<le> k y"
proof -
  have "sorted (map k (take n xs) @ map k (drop n xs))"
    using assms(1) by (simp flip: map_append)
  then show ?thesis using assms(2,3) by (auto simp: sorted_append)
qed

lemma option_case_None_iff: "(case x of None \<Rightarrow> True | Some y \<Rightarrow> P y) \<longleftrightarrow> (\<forall>y. x = Some y \<longrightarrow> P y)"
  by (cases x) auto

end
