(* ===== verification/Py_Text.thy ===== *)
theory Py_Text
  imports Jobs_Prelude
begin

section \<open>Python text: lower case, containment, decimal numbers, repr\<close>

text \<open>
  What the package uses of \<open>str\<close>. Strings are ASCII here, one \<open>char\<close> per code point, so the
  UTF-8 length of a text is its length. \<open>py_repr\<close> is \<open>repr\<close> on the values a payload can
  hold, which \<open>str\<close> of a dictionary prints for its keys and values.
\<close>

definition lower_char :: "char \<Rightarrow> char" where
  "lower_char c = (if 65 \<le> (of_char c :: nat) \<and> (of_char c :: nat) \<le> 90
                   then char_of ((of_char c :: nat) + 32) else c)"

definition py_lower :: "string \<Rightarrow> string" where
  "py_lower s = map lower_char s"

definition starts_with :: "string \<Rightarrow> string \<Rightarrow> bool" where
  "starts_with p s \<longleftrightarrow> take (length p) s = p"

text \<open>\<open>p in s\<close>\<close>

fun str_in :: "string \<Rightarrow> string \<Rightarrow> bool" where
  "str_in p [] \<longleftrightarrow> p = []"
| "str_in p (c # s) \<longleftrightarrow> starts_with p (c # s) \<or> str_in p s"

definition digit :: "nat \<Rightarrow> char" where
  "digit n = char_of (48 + n)"

fun nat_str :: "nat \<Rightarrow> string" where
  "nat_str n = (if n < 10 then [digit n] else nat_str (n div 10) @ [digit (n mod 10)])"

declare nat_str.simps [simp del]

definition int_str :: "int \<Rightarrow> string" where
  "int_str i = (if i < 0 then CHR ''-'' # nat_str (nat (- i)) else nat_str (nat i))"

subsection \<open>repr\<close>

definition hex_digit :: "nat \<Rightarrow> char" where
  "hex_digit n = (if n < 10 then char_of (48 + n) else char_of (87 + n))"

text \<open>
  \<open>repr\<close> of a string: single quotes, unless the string holds one and no double quote; the
  backslash, the quote in use, the control characters and DEL are escaped.
\<close>

definition repr_char :: "char \<Rightarrow> char \<Rightarrow> string" where
  "repr_char q c =
     (let n = (of_char c :: nat) in
      if c = q \<or> n = 92 then [CHR 0x5C, c]
      else if n = 9 then [CHR 0x5C, CHR ''t'']
      else if n = 10 then [CHR 0x5C, CHR ''n'']
      else if n = 13 then [CHR 0x5C, CHR ''r'']
      else if n < 32 \<or> n = 127 then [CHR 0x5C, CHR ''x'', hex_digit (n div 16), hex_digit (n mod 16)]
      else [c])"

definition repr_str :: "string \<Rightarrow> string" where
  "repr_str s =
     (let q = (if CHR 0x27 \<in> set s \<and> CHR 0x22 \<notin> set s then CHR 0x22 else CHR 0x27)
      in q # concat (map (repr_char q) s) @ [q])"

text \<open>The items of a list or dictionary display, separated by a comma and a blank.\<close>

fun comma_join :: "string list \<Rightarrow> string" where
  "comma_join [] = []"
| "comma_join [x] = x"
| "comma_join (x # xs) = x @ '', '' @ comma_join xs"

definition repr_str_list :: "string list \<Rightarrow> string" where
  "repr_str_list xs = ''['' @ comma_join (map repr_str xs) @ '']''"

fun py_repr :: "pyval \<Rightarrow> string" where
  "py_repr PNone = ''None''"
| "py_repr (PBool b) = (if b then ''True'' else ''False'')"
| "py_repr (PInt i) = int_str i"
| "py_repr (PFloat f) = f"
| "py_repr (PStr s) = repr_str s"
| "py_repr (PList vs) = ''['' @ comma_join (map py_repr vs) @ '']''"
| "py_repr (PDict kvs) =
     CHR 0x7B # comma_join (map (\<lambda>(k, v). repr_str k @ '': '' @ py_repr v) kvs) @ [CHR 0x7D]"

subsection \<open>isoformat\<close>

text \<open>
  \<open>datetime.isoformat\<close> of an aware UTC time: the proleptic Gregorian date of a day count from
  1970-01-01, computed in 400-year eras that start in March, then the time of day; the
  microseconds are printed unless they are zero.
\<close>

definition civil_from_days :: "int \<Rightarrow> int \<times> int \<times> int" where
  "civil_from_days days =
     (let z = days + 719468;
          era = z div 146097;
          doe = z mod 146097;
          yoe = (doe - doe div 1460 + doe div 36524 - doe div 146096) div 365;
          doy = doe - (365 * yoe + yoe div 4 - yoe div 100);
          mp = (5 * doy + 2) div 153;
          d = doy - (153 * mp + 2) div 5 + 1;
          m = (if mp < 10 then mp + 3 else mp - 9);
          y = yoe + era * 400 + (if m \<le> 2 then 1 else 0)
      in (y, m, d))"

definition zero_pad :: "nat \<Rightarrow> int \<Rightarrow> string" where
  "zero_pad w i = (let s = nat_str (nat i) in replicate (w - length s) (CHR ''0'') @ s)"

definition isoformat :: "time \<Rightarrow> string" where
  "isoformat t =
     (let us = t mod second;
          secs = t div second;
          tod = secs mod 86400
      in case civil_from_days (secs div 86400) of (y, m, d) \<Rightarrow>
           zero_pad 4 y @ ''-'' @ zero_pad 2 m @ ''-'' @ zero_pad 2 d @ ''T'' @
           zero_pad 2 (tod div 3600) @ '':'' @ zero_pad 2 (tod div 60 mod 60) @ '':'' @
           zero_pad 2 (tod mod 60) @
           (if us = 0 then [] else ''.'' @ zero_pad 6 us) @ ''+00:00'')"

lemma isoformat_example: "isoformat 1767225600000001 = ''2026-01-01T00:00:00.000001+00:00''"
  by code_simp

subsection \<open>Conversions\<close>

text \<open>The truth value of a payload value.\<close>

fun py_truthy :: "pyval \<Rightarrow> bool" where
  "py_truthy PNone = False"
| "py_truthy (PBool b) = b"
| "py_truthy (PInt i) = (i \<noteq> 0)"
| "py_truthy (PFloat f) = (f \<noteq> ''0.0'' \<and> f \<noteq> ''-0.0'')"
| "py_truthy (PStr s) = (s \<noteq> [])"
| "py_truthy (PList vs) = (vs \<noteq> [])"
| "py_truthy (PDict kvs) = (kvs \<noteq> [])"

text \<open>An expression evaluated after another one that may raise.\<close>

definition and_then :: "exn + 'a \<Rightarrow> ('a \<Rightarrow> exn + 'b) \<Rightarrow> exn + 'b" where
  "and_then r k = (case r of Inl e \<Rightarrow> Inl e | Inr x \<Rightarrow> k x)"

lemma and_then_Inr [simp]: "and_then (Inr x) k = k x"
  by (simp add: and_then_def)

lemma and_then_eq_Inr: "and_then r k = Inr x \<longleftrightarrow> (\<exists>y. r = Inr y \<and> k y = Inr x)"
  by (cases r) (simp_all add: and_then_def)

text \<open>\<open>x or y\<close>\<close>

definition py_or :: "pyval option \<Rightarrow> pyval \<Rightarrow> pyval" where
  "py_or v d = (case v of None \<Rightarrow> d | Some x \<Rightarrow> if py_truthy x then x else d)"

definition py_str :: "pyval \<Rightarrow> string" where
  "py_str v = (case v of PStr s \<Rightarrow> s | _ \<Rightarrow> py_repr v)"

text \<open>
  \<open>int\<close> of a text: blanks around it, a sign, and digits with single underscores between them. The
  conversion of a float is the parameter \<open>fint\<close>, since floats are known by their \<open>repr\<close> only.
\<close>

definition py_blank :: "char \<Rightarrow> bool" where
  "py_blank c = (let n = (of_char c :: nat) in 9 \<le> n \<and> n \<le> 13 \<or> 28 \<le> n \<and> n \<le> 32 \<or> n = 133 \<or> n = 160)"

definition py_strip :: "string \<Rightarrow> string" where
  "py_strip s = rev (dropWhile py_blank (rev (dropWhile py_blank s)))"

definition is_digit :: "char \<Rightarrow> bool" where
  "is_digit c = (48 \<le> (of_char c :: nat) \<and> (of_char c :: nat) \<le> 57)"

fun digits_value :: "nat \<Rightarrow> string \<Rightarrow> nat option" where
  "digits_value acc [] = Some acc"
| "digits_value acc [c] = (if is_digit c then Some (acc * 10 + (of_char c - 48)) else None)"
| "digits_value acc (c # d # cs) =
     (if is_digit c then digits_value (acc * 10 + (of_char c - 48)) (d # cs)
      else if c = CHR ''_'' \<and> is_digit d then digits_value acc (d # cs)
      else None)"

definition unsigned_value :: "string \<Rightarrow> nat option" where
  "unsigned_value s = (case s of [] \<Rightarrow> None | c # cs \<Rightarrow> if is_digit c then digits_value 0 s else None)"

definition int_of_str :: "string \<Rightarrow> exn + int" where
  "int_of_str s =
     (let body = py_strip s;
          val = (case body of
             [] \<Rightarrow> None
           | c # cs \<Rightarrow> if c = CHR ''-'' then map_option (\<lambda>n. - int n) (unsigned_value cs)
               else if c = CHR ''+'' then map_option int (unsigned_value cs)
               else map_option int (unsigned_value body))
      in case val of
           None \<Rightarrow> Inl (ValueError (''invalid literal for int() with base 10: '' @ repr_str s))
         | Some n \<Rightarrow> Inr n)"

definition py_type :: "pyval \<Rightarrow> string" where
  "py_type v =
     (case v of PNone \<Rightarrow> ''NoneType'' | PBool _ \<Rightarrow> ''bool'' | PInt _ \<Rightarrow> ''int'' | PFloat _ \<Rightarrow> ''float'' | PStr _ \<Rightarrow> ''str''
        | PList _ \<Rightarrow> ''list'' | PDict _ \<Rightarrow> ''dict'')"

definition py_int :: "(string \<Rightarrow> exn + int) \<Rightarrow> pyval \<Rightarrow> exn + int" where
  "py_int fint v =
     (case v of
        PInt n \<Rightarrow> Inr n
      | PBool b \<Rightarrow> Inr (if b then 1 else 0)
      | PFloat f \<Rightarrow> fint f
      | PStr s \<Rightarrow> int_of_str s
      | _ \<Rightarrow> Inl (OtherException (''int() argument must be a string, a bytes-like object or a real number, not ''
               @ repr_str (py_type v))))"

subsection \<open>Lemmas\<close>

lemma starts_with_append: "starts_with p (p @ s)"
  by (simp add: starts_with_def)

lemma str_in_iff: "str_in p s \<longleftrightarrow> (\<exists>a b. s = a @ p @ b)"
proof (induction p s rule: str_in.induct)
  case (1 p)
  then show ?case by simp
next
  case (2 p c s)
  show ?case
  proof
    assume "str_in p (c # s)"
    then consider "starts_with p (c # s)" | "str_in p s" by auto
    then show "\<exists>a b. c # s = a @ p @ b"
    proof cases
      case 1
      then have "c # s = [] @ p @ drop (length p) (c # s)"
        by (metis append_Nil append_take_drop_id starts_with_def)
      then show ?thesis by blast
    next
      case 2
      with "2.IH" obtain a b where "s = a @ p @ b" by blast
      then have "c # s = (c # a) @ p @ b" by simp
      then show ?thesis by blast
    qed
  next
    assume "\<exists>a b. c # s = a @ p @ b"
    then obtain a b where ab: "c # s = a @ p @ b" by blast
    show "str_in p (c # s)"
    proof (cases a)
      case Nil
      with ab have "starts_with p (c # s)" by (simp add: starts_with_append)
      then show ?thesis by simp
    next
      case (Cons x xs)
      with ab have "s = xs @ p @ b" by simp
      with "2.IH" show ?thesis by auto
    qed
  qed
qed

lemma length_repr_str: "length s + 2 \<le> length (repr_str s)"
proof -
  have one: "1 \<le> length (repr_char q c)" for q c
    by (simp add: repr_char_def Let_def)
  have "length s \<le> length (concat (map (repr_char q) s))" for q
  proof (induction s)
    case (Cons c s)
    then show ?case using one [of q c] by simp
  qed simp
  then show ?thesis by (simp add: repr_str_def Let_def)
qed

lemma is_digit_digit [simp]: "d < 10 \<Longrightarrow> is_digit (digit d)"
  by (simp add: is_digit_def digit_def)

lemma of_char_digit: "d < 10 \<Longrightarrow> of_char (digit d) - 48 = d"
  by (simp add: digit_def)

lemma digits_value_snoc:
  "list_all is_digit xs \<Longrightarrow> d < 10 \<Longrightarrow>
     digits_value acc (xs @ [digit d]) = map_option (\<lambda>n. n * 10 + d) (digits_value acc xs)"
proof (induction acc xs rule: digits_value.induct)
  case (2 acc c)
  then show ?case by (simp add: of_char_digit)
next
  case (3 acc c c' cs)
  then show ?case by simp
qed (simp add: of_char_digit)

lemma nat_str_digits: "list_all is_digit (nat_str n) \<and> nat_str n \<noteq> [] \<and> digits_value 0 (nat_str n) = Some n"
proof (induction n rule: nat_str.induct)
  case (1 n)
  show ?case
  proof (cases "n < 10")
    case True
    then show ?thesis by (simp add: nat_str.simps [of n] of_char_digit)
  next
    case False
    with 1 have IH: "list_all is_digit (nat_str (n div 10))" "digits_value 0 (nat_str (n div 10)) = Some (n div 10)" by simp_all
    show ?thesis
      using False IH digits_value_snoc [OF IH(1), of "n mod 10" 0]
      by (simp add: nat_str.simps [of n])
  qed
qed

lemma digit_not_blank: "is_digit c \<Longrightarrow> \<not> py_blank c"
  by (auto simp: is_digit_def py_blank_def Let_def)

lemma strip_solid: "list_all (\<lambda>c. \<not> py_blank c) s \<Longrightarrow> py_strip s = s"
proof -
  assume "list_all (\<lambda>c. \<not> py_blank c) s"
  then have "dropWhile py_blank s = s" "dropWhile py_blank (rev s) = rev s"
    by (auto simp: list_all_iff dropWhile_eq_self_iff hd_rev)
  then show ?thesis by (simp add: py_strip_def)
qed

text \<open>\<open>int(str(i)) == i\<close>\<close>

lemma int_of_int_str [simp]: "int_of_str (int_str i) = Inr i"
proof -
  have d: "list_all is_digit (nat_str n)" "nat_str n \<noteq> []" "digits_value 0 (nat_str n) = Some n" for n
    using nat_str_digits by simp_all
  have u: "unsigned_value (nat_str n) = Some n" for n
    using d [of n] by (cases "nat_str n") (simp_all add: unsigned_value_def)
  have solid: "list_all (\<lambda>c. \<not> py_blank c) (nat_str n)" for n
    using d(1) [of n] digit_not_blank by (auto simp: list_all_iff)
  have hd: "is_digit c" if "nat_str n = c # cs" for n c cs using d(1) [of n] that by simp
  show ?thesis
  proof (cases "i < 0")
    case True
    then have "list_all (\<lambda>c. \<not> py_blank c) (int_str i)" using solid by (simp add: int_str_def py_blank_def Let_def)
    then show ?thesis using True u [of "nat (- i)"] by (simp add: int_of_str_def strip_solid int_str_def)
  next
    case False
    then have e: "int_str i = nat_str (nat i)" by (simp add: int_str_def)
    obtain c cs where c: "nat_str (nat i) = c # cs" using d(2) [of "nat i"] by (cases "nat_str (nat i)") auto
    have "c \<noteq> CHR ''-''" "c \<noteq> CHR ''+''" using hd [OF c] by (auto simp: is_digit_def)
    then show ?thesis
      using False c u [of "nat i"] strip_solid [OF solid, of "nat i"] by (simp add: int_of_str_def e)
  qed
qed

end
