(* ===== verification/Domain_Models.thy ===== *)
theory Domain_Models
  imports Py_Text
begin

section \<open>The domain: job states, requests and jobs\<close>

text \<open>
  \<open>domain/enums.py\<close> and \<open>domain/models.py\<close>: the sixteen lifecycle states with their string
  values, the request a client submits, the persistent job, and the two conversions of the
  \<open>Job\<close> class. Every field of the two data classes is a field of the record, with the same
  name (a request's fields carry the prefix \<open>rq_\<close>). \<open>from_request\<close> takes the values its
  environment supplies, the identifier from \<open>uuid4\<close> and the clock reading, as arguments.
\<close>

subsection \<open>States\<close>

datatype job_status =
    QUEUED
  | SCHEDULED
  | RUNNING
  | RETRY_WAIT
  | PAUSED
  | TIMEOUT
  | TTL_EXPIRED
  | SUCCEEDED
  | FAILED
  | CANCELLED
  | CREATED
  | VALIDATED
  | DISPATCHED
  | BLOCKED
  | DEAD_LETTERED
  | ARCHIVED

primrec status_value :: "job_status \<Rightarrow> string" where
  "status_value QUEUED = ''queued''"
| "status_value SCHEDULED = ''scheduled''"
| "status_value RUNNING = ''running''"
| "status_value RETRY_WAIT = ''retry_wait''"
| "status_value PAUSED = ''paused''"
| "status_value TIMEOUT = ''timeout''"
| "status_value TTL_EXPIRED = ''ttl_expired''"
| "status_value SUCCEEDED = ''succeeded''"
| "status_value FAILED = ''failed''"
| "status_value CANCELLED = ''cancelled''"
| "status_value CREATED = ''created''"
| "status_value VALIDATED = ''validated''"
| "status_value DISPATCHED = ''dispatched''"
| "status_value BLOCKED = ''blocked''"
| "status_value DEAD_LETTERED = ''dead_lettered''"
| "status_value ARCHIVED = ''archived''"

definition all_statuses :: "job_status list" where
  "all_statuses =
     [QUEUED, SCHEDULED, RUNNING, RETRY_WAIT, PAUSED, TIMEOUT, TTL_EXPIRED, SUCCEEDED, FAILED,
      CANCELLED, CREATED, VALIDATED, DISPATCHED, BLOCKED, DEAD_LETTERED, ARCHIVED]"

text \<open>\<open>JobStatus(v)\<close>: the member with the value \<open>v\<close>, or \<open>ValueError\<close>.\<close>

definition job_status_of :: "string \<Rightarrow> exn + job_status" where
  "job_status_of v =
     (case find (\<lambda>s. status_value s = v) all_statuses of
        None \<Rightarrow> Inl (ValueError (repr_str v @ '' is not a valid JobStatus''))
      | Some s \<Rightarrow> Inr s)"

subsection \<open>Requests and jobs\<close>

record job_request =
  rq_job_type :: string
  rq_queue_name :: string
  rq_payload :: "(string, pyval) dict"
  rq_priority :: int
  rq_app_id :: "string option"
  rq_tenant_id :: "string option"
  rq_user_id :: "string option"
  rq_session_id :: "string option"
  rq_channel_id :: "string option"
  rq_idempotency_key :: "string option"
  rq_correlation_id :: "string option"
  rq_resources :: "(string, int) dict"
  rq_depends_on :: "string list"
  rq_callback_url :: "string option"
  rq_callback_method :: string
  rq_callback_headers :: "(string, string) dict"
  rq_request_source :: "string option"
  rq_request_ip :: "string option"
  rq_request_auth_method :: "string option"
  rq_request_auth_identity :: "string option"
  rq_request_user_agent :: "string option"

record job =
  job_id :: string
  job_type :: string
  queue_name :: string
  payload :: "(string, pyval) dict"
  status :: job_status
  priority :: int
  created_at :: time
  updated_at :: time
  app_id :: "string option"
  tenant_id :: "string option"
  host_id :: "string option"
  worker_id :: "string option"
  idempotency_key :: "string option"
  correlation_id :: "string option"
  user_id :: "string option"
  session_id :: "string option"
  channel_id :: "string option"
  callback_url :: "string option"
  callback_method :: string
  callback_headers :: "(string, string) dict"
  request_source :: "string option"
  request_ip :: "string option"
  request_auth_method :: "string option"
  request_auth_identity :: "string option"
  request_user_agent :: "string option"
  claimed_by :: "string option"
  resources :: "(string, int) dict"
  depends_on :: "string list"
  attempt :: int
  max_attempts :: int
  next_run_at :: "time option"
  started_at :: "time option"
  finished_at :: "time option"
  last_heartbeat_at :: "time option"
  last_error :: "pyval option"
  result_ref :: "pyval option"
  progress :: "pyval option"
  run_timeout_ms :: "int option"
  claim_timeout_ms :: "int option"
  trace_id :: "string option"
  version :: int

text \<open>A request built with \<open>JobRequest(job_type=t)\<close>: every other field at its default.\<close>

definition default_request :: "string \<Rightarrow> job_request" where
  "default_request t =
     \<lparr>rq_job_type = t, rq_queue_name = ''default'', rq_payload = [], rq_priority = 0,
      rq_app_id = None, rq_tenant_id = None, rq_user_id = None, rq_session_id = None,
      rq_channel_id = None, rq_idempotency_key = None, rq_correlation_id = None,
      rq_resources = [], rq_depends_on = [], rq_callback_url = None,
      rq_callback_method = ''POST'', rq_callback_headers = [], rq_request_source = None,
      rq_request_ip = None, rq_request_auth_method = None, rq_request_auth_identity = None,
      rq_request_user_agent = None\<rparr>"

text \<open>The eight positional arguments of \<open>Job\<close>, the other fields at their defaults.\<close>

definition new_job ::
  "string \<Rightarrow> string \<Rightarrow> string \<Rightarrow> (string, pyval) dict \<Rightarrow> job_status \<Rightarrow> int \<Rightarrow> time \<Rightarrow> time \<Rightarrow> job" where
  "new_job jid jtype queue pl st prio created updated =
     \<lparr>job_id = jid, job_type = jtype, queue_name = queue, payload = pl, status = st,
      priority = prio, created_at = created, updated_at = updated,
      app_id = None, tenant_id = None, host_id = None, worker_id = None,
      idempotency_key = None, correlation_id = None, user_id = None, session_id = None,
      channel_id = None, callback_url = None, callback_method = ''POST'',
      callback_headers = [], request_source = None, request_ip = None,
      request_auth_method = None, request_auth_identity = None, request_user_agent = None,
      claimed_by = None, resources = [], depends_on = [], attempt = 0, max_attempts = 3,
      next_run_at = None, started_at = None, finished_at = None, last_heartbeat_at = None,
      last_error = None, result_ref = None, progress = None, run_timeout_ms = None,
      claim_timeout_ms = None, trace_id = None, version = 0\<rparr>"

definition from_request :: "string \<Rightarrow> time \<Rightarrow> job_request \<Rightarrow> job" where
  "from_request uuid now r =
     (new_job uuid (rq_job_type r) (rq_queue_name r) (rq_payload r) QUEUED (rq_priority r) now now)
       \<lparr>app_id := rq_app_id r,
        tenant_id := rq_tenant_id r,
        idempotency_key := rq_idempotency_key r,
        correlation_id := rq_correlation_id r,
        user_id := rq_user_id r,
        session_id := rq_session_id r,
        channel_id := rq_channel_id r,
        callback_url := rq_callback_url r,
        callback_method := rq_callback_method r,
        callback_headers := rq_callback_headers r,
        request_source := rq_request_source r,
        request_ip := rq_request_ip r,
        request_auth_method := rq_request_auth_method r,
        request_auth_identity := rq_request_auth_identity r,
        request_user_agent := rq_request_user_agent r,
        resources := rq_resources r,
        depends_on := rq_depends_on r\<rparr>"

definition opt_str :: "string option \<Rightarrow> pyval" where
  "opt_str v = (case v of None \<Rightarrow> PNone | Some s \<Rightarrow> PStr s)"

definition to_meta_dict :: "job \<Rightarrow> (string, pyval) dict" where
  "to_meta_dict j =
     [(''app_id'', opt_str (app_id j)),
      (''tenant_id'', opt_str (tenant_id j)),
      (''host_id'', opt_str (host_id j)),
      (''worker_id'', opt_str (worker_id j)),
      (''idempotency_key'', opt_str (idempotency_key j)),
      (''correlation_id'', opt_str (correlation_id j)),
      (''user_id'', opt_str (user_id j)),
      (''session_id'', opt_str (session_id j)),
      (''channel_id'', opt_str (channel_id j)),
      (''callback_url'', opt_str (callback_url j)),
      (''callback_method'', PStr (callback_method j)),
      (''callback_headers'', PDict (map (\<lambda>(k, v). (k, PStr v)) (callback_headers j))),
      (''request_source'', opt_str (request_source j)),
      (''request_ip'', opt_str (request_ip j)),
      (''request_auth_method'', opt_str (request_auth_method j)),
      (''request_auth_identity'', opt_str (request_auth_identity j)),
      (''request_user_agent'', opt_str (request_user_agent j))]"

text \<open>
  What no operation of a backend changes after the submission: the identity, routing and
  scheduling fields of a job.
\<close>

definition same_submission :: "job \<Rightarrow> job \<Rightarrow> bool" where
  "same_submission j j' \<longleftrightarrow>
     job_id j' = job_id j \<and> job_type j' = job_type j \<and> queue_name j' = queue_name j \<and>
     payload j' = payload j \<and> priority j' = priority j \<and> created_at j' = created_at j \<and>
     resources j' = resources j \<and> depends_on j' = depends_on j"

subsection \<open>Lemmas\<close>

lemma all_statuses_complete: "s \<in> set all_statuses"
  by (cases s) (simp_all add: all_statuses_def)

lemma status_value_inject [simp]: "status_value s = status_value t \<longleftrightarrow> s = t"
  by (cases s; cases t; simp)

lemma job_status_of_value [simp]: "job_status_of (status_value s) = Inr s"
  by (cases s) (simp_all add: job_status_of_def all_statuses_def)

lemma job_status_of_Inr: "job_status_of v = Inr s \<Longrightarrow> v = status_value s"
  by (auto simp: job_status_of_def find_Some_iff split: option.splits)

lemma same_submission_refl [simp]: "same_submission j j"
  by (simp add: same_submission_def)

lemma same_submission_trans:
  "same_submission i j \<Longrightarrow> same_submission j k \<Longrightarrow> same_submission i k"
  by (simp add: same_submission_def)

lemma from_request_simps [simp]:
  "job_id (from_request u now r) = u"
  "job_type (from_request u now r) = rq_job_type r"
  "queue_name (from_request u now r) = rq_queue_name r"
  "payload (from_request u now r) = rq_payload r"
  "status (from_request u now r) = QUEUED"
  "priority (from_request u now r) = rq_priority r"
  "created_at (from_request u now r) = now"
  "updated_at (from_request u now r) = now"
  "claimed_by (from_request u now r) = None"
  "resources (from_request u now r) = rq_resources r"
  "depends_on (from_request u now r) = rq_depends_on r"
  "attempt (from_request u now r) = 0"
  "result_ref (from_request u now r) = None"
  by (simp_all add: from_request_def new_job_def)

lemma new_job_simps [simp]:
  "job_id (new_job u t q p s n c d) = u"
  "job_type (new_job u t q p s n c d) = t"
  "queue_name (new_job u t q p s n c d) = q"
  "payload (new_job u t q p s n c d) = p"
  "status (new_job u t q p s n c d) = s"
  "priority (new_job u t q p s n c d) = n"
  "created_at (new_job u t q p s n c d) = c"
  "updated_at (new_job u t q p s n c d) = d"
  "resources (new_job u t q p s n c d) = []"
  "depends_on (new_job u t q p s n c d) = []"
  "result_ref (new_job u t q p s n c d) = None"
  by (simp_all add: new_job_def)

end
