(* ===== verification/Backend_Spec.thy ===== *)
theory Backend_Spec
  imports Domain_Models
begin

section \<open>The backend interface and its contract\<close>

text \<open>
  \<open>backends/base.py\<close>. The abstract class \<open>QueueBackend\<close> is the record \<open>backend_ops\<close> of its
  methods over a backend state \<open>'b\<close>, so that the queue, the dispatcher, the worker and the
  admin service can be written once, for every backend, as the source writes them. A method that
  reads the clock takes the reading as its first argument.

  Two fields say how far a \<open>Job\<close> object that a backend handed out is shared with it:
  \<open>be_live\<close> gives what the object reads as now, and \<open>be_poke\<close> the effect on the backend of an
  assignment to one of its fields. The in-memory backend hands out its own objects; the other
  backends build a new object for every call.

  The locale \<open>queue_backend\<close> is the contract the callers rely on, stated over \<open>view\<close>, the
  partial map from identifiers to jobs that \<open>get\<close> reads; \<open>listing_backend\<close> adds the complete
  listing and \<open>ordered_backend\<close> the dispatch order. A job is enqueued before it has a result. What follows from the contract alone is proved here, once for every backend.
\<close>

subsection \<open>The methods\<close>

record 'b backend_ops =
  be_enqueue :: "job \<Rightarrow> ('b, string) py"
  be_dequeue :: "int \<Rightarrow> string option \<Rightarrow> string option \<Rightarrow> ('b, job list) py"
  be_claim :: "time \<Rightarrow> string \<Rightarrow> string \<Rightarrow> string \<Rightarrow> ('b, bool) py"
  be_release :: "time \<Rightarrow> string \<Rightarrow> ('b, bool) py"
  be_heartbeat :: "time \<Rightarrow> string \<Rightarrow> ('b, bool) py"
  be_get :: "string \<Rightarrow> ('b, job option) py"
  be_update_status :: "time \<Rightarrow> string \<Rightarrow> string \<Rightarrow> ('b, bool) py"
  be_get_queue_status :: "('b, (string, int) dict) py"
  be_health_check :: "('b, bool) py"
  be_all_jobs :: "('b, job list) py"
  be_record_attempt :: "time \<Rightarrow> string \<Rightarrow> string option \<Rightarrow> ('b, bool) py"
  be_update_progress :: "time \<Rightarrow> string \<Rightarrow> (string, pyval) dict \<Rightarrow> ('b, bool) py"
  be_store_result :: "time \<Rightarrow> string \<Rightarrow> pyval \<Rightarrow> ('b, bool) py"
  be_live :: "'b \<Rightarrow> job \<Rightarrow> job"
  be_poke :: "string \<Rightarrow> (job \<Rightarrow> job) \<Rightarrow> 'b \<Rightarrow> 'b"

subsection \<open>Vocabulary of the contract\<close>

text \<open>A job passes an optional filter; the callers never filter by the empty string.\<close>

definition passes :: "string option \<Rightarrow> string \<Rightarrow> bool" where
  "passes flt v \<longleftrightarrow> (case flt of None \<Rightarrow> True | Some f \<Rightarrow> v = f)"

definition dispatchable :: "string option \<Rightarrow> string option \<Rightarrow> job \<Rightarrow> bool" where
  "dispatchable jt qn j \<longleftrightarrow> status j = QUEUED \<and> passes jt (job_type j) \<and> passes qn (queue_name j)"

text \<open>Highest priority first, then the oldest: the sort key of a dispatch.\<close>

definition dispatch_key :: "job \<Rightarrow> int \<times> time" where
  "dispatch_key j = (- priority j, created_at j)"

text \<open>The same jobs in the same states: what a bookkeeping write may leave.\<close>

definition touched :: "(string \<rightharpoonup> job) \<Rightarrow> (string \<rightharpoonup> job) \<Rightarrow> bool" where
  "touched m m' \<longleftrightarrow>
     dom m' = dom m \<and>
     (\<forall>i j. m i = Some j \<longrightarrow> (\<exists>j'. m' i = Some j' \<and> same_submission j j' \<and> status j' = status j))"

lemma touched_refl [simp]: "touched m m"
  by (auto simp: touched_def)

lemma touched_upd:
  "m i = Some j \<Longrightarrow> same_submission j j' \<Longrightarrow> status j' = status j \<Longrightarrow> touched m (m(i \<mapsto> j'))"
  by (auto simp: touched_def)

lemma touched_status: "touched m m' \<Longrightarrow> map_option status (m' i) = map_option status (m i)"
proof (cases "m i")
  case None
  moreover assume "touched m m'"
  ultimately have "i \<notin> dom m'" by (auto simp: touched_def)
  with None show ?thesis by (simp add: domIff)
next
  case (Some j)
  moreover assume "touched m m'"
  ultimately show ?thesis by (fastforce simp: touched_def)
qed

lemma touched_trans: "touched m m' \<Longrightarrow> touched m' m'' \<Longrightarrow> touched m m''"
  unfolding touched_def by (metis (no_types) same_submission_trans)

subsection \<open>Runs of calls\<close>

text \<open>
  The mutating calls that several workers, clients and sweeps make on one backend. Each call is one
  step, so a concurrent execution is an interleaving: a list of calls. The in-memory backend holds its
  lock for the whole of a call. The SQL backend makes a call in one transaction, a step under
  serialisable isolation. Of the Redis backend only the claim and heartbeat scripts are atomic on the
  server: the \<open>HGET\<close> before the claim script, and the commands of \<open>enqueue\<close>, \<open>release\<close> and \<open>update_status\<close>,
  are sent one by one, and the model makes each of these methods one step.
\<close>

datatype backend_call =
    CallEnqueue job
  | CallClaim time string string string
  | CallRelease time string
  | CallHeartbeat time string
  | CallStatus time string job_status
  | CallAttempt time string "string option"
  | CallProgress time string "(string, pyval) dict"
  | CallResult time string pyval

fun do_call :: "'b backend_ops \<Rightarrow> backend_call \<Rightarrow> ('b, bool) py" where
  "do_call ops (CallEnqueue j) = bind_py (be_enqueue ops j) (\<lambda>_. ret True)"
| "do_call ops (CallClaim now jid h w) = be_claim ops now jid h w"
| "do_call ops (CallRelease now jid) = be_release ops now jid"
| "do_call ops (CallHeartbeat now jid) = be_heartbeat ops now jid"
| "do_call ops (CallStatus now jid s) = be_update_status ops now jid (status_value s)"
| "do_call ops (CallAttempt now jid err) = be_record_attempt ops now jid err"
| "do_call ops (CallProgress now jid p) = be_update_progress ops now jid p"
| "do_call ops (CallResult now jid r) = be_store_result ops now jid r"

fun run_calls :: "'b backend_ops \<Rightarrow> backend_call list \<Rightarrow> 'b \<Rightarrow> (exn + bool) list \<times> 'b" where
  "run_calls ops [] b = ([], b)"
| "run_calls ops (c # cs) b =
     (case do_call ops c b of (r, b') \<Rightarrow>
        (case run_calls ops cs b' of (rs, b'') \<Rightarrow> (r # rs, b'')))"

text \<open>The calls that can put the job \<open>jid\<close> (back) into the queue, and the claims of it.\<close>

fun requeues :: "string \<Rightarrow> backend_call \<Rightarrow> bool" where
  "requeues jid (CallEnqueue j) = (job_id j = jid)"
| "requeues jid (CallRelease _ i) = (i = jid)"
| "requeues jid (CallStatus _ i s) = (i = jid \<and> s = QUEUED)"
| "requeues jid _ = False"

fun claims_of :: "string \<Rightarrow> backend_call \<Rightarrow> bool" where
  "claims_of jid (CallClaim _ i _ _) = (i = jid)"
| "claims_of jid _ = False"

definition won_claims :: "string \<Rightarrow> backend_call list \<Rightarrow> (exn + bool) list \<Rightarrow> nat" where
  "won_claims jid cs rs = length (filter (\<lambda>(c, r). claims_of jid c \<and> r = Inr True) (zip cs rs))"

subsection \<open>The contract\<close>

locale queue_backend =
  fixes ops :: "'b backend_ops"
    and inv :: "'b \<Rightarrow> bool"
    and view :: "'b \<Rightarrow> string \<Rightarrow> job option"
    and stored :: "job \<Rightarrow> job"
  assumes get_law: "inv b \<Longrightarrow> be_get ops jid b = (Inr (view b jid), b)"
    and view_id: "inv b \<Longrightarrow> view b jid = Some j \<Longrightarrow> job_id j = jid"
    and enqueue_fresh: "inv b \<Longrightarrow> view b (job_id j) = None \<Longrightarrow> result_ref j = None \<Longrightarrow>
      \<exists>b'. be_enqueue ops j b = (Inr (job_id j), b') \<and> inv b' \<and>
           view b' = (view b)(job_id j \<mapsto> stored j)"
    and enqueue_frame: "inv b \<Longrightarrow> be_enqueue ops j b = (r, b') \<Longrightarrow>
      inv b' \<and> (\<forall>i. i \<noteq> job_id j \<longrightarrow> view b' i = view b i)"
    and stored_law: "job_id (stored j) = job_id j \<and> job_type (stored j) = job_type j \<and>
      queue_name (stored j) = queue_name j \<and> status (stored j) = status j \<and>
      priority (stored j) = priority j \<and> payload (stored j) = payload j \<and>
      created_at (stored j) = created_at j"
    and dequeue_law: "inv b \<Longrightarrow> 0 \<le> n \<Longrightarrow> jt \<noteq> Some [] \<Longrightarrow> qn \<noteq> Some [] \<Longrightarrow>
      \<exists>js. be_dequeue ops n jt qn b = (Inr js, b) \<and> int (length js) \<le> n \<and>
           distinct (map job_id js) \<and>
           (\<forall>j \<in> set js. view b (job_id j) = Some j \<and> dispatchable jt qn j)"
    and claim_won: "inv b \<Longrightarrow> view b jid = Some j \<Longrightarrow> status j = QUEUED \<Longrightarrow>
      \<exists>b' j'. be_claim ops now jid h w b = (Inr True, b') \<and> inv b' \<and>
              view b' = (view b)(jid \<mapsto> j') \<and> same_submission j j' \<and> status j' = RUNNING \<and>
              claimed_by j' = Some (h @ '':'' @ w)"
    and claim_lost: "inv b \<Longrightarrow> (\<And>j. view b jid = Some j \<Longrightarrow> status j \<noteq> QUEUED) \<Longrightarrow>
      be_claim ops now jid h w b = (Inr False, b)"
    and update_status_law: "inv b \<Longrightarrow> view b jid = Some j \<Longrightarrow>
      \<exists>b' j'. be_update_status ops now jid (status_value s) b = (Inr True, b') \<and> inv b' \<and>
              view b' = (view b)(jid \<mapsto> j') \<and> same_submission j j' \<and> status j' = s"
    and update_status_absent: "inv b \<Longrightarrow> view b jid = None \<Longrightarrow>
      be_update_status ops now jid (status_value s) b = (Inr False, b)"
    and release_law: "inv b \<Longrightarrow> view b jid = Some j \<Longrightarrow>
      \<exists>b' j'. be_release ops now jid b = (Inr True, b') \<and> inv b' \<and>
              view b' = (view b)(jid \<mapsto> j') \<and> same_submission j j' \<and> status j' = QUEUED \<and>
              claimed_by j' = None"
    and release_absent: "inv b \<Longrightarrow> view b jid = None \<Longrightarrow>
      be_release ops now jid b = (Inr False, b)"
    and heartbeat_law: "inv b \<Longrightarrow>
      \<exists>ok b'. be_heartbeat ops now jid b = (Inr ok, b') \<and> inv b' \<and> touched (view b) (view b')"
    and attempt_law: "inv b \<Longrightarrow>
      \<exists>ok b'. be_record_attempt ops now jid err b = (Inr ok, b') \<and> inv b' \<and>
              touched (view b) (view b')"
    and progress_law: "inv b \<Longrightarrow>
      \<exists>ok b'. be_update_progress ops now jid p b = (Inr ok, b') \<and> inv b' \<and>
              touched (view b) (view b')"
    and result_law: "inv b \<Longrightarrow>
      \<exists>r b'. be_store_result ops now jid res b = (r, b') \<and> inv b' \<and>
             touched (view b) (view b')"
    and live_law: "inv b \<Longrightarrow> view b (job_id j) = Some j' \<Longrightarrow> be_live ops b j = j' \<or> be_live ops b j = j"
    and poke_law: "inv b \<Longrightarrow> view b jid = Some j \<Longrightarrow> job_id (f j) = jid \<Longrightarrow>
      be_poke ops jid f b = b \<or>
      inv (be_poke ops jid f b) \<and> view (be_poke ops jid f b) = (view b)(jid \<mapsto> f j)"
    and live_id: "inv b \<Longrightarrow> job_id (be_live ops b j) = job_id j"
begin

lemma update_status_gen:
  assumes "inv b"
  shows "\<exists>b'. be_update_status ops now jid (status_value s) b = (Inr (view b jid \<noteq> None), b') \<and>
    inv b' \<and> dom (view b') = dom (view b) \<and> (\<forall>i. i \<noteq> jid \<longrightarrow> view b' i = view b i) \<and>
    (\<forall>j. view b jid = Some j \<longrightarrow> (\<exists>j'. view b' jid = Some j' \<and> same_submission j j' \<and> status j' = s))"
proof (cases "view b jid")
  case None
  then show ?thesis using update_status_absent assms by auto
next
  case (Some j)
  from update_status_law [OF assms this, of now s] Some show ?thesis by auto
qed

text \<open>One call keeps the invariant, and a call that does not requeue a job leaves it unqueued.\<close>

lemma do_call_inv:
  assumes "inv b" and "do_call ops c b = (r, b')"
  shows "inv b'"
proof (cases c)
  case (CallEnqueue j)
  obtain r1 b1 where e: "be_enqueue ops j b = (r1, b1)" by (cases "be_enqueue ops j b")
  with CallEnqueue assms(2) have "b' = b1"
    by (auto simp: bind_py_def ret_def split: sum.splits)
  with enqueue_frame [OF assms(1) e] show ?thesis by simp
next
  case (CallClaim now jid h w)
  show ?thesis
  proof (cases "\<exists>j. view b jid = Some j \<and> status j = QUEUED")
    case True
    then show ?thesis using claim_won [OF assms(1), of jid _ now h w] assms(2) CallClaim by fastforce
  next
    case False
    then show ?thesis using claim_lost [OF assms(1), of jid now h w] assms CallClaim by auto
  qed
next
  case (CallRelease now jid)
  then show ?thesis
    using release_law [OF assms(1), of jid _ now] release_absent [OF assms(1), of jid now] assms
    by (cases "view b jid") fastforce+
next
  case (CallHeartbeat now jid)
  then show ?thesis using heartbeat_law [OF assms(1), of now jid] assms by auto
next
  case (CallStatus now jid s)
  then show ?thesis using update_status_gen [OF assms(1), of now jid s] assms by auto
next
  case (CallAttempt now jid err)
  then show ?thesis using attempt_law [OF assms(1), of now jid err] assms by auto
next
  case (CallProgress now jid p)
  then show ?thesis using progress_law [OF assms(1), of now jid p] assms by auto
next
  case (CallResult now jid res)
  then show ?thesis using result_law [OF assms(1), of now jid res] assms by auto
qed

definition unqueued :: "string \<Rightarrow> 'b \<Rightarrow> bool" where
  "unqueued jid b \<longleftrightarrow> (\<forall>j. view b jid = Some j \<longrightarrow> status j \<noteq> QUEUED)"

lemma unqueued_touched: "touched (view b) (view b') \<Longrightarrow> unqueued jid b \<Longrightarrow> unqueued jid b'"
  using touched_status [of "view b" "view b'" jid]
  by (cases "view b jid") (auto simp: unqueued_def)

lemma do_call_unqueued:
  assumes i: "inv b" and run: "do_call ops c b = (r, b')" and nq: "\<not> requeues jid c"
    and un: "unqueued jid b"
  shows "unqueued jid b' \<and> (claims_of jid c \<longrightarrow> r = Inr False)"
proof (cases c)
  case (CallEnqueue j)
  obtain r1 b1 where e: "be_enqueue ops j b = (r1, b1)" by (cases "be_enqueue ops j b")
  with CallEnqueue run have "b' = b1"
    by (auto simp: bind_py_def ret_def split: sum.splits)
  with enqueue_frame [OF i e] CallEnqueue nq un show ?thesis by (auto simp: unqueued_def)
next
  case (CallClaim now k h w)
  show ?thesis
  proof (cases "\<exists>j. view b k = Some j \<and> status j = QUEUED")
    case True
    then obtain j where j: "view b k = Some j" "status j = QUEUED" by blast
    have "k \<noteq> jid" using j un by (auto simp: unqueued_def)
    then show ?thesis
      using claim_won [OF i j, of now h w] run CallClaim un by (auto simp: unqueued_def)
  next
    case False
    then show ?thesis using claim_lost [OF i, of k now h w] run CallClaim un by auto
  qed
next
  case (CallRelease now k)
  with nq have "k \<noteq> jid" by simp
  then show ?thesis
    using release_law [OF i, of k _ now] release_absent [OF i, of k now] run CallRelease un
    by (cases "view b k") (fastforce simp: unqueued_def)+
next
  case (CallStatus now k s)
  then show ?thesis
    using update_status_gen [OF i, of now k s] run nq un
    by (cases "k = jid"; cases "view b jid") (auto simp: unqueued_def)
next
  case (CallHeartbeat now k)
  then show ?thesis using heartbeat_law [OF i, of now k] run un unqueued_touched by auto
next
  case (CallAttempt now k err)
  then show ?thesis using attempt_law [OF i, of now k err] run un unqueued_touched by auto
next
  case (CallProgress now k p)
  then show ?thesis using progress_law [OF i, of now k p] run un unqueued_touched by auto
next
  case (CallResult now k res)
  then show ?thesis using result_law [OF i, of now k res] run un unqueued_touched by auto
qed

text \<open>A successful claim leaves the job unqueued.\<close>

lemma claim_unqueues:
  assumes i: "inv b" and run: "do_call ops c b = (Inr True, b')" and c: "claims_of jid c"
  shows "unqueued jid b'"
proof -
  from c obtain now h w where c': "c = CallClaim now jid h w"
    by (cases c) auto
  show ?thesis
  proof (cases "\<exists>j. view b jid = Some j \<and> status j = QUEUED")
    case True
    then show ?thesis using claim_won [OF i, of jid _ now h w] run c' by (auto simp: unqueued_def)
  next
    case False
    then show ?thesis using claim_lost [OF i, of jid now h w] run c' by auto
  qed
qed

lemma no_claim_when_unqueued:
  assumes "inv b" and "unqueued jid b" and "\<forall>c \<in> set cs. \<not> requeues jid c"
  shows "won_claims jid cs (fst (run_calls ops cs b)) = 0"
  using assms
proof (induction cs arbitrary: b)
  case Nil
  then show ?case by (simp add: won_claims_def)
next
  case (Cons c cs)
  obtain r b' where run: "do_call ops c b = (r, b')" by (cases "do_call ops c b")
  have u: "unqueued jid b'" and r: "claims_of jid c \<longrightarrow> r = Inr False"
    using do_call_unqueued [OF Cons.prems(1) run _ Cons.prems(2)] Cons.prems(3) by auto
  have "won_claims jid cs (fst (run_calls ops cs b')) = 0"
    using Cons.IH [OF do_call_inv [OF Cons.prems(1) run] u] Cons.prems(3) by simp
  with r run show ?case by (auto simp: won_claims_def split: prod.splits)
qed

text \<open>
  In every interleaving of calls that does not requeue a job, at most one claim of it is won,
  whoever makes it.
\<close>

lemma claim_exclusive:
  assumes "inv b" and "\<forall>c \<in> set cs. \<not> requeues jid c"
  shows "won_claims jid cs (fst (run_calls ops cs b)) \<le> 1"
  using assms
proof (induction cs arbitrary: b)
  case Nil
  then show ?case by (simp add: won_claims_def)
next
  case (Cons c cs)
  obtain r b' where run: "do_call ops c b = (r, b')" by (cases "do_call ops c b")
  have i': "inv b'" using do_call_inv [OF Cons.prems(1) run] .
  have split: "won_claims jid (c # cs) (fst (run_calls ops (c # cs) b)) =
      (if claims_of jid c \<and> r = Inr True then 1 else 0) +
      won_claims jid cs (fst (run_calls ops cs b'))"
    using run by (auto simp: won_claims_def split: prod.splits)
  show ?case
  proof (cases "claims_of jid c \<and> r = Inr True")
    case True
    then have "unqueued jid b'" using claim_unqueues [OF Cons.prems(1)] run by auto
    then have "won_claims jid cs (fst (run_calls ops cs b')) = 0"
      using no_claim_when_unqueued [OF i'] Cons.prems(2) by simp
    then show ?thesis using split by simp
  next
    case False
    then have "won_claims jid (c # cs) (fst (run_calls ops (c # cs) b)) =
        won_claims jid cs (fst (run_calls ops cs b'))"
      using split by simp
    moreover have "\<dots> \<le> 1" using Cons.IH [OF i'] Cons.prems(2) by simp
    ultimately show ?thesis by simp
  qed
qed

end

text \<open>What the sweeps over a whole backend rely on besides: \<open>all_jobs\<close> lists every job once.\<close>

locale listing_backend = queue_backend +
  assumes all_jobs_law: "inv b \<Longrightarrow>
      \<exists>js. be_all_jobs ops b = (Inr js, b) \<and> distinct (map job_id js) \<and>
           (\<forall>j. j \<in> set js \<longleftrightarrow> view b (job_id j) = Some j)"

text \<open>The dispatch order: a queued job is left out only for jobs that are no later in the order.\<close>

locale ordered_backend = queue_backend +
  assumes dequeue_sorted: "inv b \<Longrightarrow> 0 \<le> n \<Longrightarrow> jt \<noteq> Some [] \<Longrightarrow> qn \<noteq> Some [] \<Longrightarrow>
      be_dequeue ops n jt qn b = (Inr js, b) \<Longrightarrow> sorted (map dispatch_key js)"
    and dequeue_complete: "inv b \<Longrightarrow> 0 \<le> n \<Longrightarrow> jt \<noteq> Some [] \<Longrightarrow> qn \<noteq> Some [] \<Longrightarrow>
      be_dequeue ops n jt qn b = (Inr js, b) \<Longrightarrow>
      view b i = Some j \<Longrightarrow> dispatchable jt qn j \<Longrightarrow> j \<notin> set js \<Longrightarrow>
      int (length js) = n \<and> (\<forall>k \<in> set js. dispatch_key k \<le> dispatch_key j)"
begin

text \<open>Asking for one job gives a best one whenever there is one.\<close>

lemma dequeue_one:
  assumes i: "inv b" and qn: "qn \<noteq> Some []" and j: "view b i = Some j" "dispatchable None qn j"
  shows "\<exists>k. be_dequeue ops 1 None qn b = (Inr [k], b) \<and> dispatch_key k \<le> dispatch_key j \<and>
    view b (job_id k) = Some k \<and> dispatchable None qn k"
proof -
  obtain js where js: "be_dequeue ops 1 None qn b = (Inr js, b)" "length js \<le> 1"
      "\<forall>k \<in> set js. view b (job_id k) = Some k \<and> dispatchable None qn k"
    using dequeue_law [OF i, of 1 None qn] qn by auto
  have best: "j \<in> set js \<or> int (length js) = 1 \<and> (\<forall>k \<in> set js. dispatch_key k \<le> dispatch_key j)"
    using dequeue_complete [OF i _ _ qn js(1) j] by auto
  then have "length js = 1" using js(2) by (cases js) auto
  then obtain k where "js = [k]" by (cases js) auto
  with js best show ?thesis by auto
qed

end

end
