(* ===== verification/Memory_Backend.thy ===== *)
theory Memory_Backend
  imports Backend_Spec
begin

section \<open>The in-memory backend\<close>

text \<open>
  \<open>backends/memory_backend.py\<close>. The state is the dictionary \<open>_jobs\<close>; each method runs under the
  lock, so it is one state transformer. The dictionary holds the very objects the caller enqueued
  and hands out, which \<open>mem_live\<close> and \<open>mem_poke\<close> express. \<open>memory_ops\<close> collects the methods,
  and the interpretations at the end show that they meet the contract of the backend interface.
\<close>

record memory_backend =
  mb_jobs :: "(string, job) dict"

definition new_memory_backend :: memory_backend where
  "new_memory_backend = \<lparr>mb_jobs = []\<rparr>"

definition mem_enqueue :: "job \<Rightarrow> (memory_backend, string) py" where
  "mem_enqueue j =
     (\<lambda>b. (Inr (job_id j), b\<lparr>mb_jobs := dict_set (mb_jobs b) (job_id j) j\<rparr>))"

definition mem_dequeue ::
  "int \<Rightarrow> string option \<Rightarrow> string option \<Rightarrow> (memory_backend, job list) py" where
  "mem_dequeue limit jt qn =
     (\<lambda>b. let queued = filter (\<lambda>j. status j = QUEUED \<and> (jt = None \<or> Some (job_type j) = jt) \<and>
                                 (qn = None \<or> Some (queue_name j) = qn))
                         (dict_values (mb_jobs b));
              ordered = sort_key (\<lambda>j. (- priority j, created_at j)) queued
          in (Inr (slice_to ordered limit), b))"

definition mem_claim ::
  "time \<Rightarrow> string \<Rightarrow> string \<Rightarrow> string \<Rightarrow> (memory_backend, bool) py" where
  "mem_claim now jid host wkr =
     (\<lambda>b. case dict_get (mb_jobs b) jid of
        None \<Rightarrow> (Inr False, b)
      | Some j \<Rightarrow>
          if status j \<noteq> QUEUED then (Inr False, b)
          else (Inr True, b\<lparr>mb_jobs := dict_set (mb_jobs b) jid
                  (j\<lparr>status := RUNNING, claimed_by := Some (host @ '':'' @ wkr),
                     updated_at := now\<rparr>)\<rparr>))"

text \<open>The shape the remaining mutators share: look the job up, write to it, answer \<open>True\<close>.\<close>

definition mem_write :: "string \<Rightarrow> (job \<Rightarrow> job) \<Rightarrow> (memory_backend, bool) py" where
  "mem_write jid f =
     (\<lambda>b. case dict_get (mb_jobs b) jid of
        None \<Rightarrow> (Inr False, b)
      | Some j \<Rightarrow> (Inr True, b\<lparr>mb_jobs := dict_set (mb_jobs b) jid (f j)\<rparr>))"

definition mem_release :: "time \<Rightarrow> string \<Rightarrow> (memory_backend, bool) py" where
  "mem_release now jid =
     mem_write jid (\<lambda>j. j\<lparr>status := QUEUED, claimed_by := None, updated_at := now\<rparr>)"

definition mem_heartbeat :: "time \<Rightarrow> string \<Rightarrow> (memory_backend, bool) py" where
  "mem_heartbeat now jid = mem_write jid (\<lambda>j. j\<lparr>updated_at := now\<rparr>)"

definition mem_get :: "string \<Rightarrow> (memory_backend, job option) py" where
  "mem_get jid = gets (\<lambda>b. dict_get (mb_jobs b) jid)"

text \<open>A missing job is reported before the status string is checked.\<close>

definition mem_update_status :: "time \<Rightarrow> string \<Rightarrow> string \<Rightarrow> (memory_backend, bool) py" where
  "mem_update_status now jid st =
     (\<lambda>b. case dict_get (mb_jobs b) jid of
        None \<Rightarrow> (Inr False, b)
      | Some j \<Rightarrow>
          (case job_status_of st of
             Inl e \<Rightarrow> (Inl e, b)
           | Inr s \<Rightarrow> (Inr True, b\<lparr>mb_jobs := dict_set (mb_jobs b) jid
                          (j\<lparr>status := s, updated_at := now\<rparr>)\<rparr>)))"

definition mem_get_queue_status :: "(memory_backend, (string, int) dict) py" where
  "mem_get_queue_status =
     gets (\<lambda>b. counter (map (\<lambda>j. status_value (status j)) (dict_values (mb_jobs b))))"

definition mem_health_check :: "(memory_backend, bool) py" where
  "mem_health_check = ret True"

definition mem_all_jobs :: "(memory_backend, job list) py" where
  "mem_all_jobs = gets (\<lambda>b. dict_values (mb_jobs b))"

definition mem_record_attempt :: "time \<Rightarrow> string \<Rightarrow> string option \<Rightarrow> (memory_backend, bool) py" where
  "mem_record_attempt now jid err =
     mem_write jid
       (\<lambda>j. (case err of
               None \<Rightarrow> j\<lparr>attempt := attempt j + 1\<rparr>
             | Some m \<Rightarrow> j\<lparr>attempt := attempt j + 1,
                            last_error := Some (PDict [(''message'', PStr m)])\<rparr>)
             \<lparr>updated_at := now\<rparr>)"

definition mem_update_progress ::
  "time \<Rightarrow> string \<Rightarrow> (string, pyval) dict \<Rightarrow> (memory_backend, bool) py" where
  "mem_update_progress now jid p =
     mem_write jid (\<lambda>j. j\<lparr>progress := Some (PDict p), updated_at := now\<rparr>)"

definition mem_store_result :: "time \<Rightarrow> string \<Rightarrow> pyval \<Rightarrow> (memory_backend, bool) py" where
  "mem_store_result now jid res =
     mem_write jid (\<lambda>j. j\<lparr>result_ref := Some res, updated_at := now\<rparr>)"

definition mem_live :: "memory_backend \<Rightarrow> job \<Rightarrow> job" where
  "mem_live b j = (case dict_get (mb_jobs b) (job_id j) of None \<Rightarrow> j | Some j' \<Rightarrow> j')"

definition mem_poke :: "string \<Rightarrow> (job \<Rightarrow> job) \<Rightarrow> memory_backend \<Rightarrow> memory_backend" where
  "mem_poke jid f b =
     (case dict_get (mb_jobs b) jid of
        None \<Rightarrow> b
      | Some j \<Rightarrow> b\<lparr>mb_jobs := dict_set (mb_jobs b) jid (f j)\<rparr>)"

definition memory_ops :: "memory_backend backend_ops" where
  "memory_ops =
     \<lparr>be_enqueue = mem_enqueue, be_dequeue = mem_dequeue, be_claim = mem_claim,
      be_release = mem_release, be_heartbeat = mem_heartbeat, be_get = mem_get,
      be_update_status = mem_update_status, be_get_queue_status = mem_get_queue_status,
      be_health_check = mem_health_check, be_all_jobs = mem_all_jobs,
      be_record_attempt = mem_record_attempt, be_update_progress = mem_update_progress,
      be_store_result = mem_store_result, be_live = mem_live, be_poke = mem_poke\<rparr>"

subsection \<open>Invariant and view\<close>

text \<open>No key twice, and every job stored under its own identifier.\<close>

definition mem_inv :: "memory_backend \<Rightarrow> bool" where
  "mem_inv b \<longleftrightarrow> dict_ok (mb_jobs b) \<and> (\<forall>(k, j) \<in> set (mb_jobs b). job_id j = k)"

definition mem_view :: "memory_backend \<Rightarrow> string \<Rightarrow> job option" where
  "mem_view b = map_of (mb_jobs b)"

lemma mem_view_id: "mem_inv b \<Longrightarrow> mem_view b k = Some j \<Longrightarrow> job_id j = k"
  by (auto simp: mem_inv_def mem_view_def dest!: map_of_SomeD)

lemma mem_inv_new [simp]: "mem_inv new_memory_backend"
  by (simp add: mem_inv_def new_memory_backend_def)

lemma mem_inv_alt:
  "mem_inv b \<longleftrightarrow> dict_ok (mb_jobs b) \<and> (\<forall>k j. mem_view b k = Some j \<longrightarrow> job_id j = k)"
  by (auto simp: mem_inv_def mem_view_def dict_mem_iff dest: map_of_SomeD)

lemma mem_inv_set:
  "mem_inv b \<Longrightarrow> job_id j = k \<Longrightarrow> mem_inv (b\<lparr>mb_jobs := dict_set (mb_jobs b) k j\<rparr>)"
  by (auto simp: mem_inv_alt mem_view_def split: if_splits)

lemma mem_view_set: "mem_view (b\<lparr>mb_jobs := dict_set (mb_jobs b) k j\<rparr>) = (mem_view b)(k \<mapsto> j)"
  by (simp add: mem_view_def map_of_dict_set)

lemma mem_values_iff:
  "mem_inv b \<Longrightarrow> j \<in> set (dict_values (mb_jobs b)) \<longleftrightarrow> mem_view b (job_id j) = Some j"
proof -
  assume i: "mem_inv b"
  then have ok: "dict_ok (mb_jobs b)" and own: "\<And>k. (k, j) \<in> set (mb_jobs b) \<Longrightarrow> job_id j = k"
    by (auto simp: mem_inv_def)
  have "j \<in> set (dict_values (mb_jobs b)) \<longleftrightarrow> (\<exists>k. (k, j) \<in> set (mb_jobs b))"
    by (metis (no_types, lifting) image_iff list.set_map prod.collapse snd_conv)
  also have "\<dots> \<longleftrightarrow> (job_id j, j) \<in> set (mb_jobs b)"
    using own by blast
  finally show ?thesis by (simp add: mem_view_def dict_mem_iff [OF ok])
qed

lemma mem_values_distinct: "mem_inv b \<Longrightarrow> distinct (map job_id (dict_values (mb_jobs b)))"
proof -
  assume i: "mem_inv b"
  then have "map job_id (dict_values (mb_jobs b)) = dict_keys (mb_jobs b)"
    by (auto simp: mem_inv_def)
  moreover have "distinct (dict_keys (mb_jobs b))" using i by (simp add: mem_inv_def dict_ok_def)
  ultimately show ?thesis by metis
qed

lemmas mem_write_simps = mem_write_def mem_view_def [symmetric]

lemma mem_write_present:
  assumes "mem_inv b" and "mem_view b k = Some j" and "job_id (f j) = job_id j"
  shows "\<exists>b'. mem_write k f b = (Inr True, b') \<and> mem_inv b' \<and> mem_view b' = (mem_view b)(k \<mapsto> f j)"
  using assms mem_view_id [OF assms(1,2)]
  by (auto simp: mem_write_simps mem_view_set intro: mem_inv_set)

lemma mem_write_absent: "mem_view b k = None \<Longrightarrow> mem_write k f b = (Inr False, b)"
  by (simp add: mem_write_simps)

lemma mem_write_touched:
  assumes "mem_inv b" and "\<And>j. same_submission j (f j)" and "\<And>j. status (f j) = status j"
  shows "\<exists>ok b'. mem_write k f b = (Inr ok, b') \<and> mem_inv b' \<and> touched (mem_view b) (mem_view b')"
proof (cases "mem_view b k")
  case None
  then show ?thesis using assms(1) by (auto simp: mem_write_absent)
next
  case (Some j)
  have "job_id (f j) = job_id j" using assms(2) [of j] by (simp add: same_submission_def)
  from mem_write_present [OF assms(1) Some, of f, OF this] obtain b' where
    "mem_write k f b = (Inr True, b')" "mem_inv b'" "mem_view b' = (mem_view b)(k \<mapsto> f j)" by blast
  moreover have "touched (mem_view b) ((mem_view b)(k \<mapsto> f j))"
    using Some assms(2,3) by (rule touched_upd)
  ultimately show ?thesis by auto
qed

lemma mem_write_to:
  assumes "mem_inv b" and "mem_view b k = Some j" and "same_submission j (f j)" and "P (f j)"
  shows "\<exists>b' j'. mem_write k f b = (Inr True, b') \<and> mem_inv b' \<and> mem_view b' = (mem_view b)(k \<mapsto> j') \<and>
    same_submission j j' \<and> P j'"
proof -
  have "job_id (f j) = job_id j" using assms(3) by (simp add: same_submission_def)
  from mem_write_present [OF assms(1,2), of f, OF this] assms(3,4) show ?thesis by blast
qed

lemma mem_update_status_eq:
  "mem_update_status now k (status_value s) = mem_write k (\<lambda>j. j\<lparr>status := s, updated_at := now\<rparr>)"
  by (rule ext) (simp add: mem_update_status_def mem_write_def split: option.splits)

subsection \<open>Dispatch order\<close>

lemma mem_dequeue_eq:
  "mem_dequeue n jt qn b =
     (Inr (slice_to (sort_key dispatch_key (filter (dispatchable jt qn) (dict_values (mb_jobs b)))) n), b)"
proof -
  have "dispatchable jt qn = (\<lambda>j. status j = QUEUED \<and> (jt = None \<or> Some (job_type j) = jt) \<and>
      (qn = None \<or> Some (queue_name j) = qn))"
    by (auto simp: dispatchable_def passes_def fun_eq_iff split: option.splits)
  moreover have "dispatch_key = (\<lambda>j. (- priority j, created_at j))"
    by (simp add: dispatch_key_def fun_eq_iff)
  ultimately show ?thesis by (simp add: mem_dequeue_def)
qed

lemma mem_dequeue_sound:
  assumes "mem_inv b" and "0 \<le> n"
  shows "\<exists>js. mem_dequeue n jt qn b = (Inr js, b) \<and> int (length js) \<le> n \<and>
    distinct (map job_id js) \<and>
    (\<forall>j \<in> set js. mem_view b (job_id j) = Some j \<and> dispatchable jt qn j)"
proof -
  let ?q = "filter (dispatchable jt qn) (dict_values (mb_jobs b))"
  have "distinct (map job_id ?q)"
    using mem_values_distinct [OF assms(1)] by (rule distinct_map_filter)
  then have "distinct (map job_id (sort_key dispatch_key ?q))"
    by (simp add: distinct_map)
  then have "distinct (map job_id (slice_to (sort_key dispatch_key ?q) n))"
    using assms(2) by (simp add: slice_to_def distinct_map distinct_take inj_on_subset [OF _ set_take_subset])
  then show ?thesis
    using assms mem_values_iff [OF assms(1)]
    by (auto simp: mem_dequeue_eq length_slice_to dest!: set_slice_to)
qed

lemma mem_dequeue_order:
  assumes n: "0 \<le> n" and js: "mem_dequeue n jt qn b = (Inr js, b)"
  shows "sorted (map dispatch_key js)"
    and "j \<in> set (dict_values (mb_jobs b)) \<Longrightarrow> dispatchable jt qn j \<Longrightarrow> j \<notin> set js \<Longrightarrow>
      int (length js) = n \<and> (\<forall>k \<in> set js. dispatch_key k \<le> dispatch_key j)"
proof -
  let ?s = "sort_key dispatch_key (filter (dispatchable jt qn) (dict_values (mb_jobs b)))"
  from js n have eq: "js = take (nat n) ?s" by (simp add: mem_dequeue_eq slice_to_def)
  have s: "sorted (map dispatch_key ?s)" by simp
  show "sorted (map dispatch_key js)"
    unfolding eq take_map [symmetric] using s by (rule sorted_wrt_take)
  assume j: "j \<in> set (dict_values (mb_jobs b))" "dispatchable jt qn j" "j \<notin> set js"
  then have "j \<in> set ?s" by simp
  then have drop: "j \<in> set (drop (nat n) ?s)"
    using j(3) unfolding eq by (metis UnE append_take_drop_id set_append)
  then have "nat n < length ?s" by (metis drop_eq_Nil empty_iff list.set(1) not_le)
  then show "int (length js) = n \<and> (\<forall>k \<in> set js. dispatch_key k \<le> dispatch_key j)"
    using n sorted_take_le [OF s _ drop] unfolding eq by auto
qed

subsection \<open>The contract holds\<close>

interpretation memb: queue_backend memory_ops mem_inv mem_view "\<lambda>j. j"
proof (unfold_locales, goal_cases)
  case (1 b jid)
  then show ?case by (simp add: memory_ops_def mem_get_def gets_def mem_view_def)
next
  case (2 b jid j)
  then show ?case by (rule mem_view_id)
next
  case (3 b j)
  then show ?case by (auto simp: memory_ops_def mem_enqueue_def mem_view_set intro: mem_inv_set)
next
  case (4 b j r b')
  then show ?case by (auto simp: memory_ops_def mem_enqueue_def mem_view_set intro: mem_inv_set)
next
  case (5 j)
  show ?case by simp
next
  case (6 b n jt qn)
  then show ?case using mem_dequeue_sound [of b n jt qn] by (simp add: memory_ops_def)
next
  case (7 b jid j now h w)
  then show ?case
    using mem_view_id [OF 7(1,2)]
    by (auto simp: memory_ops_def mem_claim_def mem_view_def [symmetric] mem_view_set
        same_submission_def intro!: mem_inv_set)
next
  case (8 b jid now h w)
  then show ?case
    by (auto simp: memory_ops_def mem_claim_def mem_view_def [symmetric] split: option.splits)
next
  case (9 b jid j now s)
  then show ?case
    using mem_write_to [OF 9, of "\<lambda>j. j\<lparr>status := s, updated_at := now\<rparr>" "\<lambda>j. status j = s"]
    by (simp add: memory_ops_def mem_update_status_eq same_submission_def)
next
  case (10 b jid now s)
  then show ?case by (simp add: memory_ops_def mem_update_status_eq mem_write_absent)
next
  case (11 b jid j now)
  then show ?case
    using mem_write_to [OF 11, of "\<lambda>j. j\<lparr>status := QUEUED, claimed_by := None, updated_at := now\<rparr>"
        "\<lambda>j. status j = QUEUED \<and> claimed_by j = None"]
    by (simp add: memory_ops_def mem_release_def same_submission_def)
next
  case (12 b jid now)
  then show ?case by (simp add: memory_ops_def mem_release_def mem_write_absent)
next
  case (13 b now jid)
  then show ?case
    using mem_write_touched [OF 13, of "\<lambda>j. j\<lparr>updated_at := now\<rparr>" jid]
    by (simp add: memory_ops_def mem_heartbeat_def same_submission_def)
next
  case (14 b now jid err)
  then show ?case
    unfolding memory_ops_def mem_record_attempt_def
    by (simp, intro mem_write_touched) (auto simp: same_submission_def split: option.splits)
next
  case (15 b now jid p)
  then show ?case
    unfolding memory_ops_def mem_update_progress_def
    by (simp, intro mem_write_touched) (auto simp: same_submission_def)
next
  case (16 b now jid res)
  then show ?case
    using mem_write_touched [OF 16, of "\<lambda>j. j\<lparr>result_ref := Some res, updated_at := now\<rparr>" jid]
    by (simp add: memory_ops_def mem_store_result_def same_submission_def) blast
next
  case (17 b j j')
  then show ?case by (simp add: memory_ops_def mem_live_def mem_view_def)
next
  case (18 b jid j f)
  then show ?case
    by (auto simp: memory_ops_def mem_poke_def mem_view_def [symmetric] mem_view_set intro: mem_inv_set)
next
  case (19 b j)
  show ?case
  proof (cases "mem_view b (job_id j)")
    case None
    then show ?thesis by (simp add: memory_ops_def mem_live_def mem_view_def)
  next
    case (Some k)
    then show ?thesis using mem_view_id [OF 19 Some] by (simp add: memory_ops_def mem_live_def mem_view_def)
  qed
qed

interpretation memb: listing_backend memory_ops mem_inv mem_view "\<lambda>j. j"
proof unfold_locales
  fix b assume "mem_inv b"
  then show "\<exists>js. be_all_jobs memory_ops b = (Inr js, b) \<and> distinct (map job_id js) \<and>
      (\<forall>j. j \<in> set js \<longleftrightarrow> mem_view b (job_id j) = Some j)"
    using mem_values_distinct mem_values_iff by (auto simp: memory_ops_def mem_all_jobs_def gets_def)
qed

interpretation memb: ordered_backend memory_ops mem_inv mem_view "\<lambda>j. j"
proof (unfold_locales, goal_cases)
  case (1 b n jt qn js)
  then show ?case using mem_dequeue_order(1) by (simp add: memory_ops_def)
next
  case (2 b n jt qn js i j)
  then have "job_id j = i" using mem_view_id by simp
  with 2 have "j \<in> set (dict_values (mb_jobs b))" using mem_values_iff [of b j] by simp
  with 2 show ?case using mem_dequeue_order(2) [of n jt qn b js j] by (simp add: memory_ops_def)
qed

end
