(* ===== verification/Sql_Store.thy ===== *)
theory Sql_Store
  imports Backend_Spec
begin

section \<open>The SQL repository and backend\<close>

text \<open>
  \<open>storage/sqlalchemy/models.py\<close> (\<open>row_to_job\<close>), \<open>storage/sqlalchemy/repo.py\<close> and
  \<open>backends/sql_backend.py\<close>. The database and SQLAlchemy are code outside the package: the record
  \<open>table_ops\<close> holds the statements the repository sends to the table \<open>jobs\<close>, as parameters of the
  model. A transaction (\<open>with engine.begin()\<close>) is one step, the \<open>SELECT\<close> and the conditional
  \<open>UPDATE\<close> of \<open>set_claimed\<close> included, as under serialisable isolation. A row comes back as it was stored:
  neither the width of a column nor the range of an integer is enforced, and times keep their zone
  (SQLite drops it). \<open>JSON\<close> columns come back decoded, so
  \<open>payload\<close> and \<open>meta\<close> are dictionaries and the branches for undecoded text do not arise.

  The locale \<open>job_table\<close> names what the code relies on of a table with a primary key. From it the
  contract of \<open>Backend_Spec\<close> follows for the SQL backend; the interpretation is the table kept as a
  dictionary by primary key.
\<close>

subsection \<open>Rows\<close>

record job_row =
  r_job_id :: string
  r_job_type :: string
  r_queue_name :: string
  r_payload :: "(string, pyval) dict"
  r_meta :: "(string, pyval) dict"
  r_status :: string
  r_priority :: int
  r_claimed_by :: "string option"
  r_created_at :: time
  r_updated_at :: time

text \<open>
  \<open>meta.get(key)\<close> read as an optional text, \<open>meta.get("callback_headers") or {}\<close> as a dictionary of
  texts and \<open>meta.get("attempts") or 0\<close> as a number: the types the repository writes.
\<close>

definition meta_str :: "(string, pyval) dict \<Rightarrow> string \<Rightarrow> string option" where
  "meta_str meta key = (case dict_get meta key of Some (PStr s) \<Rightarrow> Some s | _ \<Rightarrow> None)"

definition meta_headers :: "(string, pyval) dict \<Rightarrow> (string, string) dict" where
  "meta_headers meta =
     (case dict_get meta ''callback_headers'' of
        Some (PDict d) \<Rightarrow> map (\<lambda>(k, v). (k, case v of PStr s \<Rightarrow> s | _ \<Rightarrow> [])) d
      | _ \<Rightarrow> [])"

definition meta_int :: "(string, pyval) dict \<Rightarrow> string \<Rightarrow> int \<Rightarrow> int" where
  "meta_int meta key dflt = (case dict_get meta key of Some (PInt n) \<Rightarrow> if n = 0 then dflt else n | _ \<Rightarrow> dflt)"

definition meta_opt :: "(string, pyval) dict \<Rightarrow> string \<Rightarrow> pyval option" where
  "meta_opt meta key = (case dict_get meta key of None \<Rightarrow> None | Some PNone \<Rightarrow> None | Some v \<Rightarrow> Some v)"

definition meta_error :: "(string, pyval) dict \<Rightarrow> pyval option" where
  "meta_error meta =
     (case meta_opt meta ''last_error'' of Some (PStr s) \<Rightarrow> Some (PDict [(''message'', PStr s)]) | v \<Rightarrow> v)"

definition row_to_job :: "job_row \<Rightarrow> exn + job" where
  "row_to_job r =
     (case job_status_of (r_status r) of
        Inl e \<Rightarrow> Inl e
      | Inr s \<Rightarrow>
          let meta = r_meta r in
          Inr ((new_job (r_job_id r) (r_job_type r) (r_queue_name r) (r_payload r) s (r_priority r)
                  (r_created_at r) (r_updated_at r))
            \<lparr>claimed_by := r_claimed_by r,
             app_id := meta_str meta ''app_id'',
             tenant_id := meta_str meta ''tenant_id'',
             host_id := meta_str meta ''host_id'',
             worker_id := meta_str meta ''worker_id'',
             idempotency_key := meta_str meta ''idempotency_key'',
             correlation_id := meta_str meta ''correlation_id'',
             user_id := meta_str meta ''user_id'',
             session_id := meta_str meta ''session_id'',
             channel_id := meta_str meta ''channel_id'',
             callback_url := meta_str meta ''callback_url'',
             callback_method := (case meta_str meta ''callback_method'' of None \<Rightarrow> ''POST'' | Some m \<Rightarrow> m),
             callback_headers := meta_headers meta,
             request_source := meta_str meta ''request_source'',
             request_ip := meta_str meta ''request_ip'',
             request_auth_method := meta_str meta ''request_auth_method'',
             request_auth_identity := meta_str meta ''request_auth_identity'',
             request_user_agent := meta_str meta ''request_user_agent'',
             attempt := meta_int meta ''attempts'' 0,
             max_attempts := meta_int meta ''max_attempts'' 3,
             last_error := meta_error meta,
             result_ref := meta_opt meta ''result'',
             progress := meta_opt meta ''progress''\<rparr>))"

definition job_to_row :: "job \<Rightarrow> job_row" where
  "job_to_row j =
     \<lparr>r_job_id = job_id j, r_job_type = job_type j, r_queue_name = queue_name j, r_payload = payload j,
      r_meta = to_meta_dict j, r_status = status_value (status j), r_priority = priority j,
      r_claimed_by = claimed_by j, r_created_at = created_at j, r_updated_at = updated_at j\<rparr>"

fun rows_to_jobs :: "job_row list \<Rightarrow> exn + job list" where
  "rows_to_jobs [] = Inr []"
| "rows_to_jobs (r # rs) =
     (case row_to_job r of
        Inl e \<Rightarrow> Inl e
      | Inr j \<Rightarrow> (case rows_to_jobs rs of Inl e \<Rightarrow> Inl e | Inr js \<Rightarrow> Inr (j # js)))"

subsection \<open>The statements on the table\<close>

record 'd table_ops =
  tb_insert :: "job_row \<Rightarrow> ('d, unit) py"
  tb_select :: "(job_row \<Rightarrow> bool) \<Rightarrow> ('d, job_row list) py"
  tb_top :: "(job_row \<Rightarrow> bool) \<Rightarrow> (job_row \<Rightarrow> int \<times> time) \<Rightarrow> int \<Rightarrow> ('d, job_row list) py"
  tb_update :: "(job_row \<Rightarrow> bool) \<Rightarrow> (job_row \<Rightarrow> job_row) \<Rightarrow> ('d, int) py"
  tb_ping :: "('d, unit) py"

subsection \<open>The repository\<close>

definition lift_res :: "exn + 'a \<Rightarrow> ('d, 'a) py" where
  "lift_res r = (case r of Inl e \<Rightarrow> raise_exn e | Inr x \<Rightarrow> ret x)"

definition one_or_none :: "job_row list \<Rightarrow> ('d, job_row option) py" where
  "one_or_none rs =
     (case rs of [] \<Rightarrow> ret None | [r] \<Rightarrow> ret (Some r) | _ \<Rightarrow> raise_exn (OtherException ''MultipleResultsFound''))"

definition row_by_id :: "'d table_ops \<Rightarrow> string \<Rightarrow> ('d, job_row option) py" where
  "row_by_id tb jid = bind_py (tb_select tb (\<lambda>r. r_job_id r = jid)) one_or_none"

definition repo_enqueue :: "'d table_ops \<Rightarrow> job \<Rightarrow> ('d, string) py" where
  "repo_enqueue tb j = seq_py (tb_insert tb (job_to_row j)) (ret (job_id j))"

definition wanted :: "string option \<Rightarrow> string \<Rightarrow> bool" where
  "wanted flt v \<longleftrightarrow> (case flt of None \<Rightarrow> True | Some f \<Rightarrow> f = [] \<or> v = f)"

definition repo_queued :: "'d table_ops \<Rightarrow> int \<Rightarrow> string option \<Rightarrow> string option \<Rightarrow> ('d, job list) py" where
  "repo_queued tb limit jt qn =
     bind_py (tb_top tb (\<lambda>r. r_status r = status_value QUEUED \<and> wanted jt (r_job_type r) \<and> wanted qn (r_queue_name r))
                (\<lambda>r. (- r_priority r, r_created_at r)) limit)
       (\<lambda>rows. lift_res (rows_to_jobs rows))"

definition repo_get :: "'d table_ops \<Rightarrow> string \<Rightarrow> ('d, job option) py" where
  "repo_get tb jid =
     bind_py (row_by_id tb jid)
       (\<lambda>row. case row of
          None \<Rightarrow> ret None
        | Some r \<Rightarrow> bind_py (lift_res (row_to_job r)) (\<lambda>j. ret (Some j)))"

definition repo_set_claimed :: "'d table_ops \<Rightarrow> time \<Rightarrow> string \<Rightarrow> string \<Rightarrow> string \<Rightarrow> ('d, bool) py" where
  "repo_set_claimed tb now jid host worker =
     bind_py (row_by_id tb jid)
       (\<lambda>row. case row of
          None \<Rightarrow> ret False
        | Some r \<Rightarrow>
            (let meta = dict_set (dict_set (r_meta r) ''host_id'' (PStr host)) ''worker_id'' (PStr worker) in
             bind_py (tb_update tb (\<lambda>r. r_job_id r = jid \<and> r_status r = status_value QUEUED)
                 (\<lambda>r. r\<lparr>r_status := status_value RUNNING, r_claimed_by := Some (host @ '':'' @ worker),
                        r_meta := meta, r_updated_at := now\<rparr>))
               (\<lambda>n. ret (n = 1))))"

definition repo_set_status :: "'d table_ops \<Rightarrow> time \<Rightarrow> string \<Rightarrow> string \<Rightarrow> bool \<Rightarrow> ('d, bool) py" where
  "repo_set_status tb now jid st clear_claim =
     bind_py (tb_update tb (\<lambda>r. r_job_id r = jid)
         (\<lambda>r. let r' = r\<lparr>r_status := st, r_updated_at := now\<rparr>
              in if clear_claim then r'\<lparr>r_claimed_by := None\<rparr> else r'))
       (\<lambda>n. ret (n = 1))"

definition repo_heartbeat :: "'d table_ops \<Rightarrow> time \<Rightarrow> string \<Rightarrow> ('d, bool) py" where
  "repo_heartbeat tb now jid =
     bind_py (tb_update tb (\<lambda>r. r_job_id r = jid) (\<lambda>r. r\<lparr>r_updated_at := now\<rparr>)) (\<lambda>n. ret (n = 1))"

definition repo_all_jobs :: "'d table_ops \<Rightarrow> ('d, job list) py" where
  "repo_all_jobs tb = bind_py (tb_select tb (\<lambda>_. True)) (\<lambda>rows. lift_res (rows_to_jobs rows))"

definition repo_queue_status :: "'d table_ops \<Rightarrow> ('d, (string, int) dict) py" where
  "repo_queue_status tb = bind_py (tb_select tb (\<lambda>_. True)) (\<lambda>rows. ret (counter (map r_status rows)))"

definition repo_health_check :: "'d table_ops \<Rightarrow> ('d, bool) py" where
  "repo_health_check tb = try_except (seq_py (tb_ping tb) (ret True)) (\<lambda>_. ret False)"

text \<open>\<open>record_attempt\<close>, \<open>update_progress\<close> and \<open>store_result\<close> read \<open>meta\<close>, change it and write it back.\<close>

definition repo_edit_meta ::
  "'d table_ops \<Rightarrow> time \<Rightarrow> string \<Rightarrow> ((string, pyval) dict \<Rightarrow> exn + (string, pyval) dict) \<Rightarrow> ('d, bool) py" where
  "repo_edit_meta tb now jid edit =
     bind_py (row_by_id tb jid)
       (\<lambda>row. case row of
          None \<Rightarrow> ret False
        | Some r \<Rightarrow>
            bind_py (lift_res (edit (r_meta r)))
              (\<lambda>meta. bind_py (tb_update tb (\<lambda>r. r_job_id r = jid) (\<lambda>r. r\<lparr>r_meta := meta, r_updated_at := now\<rparr>))
                 (\<lambda>n. ret (n = 1))))"

definition count_attempt :: "string option \<Rightarrow> (string, pyval) dict \<Rightarrow> exn + (string, pyval) dict" where
  "count_attempt err meta =
     (case (case dict_get meta ''attempts'' of None \<Rightarrow> Inr 0 | Some (PInt n) \<Rightarrow> Inr n
              | Some _ \<Rightarrow> Inl (OtherException ''unsupported operand type(s) for +'')) of
        Inl e \<Rightarrow> Inl e
      | Inr n \<Rightarrow>
          let meta' = dict_set meta ''attempts'' (PInt (n + 1)) in
          Inr (case err of None \<Rightarrow> meta' | Some e \<Rightarrow> dict_set meta' ''last_error'' (PStr e)))"

definition repo_record_attempt :: "'d table_ops \<Rightarrow> time \<Rightarrow> string \<Rightarrow> string option \<Rightarrow> ('d, bool) py" where
  "repo_record_attempt tb now jid err = repo_edit_meta tb now jid (count_attempt err)"

definition repo_update_progress :: "'d table_ops \<Rightarrow> time \<Rightarrow> string \<Rightarrow> (string, pyval) dict \<Rightarrow> ('d, bool) py" where
  "repo_update_progress tb now jid p =
     repo_edit_meta tb now jid (\<lambda>meta. Inr (dict_set meta ''progress'' (PDict p)))"

definition repo_store_result :: "'d table_ops \<Rightarrow> time \<Rightarrow> string \<Rightarrow> pyval \<Rightarrow> ('d, bool) py" where
  "repo_store_result tb now jid res =
     repo_edit_meta tb now jid (\<lambda>meta. Inr (dict_set meta ''result'' res))"

text \<open>The backend delegates every method to the repository; it builds a new \<open>Job\<close> for every call.\<close>

definition sql_ops :: "'d table_ops \<Rightarrow> 'd backend_ops" where
  "sql_ops tb =
     \<lparr>be_enqueue = repo_enqueue tb,
      be_dequeue = repo_queued tb,
      be_claim = repo_set_claimed tb,
      be_release = (\<lambda>now jid. repo_set_status tb now jid (status_value QUEUED) True),
      be_heartbeat = repo_heartbeat tb,
      be_get = repo_get tb,
      be_update_status = (\<lambda>now jid st. repo_set_status tb now jid st True),
      be_get_queue_status = repo_queue_status tb,
      be_health_check = repo_health_check tb,
      be_all_jobs = repo_all_jobs tb,
      be_record_attempt = repo_record_attempt tb,
      be_update_progress = repo_update_progress tb,
      be_store_result = repo_store_result tb,
      be_live = (\<lambda>_ j. j),
      be_poke = (\<lambda>_ _ b. b)\<rparr>"

end
