(* ===== verification/Sql_Backend.thy ===== *)
theory Sql_Backend
  imports Sql_Store
begin

section \<open>The SQL backend meets the contract\<close>

text \<open>
  What the repository relies on of the table, as the locale \<open>job_table\<close>, the contract of a backend
  that follows from it (a sublocale of \<open>ordered_backend\<close>), and the table kept as a dictionary by
  primary key as its interpretation.
\<close>

subsection \<open>A table with a primary key\<close>

text \<open>\<open>rows\<close> is the content of the table, by primary key.\<close>

locale job_table =
  fixes tb :: "'d table_ops"
    and rows :: "'d \<Rightarrow> string \<Rightarrow> job_row option"
  assumes key_law: "rows d i = Some r \<Longrightarrow> r_job_id r = i"
    and insert_fresh: "rows d (r_job_id r) = None \<Longrightarrow>
      \<exists>d'. tb_insert tb r d = (Inr (), d') \<and> rows d' = (rows d)(r_job_id r \<mapsto> r)"
    and insert_taken: "rows d (r_job_id r) \<noteq> None \<Longrightarrow> \<exists>m. tb_insert tb r d = (Inl (IntegrityError m), d)"
    and select_law: "\<exists>rs. tb_select tb P d = (Inr rs, d) \<and> distinct rs \<and>
      (\<forall>r. r \<in> set rs \<longleftrightarrow> P r \<and> rows d (r_job_id r) = Some r)"
    and top_law: "0 \<le> n \<Longrightarrow> \<exists>rs. tb_top tb P k n d = (Inr rs, d) \<and> distinct rs \<and> int (length rs) \<le> n \<and>
      sorted (map k rs) \<and> (\<forall>r \<in> set rs. P r \<and> rows d (r_job_id r) = Some r) \<and>
      (\<forall>r. P r \<longrightarrow> rows d (r_job_id r) = Some r \<longrightarrow> r \<notin> set rs \<longrightarrow>
         int (length rs) = n \<and> (\<forall>s \<in> set rs. k s \<le> k r))"
    and update_law: "(\<And>r. r_job_id (f r) = r_job_id r) \<Longrightarrow>
      \<exists>d'. tb_update tb P f d = (Inr (int (card {i. \<exists>r. rows d i = Some r \<and> P r})), d') \<and>
           rows d' = (\<lambda>i. map_option (\<lambda>r. if P r then f r else r) (rows d i))"
    and update_none: "(\<And>i r. rows d i = Some r \<Longrightarrow> \<not> P r) \<Longrightarrow> tb_update tb P f d = (Inr 0, d)"

subsection \<open>Jobs and rows\<close>

definition row_ok :: "job_row \<Rightarrow> bool" where
  "row_ok r \<longleftrightarrow> (\<exists>s. r_status r = status_value s) \<and>
     (case dict_get (r_meta r) ''attempts'' of None \<Rightarrow> True | Some (PInt _) \<Rightarrow> True | _ \<Rightarrow> False)"

definition row_job :: "job_row \<Rightarrow> job option" where
  "row_job r = (case row_to_job r of Inl _ \<Rightarrow> None | Inr j \<Rightarrow> Some j)"

definition sql_inv :: "('d \<Rightarrow> string \<Rightarrow> job_row option) \<Rightarrow> 'd \<Rightarrow> bool" where
  "sql_inv rows d \<longleftrightarrow> (\<forall>i r. rows d i = Some r \<longrightarrow> row_ok r)"

definition sql_view :: "('d \<Rightarrow> string \<Rightarrow> job_row option) \<Rightarrow> 'd \<Rightarrow> string \<Rightarrow> job option" where
  "sql_view rows d i = (case rows d i of None \<Rightarrow> None | Some r \<Rightarrow> row_job r)"

text \<open>What a job reads as after it was stored.\<close>

definition sql_stored :: "job \<Rightarrow> job" where
  "sql_stored j = (case row_to_job (job_to_row j) of Inl _ \<Rightarrow> j | Inr k \<Rightarrow> k)"

lemma row_to_job_fields:
  assumes "row_to_job r = Inr j"
  shows "job_id j = r_job_id r" "job_type j = r_job_type r" "queue_name j = r_queue_name r"
    "payload j = r_payload r" "r_status r = status_value (status j)" "priority j = r_priority r"
    "created_at j = r_created_at r" "claimed_by j = r_claimed_by r" "resources j = []" "depends_on j = []"
  using assms job_status_of_Inr [of "r_status r"]
  by (auto simp: row_to_job_def Let_def split: sum.splits)

lemma row_ok_job: "row_ok r \<Longrightarrow> \<exists>j. row_to_job r = Inr j"
  by (auto simp: row_ok_def row_to_job_def Let_def)

lemma row_job_Some: "row_job r = Some j \<longleftrightarrow> row_to_job r = Inr j"
  by (simp add: row_job_def split: sum.splits)

lemma row_ok_to_row: "row_ok (job_to_row j)"
  by (auto simp: row_ok_def job_to_row_def to_meta_dict_def)

lemma sql_stored_row: "row_to_job (job_to_row j) = Inr (sql_stored j)"
  using row_ok_job [OF row_ok_to_row [of j]] by (auto simp: sql_stored_def)

lemma rows_to_jobs_ok:
  "(\<And>r. r \<in> set rs \<Longrightarrow> row_ok r) \<Longrightarrow> rows_to_jobs rs = Inr (map (\<lambda>r. projr (row_to_job r)) rs)"
proof (induction rs)
  case (Cons r rs)
  obtain j where "row_to_job r = Inr j" using row_ok_job Cons.prems by force
  with Cons show ?case by simp
qed simp

text \<open>A change of a row that keeps its identity and routing columns keeps the submission.\<close>

lemma row_change:
  assumes "row_to_job r = Inr j" and "r_job_id r' = r_job_id r" "r_job_type r' = r_job_type r"
    "r_queue_name r' = r_queue_name r" "r_payload r' = r_payload r" "r_priority r' = r_priority r"
    "r_created_at r' = r_created_at r" and "r_status r' = status_value s"
  shows "\<exists>j'. row_to_job r' = Inr j' \<and> same_submission j j' \<and> status j' = s \<and> claimed_by j' = r_claimed_by r'"
proof -
  obtain j' where j': "row_to_job r' = Inr j'" using assms(8) by (simp add: row_to_job_def Let_def)
  have "status_value (status j') = status_value s" using row_to_job_fields(5) [OF j'] assms(8) by simp
  then show ?thesis
    using j' row_to_job_fields [OF j'] row_to_job_fields [OF assms(1)] assms(2-7)
    by (intro exI [of _ j']) (simp add: same_submission_def)
qed

context job_table
begin

abbreviation rinv :: "'d \<Rightarrow> bool" where "rinv \<equiv> sql_inv rows"
abbreviation rview :: "'d \<Rightarrow> string \<Rightarrow> job option" where "rview \<equiv> sql_view rows"

lemma view_row: "rview d i = Some j \<longleftrightarrow> (\<exists>r. rows d i = Some r \<and> row_to_job r = Inr j)"
  by (auto simp: sql_view_def row_job_Some split: option.splits)

lemma view_none: "rinv d \<Longrightarrow> rview d i = None \<longleftrightarrow> rows d i = None"
  using row_ok_job by (fastforce simp: sql_view_def sql_inv_def row_job_def split: option.splits)

lemma row_by_id_run: "row_by_id tb jid d = (Inr (rows d jid), d)"
proof -
  obtain rs where rs: "tb_select tb (\<lambda>r. r_job_id r = jid) d = (Inr rs, d)" "distinct rs"
      "\<forall>r. r \<in> set rs \<longleftrightarrow> r_job_id r = jid \<and> rows d (r_job_id r) = Some r"
    using select_law by blast
  show ?thesis
  proof (cases "rows d jid")
    case None
    then have "x \<notin> set rs" for x using rs(3) by auto
    then have "rs = []" by (metis list.set_intros(1) neq_Nil_conv)
    with rs(1) None show ?thesis by (simp add: row_by_id_def bind_py_def one_or_none_def ret_def)
  next
    case (Some r)
    have "x \<in> set rs \<longleftrightarrow> x = r" for x
      using rs(3) Some key_law [OF Some] by (metis option.inject)
    then have "set rs = {r}" by blast
    then have "length rs = 1" using distinct_card [OF rs(2)] by simp
    then obtain x where "rs = [x]" by (metis One_nat_def length_0_conv length_Suc_conv)
    with \<open>set rs = {r}\<close> have "rs = [r]" by simp
    with rs(1) Some show ?thesis by (simp add: row_by_id_def bind_py_def one_or_none_def ret_def)
  qed
qed

text \<open>An update by primary key changes one row.\<close>

lemma update_one:
  assumes r: "rows d jid = Some r" and p: "P r" "\<And>r. P r \<Longrightarrow> r_job_id r = jid" and f: "\<And>r. r_job_id (f r) = r_job_id r"
  shows "\<exists>d'. tb_update tb P f d = (Inr 1, d') \<and> rows d' = (rows d)(jid \<mapsto> f r)"
proof -
  have only: "rows d i = Some x \<Longrightarrow> P x \<longleftrightarrow> i = jid" for i x
    using key_law p r by (metis option.inject)
  then have "{i. \<exists>x. rows d i = Some x \<and> P x} = {jid}" using r p(1) by auto
  moreover have "(\<lambda>i. map_option (\<lambda>r. if P r then f r else r) (rows d i)) = (rows d)(jid \<mapsto> f r)"
    using only r p(1) by (auto simp: fun_eq_iff map_option_case split: option.splits)
  ultimately show ?thesis using update_law [OF f, of P d] by simp
qed

text \<open>What a write of one row does to the jobs.\<close>

lemma view_write:
  assumes i: "rinv d" and v: "rview d jid = Some j" and w: "rows d' = (rows d)(jid \<mapsto> r')"
    and r': "row_ok r'" "row_to_job r' = Inr j'"
  shows "rinv d' \<and> rview d' = (rview d)(jid \<mapsto> j')"
  using i r' w by (auto simp: sql_inv_def sql_view_def fun_eq_iff row_job_Some)

lemma set_status_run:
  assumes i: "rinv d" and v: "rview d jid = Some j"
  shows "\<exists>d' j'. repo_set_status tb now jid (status_value s) True d = (Inr True, d') \<and> rinv d' \<and>
    rview d' = (rview d)(jid \<mapsto> j') \<and> same_submission j j' \<and> status j' = s \<and> claimed_by j' = None"
proof -
  obtain r where r: "rows d jid = Some r" "row_to_job r = Inr j" using v view_row by blast
  let ?f = "\<lambda>r. r\<lparr>r_status := status_value s, r_updated_at := now, r_claimed_by := None\<rparr>"
  obtain d' where d': "tb_update tb (\<lambda>r. r_job_id r = jid) ?f d = (Inr 1, d')" "rows d' = (rows d)(jid \<mapsto> ?f r)"
    using update_one [of d jid r "\<lambda>r. r_job_id r = jid" ?f] r(1) key_law by auto
  obtain j' where j': "row_to_job (?f r) = Inr j'" "same_submission j j'" "status j' = s" "claimed_by j' = None"
    using row_change [OF r(2), of "?f r" s] by auto
  have "row_ok r" using i r(1) by (simp add: sql_inv_def)
  then have "row_ok (?f r)" by (auto simp: row_ok_def)
  from view_write [OF i v d'(2) this j'(1)] d'(1) j' show ?thesis
    by (auto simp: repo_set_status_def bind_py_def ret_def)
qed

lemma set_status_absent:
  assumes "rinv d" and "rview d jid = None"
  shows "repo_set_status tb now jid st True d = (Inr False, d)"
proof -
  have "rows d jid = None" using assms view_none by blast
  then have "tb_update tb (\<lambda>r. r_job_id r = jid) f d = (Inr 0, d)" for f
    using key_law by (intro update_none) auto
  then show ?thesis by (simp add: repo_set_status_def bind_py_def ret_def)
qed

text \<open>A change of \<open>meta\<close> or of the time stamp touches the job only.\<close>

lemma update_touches:
  assumes i: "rinv d" and f: "\<And>r. row_ok r \<Longrightarrow> row_ok (f r)"
    and same: "\<And>r. r_job_id (f r) = r_job_id r" "\<And>r. r_job_type (f r) = r_job_type r"
      "\<And>r. r_queue_name (f r) = r_queue_name r" "\<And>r. r_payload (f r) = r_payload r"
      "\<And>r. r_priority (f r) = r_priority r" "\<And>r. r_created_at (f r) = r_created_at r"
      "\<And>r. r_status (f r) = r_status r"
  shows "\<exists>n d'. tb_update tb (\<lambda>r. r_job_id r = jid) f d = (Inr n, d') \<and> rinv d' \<and> touched (rview d) (rview d')"
proof (cases "rows d jid")
  case None
  then have "tb_update tb (\<lambda>r. r_job_id r = jid) f d = (Inr 0, d)"
    using key_law by (intro update_none) auto
  with i show ?thesis by auto
next
  case (Some r)
  obtain d' where d': "tb_update tb (\<lambda>r. r_job_id r = jid) f d = (Inr 1, d')" "rows d' = (rows d)(jid \<mapsto> f r)"
    using update_one [of d jid r "\<lambda>r. r_job_id r = jid" f] Some key_law same(1) by auto
  have ok: "row_ok r" using i Some by (simp add: sql_inv_def)
  then obtain j where j: "row_to_job r = Inr j" using row_ok_job by blast
  then have v: "rview d jid = Some j" using Some view_row by blast
  obtain j' where j': "row_to_job (f r) = Inr j'" "same_submission j j'" "status j' = status j"
    using row_change [OF j, of "f r" "status j"] same row_to_job_fields(5) [OF j] by auto
  have "rinv d' \<and> rview d' = (rview d)(jid \<mapsto> j')" using view_write [OF i v d'(2) f [OF ok] j'(1)] .
  with d'(1) touched_upd [of "rview d" jid j j'] v j' show ?thesis by auto
qed

lemma edit_meta_run:
  assumes i: "rinv d"
    and e: "\<And>r. rows d jid = Some r \<Longrightarrow> \<exists>m. edit (r_meta r) = Inr m \<and> (\<forall>r'. row_ok r' \<longrightarrow> row_ok (r'\<lparr>r_meta := m, r_updated_at := now\<rparr>))"
  shows "\<exists>ok d'. repo_edit_meta tb now jid edit d = (Inr ok, d') \<and> rinv d' \<and> touched (rview d) (rview d')"
proof (cases "rows d jid")
  case None
  with i show ?thesis
    by (intro exI [of _ False] exI [of _ d]) (simp add: repo_edit_meta_def bind_py_def row_by_id_run ret_def)
next
  case (Some r)
  obtain m where m: "edit (r_meta r) = Inr m" "\<forall>r'. row_ok r' \<longrightarrow> row_ok (r'\<lparr>r_meta := m, r_updated_at := now\<rparr>)"
    using e [OF Some] by blast
  let ?f = "\<lambda>r. r\<lparr>r_meta := m, r_updated_at := now\<rparr>"
  obtain n d' where "tb_update tb (\<lambda>r. r_job_id r = jid) ?f d = (Inr n, d')" "rinv d'" "touched (rview d) (rview d')"
    using update_touches [OF i, of ?f jid] m(2) by auto
  with Some m(1) show ?thesis
    by (simp add: repo_edit_meta_def bind_py_def row_by_id_run lift_res_def ret_def)
qed

text \<open>The queries.\<close>

lemma get_run: "rinv d \<Longrightarrow> repo_get tb jid d = (Inr (rview d jid), d)"
  using row_ok_job
  by (cases "rows d jid")
    (fastforce simp: repo_get_def bind_py_def row_by_id_run ret_def lift_res_def sql_view_def sql_inv_def row_job_def)+

lemma jobs_of_rows:
  assumes i: "rinv d" and rs: "distinct rs" "\<And>r. r \<in> set rs \<Longrightarrow> rows d (r_job_id r) = Some r"
  shows "\<exists>js. rows_to_jobs rs = Inr js \<and> distinct (map job_id js) \<and> length js = length rs \<and>
    list_all2 (\<lambda>r j. row_to_job r = Inr j) rs js"
proof -
  have ok: "row_ok r" if "r \<in> set rs" for r using that rs(2) i by (auto simp: sql_inv_def)
  have job: "row_to_job r = Inr (projr (row_to_job r))" if "r \<in> set rs" for r
    using row_ok_job [OF ok [OF that]] by auto
  then have id: "job_id (projr (row_to_job r)) = r_job_id r" if "r \<in> set rs" for r
    using that row_to_job_fields(1) by blast
  have "inj_on r_job_id (set rs)" using rs(2) by (intro inj_onI) (metis option.inject)
  then have "distinct (map r_job_id rs)" using rs(1) by (simp add: distinct_map)
  moreover have "map job_id (map (\<lambda>r. projr (row_to_job r)) rs) = map r_job_id rs" using id by simp
  moreover have "list_all2 (\<lambda>r j. row_to_job r = Inr j) rs (map (\<lambda>r. projr (row_to_job r)) rs)"
    using job by (simp add: list_all2_conv_all_nth)
  moreover have "rows_to_jobs rs = Inr (map (\<lambda>r. projr (row_to_job r)) rs)" using ok by (rule rows_to_jobs_ok)
  ultimately show ?thesis by (metis length_map)
qed

lemma list_all2_mem:
  "list_all2 Q xs ys \<Longrightarrow> y \<in> set ys \<Longrightarrow> \<exists>x \<in> set xs. Q x y"
  by (metis in_set_conv_nth list_all2_conv_all_nth)

lemma list_all2_mem_left:
  "list_all2 Q xs ys \<Longrightarrow> x \<in> set xs \<Longrightarrow> \<exists>y \<in> set ys. Q x y"
  by (metis in_set_conv_nth list_all2_conv_all_nth)

lemma all_jobs_run:
  assumes i: "rinv d"
  shows "\<exists>js. repo_all_jobs tb d = (Inr js, d) \<and> distinct (map job_id js) \<and>
    (\<forall>j. j \<in> set js \<longleftrightarrow> rview d (job_id j) = Some j)"
proof -
  obtain rs where rs: "tb_select tb (\<lambda>_. True) d = (Inr rs, d)" "distinct rs"
      "\<forall>r. r \<in> set rs \<longleftrightarrow> rows d (r_job_id r) = Some r"
    using select_law [of "\<lambda>_. True" d] by auto
  obtain js where js: "rows_to_jobs rs = Inr js" "distinct (map job_id js)"
      "list_all2 (\<lambda>r j. row_to_job r = Inr j) rs js"
    using jobs_of_rows [OF i rs(2)] rs(3) by blast
  have "j \<in> set js \<longleftrightarrow> rview d (job_id j) = Some j" for j
  proof
    assume "j \<in> set js"
    then obtain r where "r \<in> set rs" "row_to_job r = Inr j" using list_all2_mem [OF js(3)] by blast
    then show "rview d (job_id j) = Some j" using rs(3) row_to_job_fields(1) view_row by metis
  next
    assume "rview d (job_id j) = Some j"
    then obtain r where r: "rows d (job_id j) = Some r" "row_to_job r = Inr j" using view_row by blast
    then have "r \<in> set rs" using rs(3) row_to_job_fields(1) by metis
    then show "j \<in> set js" using list_all2_mem_left [OF js(3)] r(2) by force
  qed
  with rs(1) js show ?thesis by (auto simp: repo_all_jobs_def bind_py_def lift_res_def ret_def)
qed

lemma queued_run:
  assumes i: "rinv d" and n: "0 \<le> n" and flt: "jt \<noteq> Some []" "qn \<noteq> Some []"
  shows "\<exists>js. repo_queued tb n jt qn d = (Inr js, d) \<and> int (length js) \<le> n \<and> distinct (map job_id js) \<and>
    (\<forall>j \<in> set js. rview d (job_id j) = Some j \<and> dispatchable jt qn j) \<and> sorted (map dispatch_key js) \<and>
    (\<forall>i j. rview d i = Some j \<longrightarrow> dispatchable jt qn j \<longrightarrow> j \<notin> set js \<longrightarrow>
       int (length js) = n \<and> (\<forall>k \<in> set js. dispatch_key k \<le> dispatch_key j))"
proof -
  define P where "P = (\<lambda>r :: job_row. r_status r = status_value QUEUED \<and> wanted jt (r_job_type r) \<and> wanted qn (r_queue_name r))"
  define key where "key = (\<lambda>r :: job_row. (- r_priority r, r_created_at r))"
  obtain rs where rs: "tb_top tb P key n d = (Inr rs, d)" "distinct rs" "int (length rs) \<le> n" "sorted (map key rs)"
      "\<forall>r \<in> set rs. P r \<and> rows d (r_job_id r) = Some r"
      "\<forall>r. P r \<longrightarrow> rows d (r_job_id r) = Some r \<longrightarrow> r \<notin> set rs \<longrightarrow>
         int (length rs) = n \<and> (\<forall>s \<in> set rs. key s \<le> key r)"
    using top_law [OF n, of P key d] by blast
  obtain js where js: "rows_to_jobs rs = Inr js" "distinct (map job_id js)" "length js = length rs"
      "list_all2 (\<lambda>r j. row_to_job r = Inr j) rs js"
    using jobs_of_rows [OF i rs(2)] rs(5) by blast
  have flt': "wanted jt v = passes jt v" "wanted qn v = passes qn v" for v
    using flt by (auto simp: wanted_def passes_def split: option.splits)
  have same: "P r \<longleftrightarrow> dispatchable jt qn j" "key r = dispatch_key j" if "row_to_job r = Inr j" for r j
    by (simp_all only: P_def key_def dispatchable_def dispatch_key_def flt' row_to_job_fields [OF that]
        status_value_inject)
  have "map key rs = map dispatch_key js"
    using js(4) same(2) by (induction rule: list_all2_induct) auto
  then have "sorted (map dispatch_key js)" using rs(4) by simp
  moreover have "rview d (job_id j) = Some j \<and> dispatchable jt qn j" if mem: "j \<in> set js" for j
  proof -
    obtain r where r: "r \<in> set rs" "row_to_job r = Inr j" using list_all2_mem [OF js(4) mem] by blast
    then show ?thesis using rs(5) same(1) [OF r(2)] row_to_job_fields(1) [OF r(2)] view_row by metis
  qed
  moreover have "int (length js) = n \<and> (\<forall>k \<in> set js. dispatch_key k \<le> dispatch_key j)"
    if j: "rview d i = Some j" "dispatchable jt qn j" "j \<notin> set js" for i j
  proof -
    obtain r where r: "rows d i = Some r" "row_to_job r = Inr j" using j(1) view_row by blast
    have "r \<notin> set rs" using j(3) list_all2_mem_left [OF js(4), of r] r(2) by auto
    moreover have "rows d (r_job_id r) = Some r" using r(1) key_law by metis
    ultimately have *: "int (length rs) = n" "\<forall>s \<in> set rs. key s \<le> key r"
      using rs(6) same(1) [OF r(2)] j(2) by auto
    have "dispatch_key k \<le> dispatch_key j" if "k \<in> set js" for k
      using list_all2_mem [OF js(4) that] *(2) same(2) r(2) by metis
    with *(1) js(3) show ?thesis by simp
  qed
  moreover have "repo_queued tb n jt qn d = (Inr js, d)"
    using rs(1) js(1) by (simp add: repo_queued_def bind_py_def lift_res_def ret_def P_def key_def)
  ultimately show ?thesis using js(2,3) rs(3) by (intro exI [of _ js]) auto
qed

end

subsection \<open>Writes\<close>

context job_table
begin

lemma set_claimed_won:
  assumes i: "rinv d" and v: "rview d jid = Some j" and q: "status j = QUEUED"
  shows "\<exists>d' j'. repo_set_claimed tb now jid h w d = (Inr True, d') \<and> rinv d' \<and>
    rview d' = (rview d)(jid \<mapsto> j') \<and> same_submission j j' \<and> status j' = RUNNING \<and>
    claimed_by j' = Some (h @ '':'' @ w)"
proof -
  obtain r where r: "rows d jid = Some r" "row_to_job r = Inr j" using v view_row by blast
  have st: "r_status r = status_value QUEUED" using row_to_job_fields(5) [OF r(2)] q by simp
  define m where "m = dict_set (dict_set (r_meta r) ''host_id'' (PStr h)) ''worker_id'' (PStr w)"
  define f where "f = (\<lambda>r :: job_row. r\<lparr>r_status := status_value RUNNING, r_claimed_by := Some (h @ '':'' @ w),
    r_meta := m, r_updated_at := now\<rparr>)"
  define P where "P = (\<lambda>r :: job_row. r_job_id r = jid \<and> r_status r = status_value QUEUED)"
  have fid: "r_job_id (f x) = r_job_id x" for x by (simp add: f_def)
  have "P r" using st key_law [OF r(1)] by (simp add: P_def)
  then obtain d' where d': "tb_update tb P f d = (Inr 1, d')" "rows d' = (rows d)(jid \<mapsto> f r)"
    using update_one [of d jid r P f, OF r(1) _ _ fid] unfolding P_def by blast
  obtain j' where j': "row_to_job (f r) = Inr j'" "same_submission j j'" "status j' = RUNNING"
      "claimed_by j' = Some (h @ '':'' @ w)"
    using row_change [OF r(2), of "f r" RUNNING] by (auto simp: f_def)
  have "row_ok r" using i r(1) by (simp add: sql_inv_def)
  then have "row_ok (f r)" by (auto simp: row_ok_def f_def m_def intro: exI [of _ RUNNING])
  moreover have "repo_set_claimed tb now jid h w d = (Inr True, d')"
    using d'(1) by (simp only: repo_set_claimed_def bind_py_def row_by_id_run r(1) Let_def option.case
        P_def [symmetric] m_def [symmetric] f_def [symmetric] ret_def prod.case sum.case simp_thms)
  ultimately show ?thesis using view_write [OF i v d'(2) _ j'(1)] j' by blast
qed

lemma set_claimed_lost:
  assumes i: "rinv d" and nq: "\<And>j. rview d jid = Some j \<Longrightarrow> status j \<noteq> QUEUED"
  shows "repo_set_claimed tb now jid h w d = (Inr False, d)"
proof (cases "rows d jid")
  case None
  then show ?thesis by (simp add: repo_set_claimed_def bind_py_def row_by_id_run ret_def)
next
  case (Some r)
  then have "row_ok r" using i by (simp add: sql_inv_def)
  then obtain j where j: "row_to_job r = Inr j" using row_ok_job by blast
  then have "status j \<noteq> QUEUED" using nq view_row Some by blast
  then have "r_status r \<noteq> status_value QUEUED" using row_to_job_fields(5) [OF j] by (metis status_value_inject)
  then have "tb_update tb (\<lambda>r. r_job_id r = jid \<and> r_status r = status_value QUEUED) f d = (Inr 0, d)" for f
    using Some key_law by (intro update_none) (metis option.inject)
  then show ?thesis
    using Some by (simp add: repo_set_claimed_def bind_py_def row_by_id_run ret_def Let_def)
qed

lemma enqueue_run:
  assumes "rinv d" and "rview d (job_id j) = None"
  shows "\<exists>d'. repo_enqueue tb j d = (Inr (job_id j), d') \<and> rinv d' \<and>
    rview d' = (rview d)(job_id j \<mapsto> sql_stored j)"
proof -
  have "rows d (r_job_id (job_to_row j)) = None"
    using assms view_none by (simp add: job_to_row_def)
  then obtain d' where d': "tb_insert tb (job_to_row j) d = (Inr (), d')"
      "rows d' = (rows d)(r_job_id (job_to_row j) \<mapsto> job_to_row j)"
    using insert_fresh by blast
  have id: "r_job_id (job_to_row j) = job_id j" by (simp add: job_to_row_def)
  have "rinv d'" using assms(1) d'(2) row_ok_to_row [of j] by (auto simp: sql_inv_def)
  moreover have "rview d' = (rview d)(job_id j \<mapsto> sql_stored j)"
    using d'(2) id sql_stored_row [of j] by (auto simp: sql_view_def fun_eq_iff row_job_Some)
  ultimately show ?thesis using d'(1) by (simp add: repo_enqueue_def seq_py_def bind_py_def ret_def)
qed

lemma enqueue_taken:
  assumes "rinv d" and "rview d (job_id j) \<noteq> None"
  shows "\<exists>m. repo_enqueue tb j d = (Inl (IntegrityError m), d)"
proof -
  have "rows d (r_job_id (job_to_row j)) \<noteq> None"
    using assms view_none by (auto simp: job_to_row_def)
  from insert_taken [OF this] show ?thesis by (auto simp: repo_enqueue_def seq_py_def bind_py_def)
qed

lemma attempt_run:
  assumes "rinv d"
  shows "\<exists>ok d'. repo_record_attempt tb now jid err d = (Inr ok, d') \<and> rinv d' \<and> touched (rview d) (rview d')"
  unfolding repo_record_attempt_def
proof (rule edit_meta_run [OF assms])
  fix r assume "rows d jid = Some r"
  then have "row_ok r" using assms by (simp add: sql_inv_def)
  then obtain n where "(case dict_get (r_meta r) ''attempts'' of None \<Rightarrow> Inr 0 | Some (PInt n) \<Rightarrow> Inr n
      | Some _ \<Rightarrow> Inl (OtherException ''unsupported operand type(s) for +'')) = Inr n"
    by (auto simp: row_ok_def split: option.splits pyval.splits)
  then show "\<exists>m. count_attempt err (r_meta r) = Inr m \<and>
      (\<forall>r'. row_ok r' \<longrightarrow> row_ok (r'\<lparr>r_meta := m, r_updated_at := now\<rparr>))"
    by (auto simp: count_attempt_def row_ok_def Let_def split: option.splits)
qed

lemma progress_run:
  assumes "rinv d"
  shows "\<exists>ok d'. repo_update_progress tb now jid p d = (Inr ok, d') \<and> rinv d' \<and> touched (rview d) (rview d')"
  unfolding repo_update_progress_def
proof (rule edit_meta_run [OF assms])
  fix r assume "rows d jid = Some r"
  then have "row_ok r" using assms by (simp add: sql_inv_def)
  then show "\<exists>m. Inr (dict_set (r_meta r) ''progress'' (PDict p)) = Inr m \<and>
      (\<forall>r'. row_ok r' \<longrightarrow> row_ok (r'\<lparr>r_meta := m, r_updated_at := now\<rparr>))"
    by (auto simp: row_ok_def)
qed

lemma result_run:
  assumes "rinv d"
  shows "\<exists>ok d'. repo_store_result tb now jid res d = (Inr ok, d') \<and> rinv d' \<and> touched (rview d) (rview d')"
  unfolding repo_store_result_def
proof (rule edit_meta_run [OF assms])
  fix r assume "rows d jid = Some r"
  then have "row_ok r" using assms by (simp add: sql_inv_def)
  then show "\<exists>m. Inr (dict_set (r_meta r) ''result'' res) = Inr m \<and>
      (\<forall>r'. row_ok r' \<longrightarrow> row_ok (r'\<lparr>r_meta := m, r_updated_at := now\<rparr>))"
    by (auto simp: row_ok_def)
qed

lemma heartbeat_run:
  assumes "rinv d"
  shows "\<exists>ok d'. repo_heartbeat tb now jid d = (Inr ok, d') \<and> rinv d' \<and> touched (rview d) (rview d')"
proof -
  obtain n d' where "tb_update tb (\<lambda>r. r_job_id r = jid) (\<lambda>r. r\<lparr>r_updated_at := now\<rparr>) d = (Inr n, d')"
      "rinv d'" "touched (rview d) (rview d')"
    using update_touches [OF assms, of "\<lambda>r. r\<lparr>r_updated_at := now\<rparr>" jid] by (auto simp: row_ok_def)
  then show ?thesis
    by (intro exI [of _ "n = 1"] exI [of _ d']) (simp add: repo_heartbeat_def bind_py_def ret_def)
qed

end

subsection \<open>The contract\<close>

lemma sql_ops_simps [simp]:
  "be_enqueue (sql_ops tb) = repo_enqueue tb"
  "be_dequeue (sql_ops tb) = repo_queued tb"
  "be_claim (sql_ops tb) = repo_set_claimed tb"
  "be_release (sql_ops tb) = (\<lambda>now jid. repo_set_status tb now jid (status_value QUEUED) True)"
  "be_heartbeat (sql_ops tb) = repo_heartbeat tb"
  "be_get (sql_ops tb) = repo_get tb"
  "be_update_status (sql_ops tb) = (\<lambda>now jid st. repo_set_status tb now jid st True)"
  "be_all_jobs (sql_ops tb) = repo_all_jobs tb"
  "be_record_attempt (sql_ops tb) = repo_record_attempt tb"
  "be_update_progress (sql_ops tb) = repo_update_progress tb"
  "be_store_result (sql_ops tb) = repo_store_result tb"
  "be_live (sql_ops tb) b j = j"
  "be_poke (sql_ops tb) i f b = b"
  by (simp_all add: sql_ops_def)

context job_table
begin

lemma enqueue_other:
  assumes "rinv d" and "repo_enqueue tb j d = (x, d')"
  shows "rinv d' \<and> (\<forall>i. i \<noteq> job_id j \<longrightarrow> rview d' i = rview d i)"
proof (cases "rview d (job_id j) = None")
  case True
  with enqueue_run [OF assms(1), of j] assms(2) show ?thesis by auto
next
  case False
  with enqueue_taken [OF assms(1), of j] assms show ?thesis by auto
qed

lemma stored_fields:
  "job_id (sql_stored j) = job_id j \<and> job_type (sql_stored j) = job_type j \<and>
   queue_name (sql_stored j) = queue_name j \<and> status (sql_stored j) = status j \<and>
   priority (sql_stored j) = priority j \<and> payload (sql_stored j) = payload j \<and>
   created_at (sql_stored j) = created_at j"
proof -
  note f = row_to_job_fields [OF sql_stored_row [of j]]
  have "status_value (status (sql_stored j)) = status_value (status j)"
    using f(5) by (simp only: job_to_row_def job_row.select_convs)
  then show ?thesis using f by (simp add: job_to_row_def)
qed

end

sublocale job_table \<subseteq> sqlb: queue_backend "sql_ops tb" "sql_inv rows" "sql_view rows" sql_stored
proof (unfold_locales, goal_cases)
  case (1 b jid)
  then show ?case by (simp add: get_run)
next
  case (2 b jid j)
  then show ?case using view_row key_law row_to_job_fields(1) by metis
next
  case (3 b j)
  then show ?case by (simp only: sql_ops_simps enqueue_run)
next
  case (4 b j r b')
  then show ?case using enqueue_other by simp
next
  case (5 j)
  then show ?case by (rule stored_fields)
next
  case (6 b n jt qn)
  from queued_run [OF this] show ?case unfolding sql_ops_simps by blast
next
  case (7 b jid j now h w)
  then show ?case unfolding sql_ops_simps by (rule set_claimed_won)
next
  case (8 b jid now h w)
  then show ?case unfolding sql_ops_simps by (rule set_claimed_lost)
next
  case (9 b jid j now s)
  from set_status_run [OF this, of now s] show ?case unfolding sql_ops_simps by blast
next
  case (10 b jid now s)
  then show ?case unfolding sql_ops_simps by (rule set_status_absent)
next
  case (11 b jid j now)
  from set_status_run [OF this, of now QUEUED] show ?case unfolding sql_ops_simps by blast
next
  case (12 b jid now)
  then show ?case unfolding sql_ops_simps by (rule set_status_absent)
next
  case (13 b now jid)
  then show ?case unfolding sql_ops_simps by (rule heartbeat_run)
next
  case (14 b now jid err)
  then show ?case unfolding sql_ops_simps by (rule attempt_run)
next
  case (15 b now jid p)
  then show ?case unfolding sql_ops_simps by (rule progress_run)
next
  case (16 b now jid res)
  from result_run [OF this, of now jid res] show ?case unfolding sql_ops_simps by blast
next
  case (17 b j j')
  then show ?case by simp
next
  case (18 b jid j f)
  then show ?case by simp
next
  case (19 b j)
  then show ?case by simp
qed

sublocale job_table \<subseteq> sqlb: listing_backend "sql_ops tb" "sql_inv rows" "sql_view rows" sql_stored
  by unfold_locales (simp only: sql_ops_simps all_jobs_run)

sublocale job_table \<subseteq> sqlb: ordered_backend "sql_ops tb" "sql_inv rows" "sql_view rows" sql_stored
proof (unfold_locales, goal_cases)
  case (1 b n jt qn js)
  with queued_run [of b n jt qn] show ?case by auto
next
  case (2 b n jt qn js i j)
  with queued_run [of b n jt qn] show ?case by fastforce
qed

text \<open>The contract as a fact about every table, for use outside the locale.\<close>

context job_table
begin

lemma sql_contract: "ordered_backend (sql_ops tb) (sql_inv rows) (sql_view rows) sql_stored"
  by (rule sqlb.ordered_backend_axioms)

end

subsection \<open>The table as a list of rows\<close>

text \<open>Of several rows with one key the first counts; an insertion never makes a second one.\<close>

definition find_row :: "job_row list \<Rightarrow> string \<Rightarrow> job_row option" where
  "find_row d i = find (\<lambda>r. r_job_id r = i) d"

definition live_rows :: "job_row list \<Rightarrow> job_row list" where
  "live_rows d = remdups (filter (\<lambda>r. find_row d (r_job_id r) = Some r) d)"

definition list_table :: "job_row list table_ops" where
  "list_table =
     \<lparr>tb_insert = (\<lambda>r d. case find_row d (r_job_id r) of
         None \<Rightarrow> (Inr (), d @ [r])
       | Some _ \<Rightarrow> (Inl (IntegrityError ''UNIQUE constraint failed: jobs.job_id''), d)),
      tb_select = (\<lambda>P d. (Inr (filter P (live_rows d)), d)),
      tb_top = (\<lambda>P k n d. (Inr (slice_to (sort_key k (filter P (live_rows d))) n), d)),
      tb_update = (\<lambda>P f d. (Inr (int (length (filter P (live_rows d)))),
         map (\<lambda>r. if P r \<and> find_row d (r_job_id r) = Some r then f r else r) d)),
      tb_ping = ret ()\<rparr>"

lemma find_row_Some: "find_row d i = Some r \<Longrightarrow> r_job_id r = i \<and> r \<in> set d"
  by (auto simp: find_row_def find_Some_iff)

lemma live_rows_iff: "r \<in> set (live_rows d) \<longleftrightarrow> find_row d (r_job_id r) = Some r"
proof -
  have "find_row d (r_job_id r) = Some r \<Longrightarrow> r \<in> set d" using find_row_Some by blast
  then show ?thesis unfolding live_rows_def set_remdups set_filter by blast
qed

lemma live_rows_distinct: "distinct (live_rows d)"
  by (simp add: live_rows_def)

lemma live_rows_inj: "inj_on r_job_id (set (live_rows d))"
  by (intro inj_onI) (metis live_rows_iff option.inject)

lemma find_row_map:
  assumes "\<And>r. r_job_id (g r) = r_job_id r"
  shows "find_row (map g d) i = map_option g (find_row d i)"
  using assms by (induction d) (auto simp: find_row_def)

lemma find_row_append: "find_row (d @ [r]) i = (case find_row d i of Some x \<Rightarrow> Some x | None \<Rightarrow> if r_job_id r = i then Some r else None)"
  by (induction d) (auto simp: find_row_def)

lemma card_live: "card {i. \<exists>r. find_row d i = Some r \<and> P r} = length (filter P (live_rows d))"
proof -
  have "{i. \<exists>r. find_row d i = Some r \<and> P r} = r_job_id ` set (filter P (live_rows d))"
  proof (intro set_eqI iffI)
    fix i assume "i \<in> {i. \<exists>r. find_row d i = Some r \<and> P r}"
    then obtain r where r: "find_row d i = Some r" "P r" by blast
    then have "r_job_id r = i" using find_row_Some by blast
    with r have "r \<in> set (filter P (live_rows d))" by (simp add: live_rows_iff)
    with \<open>r_job_id r = i\<close> show "i \<in> r_job_id ` set (filter P (live_rows d))" by blast
  next
    fix i assume "i \<in> r_job_id ` set (filter P (live_rows d))"
    then obtain r where "i = r_job_id r" "r \<in> set (live_rows d)" "P r" by auto
    then show "i \<in> {i. \<exists>r. find_row d i = Some r \<and> P r}" using live_rows_iff by blast
  qed
  moreover have "inj_on r_job_id (set (filter P (live_rows d)))"
    using live_rows_inj by (rule inj_on_subset) auto
  moreover have "card (set (filter P (live_rows d))) = length (filter P (live_rows d))"
    by (rule distinct_card) (simp add: live_rows_distinct)
  ultimately show ?thesis by (simp only: card_image)
qed

interpretation listt: job_table list_table find_row
proof (unfold_locales, goal_cases)
  case (1 d i r)
  then show ?case by (simp add: find_row_Some)
next
  case (2 d r)
  then show ?case by (auto simp: list_table_def fun_eq_iff find_row_append split: option.splits)
next
  case (3 d r)
  then show ?case by (auto simp: list_table_def)
next
  case (4 P d)
  then show ?case by (auto simp: list_table_def live_rows_distinct live_rows_iff)
next
  case (5 n P k d)
  let ?s = "sort_key k (filter P (live_rows d))"
  have top: "slice_to ?s n = take (nat n) ?s" using 5 by (simp add: slice_to_def)
  have "sorted (map k (take (nat n) ?s))" by (simp add: take_map [symmetric] sorted_wrt_take)
  moreover have "int (length (take (nat n) ?s)) = n \<and> (\<forall>s \<in> set (take (nat n) ?s). k s \<le> k r)"
    if "P r" "find_row d (r_job_id r) = Some r" "r \<notin> set (take (nat n) ?s)" for r
  proof -
    have "r \<in> set ?s" using that by (simp add: live_rows_iff)
    then have dr: "r \<in> set (drop (nat n) ?s)" using that(3) by (metis append_take_drop_id UnE set_append)
    then have "nat n < length ?s" by (metis drop_all empty_iff leI list.set(1))
    then show ?thesis using dr 5 sorted_take_le [of k ?s _ "nat n" r] by simp
  qed
  moreover have "P r \<and> find_row d (r_job_id r) = Some r" if "r \<in> set (take (nat n) ?s)" for r
    using in_set_takeD [OF that] by (simp add: live_rows_iff)
  moreover have "distinct (take (nat n) ?s)" using live_rows_distinct by simp
  moreover have "tb_top list_table P k n d = (Inr (take (nat n) ?s), d)" using top by (simp add: list_table_def)
  moreover have "int (length (take (nat n) ?s)) \<le> n" using 5 by simp
  ultimately show ?case by blast
next
  case (6 f P d)
  let ?g = "\<lambda>r. if P r \<and> find_row d (r_job_id r) = Some r then f r else r"
  have "find_row (map ?g d) i = map_option (\<lambda>r. if P r then f r else r) (find_row d i)" for i
  proof -
    have "r_job_id (?g r) = r_job_id r" for r using 6 by simp
    then have m: "find_row (map ?g d) i = map_option ?g (find_row d i)" by (rule find_row_map)
    show ?thesis
    proof (cases "find_row d i")
      case None
      then show ?thesis using m by simp
    next
      case (Some r)
      then have "r_job_id r = i" using find_row_Some by blast
      then show ?thesis using m Some by simp
    qed
  qed
  then show ?case by (simp add: list_table_def card_live fun_eq_iff)
next
  case (7 d P f)
  have "filter P (live_rows d) = []" using 7 by (auto simp: filter_empty_conv live_rows_iff)
  moreover have "map (\<lambda>r. if P r \<and> find_row d (r_job_id r) = Some r then f r else r) d = d"
    by (rule map_idI) (use 7 in auto)
  ultimately show ?case by (simp add: list_table_def)
qed

end
