(* ===== verification/Cycle_Search.thy ===== *)
theory Cycle_Search
  imports Jobs_Prelude
begin

section \<open>The graph search behind cycle detection\<close>

text \<open>
  \<open>DependencyTracker.detect_cycle\<close> and \<open>DeadlockGuard._would_cycle\<close> run the same loop over an
  adjacency dictionary: pop a node, stop when it is the target, skip it when visited, otherwise
  mark it and push its successors. The Python stack grows at its end; here its top is the head of
  the list, so \<open>stack.extend(xs)\<close> pushes \<open>rev xs\<close>. The loop ends because every unskipped pass
  marks a new key or meets a node without successors.
\<close>

type_synonym adjacency = "(string, string list) dict"

abbreviation successors :: "adjacency \<Rightarrow> string \<Rightarrow> string list" where
  "successors g x \<equiv> dict_get_or g x []"

definition edge_rel :: "adjacency \<Rightarrow> (string \<times> string) set" where
  "edge_rel g = {(x, y). y \<in> set (successors g x)}"

lemma successors_not_key: "x \<notin> set (dict_keys g) \<Longrightarrow> successors g x = []"
  by (auto simp: dict_get_or_def split: option.split dest: dict_get_Some_fst simp del: set_map)

function search_loop :: "adjacency \<Rightarrow> string \<Rightarrow> string list \<Rightarrow> string set \<Rightarrow> bool" where
  "search_loop g target [] visited = False"
| "search_loop g target (current # stack) visited =
     (if current = target then True
      else if current \<in> visited then search_loop g target stack visited
      else search_loop g target (rev (successors g current) @ stack) (insert current visited))"
  by pat_completeness auto

termination
proof (relation "inv_image (finite_psubset <*lex*> less_than)
    (\<lambda>(g, target, stack, visited). (set (dict_keys g) - visited, length stack))", goal_cases)
  case 1
  show ?case by (intro wf_inv_image wf_lex_prod wf_finite_psubset wf_less_than)
next
  case (2 g target current stack visited)
  then show ?case by simp
next
  case (3 g target current stack visited)
  then show ?case
    using successors_not_key [of current g]
    by (cases "current \<in> set (dict_keys g)") (auto simp: finite_psubset_def simp del: set_map)
qed

text \<open>Soundness: a hit is reached from the stack.\<close>

lemma search_loop_sound:
  "search_loop g target stack visited \<Longrightarrow> \<exists>x \<in> set stack. (x, target) \<in> (edge_rel g)\<^sup>*"
proof (induction g target stack visited rule: search_loop.induct)
  case 1
  then show ?case by simp
next
  case (2 g target current stack visited)
  show ?case
  proof (cases "current = target \<or> current \<in> visited")
    case True
    with 2 show ?thesis by (auto split: if_splits)
  next
    case False
    with 2 obtain x where "x \<in> set (successors g current) \<union> set stack"
        "(x, target) \<in> (edge_rel g)\<^sup>*"
      by auto
    then show ?thesis
      by (auto simp: edge_rel_def intro: converse_rtrancl_into_rtrancl)
  qed
qed

text \<open>Completeness: without a hit, the visited nodes close up around the stack.\<close>

lemma search_loop_closed:
  assumes "\<not> search_loop g target stack visited"
    and "edge_rel g `` visited \<subseteq> visited \<union> set stack" and "target \<notin> visited"
  shows "\<exists>V. visited \<union> set stack \<subseteq> V \<and> edge_rel g `` V \<subseteq> V \<and> target \<notin> V"
  using assms
proof (induction g target stack visited rule: search_loop.induct)
  case (1 g target visited)
  then show ?case by (intro exI [of _ visited]) auto
next
  case (2 g target current stack visited)
  then have ne: "current \<noteq> target" by auto
  show ?case
  proof (cases "current \<in> visited")
    case True
    with 2 ne show ?thesis by (auto simp: insert_absorb)
  next
    case False
    have "edge_rel g `` insert current visited \<subseteq>
        insert current visited \<union> set (rev (successors g current) @ stack)"
      using 2(4) by (auto simp: edge_rel_def)
    with 2 ne False obtain V where
      "insert current visited \<union> set (rev (successors g current) @ stack) \<subseteq> V"
      "edge_rel g `` V \<subseteq> V" "target \<notin> V" by auto
    then show ?thesis by auto
  qed
qed

lemma search_loop_correct:
  "search_loop g target stack {} \<longleftrightarrow> (\<exists>x \<in> set stack. (x, target) \<in> (edge_rel g)\<^sup>*)"
proof
  show "search_loop g target stack {} \<Longrightarrow> \<exists>x \<in> set stack. (x, target) \<in> (edge_rel g)\<^sup>*"
    by (rule search_loop_sound)
next
  assume "\<exists>x \<in> set stack. (x, target) \<in> (edge_rel g)\<^sup>*"
  then obtain x where x: "x \<in> set stack" "(x, target) \<in> (edge_rel g)\<^sup>*" by blast
  show "search_loop g target stack {}"
  proof (rule ccontr)
    assume "\<not> search_loop g target stack {}"
    then obtain V where V: "set stack \<subseteq> V" "edge_rel g `` V \<subseteq> V" "target \<notin> V"
      using search_loop_closed [of g target stack "{}"] by auto
    from x(2) have "target \<in> V"
      by (induction rule: rtrancl_induct) (use x(1) V in auto)
    with V(3) show False by simp
  qed
qed

subsection \<open>Adding edges out of one node\<close>

lemma rtrancl_out_edges:
  "(x, j) \<in> (E \<union> {j} \<times> D)\<^sup>* \<Longrightarrow> (x, j) \<in> E\<^sup>*"
  by (induction rule: converse_rtrancl_induct) (auto intro: converse_rtrancl_into_rtrancl)

lemma acyclic_out_edges:
  assumes "acyclic E" and "\<forall>d \<in> set ds. (d, j) \<notin> E\<^sup>*"
  shows "acyclic (E \<union> {j} \<times> set ds)"
  using assms(2)
proof (induction ds)
  case Nil
  then show ?case using assms(1) by simp
next
  case (Cons d ds)
  have "(d, j) \<notin> (E \<union> {j} \<times> set ds)\<^sup>*"
    using Cons.prems rtrancl_out_edges [of d j E "set ds"] by auto
  moreover have "acyclic (E \<union> {j} \<times> set ds)" using Cons by simp
  moreover have "E \<union> {j} \<times> set (d # ds) = insert (j, d) (E \<union> {j} \<times> set ds)" by auto
  ultimately show ?case by (simp add: acyclic_insert)
qed

lemma edge_rel_set: "edge_rel (dict_set g j ds) \<subseteq> edge_rel g \<union> {j} \<times> set ds"
  by (auto simp: edge_rel_def split: if_splits)

lemma edge_rel_pop: "edge_rel (dict_pop g j) \<subseteq> edge_rel g"
  by (auto simp: edge_rel_def dict_get_or_def split: option.splits if_splits)

lemma acyclic_register:
  assumes "acyclic (edge_rel g)" and "\<forall>d \<in> set ds. (d, j) \<notin> (edge_rel g)\<^sup>*"
  shows "acyclic (edge_rel (dict_set g j ds))"
  using acyclic_out_edges [OF assms] edge_rel_set by (rule acyclic_subset)

lemma acyclic_edge_pop: "acyclic (edge_rel g) \<Longrightarrow> acyclic (edge_rel (dict_pop g j))"
  by (rule acyclic_subset [OF _ edge_rel_pop])

lemma finite_edge_rel: "finite (edge_rel g)"
proof -
  have "edge_rel g \<subseteq> (\<Union>x \<in> set (dict_keys g). {x} \<times> set (successors g x))"
    using successors_not_key by (fastforce simp: edge_rel_def simp del: set_map)
  then show ?thesis by (rule finite_subset) auto
qed

text \<open>In an acyclic graph, some member of a non-empty set of nodes has no successor in it.\<close>

lemma acyclic_has_sink:
  assumes "acyclic (edge_rel g)" and "x \<in> U"
  shows "\<exists>y \<in> U. set (successors g y) \<inter> U = {}"
proof -
  have "wf ((edge_rel g)\<inverse>)"
    using assms(1) finite_edge_rel finite_acyclic_wf_converse by blast
  then obtain y where "y \<in> U" "\<And>z. (z, y) \<in> (edge_rel g)\<inverse> \<Longrightarrow> z \<notin> U"
    using assms(2) wfE_min by metis
  then show ?thesis by (auto simp: edge_rel_def)
qed

end
