(* ===== verification/Dependency.thy ===== *)
theory Dependency
  imports Cycle_Search Domain_Models Py_Text
begin

section \<open>The dependency tracker\<close>

text \<open>
  \<open>scheduler/dependency.py\<close>. The state is the dictionary \<open>_edges\<close>. A \<open>status_getter\<close> is a
  computation over a state \<open>'b\<close> (the dispatcher passes the backend's \<open>get\<close>), so the three
  queries are computations over that state. The tracker's own lock makes each method atomic.
\<close>

record dependency_tracker =
  dt_edges :: adjacency

type_synonym 'b status_getter = "string \<Rightarrow> ('b, job_status option) py"

definition new_tracker :: dependency_tracker where
  "new_tracker = \<lparr>dt_edges = []\<rparr>"

definition dep_failed_states :: "job_status set" where
  "dep_failed_states = {FAILED, CANCELLED, TIMEOUT, TTL_EXPIRED, DEAD_LETTERED}"

definition tracker_register :: "string \<Rightarrow> string list \<Rightarrow> (dependency_tracker, unit) py" where
  "tracker_register jid deps =
     modify (\<lambda>t. if deps \<noteq> [] then t\<lparr>dt_edges := dict_set (dt_edges t) jid deps\<rparr> else t)"

definition tracker_unregister :: "string \<Rightarrow> (dependency_tracker, unit) py" where
  "tracker_unregister jid = modify (\<lambda>t. t\<lparr>dt_edges := dict_pop (dt_edges t) jid\<rparr>)"

definition detect_cycle :: "dependency_tracker \<Rightarrow> string \<Rightarrow> string list \<Rightarrow> bool" where
  "detect_cycle t jid deps =
     (if deps = [] then False else search_loop (dt_edges t) jid (rev deps) {})"

definition cycle_error :: "string \<Rightarrow> string list \<Rightarrow> exn" where
  "cycle_error jid deps =
     DependencyCycleError (''Adding depends_on='' @ repr_str_list deps @ '' for job '' @ jid @
       '' would create a dependency cycle'')"

definition validate_and_register :: "string \<Rightarrow> string list \<Rightarrow> (dependency_tracker, unit) py" where
  "validate_and_register jid deps =
     (\<lambda>t. if deps = [] then (Inr (), t)
          else if detect_cycle t jid deps then (Inl (cycle_error jid deps), t)
          else (Inr (), t\<lparr>dt_edges := dict_set (dt_edges t) jid deps\<rparr>))"

definition get_dependencies :: "dependency_tracker \<Rightarrow> string \<Rightarrow> string list" where
  "get_dependencies t jid = successors (dt_edges t) jid"

fun all_succeeded :: "'b status_getter \<Rightarrow> string list \<Rightarrow> ('b, bool) py" where
  "all_succeeded g [] = ret True"
| "all_succeeded g (d # ds) =
     bind_py (g d) (\<lambda>st. if st \<noteq> Some SUCCEEDED then ret False else all_succeeded g ds)"

definition is_runnable ::
  "dependency_tracker \<Rightarrow> string \<Rightarrow> 'b status_getter \<Rightarrow> ('b, bool) py" where
  "is_runnable t jid g =
     (let deps = successors (dt_edges t) jid in
      if deps = [] then ret True else all_succeeded g deps)"

definition collect_failed :: "'b status_getter \<Rightarrow> string \<Rightarrow> string list \<Rightarrow> ('b, string list) py" where
  "collect_failed g d failed =
     bind_py (g d) (\<lambda>st. ret (case st of
        Some s \<Rightarrow> if s \<in> dep_failed_states then failed @ [d] else failed
      | None \<Rightarrow> failed))"

definition has_failed_dependency ::
  "dependency_tracker \<Rightarrow> string \<Rightarrow> 'b status_getter \<Rightarrow> ('b, bool \<times> string list) py" where
  "has_failed_dependency t jid g =
     (let deps = successors (dt_edges t) jid in
      if deps = [] then ret (False, [])
      else bind_py (fold_py (collect_failed g) deps []) (\<lambda>failed. ret (failed \<noteq> [], failed)))"

text \<open>
  An entry \<open>{"job_id": j, "blocked_by": [{"dep_id": d, "status": s}, ...]}\<close> is the pair of
  \<open>j\<close> and the list of the pairs \<open>(d, s)\<close>.
\<close>

definition collect_blocker ::
  "'b status_getter \<Rightarrow> string \<Rightarrow> (string \<times> string) list \<Rightarrow> ('b, (string \<times> string) list) py" where
  "collect_blocker g d blockers =
     bind_py (g d) (\<lambda>st. ret
       (if st \<noteq> Some SUCCEEDED
        then blockers @ [(d, case st of Some s \<Rightarrow> status_value s | None \<Rightarrow> ''unknown'')]
        else blockers))"

definition collect_blocked ::
  "'b status_getter \<Rightarrow> string \<times> string list \<Rightarrow> (string \<times> (string \<times> string) list) list \<Rightarrow>
   ('b, (string \<times> (string \<times> string) list) list) py" where
  "collect_blocked g entry acc =
     bind_py (fold_py (collect_blocker g) (snd entry) [])
       (\<lambda>blockers. ret (if blockers \<noteq> [] then acc @ [(fst entry, blockers)] else acc))"

definition blocked_jobs_with_reasons ::
  "dependency_tracker \<Rightarrow> 'b status_getter \<Rightarrow> ('b, (string \<times> (string \<times> string) list) list) py" where
  "blocked_jobs_with_reasons t g = fold_py (collect_blocked g) (dt_edges t) []"

subsection \<open>Cycle detection\<close>

lemma detect_cycle_iff:
  "detect_cycle t jid deps \<longleftrightarrow> (\<exists>d \<in> set deps. (d, jid) \<in> (edge_rel (dt_edges t))\<^sup>*)"
  by (auto simp: detect_cycle_def search_loop_correct)

definition tracker_inv :: "dependency_tracker \<Rightarrow> bool" where
  "tracker_inv t \<longleftrightarrow> acyclic (edge_rel (dt_edges t)) \<and> dict_ok (dt_edges t)"

lemma tracker_inv_new [simp]: "tracker_inv new_tracker"
  by (simp add: tracker_inv_def new_tracker_def edge_rel_def acyclic_def)

lemma validate_and_register_inv:
  "tracker_inv t \<Longrightarrow> validate_and_register jid deps t = (r, t') \<Longrightarrow> tracker_inv t'"
  by (auto simp: validate_and_register_def tracker_inv_def detect_cycle_iff
      intro!: acyclic_register split: if_splits)

lemma tracker_unregister_inv:
  "tracker_inv t \<Longrightarrow> tracker_unregister jid t = (r, t') \<Longrightarrow> tracker_inv t'"
  by (auto simp: tracker_unregister_def modify_def tracker_inv_def acyclic_edge_pop)

text \<open>Any sequence of checked registrations and removals on one tracker, refused ones included.\<close>

datatype tracker_call = CheckedRegister string "string list" | Unregister string

fun do_tracker :: "tracker_call \<Rightarrow> dependency_tracker \<Rightarrow> dependency_tracker" where
  "do_tracker (CheckedRegister jid deps) t = snd (validate_and_register jid deps t)"
| "do_tracker (Unregister jid) t = snd (tracker_unregister jid t)"

lemma do_tracker_inv: "tracker_inv t \<Longrightarrow> tracker_inv (do_tracker call t)"
  using validate_and_register_inv tracker_unregister_inv by (cases call) (metis do_tracker.simps prod.collapse)+

lemma tracker_calls_inv: "tracker_inv t \<Longrightarrow> tracker_inv (fold do_tracker calls t)"
  by (induction calls arbitrary: t) (simp_all add: do_tracker_inv)

text \<open>An identifier no registered job mentions cannot close a cycle.\<close>

lemma detect_cycle_fresh:
  assumes "\<forall>ds \<in> set (dict_values (dt_edges t)). jid \<notin> set ds" and "jid \<notin> set deps"
  shows "\<not> detect_cycle t jid deps"
proof
  assume "detect_cycle t jid deps"
  then obtain d where d: "d \<in> set deps" "(d, jid) \<in> (edge_rel (dt_edges t))\<^sup>*"
    by (auto simp: detect_cycle_iff)
  with assms(2) have "d \<noteq> jid" by auto
  with d(2) obtain y where "(y, jid) \<in> edge_rel (dt_edges t)"
    by (metis rtranclE)
  then have "jid \<in> set (successors (dt_edges t) y)" by (simp add: edge_rel_def)
  then obtain ds where "dict_get (dt_edges t) y = Some ds" "jid \<in> set ds"
    by (cases "dict_get (dt_edges t) y") (auto simp: dict_get_or_def)
  with assms(1) show False by (force dest: map_of_SomeD)
qed

subsection \<open>Queries over a getter that only reads\<close>

text \<open>The getters of the source do not change the state and do not raise.\<close>

definition reads_as :: "'b status_getter \<Rightarrow> 'b \<Rightarrow> (string \<Rightarrow> job_status option) \<Rightarrow> bool" where
  "reads_as g b f \<longleftrightarrow> (\<forall>i. g i b = (Inr (f i), b))"

lemma all_succeeded_reads:
  "reads_as g b f \<Longrightarrow> all_succeeded g ds b = (Inr (\<forall>d \<in> set ds. f d = Some SUCCEEDED), b)"
  by (induction ds) (auto simp: reads_as_def py_defs)

lemma is_runnable_reads:
  "reads_as g b f \<Longrightarrow>
     is_runnable t jid g b = (Inr (\<forall>d \<in> set (get_dependencies t jid). f d = Some SUCCEEDED), b)"
  by (auto simp: is_runnable_def get_dependencies_def Let_def all_succeeded_reads ret_def)

definition failed_in :: "(string \<Rightarrow> job_status option) \<Rightarrow> string \<Rightarrow> bool" where
  "failed_in f d \<longleftrightarrow> (\<exists>s. f d = Some s \<and> s \<in> dep_failed_states)"

lemma collect_failed_reads:
  "reads_as g b f \<Longrightarrow> fold_py (collect_failed g) ds acc b = (Inr (acc @ filter (failed_in f) ds), b)"
proof (induction ds arbitrary: acc)
  case Nil
  then show ?case by (simp add: ret_def)
next
  case (Cons d ds)
  then have "collect_failed g d acc b = (Inr (if failed_in f d then acc @ [d] else acc), b)"
    by (simp add: collect_failed_def reads_as_def py_defs failed_in_def split: option.splits)
  with Cons show ?case by (simp add: bind_py_Inr)
qed

lemma has_failed_dependency_reads:
  "reads_as g b f \<Longrightarrow>
     has_failed_dependency t jid g b =
       (let bad = filter (failed_in f) (get_dependencies t jid) in (Inr (bad \<noteq> [], bad), b))"
  by (simp add: has_failed_dependency_def get_dependencies_def Let_def collect_failed_reads
      bind_py_Inr ret_def)

definition blockers_in :: "(string \<Rightarrow> job_status option) \<Rightarrow> string list \<Rightarrow> (string \<times> string) list" where
  "blockers_in f ds =
     map (\<lambda>d. (d, case f d of Some s \<Rightarrow> status_value s | None \<Rightarrow> ''unknown''))
       (filter (\<lambda>d. f d \<noteq> Some SUCCEEDED) ds)"

lemma collect_blocker_reads:
  "reads_as g b f \<Longrightarrow> fold_py (collect_blocker g) ds acc b = (Inr (acc @ blockers_in f ds), b)"
proof (induction ds arbitrary: acc)
  case Nil
  then show ?case by (simp add: ret_def blockers_in_def)
next
  case (Cons d ds)
  then have "collect_blocker g d acc b = (Inr (acc @ blockers_in f [d]), b)"
    by (simp add: collect_blocker_def reads_as_def py_defs blockers_in_def)
  with Cons show ?case by (simp add: bind_py_Inr blockers_in_def)
qed

lemma blocked_jobs_reads:
  "reads_as g b f \<Longrightarrow>
     fold_py (collect_blocked g) es acc b =
       (Inr (acc @ filter (\<lambda>(_, bs). bs \<noteq> []) (map (\<lambda>(j, ds). (j, blockers_in f ds)) es)), b)"
proof (induction es arbitrary: acc)
  case Nil
  then show ?case by (simp add: ret_def)
next
  case (Cons e es)
  then have "collect_blocked g e acc b =
      (Inr (if blockers_in f (snd e) \<noteq> [] then acc @ [(fst e, blockers_in f (snd e))] else acc), b)"
    by (simp add: collect_blocked_def collect_blocker_reads bind_py_Inr ret_def)
  with Cons show ?case by (cases e) (simp add: bind_py_Inr)
qed

end
