(* ===== verification/Concurrency.thy ===== *)
theory Concurrency
  imports Jobs_Prelude "HOL-Library.Multiset"
begin

section \<open>Concurrency limits\<close>

text \<open>
  \<open>scheduler/concurrency.py\<close>. The manager counts the active slots globally and per job type,
  tenant and user. \<open>cm_release\<close> clamps at zero, as the source does.
\<close>

record concurrency_limits =
  global_max :: int
  per_type_max :: int
  per_tenant_max :: int
  per_user_max :: int

definition default_limits :: concurrency_limits where
  "default_limits = \<lparr>global_max = 10, per_type_max = 5, per_tenant_max = 3, per_user_max = 2\<rparr>"

record concurrency_manager =
  cm_limits :: concurrency_limits
  cm_global :: int
  cm_by_type :: "(string, int) dict"
  cm_by_tenant :: "(string, int) dict"
  cm_by_user :: "(string, int) dict"

definition new_concurrency_manager :: "concurrency_limits \<Rightarrow> concurrency_manager" where
  "new_concurrency_manager lim =
     \<lparr>cm_limits = lim, cm_global = 0, cm_by_type = [], cm_by_tenant = [], cm_by_user = []\<rparr>"

definition cm_can_acquire :: "concurrency_manager \<Rightarrow> string \<Rightarrow> string \<Rightarrow> string \<Rightarrow> bool" where
  "cm_can_acquire c jt tenant user \<longleftrightarrow>
     cm_global c < global_max (cm_limits c) \<and>
     dict_get_or (cm_by_type c) jt 0 < per_type_max (cm_limits c) \<and>
     dict_get_or (cm_by_tenant c) tenant 0 < per_tenant_max (cm_limits c) \<and>
     dict_get_or (cm_by_user c) user 0 < per_user_max (cm_limits c)"

definition cm_acquire :: "string \<Rightarrow> string \<Rightarrow> string \<Rightarrow> (concurrency_manager, bool) py" where
  "cm_acquire jt tenant user =
     (\<lambda>c. if \<not> cm_can_acquire c jt tenant user then (Inr False, c)
          else (Inr True,
            c\<lparr>cm_global := cm_global c + 1,
              cm_by_type := dict_set (cm_by_type c) jt (dict_get_or (cm_by_type c) jt 0 + 1),
              cm_by_tenant := dict_set (cm_by_tenant c) tenant (dict_get_or (cm_by_tenant c) tenant 0 + 1),
              cm_by_user := dict_set (cm_by_user c) user (dict_get_or (cm_by_user c) user 0 + 1)\<rparr>))"

definition cm_release :: "string \<Rightarrow> string \<Rightarrow> string \<Rightarrow> (concurrency_manager, unit) py" where
  "cm_release jt tenant user =
     (\<lambda>c. (Inr (),
        c\<lparr>cm_global := max 0 (cm_global c - 1),
          cm_by_type := dict_set (cm_by_type c) jt (max 0 (dict_get_or (cm_by_type c) jt 0 - 1)),
          cm_by_tenant := dict_set (cm_by_tenant c) tenant (max 0 (dict_get_or (cm_by_tenant c) tenant 0 - 1)),
          cm_by_user := dict_set (cm_by_user c) user (max 0 (dict_get_or (cm_by_user c) user 0 - 1))\<rparr>))"

definition cm_active_by_type :: "concurrency_manager \<Rightarrow> string \<Rightarrow> int" where
  "cm_active_by_type c jt = dict_get_or (cm_by_type c) jt 0"

definition cm_active_global :: "concurrency_manager \<Rightarrow> int" where
  "cm_active_global c = cm_global c"

subsection \<open>Counts against the slots really held\<close>

text \<open>
  The specification: the multiset of the slots held, each a triple. The counters are
  right when each of them counts the held slots of its dimension.
\<close>

type_synonym slot = "string \<times> string \<times> string"

definition dim_counts :: "(string, int) dict \<Rightarrow> (slot \<Rightarrow> string) \<Rightarrow> slot multiset \<Rightarrow> bool" where
  "dim_counts d dim held \<longleftrightarrow> (\<forall>t. dict_get_or d t 0 = int (size (filter_mset (\<lambda>s. dim s = t) held)))"

definition cm_counts :: "concurrency_manager \<Rightarrow> slot multiset \<Rightarrow> bool" where
  "cm_counts c held \<longleftrightarrow>
     cm_global c = int (size held) \<and>
     dim_counts (cm_by_type c) fst held \<and>
     dim_counts (cm_by_tenant c) (fst \<circ> snd) held \<and>
     dim_counts (cm_by_user c) (snd \<circ> snd) held"

definition dim_within :: "(string, int) dict \<Rightarrow> int \<Rightarrow> bool" where
  "dim_within d m \<longleftrightarrow> (\<forall>t. 0 \<le> dict_get_or d t 0 \<and> dict_get_or d t 0 \<le> max 0 m)"

definition cm_within :: "concurrency_manager \<Rightarrow> bool" where
  "cm_within c \<longleftrightarrow>
     0 \<le> cm_global c \<and> cm_global c \<le> max 0 (global_max (cm_limits c)) \<and>
     dim_within (cm_by_type c) (per_type_max (cm_limits c)) \<and>
     dim_within (cm_by_tenant c) (per_tenant_max (cm_limits c)) \<and>
     dim_within (cm_by_user c) (per_user_max (cm_limits c))"

lemma dim_counts_inc:
  "dim_counts d dim held \<Longrightarrow> dim s = t \<Longrightarrow>
     dim_counts (dict_set d t (dict_get_or d t 0 + 1)) dim (add_mset s held)"
  by (simp add: dim_counts_def)

lemma dim_counts_dec:
  assumes "dim_counts d dim (add_mset s held)" and "dim s = t"
  shows "dim_counts (dict_set d t (max 0 (dict_get_or d t 0 - 1))) dim held"
  using assms by (auto simp: dim_counts_def)

lemma dim_within_inc:
  "dim_within d m \<Longrightarrow> dict_get_or d t 0 < m \<Longrightarrow> dim_within (dict_set d t (dict_get_or d t 0 + 1)) m"
  by (auto simp: dim_within_def)

lemma dim_within_dec:
  assumes "dim_within d m"
  shows "dim_within (dict_set d t (max 0 (dict_get_or d t 0 - 1))) m"
proof -
  have "dict_get_or d t 0 \<le> max 0 m" using assms by (simp add: dim_within_def)
  then have "max 0 (dict_get_or d t 0 - 1) \<le> max 0 m" by arith
  then show ?thesis using assms by (simp add: dim_within_def)
qed

lemma dim_inc_dec:
  "dim_within d m \<Longrightarrow>
     dict_get_or (dict_set (dict_set d t (dict_get_or d t 0 + 1)) t
       (max 0 (dict_get_or (dict_set d t (dict_get_or d t 0 + 1)) t 0 - 1))) x 0 = dict_get_or d x 0"
  by (auto simp: dim_within_def)

lemma cm_counts_new [simp]: "cm_counts (new_concurrency_manager lim) {#}"
  by (simp add: cm_counts_def dim_counts_def new_concurrency_manager_def)

lemma cm_within_new [simp]: "cm_within (new_concurrency_manager lim)"
  by (simp add: cm_within_def dim_within_def new_concurrency_manager_def)

lemma cm_acquire_limits: "cm_acquire t n u c = (r, c') \<Longrightarrow> cm_limits c' = cm_limits c"
  by (auto simp: cm_acquire_def split: if_splits)

lemma cm_release_limits: "cm_release t n u c = (r, c') \<Longrightarrow> cm_limits c' = cm_limits c"
  by (auto simp: cm_release_def)

lemma cm_acquire_within: "cm_within c \<Longrightarrow> cm_acquire t n u c = (r, c') \<Longrightarrow> cm_within c'"
  by (auto simp: cm_within_def cm_acquire_def cm_can_acquire_def dim_within_inc split: if_splits)

lemma cm_release_within: "cm_within c \<Longrightarrow> cm_release t n u c = (r, c') \<Longrightarrow> cm_within c'"
  by (auto simp: cm_within_def cm_release_def dim_within_dec)

lemma cm_acquire_result: "fst (cm_acquire t n u c) = Inr (cm_can_acquire c t n u)"
  by (simp add: cm_acquire_def)

lemma cm_acquire_counts:
  assumes "cm_counts c held" and "cm_acquire t n u c = (Inr ok, c')"
  shows "cm_counts c' (if ok then add_mset (t, n, u) held else held)"
  using assms by (auto simp: cm_counts_def cm_acquire_def dim_counts_inc split: if_splits)

lemma cm_release_counts:
  assumes "cm_counts c (add_mset (t, n, u) held)"
  shows "\<exists>c'. cm_release t n u c = (Inr (), c') \<and> cm_counts c' held"
  using assms
  by (auto simp: cm_release_def cm_counts_def
      intro: dim_counts_dec [of _ fst "(t, n, u)"] dim_counts_dec [of _ "fst \<circ> snd" "(t, n, u)"]
        dim_counts_dec [of _ "snd \<circ> snd" "(t, n, u)"])

text \<open>Releasing a slot just acquired gives every counter back.\<close>

lemma cm_acquire_release:
  assumes w: "cm_within c" and a: "cm_acquire t n u c = (Inr True, c1)"
    and r: "cm_release t n u c1 = (res, c2)"
  shows "cm_global c2 = cm_global c"
    and "dict_get_or (cm_by_type c2) x 0 = dict_get_or (cm_by_type c) x 0"
    and "dict_get_or (cm_by_tenant c2) x 0 = dict_get_or (cm_by_tenant c) x 0"
    and "dict_get_or (cm_by_user c2) x 0 = dict_get_or (cm_by_user c) x 0"
  using w a r
  by (auto simp: cm_acquire_def cm_release_def cm_within_def dim_within_def split: if_splits)

end
