(* ===== verification/Resource_Pool.thy ===== *)
theory Resource_Pool
  imports Jobs_Prelude
begin

section \<open>The resource pool\<close>

text \<open>
  \<open>scheduler/resource_pool.py\<close>. The pool counts the slots in use per pool name and remembers, per
  job, what it holds. A pool name without a configured limit is unlimited. Every method runs under
  the reentrant lock.
\<close>

record resource_pool =
  rp_limits :: "(string, int) dict"
  rp_used :: "(string, int) dict"
  rp_holders :: "(string, (string, int) dict) dict"

text \<open>\<open>ResourcePoolConfig\<close> and the property \<open>limits\<close>, a copy of its dictionary.\<close>

record resource_pool_config =
  rc_limits :: "(string, int) dict"

definition default_pool_config :: resource_pool_config where
  "default_pool_config = \<lparr>rc_limits = []\<rparr>"

definition configured_pool :: "resource_pool_config option \<Rightarrow> resource_pool" where
  "configured_pool config =
     (let cfg = (case config of None \<Rightarrow> default_pool_config | Some c \<Rightarrow> c) in
      \<lparr>rp_limits = rc_limits cfg, rp_used = [], rp_holders = []\<rparr>)"

definition rp_limits_copy :: "resource_pool \<Rightarrow> (string, int) dict" where
  "rp_limits_copy p = rp_limits p"

definition new_resource_pool :: "(string, int) dict option \<Rightarrow> resource_pool" where
  "new_resource_pool config =
     \<lparr>rp_limits = (case config of None \<Rightarrow> [] | Some l \<Rightarrow> l), rp_used = [], rp_holders = []\<rparr>"

text \<open>An entry \<open>{"used": u, "max": m, "available": a}\<close> is the triple of its values.\<close>

definition rp_utilisation :: "resource_pool \<Rightarrow> (string, int \<times> int \<times> int) dict" where
  "rp_utilisation p =
     map (\<lambda>(pool, limit). let used = dict_get_or (rp_used p) pool 0 in (pool, used, limit, limit - used))
       (rp_limits p)"

definition rp_blocked_count :: "resource_pool \<Rightarrow> int" where
  "rp_blocked_count p =
     foldl (\<lambda>count (pool, limit). if dict_get_or (rp_used p) pool 0 \<ge> limit then count + 1 else count)
       0 (rp_limits p)"

fun rp_check :: "resource_pool \<Rightarrow> (string, int) dict \<Rightarrow> bool" where
  "rp_check p [] = True"
| "rp_check p ((pool, requested) # rest) =
     (case dict_get (rp_limits p) pool of
        None \<Rightarrow> rp_check p rest
      | Some limit \<Rightarrow>
          if dict_get_or (rp_used p) pool 0 + requested > limit then False else rp_check p rest)"

definition rp_can_acquire :: "resource_pool \<Rightarrow> (string, int) dict \<Rightarrow> bool" where
  "rp_can_acquire p res = (if res = [] then True else rp_check p res)"

fun add_slots :: "(string, int) dict \<Rightarrow> (string, int) dict \<Rightarrow> (string, int) dict" where
  "add_slots used [] = used"
| "add_slots used ((pool, requested) # rest) =
     add_slots (dict_set used pool (dict_get_or used pool 0 + requested)) rest"

fun sub_slots :: "(string, int) dict \<Rightarrow> (string, int) dict \<Rightarrow> (string, int) dict" where
  "sub_slots used [] = used"
| "sub_slots used ((pool, slots) # rest) =
     sub_slots (dict_set used pool (max 0 (dict_get_or used pool 0 - slots))) rest"

definition rp_acquire :: "string \<Rightarrow> (string, int) dict \<Rightarrow> (resource_pool, bool) py" where
  "rp_acquire jid res =
     (\<lambda>p. if res = [] then (Inr True, p)
          else if \<not> rp_can_acquire p res then (Inr False, p)
          else (Inr True, p\<lparr>rp_used := add_slots (rp_used p) res,
                            rp_holders := dict_set (rp_holders p) jid res\<rparr>))"

definition rp_release :: "string \<Rightarrow> (resource_pool, unit) py" where
  "rp_release jid =
     (\<lambda>p. (Inr (), p\<lparr>rp_used := sub_slots (rp_used p) (dict_get_or (rp_holders p) jid []),
                     rp_holders := dict_pop (rp_holders p) jid\<rparr>))"

definition rp_held_by :: "resource_pool \<Rightarrow> string \<Rightarrow> (string, int) dict" where
  "rp_held_by p jid = dict_get_or (rp_holders p) jid []"

lemma configured_pool_eq: "configured_pool (map_option resource_pool_config.make config) = new_resource_pool config"
  by (simp add: configured_pool_def new_resource_pool_def default_pool_config_def resource_pool_config.make_def
      split: option.split)

subsection \<open>Accounting\<close>

text \<open>
  The invariant: the slots in use are, pool by pool, the sum over the holders, no count is
  negative, and no limit is exceeded. A request is well formed when it names no pool twice (it is
  a dictionary) and asks for no negative count.
\<close>

abbreviation slots_of :: "(string, int) dict \<Rightarrow> string \<Rightarrow> int" where
  "slots_of res pool \<equiv> dict_get_or res pool 0"

definition request_ok :: "(string, int) dict \<Rightarrow> bool" where
  "request_ok res \<longleftrightarrow> dict_ok res \<and> (\<forall>(_, n) \<in> set res. 0 \<le> n)"

definition held_sum :: "(string, (string, int) dict) dict \<Rightarrow> string \<Rightarrow> int" where
  "held_sum holders pool = sum_list (map (\<lambda>(_, res). slots_of res pool) holders)"

definition rp_inv :: "resource_pool \<Rightarrow> bool" where
  "rp_inv p \<longleftrightarrow>
     dict_ok (rp_holders p) \<and>
     (\<forall>(_, res) \<in> set (rp_holders p). request_ok res) \<and>
     (\<forall>pool. slots_of (rp_used p) pool = held_sum (rp_holders p) pool) \<and>
     (\<forall>pool limit. dict_get (rp_limits p) pool = Some limit \<longrightarrow> held_sum (rp_holders p) pool \<le> max 0 limit)"

lemma request_ok_nonneg: "request_ok res \<Longrightarrow> 0 \<le> slots_of res pool"
  by (auto simp: request_ok_def dict_get_or_def split: option.splits dest!: map_of_SomeD)

lemma request_ok_Cons:
  "request_ok ((pool, n) # rest) \<Longrightarrow> request_ok rest \<and> 0 \<le> n \<and> pool \<notin> set (dict_keys rest)"
  by (auto simp: request_ok_def dict_ok_def simp del: set_map)

lemma slots_of_not_key: "pool \<notin> set (dict_keys res) \<Longrightarrow> slots_of res pool = 0"
  by (auto simp: dict_get_or_def split: option.splits dest: dict_get_Some_fst simp del: set_map)

lemma slots_of_Cons: "slots_of ((q, n) # rest) pool = (if pool = q then n else slots_of rest pool)"
  by (simp add: dict_get_or_def)

lemma add_slots_get:
  "dict_ok res \<Longrightarrow> slots_of (add_slots used res) pool = slots_of used pool + slots_of res pool"
proof (induction used res rule: add_slots.induct)
  case (2 used q n rest)
  then have "dict_ok rest" "q \<notin> set (dict_keys rest)" by (auto simp: dict_ok_def)
  with 2 show ?case by (auto simp: slots_of_Cons slots_of_not_key)
qed simp

lemma sub_slots_get:
  assumes "request_ok res" and "\<forall>pool. slots_of res pool \<le> slots_of used pool"
  shows "slots_of (sub_slots used res) pool = slots_of used pool - slots_of res pool"
  using assms
proof (induction used res rule: sub_slots.induct)
  case (2 used q n rest)
  then have rest: "request_ok rest" "0 \<le> n" "q \<notin> set (dict_keys rest)"
    using request_ok_Cons by blast+
  have le: "n \<le> slots_of used q" using 2(3) by (auto simp: slots_of_Cons dest: spec [of _ q])
  have "\<forall>x. slots_of rest x \<le> slots_of (dict_set used q (max 0 (slots_of used q - n))) x"
    using 2(3) rest(3) by (auto simp: slots_of_Cons slots_of_not_key split: if_splits)
  with 2(1) rest have "slots_of (sub_slots (dict_set used q (max 0 (slots_of used q - n))) rest) pool =
      slots_of (dict_set used q (max 0 (slots_of used q - n))) pool - slots_of rest pool" by simp
  with le rest(3) show ?case by (auto simp: slots_of_Cons slots_of_not_key)
qed simp

lemma rp_check_iff:
  assumes "dict_ok res"
  shows "rp_check p res \<longleftrightarrow>
    (\<forall>pool limit. pool \<in> set (dict_keys res) \<longrightarrow> dict_get (rp_limits p) pool = Some limit \<longrightarrow>
       slots_of (rp_used p) pool + slots_of res pool \<le> limit)"
  using assms
proof (induction p res rule: rp_check.induct)
  case (1 p)
  then show ?case by simp
next
  case (2 p q n rest)
  then have "dict_ok rest" "q \<notin> set (dict_keys rest)" by (auto simp: dict_ok_def)
  with 2 show ?case
    by (auto simp: slots_of_Cons split: option.splits simp del: set_map)
qed

lemma held_sum_set_new:
  "dict_get holders jid = None \<Longrightarrow>
     held_sum (dict_set holders jid res) pool = held_sum holders pool + slots_of res pool"
  by (induction holders jid res rule: dict_set.induct) (auto simp: held_sum_def split: if_splits)

lemma held_sum_pop:
  "dict_ok holders \<Longrightarrow>
     held_sum (dict_pop holders jid) pool = held_sum holders pool - slots_of (dict_get_or holders jid []) pool"
proof (induction holders)
  case Nil
  then show ?case by (simp add: held_sum_def dict_pop_def)
next
  case (Cons h hs)
  then have ok: "dict_ok hs" "fst h \<notin> set (dict_keys hs)" by (auto simp: dict_ok_def)
  show ?case
  proof (cases "fst h = jid")
    case True
    have "dict_pop hs jid = hs"
      using ok(2) True by (simp add: dict_pop_absent del: set_map)
    then show ?thesis using True by (cases h) (simp add: held_sum_def dict_pop_def dict_get_or_def)
  next
    case False
    then show ?thesis
      using Cons ok by (cases h) (simp add: held_sum_def dict_pop_def dict_get_or_def)
  qed
qed

lemma held_sum_nonneg:
  "\<forall>(_, res) \<in> set holders. request_ok res \<Longrightarrow> 0 \<le> held_sum holders pool"
  unfolding held_sum_def by (rule sum_list_nonneg) (auto simp: request_ok_nonneg)

lemma held_sum_member:
  assumes "dict_ok holders" and "\<forall>(_, res) \<in> set holders. request_ok res"
  shows "slots_of (dict_get_or holders jid []) pool \<le> held_sum holders pool"
proof -
  have "0 \<le> held_sum (dict_pop holders jid) pool"
    using assms(2) by (intro held_sum_nonneg) (auto simp: dict_pop_def)
  then show ?thesis using held_sum_pop [OF assms(1), of jid pool] by simp
qed

lemma set_dict_pop_subset: "set (dict_pop d k) \<subseteq> set d"
  by (auto simp: dict_pop_def)

lemma set_dict_set_subset: "set (dict_set d k v) \<subseteq> insert (k, v) (set d)"
  by (induction d k v rule: dict_set.induct) auto

lemma rp_inv_new [simp]: "rp_inv (new_resource_pool config)"
  by (simp add: rp_inv_def new_resource_pool_def held_sum_def)

lemma rp_acquire_inv:
  assumes p: "rp_inv p" and res: "request_ok res" and new: "dict_get (rp_holders p) jid = None"
    and run: "rp_acquire jid res p = (r, p')"
  shows "rp_inv p'"
proof (cases "res \<noteq> [] \<and> rp_can_acquire p res")
  case False
  with run p show ?thesis by (auto simp: rp_acquire_def split: if_splits)
next
  case True
  with run have p': "p' = p\<lparr>rp_used := add_slots (rp_used p) res, rp_holders := dict_set (rp_holders p) jid res\<rparr>"
    by (auto simp: rp_acquire_def)
  have ok: "dict_ok res" using res by (simp add: request_ok_def)
  have chk: "rp_check p res" using True by (simp add: rp_can_acquire_def)
  have sum: "held_sum (dict_set (rp_holders p) jid res) pool = held_sum (rp_holders p) pool + slots_of res pool" for pool
    using new by (rule held_sum_set_new)
  have lim: "held_sum (rp_holders p) pool + slots_of res pool \<le> max 0 limit"
    if "dict_get (rp_limits p) pool = Some limit" for pool limit
  proof (cases "pool \<in> set (dict_keys res)")
    case True
    then show ?thesis
      using chk that p by (auto simp: rp_check_iff [OF ok] rp_inv_def simp del: set_map)
  next
    case False
    then show ?thesis using that p by (simp add: slots_of_not_key rp_inv_def)
  qed
  show ?thesis
    unfolding p' rp_inv_def
    using p res set_dict_set_subset [of "rp_holders p" jid res]
    by (auto simp: rp_inv_def sum lim add_slots_get [OF ok])
qed

lemma rp_release_inv:
  assumes p: "rp_inv p"
  shows "\<exists>p'. rp_release jid p = (Inr (), p') \<and> rp_inv p' \<and> rp_held_by p' jid = [] \<and>
    rp_limits p' = rp_limits p \<and>
    (\<forall>pool. slots_of (rp_used p') pool = slots_of (rp_used p) pool - slots_of (rp_held_by p jid) pool) \<and>
    (\<forall>k. k \<noteq> jid \<longrightarrow> rp_held_by p' k = rp_held_by p k)"
proof -
  let ?h = "dict_get_or (rp_holders p) jid []"
  have inv: "dict_ok (rp_holders p)" "\<forall>(_, res) \<in> set (rp_holders p). request_ok res"
      "\<And>pool. slots_of (rp_used p) pool = held_sum (rp_holders p) pool"
    using p by (auto simp: rp_inv_def)
  have ok: "request_ok ?h"
    using inv(2) by (auto simp: dict_get_or_def request_ok_def split: option.splits dest!: map_of_SomeD)
  have used: "slots_of (sub_slots (rp_used p) ?h) pool = slots_of (rp_used p) pool - slots_of ?h pool" for pool
    using ok held_sum_member [OF inv(1,2)] inv(3) by (simp add: sub_slots_get)
  have lim: "held_sum (rp_holders p) pool - slots_of ?h pool \<le> max 0 limit"
    if "dict_get (rp_limits p) pool = Some limit" for pool limit
    using that p request_ok_nonneg [OF ok, of pool] by (fastforce simp: rp_inv_def)
  have "rp_inv (p\<lparr>rp_used := sub_slots (rp_used p) ?h, rp_holders := dict_pop (rp_holders p) jid\<rparr>)"
    using inv lim set_dict_pop_subset [of "rp_holders p" jid] by (auto simp: rp_inv_def used held_sum_pop)
  then show ?thesis
    by (auto simp: rp_release_def rp_held_by_def used)
qed

end
