(* ===== verification/Dispatcher.thy ===== *)
theory Dispatcher
  imports Backend_Spec Dependency Concurrency Resource_Pool
begin

section \<open>The dispatcher\<close>

text \<open>
  \<open>scheduler/dispatcher.py\<close>. The dispatcher combines a backend with the optional concurrency
  manager, resource pool and dependency tracker, which it shares with the worker and the queue.
  \<open>ds_select\<close> is \<open>select_eligible\<close>, with one pass of its loop in \<open>ds_consider\<close>. A slot is acquired
  with the default tenant and user, as the source calls \<open>acquire(job.job_type)\<close>.
\<close>

record 'b dispatcher =
  ds_backend :: 'b
  ds_concurrency :: "concurrency_manager option"
  ds_pool :: "resource_pool option"
  ds_tracker :: "dependency_tracker option"

definition ds_on_backend :: "('b, 'a) py \<Rightarrow> ('b dispatcher, 'a) py" where
  "ds_on_backend m = on_field ds_backend (\<lambda>b d. d\<lparr>ds_backend := b\<rparr>) m"

definition get_job_status :: "'b backend_ops \<Rightarrow> 'b status_getter" where
  "get_job_status ops jid = bind_py (be_get ops jid) (\<lambda>j. ret (map_option status j))"

definition ds_runnable :: "'b backend_ops \<Rightarrow> job \<Rightarrow> ('b dispatcher, bool) py" where
  "ds_runnable ops j =
     (\<lambda>d. case ds_tracker d of
        None \<Rightarrow> (Inr True, d)
      | Some t \<Rightarrow>
          if depends_on j = [] then (Inr True, d)
          else ds_on_backend (is_runnable t (job_id j) (get_job_status ops)) d)"

definition ds_acquire_slot :: "job \<Rightarrow> ('b dispatcher, bool) py" where
  "ds_acquire_slot j =
     (\<lambda>d. case ds_concurrency d of
        None \<Rightarrow> (Inr True, d)
      | Some c \<Rightarrow>
          (case cm_acquire (job_type j) ''default'' ''default'' c of
             (r, c') \<Rightarrow> (r, d\<lparr>ds_concurrency := Some c'\<rparr>)))"

definition ds_release_slot :: "job \<Rightarrow> ('b dispatcher, unit) py" where
  "ds_release_slot j =
     (\<lambda>d. case ds_concurrency d of
        None \<Rightarrow> (Inr (), d)
      | Some c \<Rightarrow>
          (case cm_release (job_type j) ''default'' ''default'' c of
             (r, c') \<Rightarrow> (r, d\<lparr>ds_concurrency := Some c'\<rparr>)))"

definition ds_acquire_resources :: "job \<Rightarrow> ('b dispatcher, bool) py" where
  "ds_acquire_resources j =
     (\<lambda>d. case ds_pool d of
        None \<Rightarrow> (Inr True, d)
      | Some p \<Rightarrow>
          if resources j = [] then (Inr True, d)
          else (case rp_acquire (job_id j) (resources j) p of
                  (r, p') \<Rightarrow> (r, d\<lparr>ds_pool := Some p'\<rparr>)))"

definition ds_release_resources :: "job \<Rightarrow> ('b dispatcher, unit) py" where
  "ds_release_resources j =
     (\<lambda>d. case ds_pool d of
        None \<Rightarrow> (Inr (), d)
      | Some p \<Rightarrow> (case rp_release (job_id j) p of (r, p') \<Rightarrow> (r, d\<lparr>ds_pool := Some p'\<rparr>)))"

definition ds_consider :: "'b backend_ops \<Rightarrow> job \<Rightarrow> job list \<Rightarrow> ('b dispatcher, job list) py" where
  "ds_consider ops j selected =
     bind_py (ds_runnable ops j) (\<lambda>runnable.
       if \<not> runnable then ret selected
       else bind_py (ds_acquire_slot j) (\<lambda>slot.
         if \<not> slot then ret selected
         else bind_py (ds_acquire_resources j) (\<lambda>res.
           if \<not> res then seq_py (ds_release_slot j) (ret selected)
           else ret (selected @ [j]))))"

definition ds_select :: "'b backend_ops \<Rightarrow> int \<Rightarrow> string option \<Rightarrow> ('b dispatcher, job list) py" where
  "ds_select ops limit qn =
     bind_py (ds_on_backend (be_dequeue ops limit None qn)) (\<lambda>jobs. fold_py (ds_consider ops) jobs [])"

definition ds_release_job :: "job \<Rightarrow> ('b dispatcher, unit) py" where
  "ds_release_job j = seq_py (ds_release_slot j) (ds_release_resources j)"

subsection \<open>What the dispatcher holds\<close>

text \<open>
  The specification state: the jobs for which a slot and resources are held. The counters and
  the pool agree with it, and every limit is respected.
\<close>

definition slot_of :: "job \<Rightarrow> slot" where
  "slot_of j = (job_type j, ''default'', ''default'')"

definition slots_ok :: "concurrency_manager option \<Rightarrow> job list \<Rightarrow> bool" where
  "slots_ok cm held \<longleftrightarrow>
     (\<forall>c. cm = Some c \<longrightarrow> cm_within c \<and> cm_counts c (image_mset slot_of (mset held)))"

definition pool_ok :: "resource_pool option \<Rightarrow> job list \<Rightarrow> bool" where
  "pool_ok pool held \<longleftrightarrow>
     (\<forall>p. pool = Some p \<longrightarrow> rp_inv p \<and>
        (\<forall>jid. dict_get (rp_holders p) jid \<noteq> None \<longrightarrow> (\<exists>j \<in> set held. job_id j = jid)) \<and>
        (\<forall>j \<in> set held. rp_held_by p (job_id j) = resources j))"

definition ds_holds :: "'b dispatcher \<Rightarrow> job list \<Rightarrow> bool" where
  "ds_holds d held \<longleftrightarrow>
     distinct (map job_id held) \<and> slots_ok (ds_concurrency d) held \<and> pool_ok (ds_pool d) held"

definition deps_met :: "dependency_tracker option \<Rightarrow> (string \<rightharpoonup> job) \<Rightarrow> job \<Rightarrow> bool" where
  "deps_met tracker m j \<longleftrightarrow>
     (\<forall>t. tracker = Some t \<longrightarrow> depends_on j \<noteq> [] \<longrightarrow>
        (\<forall>d \<in> set (get_dependencies t (job_id j)). map_option status (m d) = Some SUCCEEDED))"

lemma slots_ok_acquire:
  assumes "slots_ok (ds_concurrency d) held" and "ds_acquire_slot j d = (r, d')"
  shows "\<exists>ok. r = Inr ok \<and> ds_backend d' = ds_backend d \<and> ds_pool d' = ds_pool d \<and> ds_tracker d' = ds_tracker d \<and>
    slots_ok (ds_concurrency d') (if ok then j # held else held)"
proof (cases "ds_concurrency d")
  case None
  with assms show ?thesis by (auto simp: ds_acquire_slot_def slots_ok_def)
next
  case (Some c)
  obtain r1 c' where rc: "cm_acquire (job_type j) ''default'' ''default'' c = (r1, c')"
    by (cases "cm_acquire (job_type j) ''default'' ''default'' c")
  define ok where "ok = cm_can_acquire c (job_type j) ''default'' ''default''"
  have r1: "r1 = Inr ok"
    using cm_acquire_result [of "job_type j" "''default''" "''default''" c] rc by (simp add: ok_def)
  have w: "cm_within c" and n: "cm_counts c (image_mset slot_of (mset held))"
    using assms(1) Some by (simp_all add: slots_ok_def)
  have "cm_within c'" using w rc by (rule cm_acquire_within)
  moreover have "cm_counts c' (image_mset slot_of (mset (if ok then j # held else held)))"
    using cm_acquire_counts [OF n rc [unfolded r1]] by (simp add: slot_of_def split: if_splits)
  moreover have "r = Inr ok" "d' = d\<lparr>ds_concurrency := Some c'\<rparr>"
    using assms(2) Some rc r1 by (simp_all add: ds_acquire_slot_def)
  ultimately show ?thesis by (simp add: slots_ok_def)
qed

lemma slots_ok_release:
  assumes "slots_ok (ds_concurrency d) (j # held)"
  shows "\<exists>d'. ds_release_slot j d = (Inr (), d') \<and> ds_backend d' = ds_backend d \<and> ds_pool d' = ds_pool d \<and> ds_tracker d' = ds_tracker d \<and>
    slots_ok (ds_concurrency d') held"
proof (cases "ds_concurrency d")
  case None
  then show ?thesis by (auto simp: ds_release_slot_def slots_ok_def)
next
  case (Some c)
  then have w: "cm_within c" and n: "cm_counts c (add_mset (job_type j, ''default'', ''default'') (image_mset slot_of (mset held)))"
    using assms by (auto simp: slots_ok_def slot_of_def)
  obtain c' where c': "cm_release (job_type j) ''default'' ''default'' c = (Inr (), c')"
      "cm_counts c' (image_mset slot_of (mset held))"
    using cm_release_counts [OF n] by blast
  with cm_release_within [OF w c'(1)] Some show ?thesis
    by (auto simp: ds_release_slot_def slots_ok_def)
qed

lemma slots_ok_perm: "mset xs = mset ys \<Longrightarrow> slots_ok cm xs = slots_ok cm ys"
  by (simp add: slots_ok_def)

lemma rp_acquire_cases:
  assumes "rp_acquire jid res p = (r, p')" and "res \<noteq> []"
  shows "r = Inr (rp_can_acquire p res) \<and>
    p' = (if rp_can_acquire p res
          then p\<lparr>rp_used := add_slots (rp_used p) res, rp_holders := dict_set (rp_holders p) jid res\<rparr>
          else p)"
  using assms by (auto simp: rp_acquire_def split: if_splits)

lemma pool_ok_acquire:
  assumes ok: "pool_ok (ds_pool d) held" and new: "job_id j \<notin> job_id ` set held"
    and req: "request_ok (resources j)" and run: "ds_acquire_resources j d = (r, d')"
  shows "\<exists>got. r = Inr got \<and> ds_backend d' = ds_backend d \<and> ds_concurrency d' = ds_concurrency d \<and> ds_tracker d' = ds_tracker d \<and>
    pool_ok (ds_pool d') (if got then j # held else held)"
proof (cases "ds_pool d")
  case None
  with run show ?thesis by (auto simp: ds_acquire_resources_def pool_ok_def)
next
  case (Some p)
  have none: "dict_get (rp_holders p) (job_id j) = None"
  proof (rule ccontr)
    assume "dict_get (rp_holders p) (job_id j) \<noteq> None"
    then have "\<exists>k \<in> set held. job_id k = job_id j" using ok Some by (simp add: pool_ok_def)
    with new show False by (metis imageI)
  qed
  show ?thesis
  proof (cases "resources j = []")
    case True
    then have "pool_ok (ds_pool d) (j # held)"
      using ok Some none by (auto simp: pool_ok_def rp_held_by_def dict_get_or_def)
    with run Some True show ?thesis by (auto simp: ds_acquire_resources_def)
  next
    case False
    obtain r1 p1 where a: "rp_acquire (job_id j) (resources j) p = (r1, p1)"
      by (cases "rp_acquire (job_id j) (resources j) p")
    have inv1: "rp_inv p1" using ok Some rp_acquire_inv [OF _ req none a] by (simp add: pool_ok_def)
    have d': "r = r1" "d' = d\<lparr>ds_pool := Some p1\<rparr>"
      using run Some False a by (auto simp: ds_acquire_resources_def)
    have other: "job_id k \<noteq> job_id j" if "k \<in> set held" for k
      using new that by (metis imageI)
    show ?thesis
      using rp_acquire_cases [OF a False] d' inv1 ok Some other
      by (auto simp: pool_ok_def rp_held_by_def dict_get_or_def split: if_splits)
  qed
qed

lemma pool_ok_release:
  assumes ok: "pool_ok (ds_pool d) held" and dist: "distinct (map job_id held)" and j: "j \<in> set held"
  shows "\<exists>d'. ds_release_resources j d = (Inr (), d') \<and> ds_backend d' = ds_backend d \<and> ds_concurrency d' = ds_concurrency d \<and> ds_tracker d' = ds_tracker d \<and>
    pool_ok (ds_pool d') (remove1 j held)"
proof (cases "ds_pool d")
  case None
  then show ?thesis by (auto simp: ds_release_resources_def pool_ok_def)
next
  case (Some p)
  then have p: "rp_inv p" using ok by (simp add: pool_ok_def)
  obtain p' where p': "rp_release (job_id j) p = (Inr (), p')" "rp_inv p'"
      "\<forall>k. k \<noteq> job_id j \<longrightarrow> rp_held_by p' k = rp_held_by p k"
    using rp_release_inv [OF p, of "job_id j"] by blast
  have hold: "rp_holders p' = dict_pop (rp_holders p) (job_id j)"
    using p'(1) by (auto simp: rp_release_def)
  have d: "distinct held" using dist by (simp add: distinct_map)
  have ids: "k \<in> set (remove1 j held) \<Longrightarrow> job_id k \<noteq> job_id j" for k
    using dist j d by (auto simp: distinct_map inj_on_def set_remove1_eq)
  have mem: "k \<in> set held \<Longrightarrow> job_id k \<noteq> job_id j \<Longrightarrow> k \<in> set (remove1 j held)" for k
    using d by (auto simp: set_remove1_eq)
  have own: "\<exists>k \<in> set (remove1 j held). job_id k = jid" if "dict_get (rp_holders p') jid \<noteq> None" for jid
  proof -
    from that hold have "jid \<noteq> job_id j" "dict_get (rp_holders p) jid \<noteq> None" by (auto split: if_splits)
    moreover from this obtain k where "k \<in> set held" "job_id k = jid"
      using ok Some by (auto simp: pool_ok_def)
    ultimately show ?thesis using mem by blast
  qed
  have "rp_held_by p' (job_id k) = resources k" if "k \<in> set (remove1 j held)" for k
    using that ids [OF that] p'(3) ok Some by (auto simp: pool_ok_def dest: notin_set_remove1)
  with own p'(2) have "pool_ok (Some p') (remove1 j held)" by (simp add: pool_ok_def)
  with Some p'(1) show ?thesis by (auto simp: ds_release_resources_def)
qed

text \<open>Releasing a held job gives its slot and its resources back, and nothing else.\<close>

lemma ds_release_job_holds:
  assumes h: "ds_holds d held" and j: "j \<in> set held"
  shows "\<exists>d'. ds_release_job j d = (Inr (), d') \<and> ds_holds d' (remove1 j held) \<and>
    ds_backend d' = ds_backend d \<and> ds_tracker d' = ds_tracker d"
proof -
  have dist: "distinct (map job_id held)" using h by (simp add: ds_holds_def)
  have "mset held = mset (j # remove1 j held)" using j by simp
  then have "slots_ok (ds_concurrency d) (j # remove1 j held)"
    using h slots_ok_perm by (metis ds_holds_def)
  then obtain d1 where d1: "ds_release_slot j d = (Inr (), d1)" "slots_ok (ds_concurrency d1) (remove1 j held)"
      "ds_backend d1 = ds_backend d" "ds_pool d1 = ds_pool d" "ds_tracker d1 = ds_tracker d"
    using slots_ok_release by blast
  then have "pool_ok (ds_pool d1) held" using h by (simp add: ds_holds_def)
  then obtain d2 where d2: "ds_release_resources j d1 = (Inr (), d2)" "pool_ok (ds_pool d2) (remove1 j held)"
      "ds_backend d2 = ds_backend d1" "ds_concurrency d2 = ds_concurrency d1" "ds_tracker d2 = ds_tracker d1"
    using pool_ok_release [OF _ dist j] by blast
  have "distinct (map job_id (remove1 j held))"
    using dist by (metis distinct_map distinct_remove1 inj_on_subset set_remove1_subset)
  then have "ds_holds d2 (remove1 j held)"
    using d1(2) d2(2,4) by (simp add: ds_holds_def)
  then show ?thesis
    using d1 d2 by (auto simp: ds_release_job_def seq_py_Inr)
qed

subsection \<open>Selection over any backend that meets the contract\<close>

locale dispatching = queue_backend
begin

lemma get_job_status_reads:
  "inv b \<Longrightarrow> reads_as (get_job_status ops) b (\<lambda>i. map_option status (view b i))"
  by (simp add: reads_as_def get_job_status_def get_law py_defs)

lemma ds_runnable_eq:
  assumes "inv (ds_backend d)"
  shows "ds_runnable ops j d = (Inr (deps_met (ds_tracker d) (view (ds_backend d)) j), d)"
  using is_runnable_reads [OF get_job_status_reads [OF assms]]
  by (auto simp: ds_runnable_def deps_met_def ds_on_backend_def on_field_def split: option.splits)

lemma ds_consider_holds:
  assumes i: "inv (ds_backend d)" and h: "ds_holds d held"
    and new: "job_id j \<notin> job_id ` set held" and req: "request_ok (resources j)"
  shows "\<exists>d' took. ds_consider ops j selected d = (Inr (if took then selected @ [j] else selected), d') \<and>
    ds_backend d' = ds_backend d \<and> ds_tracker d' = ds_tracker d \<and>
    ds_holds d' (if took then j # held else held) \<and>
    (took \<longrightarrow> deps_met (ds_tracker d) (view (ds_backend d)) j)"
proof (cases "deps_met (ds_tracker d) (view (ds_backend d)) j")
  case False
  then have "ds_consider ops j selected d = (Inr selected, d)"
    by (simp add: ds_consider_def bind_py_def ds_runnable_eq [OF i] ret_def)
  with h show ?thesis by (intro exI [of _ d] exI [of _ False]) simp
next
  case True
  have slots: "slots_ok (ds_concurrency d) held" and pool: "pool_ok (ds_pool d) held"
    and dist: "distinct (map job_id held)"
    using h by (auto simp: ds_holds_def)
  obtain r1 d1 where a1: "ds_acquire_slot j d = (r1, d1)" by (cases "ds_acquire_slot j d")
  obtain got where got: "r1 = Inr got" "ds_backend d1 = ds_backend d" "ds_pool d1 = ds_pool d"
      "ds_tracker d1 = ds_tracker d" "slots_ok (ds_concurrency d1) (if got then j # held else held)"
    using slots_ok_acquire [OF slots a1] by blast
  have step1: "ds_consider ops j selected d =
      (if \<not> got then (Inr selected, d1)
       else bind_py (ds_acquire_resources j) (\<lambda>res. if \<not> res then seq_py (ds_release_slot j) (ret selected)
              else ret (selected @ [j])) d1)"
    using True a1 got(1)
    by (simp add: ds_consider_def bind_py_def ds_runnable_eq [OF i] ret_def)
  show ?thesis
  proof (cases got)
    case False
    with step1 got dist pool show ?thesis
      by (intro exI [of _ d1] exI [of _ False]) (simp add: ds_holds_def)
  next
    case gotT: True
    obtain r2 d2 where a2: "ds_acquire_resources j d1 = (r2, d2)" by (cases "ds_acquire_resources j d1")
    obtain res where res: "r2 = Inr res" "ds_backend d2 = ds_backend d1"
        "ds_concurrency d2 = ds_concurrency d1" "ds_tracker d2 = ds_tracker d1"
        "pool_ok (ds_pool d2) (if res then j # held else held)"
      using pool_ok_acquire [OF _ new req a2] pool got(3) by auto
    show ?thesis
    proof (cases res)
      case True
      then have "ds_consider ops j selected d = (Inr (selected @ [j]), d2)"
        using step1 gotT a2 res(1) by (simp add: bind_py_Inr ret_def)
      moreover have "ds_holds d2 (j # held)"
        using True gotT got(5) res(3,5) dist new by (simp add: ds_holds_def)
      ultimately show ?thesis
        using \<open>deps_met (ds_tracker d) (view (ds_backend d)) j\<close> got res
        by (intro exI [of _ d2] exI [of _ True]) simp
    next
      case False
      have "slots_ok (ds_concurrency d2) (j # held)" using gotT got(5) res(3) by simp
      then obtain d3 where d3: "ds_release_slot j d2 = (Inr (), d3)" "ds_backend d3 = ds_backend d2"
          "ds_pool d3 = ds_pool d2" "ds_tracker d3 = ds_tracker d2" "slots_ok (ds_concurrency d3) held"
        using slots_ok_release by blast
      have "ds_consider ops j selected d = (Inr selected, d3)"
        using step1 gotT a2 res(1) False d3(1) by (simp add: bind_py_Inr seq_py_Inr ret_def)
      moreover have "ds_holds d3 held" using False res(5) d3 dist by (simp add: ds_holds_def)
      ultimately show ?thesis
        using d3 res got by (intro exI [of _ d3] exI [of _ False]) simp
    qed
  qed
qed

lemma ds_fold_holds:
  assumes "inv (ds_backend d)" and "ds_holds d held"
    and "distinct (map job_id jobs)" and "job_id ` set jobs \<inter> job_id ` set held = {}"
    and "\<forall>j \<in> set jobs. request_ok (resources j)"
  shows "\<exists>d' new. fold_py (ds_consider ops) jobs selected d = (Inr (selected @ new), d') \<and>
    ds_backend d' = ds_backend d \<and> ds_tracker d' = ds_tracker d \<and> ds_holds d' (rev new @ held) \<and>
    set new \<subseteq> set jobs \<and> length new \<le> length jobs \<and>
    (\<forall>j \<in> set new. deps_met (ds_tracker d) (view (ds_backend d)) j)"
  using assms
proof (induction jobs arbitrary: d held selected)
  case Nil
  then show ?case by (auto simp: ret_def)
next
  case (Cons j jobs)
  obtain d1 took where s1: "ds_consider ops j selected d = (Inr (if took then selected @ [j] else selected), d1)"
      "ds_backend d1 = ds_backend d" "ds_tracker d1 = ds_tracker d"
      "ds_holds d1 (if took then j # held else held)"
      "took \<longrightarrow> deps_met (ds_tracker d) (view (ds_backend d)) j"
    using ds_consider_holds [OF Cons.prems(1,2), of j selected] Cons.prems(4,5) by auto
  have "job_id ` set jobs \<inter> job_id ` set (if took then j # held else held) = {}"
    using Cons.prems(3,4) by auto
  then obtain d2 new where s2: "fold_py (ds_consider ops) jobs (if took then selected @ [j] else selected) d1 =
        (Inr ((if took then selected @ [j] else selected) @ new), d2)"
      "ds_backend d2 = ds_backend d1" "ds_tracker d2 = ds_tracker d1"
      "ds_holds d2 (rev new @ (if took then j # held else held))"
      "set new \<subseteq> set jobs" "length new \<le> length jobs"
      "\<forall>k \<in> set new. deps_met (ds_tracker d1) (view (ds_backend d1)) k"
    using Cons.IH [of d1 "if took then j # held else held" "if took then selected @ [j] else selected"]
      Cons.prems s1(2,4) by auto
  show ?case
    using s1 s2
    by (intro exI [of _ d2] exI [of _ "if took then j # new else new"]) (auto simp: bind_py_Inr)
qed

lemma ds_select_holds:
  assumes i: "inv (ds_backend d)" and h: "ds_holds d held" and n: "0 \<le> n" and qn: "qn \<noteq> Some []"
    and busy: "\<forall>j \<in> set held. \<forall>k. view (ds_backend d) (job_id j) = Some k \<longrightarrow> status k \<noteq> QUEUED"
    and req: "\<forall>jid j. view (ds_backend d) jid = Some j \<longrightarrow> request_ok (resources j)"
  shows "\<exists>sel d'. ds_select ops n qn d = (Inr sel, d') \<and> ds_backend d' = ds_backend d \<and>
    ds_tracker d' = ds_tracker d \<and> ds_holds d' (rev sel @ held) \<and> int (length sel) \<le> n \<and>
    (\<forall>j \<in> set sel. view (ds_backend d) (job_id j) = Some j \<and> dispatchable None qn j \<and>
       deps_met (ds_tracker d) (view (ds_backend d)) j)"
proof -
  obtain js where js: "be_dequeue ops n None qn (ds_backend d) = (Inr js, ds_backend d)"
      "int (length js) \<le> n" "distinct (map job_id js)"
      "\<forall>j \<in> set js. view (ds_backend d) (job_id j) = Some j \<and> dispatchable None qn j"
    using dequeue_law [OF i n _ qn, of None] by auto
  have eq: "ds_select ops n qn d = fold_py (ds_consider ops) js [] d"
    using js(1) by (simp add: ds_select_def ds_on_backend_def on_field_def bind_py_def)
  have disj: "job_id ` set js \<inter> job_id ` set held = {}"
  proof (rule ccontr)
    assume "job_id ` set js \<inter> job_id ` set held \<noteq> {}"
    then obtain j k where jk: "j \<in> set js" "k \<in> set held" "job_id k = job_id j" by force
    then have "view (ds_backend d) (job_id k) = Some j" "status j = QUEUED"
      using js(4) by (auto simp: dispatchable_def)
    with busy jk(2) show False by blast
  qed
  have "\<forall>j \<in> set js. request_ok (resources j)" using js(4) req by blast
  then obtain d' sel where "fold_py (ds_consider ops) js [] d = (Inr ([] @ sel), d')"
      "ds_backend d' = ds_backend d" "ds_tracker d' = ds_tracker d" "ds_holds d' (rev sel @ held)"
      "set sel \<subseteq> set js" "length sel \<le> length js"
      "\<forall>j \<in> set sel. deps_met (ds_tracker d) (view (ds_backend d)) j"
    using ds_fold_holds [OF i h js(3) disj] by blast
  with eq js show ?thesis by fastforce
qed

text \<open>Without limits, the selection is the dequeued jobs whose dependencies have succeeded.\<close>

lemma ds_fold_unlimited:
  assumes "inv (ds_backend d)" and "ds_concurrency d = None" and "ds_pool d = None"
  shows "fold_py (ds_consider ops) jobs selected d =
    (Inr (selected @ filter (deps_met (ds_tracker d) (view (ds_backend d))) jobs), d)"
proof (induction jobs arbitrary: selected)
  case Nil
  then show ?case by (simp add: ret_def)
next
  case (Cons j jobs)
  have "ds_consider ops j selected d =
      (Inr (if deps_met (ds_tracker d) (view (ds_backend d)) j then selected @ [j] else selected), d)"
    using assms
    by (simp add: ds_consider_def bind_py_def ds_runnable_eq ds_acquire_slot_def
        ds_acquire_resources_def ret_def)
  with Cons show ?case by (simp add: bind_py_Inr)
qed

end

end
