(* ===== verification/Fallback.thy ===== *)
theory Fallback
  imports Backend_Spec
begin

section \<open>Fallback policies\<close>

text \<open>
  \<open>extensions/fallback_policies.py\<close>. The notifier (\<open>httpx.request\<close> by default) is code outside the
  package: a parameter of the manager that answers with an exception or with nothing. The values
  the environment supplies to \<open>apply\<close> are the identifier \<open>uuid4\<close> would return and the clock:
  \<open>clk 0\<close> for the status update, \<open>clk 1\<close> for the dead-letter job.
\<close>

datatype fallback_action = RETRY | DEAD_LETTER | NOTIFY | IGNORE

primrec fallback_action_value :: "fallback_action \<Rightarrow> string" where
  "fallback_action_value RETRY = ''retry''"
| "fallback_action_value DEAD_LETTER = ''dead_letter''"
| "fallback_action_value NOTIFY = ''notify''"
| "fallback_action_value IGNORE = ''ignore''"

record fallback_policy =
  fp_action :: fallback_action
  fp_dead_letter_queue :: string
  fp_notify_url :: "string option"

definition default_policy :: fallback_policy where
  "default_policy = \<lparr>fp_action = RETRY, fp_dead_letter_queue = ''dead_letter'', fp_notify_url = None\<rparr>"

record fallback_decision =
  fd_action :: fallback_action
  fd_status :: string
  fd_should_raise :: bool
  fd_dead_letter_job_id :: "string option"

record fallback_manager =
  fm_policies :: "(string, fallback_policy) dict"
  fm_notifier :: "string \<Rightarrow> string \<Rightarrow> (string, pyval) dict \<Rightarrow> exn + unit"

definition set_policy :: "string \<Rightarrow> fallback_policy \<Rightarrow> fallback_manager \<Rightarrow> fallback_manager" where
  "set_policy jt pol m = m\<lparr>fm_policies := dict_set (fm_policies m) jt pol\<rparr>"

definition policy_for :: "fallback_manager \<Rightarrow> string \<Rightarrow> fallback_policy" where
  "policy_for m jt = dict_get_or (fm_policies m) jt default_policy"

definition dead_letter_job :: "fallback_policy \<Rightarrow> string \<Rightarrow> time \<Rightarrow> job \<Rightarrow> exn \<Rightarrow> job" where
  "dead_letter_job pol uuid now j err =
     (new_job uuid (job_type j) (fp_dead_letter_queue pol)
        [(''error'', PStr (exn_str err)), (''original_payload'', PDict (payload j)),
         (''source_job_id'', PStr (job_id j))]
        QUEUED (priority j) now now)
       \<lparr>app_id := app_id j, tenant_id := tenant_id j, host_id := host_id j, worker_id := worker_id j,
        idempotency_key := idempotency_key j, correlation_id := correlation_id j,
        user_id := user_id j, session_id := session_id j, channel_id := channel_id j\<rparr>"

definition notify_payload :: "job \<Rightarrow> exn \<Rightarrow> (string, pyval) dict" where
  "notify_payload j err =
     [(''job_id'', PStr (job_id j)), (''job_type'', PStr (job_type j)),
      (''status'', PStr (status_value FAILED)), (''error'', PStr (exn_str err)),
      (''queue_name'', PStr (queue_name j))]"

definition fallback_apply ::
  "'b backend_ops \<Rightarrow> fallback_manager \<Rightarrow> string \<Rightarrow> (nat \<Rightarrow> time) \<Rightarrow> job \<Rightarrow> exn \<Rightarrow>
   ('b, fallback_decision) py" where
  "fallback_apply ops m uuid clk j err =
     (let pol = policy_for m (job_type j) in
      case fp_action pol of
        RETRY \<Rightarrow>
          seq_py (be_update_status ops (clk 0) (job_id j) (status_value RETRY_WAIT))
            (ret \<lparr>fd_action = RETRY, fd_status = status_value RETRY_WAIT, fd_should_raise = True,
                  fd_dead_letter_job_id = None\<rparr>)
      | DEAD_LETTER \<Rightarrow>
          seq_py (be_update_status ops (clk 0) (job_id j) (status_value FAILED))
            (bind_py (\<lambda>b. be_enqueue ops (dead_letter_job pol uuid (clk 1) (be_live ops b j) err) b)
               (\<lambda>dlq. ret \<lparr>fd_action = DEAD_LETTER, fd_status = status_value FAILED,
                            fd_should_raise = False, fd_dead_letter_job_id = Some dlq\<rparr>))
      | NOTIFY \<Rightarrow>
          seq_py (be_update_status ops (clk 0) (job_id j) (status_value FAILED))
            (seq_py
               (case fp_notify_url pol of
                  None \<Rightarrow> ret ()
                | Some url \<Rightarrow>
                    if url = [] then ret ()
                    else (\<lambda>b. (fm_notifier m ''POST'' url (notify_payload (be_live ops b j) err), b)))
               (ret \<lparr>fd_action = NOTIFY, fd_status = status_value FAILED, fd_should_raise = False,
                     fd_dead_letter_job_id = None\<rparr>))
      | IGNORE \<Rightarrow>
          seq_py (be_update_status ops (clk 0) (job_id j) (status_value FAILED))
            (ret \<lparr>fd_action = IGNORE, fd_status = status_value FAILED, fd_should_raise = False,
                  fd_dead_letter_job_id = None\<rparr>))"

subsection \<open>Outcome\<close>

text \<open>The state a failed job of a policy ends in, and whether the worker raises.\<close>

definition policy_status :: "fallback_policy \<Rightarrow> job_status" where
  "policy_status pol = (if fp_action pol = RETRY then RETRY_WAIT else FAILED)"

locale falling_back = queue_backend
begin

lemma fallback_apply_fixed:
  assumes i: "inv b" and j: "view b (job_id j) = Some k"
    and act: "fp_action (policy_for m (job_type j)) \<in> {RETRY, IGNORE}"
  shows "\<exists>b' dec k'. fallback_apply ops m uuid clk j err b = (Inr dec, b') \<and> inv b' \<and>
    view b' = (view b)(job_id j \<mapsto> k') \<and> same_submission k k' \<and>
    status k' = policy_status (policy_for m (job_type j)) \<and>
    fd_status dec = status_value (status k') \<and>
    fd_should_raise dec = (fp_action (policy_for m (job_type j)) = RETRY)"
proof -
  let ?s = "policy_status (policy_for m (job_type j))"
  obtain b' k' where b': "be_update_status ops (clk 0) (job_id j) (status_value ?s) b = (Inr True, b')"
      "inv b'" "view b' = (view b)(job_id j \<mapsto> k')" "same_submission k k'" "status k' = ?s"
    using update_status_law [OF i j, of "clk 0" ?s] by blast
  show ?thesis
  proof (cases "fp_action (policy_for m (job_type j)) = RETRY")
    case True
    with b' show ?thesis
      by (intro exI [of _ b'] exI [of _ "\<lparr>fd_action = RETRY, fd_status = status_value RETRY_WAIT,
            fd_should_raise = True, fd_dead_letter_job_id = None\<rparr>"] exI [of _ k'])
        (simp add: fallback_apply_def Let_def policy_status_def seq_py_Inr ret_def)
  next
    case False
    with act b' show ?thesis
      by (intro exI [of _ b'] exI [of _ "\<lparr>fd_action = IGNORE, fd_status = status_value FAILED,
            fd_should_raise = False, fd_dead_letter_job_id = None\<rparr>"] exI [of _ k'])
        (simp add: fallback_apply_def Let_def policy_status_def seq_py_Inr ret_def)
  qed
qed

text \<open>
  The dead-letter policy fails the job and enqueues one new job in the policy's queue, whose
  payload carries the original payload and names the source job.
\<close>

lemma fallback_apply_dead_letter:
  assumes i: "inv b" and j: "view b (job_id j) = Some k" and same: "same_submission j k"
    and act: "fp_action (policy_for m (job_type j)) = DEAD_LETTER"
    and fresh: "view b uuid = None"
  shows "\<exists>b' dec k' dl. fallback_apply ops m uuid clk j err b = (Inr dec, b') \<and> inv b' \<and>
    view b' = (view b)(job_id j \<mapsto> k', uuid \<mapsto> dl) \<and> same_submission k k' \<and> status k' = FAILED \<and>
    job_id dl = uuid \<and> status dl = QUEUED \<and> job_type dl = job_type j \<and> priority dl = priority j \<and>
    queue_name dl = fp_dead_letter_queue (policy_for m (job_type j)) \<and>
    payload dl = [(''error'', PStr (exn_str err)), (''original_payload'', PDict (payload j)),
      (''source_job_id'', PStr (job_id j))] \<and>
    fd_status dec = status_value FAILED \<and> \<not> fd_should_raise dec \<and> fd_dead_letter_job_id dec = Some uuid"
proof -
  let ?pol = "policy_for m (job_type j)"
  obtain b1 k1 where b1: "be_update_status ops (clk 0) (job_id j) (status_value FAILED) b = (Inr True, b1)"
      "inv b1" "view b1 = (view b)(job_id j \<mapsto> k1)" "same_submission k k1" "status k1 = FAILED"
    using update_status_law [OF i j, of "clk 0" FAILED] by blast
  have "view b1 (job_id j) = Some k1" using b1(3) by simp
  then have "be_live ops b1 j = k1 \<or> be_live ops b1 j = j" by (rule live_law [OF b1(2)])
  then have live: "same_submission j (be_live ops b1 j)"
    using same_submission_trans [OF same b1(4)] by auto
  let ?dl = "dead_letter_job ?pol uuid (clk 1) (be_live ops b1 j) err"
  have id: "job_id ?dl = uuid" "result_ref ?dl = None" by (simp_all add: dead_letter_job_def)
  have "uuid \<noteq> job_id j" using fresh j by auto
  then have "view b1 (job_id ?dl) = None" using id fresh b1(3) by simp
  then obtain b2 where b2: "be_enqueue ops ?dl b1 = (Inr uuid, b2)" "inv b2"
      "view b2 = (view b1)(uuid \<mapsto> stored ?dl)"
    using enqueue_fresh [OF b1(2), of ?dl] id by auto
  define dec where "dec = \<lparr>fd_action = DEAD_LETTER, fd_status = status_value FAILED,
    fd_should_raise = False, fd_dead_letter_job_id = Some uuid\<rparr>"
  have run: "fallback_apply ops m uuid clk j err b = (Inr dec, b2)"
    using act b1(1) b2(1)
    by (simp add: fallback_apply_def Let_def seq_py_def bind_py_def ret_def dec_def)
  have "status (stored ?dl) = QUEUED" "job_type (stored ?dl) = job_type j"
    "priority (stored ?dl) = priority j" "queue_name (stored ?dl) = fp_dead_letter_queue ?pol"
    "payload (stored ?dl) = [(''error'', PStr (exn_str err)), (''original_payload'', PDict (payload j)),
      (''source_job_id'', PStr (job_id j))]" "job_id (stored ?dl) = uuid"
    using stored_law [of ?dl] live by (simp_all add: dead_letter_job_def same_submission_def)
  then show ?thesis
    using run b1 b2 by (intro exI [of _ b2] exI [of _ dec] exI [of _ k1] exI [of _ "stored ?dl"])
      (simp add: dec_def)
qed

lemma fallback_apply_notify:
  assumes i: "inv b" and j: "view b (job_id j) = Some k"
    and act: "fp_action (policy_for m (job_type j)) = NOTIFY"
  shows "\<exists>b' r k'. fallback_apply ops m uuid clk j err b = (r, b') \<and> inv b' \<and>
    view b' = (view b)(job_id j \<mapsto> k') \<and> status k' = FAILED \<and>
    (case r of Inl e \<Rightarrow> \<exists>url data. fm_notifier m ''POST'' url data = Inl e
     | Inr dec \<Rightarrow> \<not> fd_should_raise dec)"
proof -
  obtain b' k' where b': "be_update_status ops (clk 0) (job_id j) (status_value FAILED) b = (Inr True, b')"
      "inv b'" "view b' = (view b)(job_id j \<mapsto> k')" "status k' = FAILED"
    using update_status_law [OF i j, of "clk 0" FAILED] by blast
  define sent where "sent = (case fp_notify_url (policy_for m (job_type j)) of None \<Rightarrow> Inr ()
    | Some url \<Rightarrow> if url = [] then Inr ()
        else fm_notifier m ''POST'' url (notify_payload (be_live ops b' j) err))"
  have run: "fallback_apply ops m uuid clk j err b =
      ((case sent of Inl e \<Rightarrow> Inl e | Inr _ \<Rightarrow> Inr \<lparr>fd_action = NOTIFY, fd_status = status_value FAILED,
          fd_should_raise = False, fd_dead_letter_job_id = None\<rparr>), b')"
    using act b'(1)
    by (simp add: fallback_apply_def Let_def seq_py_def bind_py_def ret_def sent_def
        split: sum.split option.split)
  have "\<exists>url data. fm_notifier m ''POST'' url data = Inl e" if "sent = Inl e" for e
    using that by (auto simp: sent_def split: option.splits if_splits)
  then have "case (case sent of Inl e \<Rightarrow> Inl e | Inr _ \<Rightarrow> Inr \<lparr>fd_action = NOTIFY, fd_status = status_value FAILED,
          fd_should_raise = False, fd_dead_letter_job_id = None\<rparr>) of
      Inl e \<Rightarrow> \<exists>url data. fm_notifier m ''POST'' url data = Inl e
    | Inr dec \<Rightarrow> \<not> fd_should_raise dec"
    by (cases sent) auto
  with run b' show ?thesis by blast
qed

text \<open>Under every policy the job ends in the policy's state and other jobs are left alone.\<close>

lemma fallback_apply_outcome:
  assumes i: "inv b" and j: "view b (job_id j) = Some k" and same: "same_submission j k"
    and fresh: "view b uuid = None"
  shows "\<exists>r b'. fallback_apply ops m uuid clk j err b = (r, b') \<and> inv b' \<and>
    map_option status (view b' (job_id j)) = Some (policy_status (policy_for m (job_type j))) \<and>
    (\<forall>i. i \<noteq> job_id j \<longrightarrow> i \<noteq> uuid \<longrightarrow> view b' i = view b i) \<and>
    (case r of
       Inl e \<Rightarrow> fp_action (policy_for m (job_type j)) = NOTIFY \<and> (\<exists>url data. fm_notifier m ''POST'' url data = Inl e)
     | Inr dec \<Rightarrow> fd_should_raise dec = (fp_action (policy_for m (job_type j)) = RETRY))"
proof (cases "fp_action (policy_for m (job_type j))")
  case DEAD_LETTER
  have "uuid \<noteq> job_id j" using fresh j by auto
  with fallback_apply_dead_letter [OF i j same DEAD_LETTER fresh, of clk err] DEAD_LETTER
  show ?thesis by (auto simp: policy_status_def)
next
  case NOTIFY
  with fallback_apply_notify [OF i j NOTIFY, of uuid clk err] show ?thesis
    by (fastforce simp: policy_status_def split: sum.splits)
next
  case RETRY
  with fallback_apply_fixed [OF i j, of m uuid clk err] show ?thesis by auto
next
  case IGNORE
  with fallback_apply_fixed [OF i j, of m uuid clk err] show ?thesis by auto
qed

end

end
