(* ===== verification/Observability.thy ===== *)
theory Observability
  imports Py_Text
begin

section \<open>Audit events, metrics, redaction\<close>

text \<open>
  \<open>observability/audit.py\<close>, \<open>metrics.py\<close> and \<open>logging.py\<close>: the audit event and its schema check,
  the in-memory sink that queue, worker and admin service write to, the counters, the
  redaction of secret-like fields, and the span of \<open>otel.py\<close>.
\<close>

subsection \<open>Audit\<close>

type_synonym audit_event = "(string, pyval) dict"

definition required_fields :: "string set" where
  "required_fields =
     {''timestamp'', ''service'', ''event_type'', ''action'', ''outcome'', ''severity'', ''trace_id'',
      ''request_id'', ''actor'', ''target''}"

definition build_audit_event :: "time \<Rightarrow> string \<Rightarrow> string \<Rightarrow> string \<Rightarrow> audit_event" where
  "build_audit_event now act outcome service =
     [(''timestamp'', PStr (isoformat now)),
      (''service'', PStr service),
      (''event_type'', PStr ''system_function''),
      (''action'', PStr act),
      (''outcome'', PStr outcome),
      (''severity'', PStr ''INFO''),
      (''trace_id'', PStr ''trace-test''),
      (''request_id'', PStr ''request-test''),
      (''actor'', PDict [(''type'', PStr ''system''), (''id'', PStr ''worker'')]),
      (''target'', PDict [(''type'', PStr ''job''), (''id'', PStr ''job-test'')])]"

definition validate_audit_event_schema :: "audit_event \<Rightarrow> bool" where
  "validate_audit_event_schema ev \<longleftrightarrow> required_fields \<subseteq> set (dict_keys ev)"

record audit_emitter =
  au_events :: "audit_event list"

definition new_audit_emitter :: audit_emitter where
  "new_audit_emitter = \<lparr>au_events = []\<rparr>"

definition emit :: "time \<Rightarrow> string \<Rightarrow> string \<Rightarrow> (audit_emitter, audit_event) py" where
  "emit now act outcome =
     (\<lambda>a. let ev = build_audit_event now act outcome ''cloud_dog_jobs''
          in (Inr ev, a\<lparr>au_events := au_events a @ [ev]\<rparr>))"

text \<open>The actions and outcomes of a log, which is what the events of the package differ in.\<close>

definition audit_pair :: "audit_event \<Rightarrow> pyval option \<times> pyval option" where
  "audit_pair ev = (dict_get ev ''action'', dict_get ev ''outcome'')"

definition audit_log :: "audit_emitter \<Rightarrow> (pyval option \<times> pyval option) list" where
  "audit_log a = map audit_pair (au_events a)"

lemma build_audit_event_valid: "validate_audit_event_schema (build_audit_event now a out s)"
  by (simp add: validate_audit_event_schema_def required_fields_def build_audit_event_def)

lemma emit_log:
  "emit now act outcome a = (r, a') \<Longrightarrow>
     audit_log a' = audit_log a @ [(Some (PStr act), Some (PStr outcome))]"
  by (auto simp: emit_def Let_def audit_log_def audit_pair_def build_audit_event_def)

definition audit_ok :: "audit_emitter \<Rightarrow> bool" where
  "audit_ok a \<longleftrightarrow> (\<forall>ev \<in> set (au_events a). validate_audit_event_schema ev)"

lemma emit_audit_ok: "audit_ok a \<Longrightarrow> emit now act outcome a = (r, a') \<Longrightarrow> audit_ok a'"
  by (auto simp: audit_ok_def emit_def Let_def build_audit_event_valid)

subsection \<open>Metrics\<close>

record metrics =
  mt_counters :: "(string, int) dict"

definition new_metrics :: metrics where
  "new_metrics = \<lparr>mt_counters = []\<rparr>"

definition metrics_inc :: "string \<Rightarrow> int \<Rightarrow> (metrics, unit) py" where
  "metrics_inc key value =
     modify (\<lambda>m. m\<lparr>mt_counters := dict_set (mt_counters m) key (dict_get_or (mt_counters m) key 0 + value)\<rparr>)"

definition metrics_get :: "metrics \<Rightarrow> string \<Rightarrow> int" where
  "metrics_get m key = dict_get_or (mt_counters m) key 0"

lemma metrics_get_inc:
  "metrics_inc key v m = (r, m') \<Longrightarrow> metrics_get m' k = metrics_get m k + (if k = key then v else 0)"
  by (auto simp: metrics_inc_def modify_def metrics_get_def)

subsection \<open>Redaction\<close>

definition redacted_tokens :: "string list" where
  "redacted_tokens = [''password'', ''secret'', ''token'', ''key'', ''credential'']"

definition redaction :: pyval where
  "redaction = PStr ''***REDACTED***''"

fun redact_from :: "(string, pyval) dict \<Rightarrow> (string, pyval) dict \<Rightarrow> (string, pyval) dict" where
  "redact_from out [] = out"
| "redact_from out ((key, value) # rest) =
     redact_from
       (dict_set out key
          (if list_ex (\<lambda>tok. str_in tok (py_lower key)) redacted_tokens then redaction else value))
       rest"

definition redact_secrets :: "(string, pyval) dict \<Rightarrow> (string, pyval) dict" where
  "redact_secrets data = redact_from [] data"

abbreviation secret_key :: "string \<Rightarrow> bool" where
  "secret_key key \<equiv> list_ex (\<lambda>tok. str_in tok (py_lower key)) redacted_tokens"

lemma redact_from_get:
  assumes "dict_ok data"
  shows "dict_get (redact_from out data) k =
    (case dict_get data k of
       None \<Rightarrow> dict_get out k
     | Some v \<Rightarrow> Some (if secret_key k then redaction else v))"
  using assms
proof (induction out data rule: redact_from.induct)
  case (1 out)
  then show ?case by simp
next
  case (2 out key val rest)
  then have ok: "dict_ok rest" and key: "dict_get rest key = None"
    by (auto simp: dict_ok_def map_of_eq_None_iff)
  show ?case
    unfolding redact_from.simps 2(1) [OF ok] using key by (auto split: option.splits)
qed

lemma redact_secrets_get:
  "dict_ok data \<Longrightarrow>
     dict_get (redact_secrets data) k =
       map_option (\<lambda>v. if secret_key k then redaction else v) (dict_get data k)"
  by (simp add: redact_secrets_def redact_from_get split: option.splits)

subsection \<open>Spans\<close>

text \<open>
  \<open>with span(name): body\<close>. \<open>enter\<close> imports the OpenTelemetry library and starts a span, \<open>leave\<close> ends it and,
  as documented, lets an exception of the body pass. An exception anywhere inside the first \<open>try\<close> makes the
  generator yield a second time; when that happens after the body has run, the context manager of the
  standard library raises \<open>RuntimeError\<close>.
\<close>

definition with_span :: "('s, unit) py \<Rightarrow> ('s, unit) py \<Rightarrow> ('s, 'a) py \<Rightarrow> ('s, 'a) py" where
  "with_span enter leave body =
     (\<lambda>s. case enter s of
        (Inl _, s1) \<Rightarrow> body s1
      | (Inr _, s1) \<Rightarrow>
          (case body s1 of
             (Inr x, s2) \<Rightarrow>
               (case leave s2 of
                  (Inr _, s3) \<Rightarrow> (Inr x, s3)
                | (Inl _, s3) \<Rightarrow> (Inl (RuntimeError ''generator didn't stop''), s3))
           | (Inl _, s2) \<Rightarrow>
               (case leave s2 of (_, s3) \<Rightarrow> (Inl (RuntimeError ''generator didn't stop after throw()''), s3))))"

end
