(* ===== verification/Worker.thy ===== *)
theory Worker
  imports Dispatcher Fallback Observability
begin

section \<open>The worker\<close>

text \<open>
  \<open>worker/worker.py\<close> with \<open>handlers.py\<close>, \<open>context.py\<close>, \<open>heartbeat.py\<close> and \<open>pause.py\<close>.

  A handler is user code: a parameter, a function of the context that may read and change the
  backend (for instance through \<open>update_progress\<close> or \<open>store_result\<close>) and that returns or raises. When a run
  timeout is configured, the environment decides with \<open>expires\<close> whether the timeout hits: it
  gives the backend state at that moment and the effect of the rest of the handler, which runs
  to its end when the thread pool shuts down. \<open>clk\<close> numbers the clock readings of one call.
  The worker's \<open>Job\<close> object is read through \<open>be_live\<close> where the handler sees it.
\<close>

subsection \<open>Context, handlers, pause\<close>

record job_context =
  ctx_job :: job
  ctx_cancelled :: bool
  ctx_progress :: "(string, pyval) dict"

definition new_context :: "job \<Rightarrow> job_context" where
  "new_context j = \<lparr>ctx_job = j, ctx_cancelled = False, ctx_progress = []\<rparr>"

definition ctx_check_cancellation :: "(job_context, unit) py" where
  "ctx_check_cancellation =
     (\<lambda>c. if ctx_cancelled c then (Inl (RuntimeError ''Job cancelled''), c) else (Inr (), c))"

definition ctx_update_progress ::
  "time \<Rightarrow> pyval \<Rightarrow> string \<Rightarrow> (string, int) dict option \<Rightarrow> string option \<Rightarrow>
   (job_context, (string, pyval) dict) py" where
  "ctx_update_progress now percentage stage counters current_item =
     (\<lambda>c. let p = [(''percentage'', percentage), (''stage'', PStr stage),
                   (''counters'', PDict (map (\<lambda>(k, n). (k, PInt n)) (case counters of None \<Rightarrow> [] | Some d \<Rightarrow> d))),
                   (''current_item'', opt_str current_item),
                   (''updated_at'', PStr (isoformat now))]
          in (Inr p, c\<lparr>ctx_progress := p\<rparr>))"

type_synonym 'b handler = "job_context \<Rightarrow> ('b, pyval) py"

type_synonym 'b expiry = "job_context \<Rightarrow> 'b \<Rightarrow> ('b \<times> ('b \<Rightarrow> 'b)) option"

type_synonym 'b handler_registry = "(string, 'b handler) dict"

definition registry_register :: "string \<Rightarrow> 'b handler \<Rightarrow> 'b handler_registry \<Rightarrow> 'b handler_registry" where
  "registry_register jt h reg = dict_set reg jt h"

definition registry_get :: "'b handler_registry \<Rightarrow> string \<Rightarrow> exn + 'b handler" where
  "registry_get reg jt =
     (case dict_get reg jt of
        None \<Rightarrow> Inl (KeyError (''Unknown job_type: '' @ jt))
      | Some h \<Rightarrow> Inr h)"

definition heartbeat_touch :: "'b backend_ops \<Rightarrow> time \<Rightarrow> string \<Rightarrow> ('b, bool) py" where
  "heartbeat_touch ops now jid = be_heartbeat ops now jid"

record pause_controller =
  pc_paused :: bool

definition pause_task :: "pause_controller \<Rightarrow> pause_controller" where
  "pause_task p = p\<lparr>pc_paused := True\<rparr>"

definition resume_task :: "pause_controller \<Rightarrow> pause_controller" where
  "resume_task p = p\<lparr>pc_paused := False\<rparr>"

definition is_paused :: "pause_controller \<Rightarrow> bool" where
  "is_paused p = pc_paused p"

subsection \<open>The worker object\<close>

record 'b worker_config =
  wk_host_id :: string
  wk_worker_id :: string
  wk_queue_name :: "string option"
  wk_handlers :: "'b handler_registry"
  wk_run_timeout :: "string option"
  wk_authoriser :: "(string \<Rightarrow> string \<Rightarrow> bool) option"
  wk_fallback :: "fallback_manager option"

record 'b worker_state =
  ws_dispatch :: "'b dispatcher"
  ws_audit :: audit_emitter
  ws_metrics :: metrics
  ws_stopped :: bool

text \<open>\<open>self._dispatcher\<close> exists exactly when one of its three parts was supplied.\<close>

definition has_dispatcher :: "'b dispatcher \<Rightarrow> bool" where
  "has_dispatcher d \<longleftrightarrow> ds_pool d \<noteq> None \<or> ds_concurrency d \<noteq> None \<or> ds_tracker d \<noteq> None"

definition ws_on_dispatch :: "('b dispatcher, 'a) py \<Rightarrow> ('b worker_state, 'a) py" where
  "ws_on_dispatch m = on_field ws_dispatch (\<lambda>d w. w\<lparr>ws_dispatch := d\<rparr>) m"

definition ws_on_backend :: "('b, 'a) py \<Rightarrow> ('b worker_state, 'a) py" where
  "ws_on_backend m = ws_on_dispatch (ds_on_backend m)"

definition ws_emit :: "time \<Rightarrow> string \<Rightarrow> string \<Rightarrow> ('b worker_state, unit) py" where
  "ws_emit now act outcome =
     seq_py (on_field ws_audit (\<lambda>a w. w\<lparr>ws_audit := a\<rparr>) (emit now act outcome)) (ret ())"

definition ws_inc :: "string \<Rightarrow> ('b worker_state, unit) py" where
  "ws_inc key = on_field ws_metrics (\<lambda>m w. w\<lparr>ws_metrics := m\<rparr>) (metrics_inc key 1)"

definition ws_release_job :: "job \<Rightarrow> ('b worker_state, unit) py" where
  "ws_release_job j =
     (\<lambda>w. if has_dispatcher (ws_dispatch w) then ws_on_dispatch (ds_release_job j) w else (Inr (), w))"

definition ws_select :: "'b backend_ops \<Rightarrow> 'b worker_config \<Rightarrow> ('b worker_state, job list) py" where
  "ws_select ops cfg =
     (\<lambda>w. if has_dispatcher (ws_dispatch w)
          then ws_on_dispatch (ds_select ops 1 (wk_queue_name cfg)) w
          else ws_on_backend (be_dequeue ops 1 None (wk_queue_name cfg)) w)"

subsection \<open>Running the handler\<close>

text \<open>
  The handler with its timeout. \<open>future.result\<close> raises \<open>TimeoutError\<close> when the timeout hits and
  also hands on a \<open>TimeoutError\<close> the handler raised itself; both take the same \<open>except\<close> clause. That is
  Python from 3.11 on, where \<open>concurrent.futures.TimeoutError\<close> is the built-in class; on 3.10 they are two
  classes, and a \<open>TimeoutError\<close> of the handler is an exception like any other.
\<close>

definition timeout_error :: "string \<Rightarrow> exn" where
  "timeout_error secs = TimeoutError (''Job timed out after '' @ secs @ ''s'')"

definition ws_timed_out ::
  "'b backend_ops \<Rightarrow> (nat \<Rightarrow> time) \<Rightarrow> string \<Rightarrow> job \<Rightarrow> ('b worker_state, unit) py" where
  "ws_timed_out ops clk secs j =
     seq_py (ws_on_backend (be_update_status ops (clk 3) (job_id j) (status_value TIMEOUT)))
       (seq_py (ws_emit (clk 4) ''job.transition'' ''failure'')
          (seq_py (ws_inc ''jobs.timed_out'')
             (raise_exn (timeout_error secs))))"

definition ws_run_handler ::
  "'b backend_ops \<Rightarrow> 'b worker_config \<Rightarrow> 'b expiry \<Rightarrow> (nat \<Rightarrow> time) \<Rightarrow> 'b handler \<Rightarrow> job_context \<Rightarrow> job \<Rightarrow>
   ('b worker_state, unit) py" where
  "ws_run_handler ops cfg expires clk h ctx j =
     (case wk_run_timeout cfg of
        None \<Rightarrow> seq_py (ws_on_backend (h ctx)) (ret ())
      | Some secs \<Rightarrow>
          (\<lambda>w. case expires ctx (ds_backend (ws_dispatch w)) of
             Some (b', rest) \<Rightarrow>
               try_finally
                 (seq_py (ws_on_backend (\<lambda>_. (Inr (), b'))) (ws_timed_out ops clk secs j))
                 (ws_on_backend (\<lambda>b. (Inr (), rest b))) w
           | None \<Rightarrow>
               try_except (seq_py (ws_on_backend (h ctx)) (ret ()))
                 (\<lambda>e. case e of TimeoutError _ \<Rightarrow> ws_timed_out ops clk secs j | _ \<Rightarrow> raise_exn e) w))"

definition ws_complete ::
  "'b backend_ops \<Rightarrow> 'b worker_config \<Rightarrow> 'b expiry \<Rightarrow> (nat \<Rightarrow> time) \<Rightarrow> 'b handler \<Rightarrow> job_context \<Rightarrow> job \<Rightarrow>
   ('b worker_state, bool) py" where
  "ws_complete ops cfg expires clk h ctx j =
     seq_py (ws_on_backend (be_heartbeat ops (clk 2) (job_id j)))
       (seq_py (ws_run_handler ops cfg expires clk h ctx j)
          (seq_py (ws_on_backend (be_update_status ops (clk 5) (job_id j) (status_value SUCCEEDED)))
             (seq_py (ws_emit (clk 6) ''job.transition'' ''success'')
                (seq_py (ws_inc ''jobs.succeeded'') (ret True)))))"

definition ws_failed ::
  "'b backend_ops \<Rightarrow> 'b worker_config \<Rightarrow> string \<Rightarrow> (nat \<Rightarrow> time) \<Rightarrow> job \<Rightarrow> exn \<Rightarrow> ('b worker_state, bool) py" where
  "ws_failed ops cfg uuid clk j err =
     (case wk_fallback cfg of
        Some m \<Rightarrow>
          bind_py (ws_on_backend (fallback_apply ops m uuid (\<lambda>i. clk (7 + i)) j err))
            (\<lambda>dec. seq_py (ws_emit (clk 9) ''job.transition'' ''failure'')
               (seq_py (if fd_status dec = status_value RETRY_WAIT then ws_inc ''jobs.retry_wait''
                        else if fd_status dec = status_value FAILED then ws_inc ''jobs.failed''
                        else ret ())
                  (if fd_should_raise dec then raise_exn err else ret True)))
      | None \<Rightarrow>
          seq_py (ws_on_backend (be_update_status ops (clk 7) (job_id j) (status_value FAILED)))
            (seq_py (ws_emit (clk 9) ''job.transition'' ''failure'')
               (seq_py (ws_inc ''jobs.failed'') (raise_exn err))))"

definition ws_execute ::
  "'b backend_ops \<Rightarrow> 'b worker_config \<Rightarrow> 'b expiry \<Rightarrow> string \<Rightarrow> (nat \<Rightarrow> time) \<Rightarrow> job \<Rightarrow> ('b worker_state, bool) py" where
  "ws_execute ops cfg expires uuid clk j =
     (case registry_get (wk_handlers cfg) (job_type j) of
        Inl e \<Rightarrow> raise_exn e
      | Inr h \<Rightarrow>
          (\<lambda>w. let ctx = new_context (be_live ops (ds_backend (ws_dispatch w)) j) in
               try_finally
                 (try_except (ws_complete ops cfg expires clk h ctx j) (ws_failed ops cfg uuid clk j))
                 (ws_release_job j) w))"

text \<open>\<open>run_once\<close> from the selected job on: the claim and what follows it.\<close>

definition ws_take ::
  "'b backend_ops \<Rightarrow> 'b worker_config \<Rightarrow> 'b expiry \<Rightarrow> string \<Rightarrow> (nat \<Rightarrow> time) \<Rightarrow> job \<Rightarrow> ('b worker_state, bool) py" where
  "ws_take ops cfg expires uuid clk j =
     bind_py (ws_on_backend (be_claim ops (clk 0) (job_id j) (wk_host_id cfg) (wk_worker_id cfg)))
       (\<lambda>won. if \<not> won then seq_py (ws_release_job j) (ret False)
              else seq_py (ws_emit (clk 1) ''job.claim'' ''success'')
                     (ws_execute ops cfg expires uuid clk j))"

definition run_once ::
  "'b backend_ops \<Rightarrow> 'b worker_config \<Rightarrow> 'b expiry \<Rightarrow> string \<Rightarrow> (nat \<Rightarrow> time) \<Rightarrow> ('b worker_state, bool) py" where
  "run_once ops cfg expires uuid clk =
     seq_py
       (case wk_authoriser cfg of
          Some auth \<Rightarrow>
            if \<not> auth (wk_host_id cfg) (wk_worker_id cfg)
            then raise_exn (PermissionError (''Worker identity not authorised: '' @ wk_host_id cfg @ '':'' @ wk_worker_id cfg))
            else ret ()
        | None \<Rightarrow> ret ())
       (bind_py (ws_select ops cfg)
          (\<lambda>jobs. case jobs of
             [] \<Rightarrow> ret False
           | j # _ \<Rightarrow> ws_take ops cfg expires uuid clk j))"

text \<open>
  \<open>run_forever\<close>: the flag is cleared, then passes are made while it is not set and the limit is not
  reached. \<open>stop\<close>, called by another thread, sets the flag. Each pass has its own environment: the
  expiry, the fresh identifier, the clock, and whether \<open>stop\<close> was called during the pass or the sleep
  after it. The list of environments is the time the loop is watched for: \<open>None\<close> in the result means
  that the loop is still running when the list ends.
\<close>

record 'b pass_env =
  pe_expires :: "'b expiry"
  pe_uuid :: string
  pe_clk :: "nat \<Rightarrow> time"
  pe_stopped :: bool

definition worker_stop :: "'b worker_state \<Rightarrow> 'b worker_state" where
  "worker_stop w = w\<lparr>ws_stopped := True\<rparr>"

definition during :: "'b pass_env \<Rightarrow> ('b worker_state, 'a) py \<Rightarrow> ('b worker_state, 'a) py" where
  "during e m = (\<lambda>w. case m w of (r, w1) \<Rightarrow> (r, if pe_stopped e then worker_stop w1 else w1))"

fun run_loop ::
  "'b backend_ops \<Rightarrow> 'b worker_config \<Rightarrow> int option \<Rightarrow> 'b pass_env list \<Rightarrow> int \<Rightarrow>
   ('b worker_state, int option) py" where
  "run_loop ops cfg max_loops [] loops = (\<lambda>w. if ws_stopped w then ret (Some loops) w else ret None w)"
| "run_loop ops cfg max_loops (e # es) loops =
     (\<lambda>w. if ws_stopped w then ret (Some loops) w
          else seq_py (during e (run_once ops cfg (pe_expires e) (pe_uuid e) (pe_clk e)))
                 (let loops' = loops + 1 in
                  if (case max_loops of None \<Rightarrow> False | Some m \<Rightarrow> loops' \<ge> m) then ret (Some loops')
                  else run_loop ops cfg max_loops es loops') w)"

definition run_forever ::
  "'b backend_ops \<Rightarrow> 'b worker_config \<Rightarrow> int option \<Rightarrow> 'b pass_env list \<Rightarrow> ('b worker_state, int option) py" where
  "run_forever ops cfg max_loops es = (\<lambda>w. run_loop ops cfg max_loops es 0 (w\<lparr>ws_stopped := False\<rparr>))"

end
