(* ===== verification/Worker_Proofs.thy ===== *)
theory Worker_Proofs
  imports Worker
begin

section \<open>What the worker guarantees\<close>

text \<open>
  Lemmas on \<open>run_once\<close> over any backend that meets the contract: the status a claimed job ends in
  for every outcome of its handler, and that the slots and resources the dispatcher acquired for
  it are given back. The handler may use the backend as it likes, as long as it keeps the
  backend's invariant and removes or rewrites no job (\<open>kept\<close>).
\<close>

abbreviation wb :: "'b worker_state \<Rightarrow> 'b" where
  "wb w \<equiv> ds_backend (ws_dispatch w)"

text \<open>The parts of the dispatcher the worker's own steps leave alone.\<close>

definition frame :: "'b worker_state \<Rightarrow> 'b worker_state \<Rightarrow> bool" where
  "frame w w' \<longleftrightarrow>
     ds_concurrency (ws_dispatch w') = ds_concurrency (ws_dispatch w) \<and>
     ds_pool (ws_dispatch w') = ds_pool (ws_dispatch w) \<and>
     ds_tracker (ws_dispatch w') = ds_tracker (ws_dispatch w)"

lemma frame_refl [simp]: "frame w w"
  by (simp add: frame_def)

lemma frame_trans: "frame a b \<Longrightarrow> frame b c \<Longrightarrow> frame a c"
  by (simp add: frame_def)

lemma frame_holds: "frame w w' \<Longrightarrow> ds_holds (ws_dispatch w') held = ds_holds (ws_dispatch w) held"
  by (simp add: frame_def ds_holds_def)

lemma frame_has_dispatcher:
  "frame w w' \<Longrightarrow> has_dispatcher (ws_dispatch w') = has_dispatcher (ws_dispatch w)"
  by (simp add: frame_def has_dispatcher_def)

lemma ws_on_backend_run:
  assumes "m (wb w) = (r, b')"
  shows "\<exists>w'. ws_on_backend m w = (r, w') \<and> wb w' = b' \<and> frame w w' \<and>
    ws_audit w' = ws_audit w \<and> ws_metrics w' = ws_metrics w"
  using assms by (simp add: ws_on_backend_def ws_on_dispatch_def ds_on_backend_def on_field_def frame_def)

lemma ws_emit_run:
  "\<exists>w'. ws_emit now act outcome w = (Inr (), w') \<and> wb w' = wb w \<and> frame w w' \<and>
     audit_log (ws_audit w') = audit_log (ws_audit w) @ [(Some (PStr act), Some (PStr outcome))]"
proof -
  obtain ev a where e: "emit now act outcome (ws_audit w) = (Inr ev, a)" by (simp add: emit_def Let_def)
  show ?thesis using emit_log [OF e] e by (simp add: ws_emit_def py_defs frame_def)
qed

lemma ws_inc_run: "\<exists>w'. ws_inc key w = (Inr (), w') \<and> wb w' = wb w \<and> frame w w'"
  by (simp add: ws_inc_def metrics_inc_def py_defs frame_def)

lemma ws_inc_either:
  "\<exists>w'. (if p then ws_inc a else if q then ws_inc b else ret ()) w = (Inr (), w') \<and> wb w' = wb w \<and> frame w w'"
  using ws_inc_run [of a w] ws_inc_run [of b w] by (cases p; cases q) (simp_all add: ret_def)

text \<open>What the handler's run amounts to: a normal return or the exception the worker sees.\<close>

definition verdict ::
  "'b worker_config \<Rightarrow> 'b expiry \<Rightarrow> 'b handler \<Rightarrow> job_context \<Rightarrow> 'b \<Rightarrow> exn + unit" where
  "verdict cfg expires h ctx b =
     (let direct = (case fst (h ctx b) of Inl e \<Rightarrow> Inl e | Inr _ \<Rightarrow> Inr ()) in
      case wk_run_timeout cfg of
        None \<Rightarrow> direct
      | Some secs \<Rightarrow>
          if expires ctx b \<noteq> None \<or> (\<exists>m. direct = Inl (TimeoutError m))
          then Inl (timeout_error secs)
          else direct)"

text \<open>
  What a handler may do to the backend: it keeps the invariant, removes and rewrites no job, and
  does not use the identifier \<open>u\<close> that \<open>uuid4\<close> returns later.
\<close>

definition kept :: "('b \<Rightarrow> bool) \<Rightarrow> ('b \<Rightarrow> string \<Rightarrow> job option) \<Rightarrow> string \<Rightarrow> 'b \<Rightarrow> 'b \<Rightarrow> bool" where
  "kept I V u b b' \<longleftrightarrow>
     I b' \<and> (V b u = None \<longrightarrow> V b' u = None) \<and>
     (\<forall>i j. V b i = Some j \<longrightarrow> (\<exists>j'. V b' i = Some j' \<and> same_submission j j'))"

definition safe_handler :: "('b \<Rightarrow> bool) \<Rightarrow> ('b \<Rightarrow> string \<Rightarrow> job option) \<Rightarrow> string \<Rightarrow> 'b handler \<Rightarrow> bool" where
  "safe_handler I V u h \<longleftrightarrow> (\<forall>ctx b. I b \<longrightarrow> kept I V u b (snd (h ctx b)))"

definition safe_expiry :: "('b \<Rightarrow> bool) \<Rightarrow> ('b \<Rightarrow> string \<Rightarrow> job option) \<Rightarrow> string \<Rightarrow> 'b expiry \<Rightarrow> bool" where
  "safe_expiry I V u expires \<longleftrightarrow>
     (\<forall>ctx b b' rest. I b \<longrightarrow> expires ctx b = Some (b', rest) \<longrightarrow>
        kept I V u b b' \<and> (\<forall>b1. I b1 \<longrightarrow> kept I V u b1 (rest b1)))"

text \<open>
  What the worker owes for a verdict: the status the job ends in, and what \<open>run_once\<close> returns or
  raises. The exception of a failed handler is raised again unless a policy swallows it; a
  \<open>NOTIFY\<close> policy lets an exception of the notifier through.
\<close>

definition final_status :: "'b worker_config \<Rightarrow> job \<Rightarrow> exn + unit \<Rightarrow> job_status" where
  "final_status cfg j v =
     (case v of
        Inr _ \<Rightarrow> SUCCEEDED
      | Inl _ \<Rightarrow> (case wk_fallback cfg of None \<Rightarrow> FAILED | Some m \<Rightarrow> policy_status (policy_for m (job_type j))))"

definition result_allowed :: "'b worker_config \<Rightarrow> job \<Rightarrow> exn + unit \<Rightarrow> exn + bool \<Rightarrow> bool" where
  "result_allowed cfg j v r \<longleftrightarrow>
     (case v of
        Inr _ \<Rightarrow> r = Inr True
      | Inl err \<Rightarrow>
          (case wk_fallback cfg of
             None \<Rightarrow> r = Inl err
           | Some m \<Rightarrow>
               (case fp_action (policy_for m (job_type j)) of
                  RETRY \<Rightarrow> r = Inl err
                | NOTIFY \<Rightarrow> r = Inr True \<or>
                    (\<exists>url data e. fm_notifier m ''POST'' url data = Inl e \<and> r = Inl e)
                | _ \<Rightarrow> r = Inr True)))"

locale working = dispatching ops inv view stored + falling_back ops inv view stored
  for ops :: "'b backend_ops" and inv :: "'b \<Rightarrow> bool" and view :: "'b \<Rightarrow> string \<Rightarrow> job option" and stored :: "job \<Rightarrow> job"
begin

abbreviation keeps :: "string \<Rightarrow> 'b \<Rightarrow> 'b \<Rightarrow> bool" where
  "keeps u b b' \<equiv> kept inv view u b b'"

lemma kept_refl: "inv b \<Longrightarrow> keeps u b b"
  by (simp add: kept_def)

lemma kept_trans: "keeps u a b \<Longrightarrow> keeps u b c \<Longrightarrow> keeps u a c"
  unfolding kept_def by (meson same_submission_trans)

lemma kept_inv: "keeps u a b \<Longrightarrow> inv b"
  by (simp add: kept_def)

lemma kept_view: "keeps u a b \<Longrightarrow> view a i = Some j \<Longrightarrow> \<exists>j'. view b i = Some j' \<and> same_submission j j'"
  by (simp add: kept_def)

lemma kept_touched: "inv b' \<Longrightarrow> touched (view b) (view b') \<Longrightarrow> keeps u b b'"
  unfolding kept_def touched_def by (metis domIff)

lemma kept_upd: "inv b' \<Longrightarrow> view b i = Some j \<Longrightarrow> view b' = (view b)(i \<mapsto> j') \<Longrightarrow> same_submission j j' \<Longrightarrow> keeps u b b'"
  by (auto simp: kept_def)

text \<open>Setting the status of a stored job, run inside the worker.\<close>

lemma ws_status_run:
  assumes "inv (wb w)" and "view (wb w) jid = Some k"
  shows "\<exists>w' k'. ws_on_backend (be_update_status ops now jid (status_value s)) w = (Inr True, w') \<and>
    keeps u (wb w) (wb w') \<and> frame w w' \<and> view (wb w') = (view (wb w))(jid \<mapsto> k') \<and>
    same_submission k k' \<and> status k' = s"
proof -
  obtain b' k' where b': "be_update_status ops now jid (status_value s) (wb w) = (Inr True, b')" "inv b'"
      "view b' = (view (wb w))(jid \<mapsto> k')" "same_submission k k'" "status k' = s"
    using update_status_law [OF assms, of now s] by blast
  obtain w' where "ws_on_backend (be_update_status ops now jid (status_value s)) w = (Inr True, w')"
      "wb w' = b'" "frame w w'"
    using ws_on_backend_run [of "be_update_status ops now jid (status_value s)" w, OF b'(1)] by blast
  with b' kept_upd [OF b'(2) assms(2) b'(3,4)] show ?thesis by auto
qed

lemma ws_timed_out_run:
  assumes "inv (wb w)" and "view (wb w) (job_id j) = Some k"
  shows "\<exists>w'. ws_timed_out ops clk secs j w = (Inl (timeout_error secs), w') \<and>
    keeps u (wb w) (wb w') \<and> frame w w'"
proof -
  obtain w1 where w1: "ws_on_backend (be_update_status ops (clk 3) (job_id j) (status_value TIMEOUT)) w = (Inr True, w1)"
      "keeps u (wb w) (wb w1)" "frame w w1"
    using ws_status_run [OF assms, of "clk 3" TIMEOUT] by blast
  obtain w2 where w2: "ws_emit (clk 4) ''job.transition'' ''failure'' w1 = (Inr (), w2)" "wb w2 = wb w1" "frame w1 w2"
    using ws_emit_run by blast
  obtain w3 where w3: "ws_inc ''jobs.timed_out'' w2 = (Inr (), w3)" "wb w3 = wb w2" "frame w2 w3"
    using ws_inc_run by blast
  have "ws_timed_out ops clk secs j w = (Inl (timeout_error secs), w3)"
    using w1(1) w2(1) w3(1) by (simp add: ws_timed_out_def seq_py_def bind_py_def raise_exn_def)
  with w1 w2 w3 show ?thesis by (auto intro: frame_trans)
qed

lemma ws_handler_direct:
  assumes "inv (wb w)" and "safe_handler inv view u h"
  shows "\<exists>w'. seq_py (ws_on_backend (h ctx)) (ret ()) w =
      ((case fst (h ctx (wb w)) of Inl e \<Rightarrow> Inl e | Inr _ \<Rightarrow> Inr ()), w') \<and>
    keeps u (wb w) (wb w') \<and> frame w w'"
proof -
  obtain r b' where rb: "h ctx (wb w) = (r, b')" by (cases "h ctx (wb w)")
  have "keeps u (wb w) b'" using assms rb unfolding safe_handler_def by (metis snd_conv)
  moreover obtain w' where "ws_on_backend (h ctx) w = (r, w')" "wb w' = b'" "frame w w'"
    using ws_on_backend_run [of "h ctx", OF rb] by blast
  ultimately show ?thesis
    using rb by (cases r) (auto simp: seq_py_def bind_py_def ret_def)
qed

lemma ws_run_handler_run:
  assumes i: "inv (wb w)" and k: "view (wb w) (job_id j) = Some k"
    and h: "safe_handler inv view u h" and e: "safe_expiry inv view u expires"
  shows "\<exists>w'. ws_run_handler ops cfg expires clk h ctx j w = (verdict cfg expires h ctx (wb w), w') \<and>
    keeps u (wb w) (wb w') \<and> frame w w'"
proof (cases "wk_run_timeout cfg")
  case None
  then show ?thesis
    using ws_handler_direct [OF i h, of ctx] by (simp add: ws_run_handler_def verdict_def)
next
  case (Some secs)
  let ?T = "timeout_error secs"
  show ?thesis
  proof (cases "expires ctx (wb w)")
    case None
    obtain w1 where w1: "seq_py (ws_on_backend (h ctx)) (ret ()) w =
        ((case fst (h ctx (wb w)) of Inl e \<Rightarrow> Inl e | Inr _ \<Rightarrow> Inr ()), w1)" "keeps u (wb w) (wb w1)" "frame w w1"
      using ws_handler_direct [OF i h, of ctx] by blast
    show ?thesis
    proof (cases "\<exists>m. fst (h ctx (wb w)) = Inl (TimeoutError m)")
      case True
      obtain k1 where "view (wb w1) (job_id j) = Some k1" using kept_view [OF w1(2) k] by blast
      then obtain w2 where w2: "ws_timed_out ops clk secs j w1 = (Inl ?T, w2)" "keeps u (wb w1) (wb w2)" "frame w1 w2"
        using ws_timed_out_run [OF kept_inv [OF w1(2)]] by blast
      have "ws_run_handler ops cfg expires clk h ctx j w = (Inl ?T, w2)"
        using True None Some w1(1) w2(1) by (auto simp: ws_run_handler_def try_except_def)
      moreover have "verdict cfg expires h ctx (wb w) = Inl ?T"
        using True Some by (auto simp: verdict_def Let_def)
      ultimately show ?thesis using w1 w2 by (auto intro: kept_trans frame_trans)
    next
      case False
      then have "verdict cfg expires h ctx (wb w) = (case fst (h ctx (wb w)) of Inl e \<Rightarrow> Inl e | Inr _ \<Rightarrow> Inr ())"
        using None Some by (auto simp: verdict_def Let_def split: sum.splits)
      moreover have "ws_run_handler ops cfg expires clk h ctx j w =
          ((case fst (h ctx (wb w)) of Inl e \<Rightarrow> Inl e | Inr _ \<Rightarrow> Inr ()), w1)"
        using False None Some w1(1)
        by (auto simp: ws_run_handler_def try_except_def raise_exn_def split: sum.splits exn.splits)
      ultimately show ?thesis using w1 by auto
    qed
  next
    case ex: (Some br)
    obtain b' rest where br: "br = (b', rest)" by (cases br)
    have kb: "keeps u (wb w) b'" and kr: "\<And>b1. inv b1 \<Longrightarrow> keeps u b1 (rest b1)"
      using e ex br i by (auto simp: safe_expiry_def)
    obtain w1 where w1: "ws_on_backend (\<lambda>_. (Inr (), b')) w = (Inr (), w1)" "wb w1 = b'" "frame w w1"
      using ws_on_backend_run [of "\<lambda>_. (Inr (), b')" w] by auto
    obtain k1 where "view (wb w1) (job_id j) = Some k1" using kept_view [OF kb k] w1(2) by auto
    then obtain w2 where w2: "ws_timed_out ops clk secs j w1 = (Inl ?T, w2)" "keeps u (wb w1) (wb w2)" "frame w1 w2"
      using ws_timed_out_run [of w1 j k1 clk secs u] kept_inv [OF kb] w1(2) by auto
    obtain w3 where w3: "ws_on_backend (\<lambda>b. (Inr (), rest b)) w2 = (Inr (), w3)" "wb w3 = rest (wb w2)" "frame w2 w3"
      using ws_on_backend_run [of "\<lambda>b. (Inr (), rest b)" w2] by auto
    have "ws_run_handler ops cfg expires clk h ctx j w = (Inl ?T, w3)"
      using Some ex br w1(1) w2(1) w3(1) by (simp add: ws_run_handler_def try_finally_def seq_py_Inr)
    moreover have "verdict cfg expires h ctx (wb w) = Inl ?T"
      using Some ex by (simp add: verdict_def Let_def)
    moreover have "keeps u (wb w) (wb w3)"
      using kb w1(2) w2(2) w3(2) kr [OF kept_inv [OF w2(2)]] by (metis kept_trans)
    ultimately show ?thesis using w1 w2 w3 by (auto intro: frame_trans)
  qed
qed

text \<open>The body of the \<open>try\<close>: either the job is stored as succeeded, or the handler's exception escapes.\<close>

lemma ws_complete_run:
  assumes i: "inv (wb w)" and k: "view (wb w) (job_id j) = Some k"
    and h: "safe_handler inv view u h" and e: "safe_expiry inv view u expires"
  shows "\<exists>b1 w'. keeps u (wb w) b1 \<and> keeps u (wb w) (wb w') \<and> frame w w' \<and>
    (case verdict cfg expires h ctx b1 of
       Inl err \<Rightarrow> ws_complete ops cfg expires clk h ctx j w = (Inl err, w')
     | Inr _ \<Rightarrow> ws_complete ops cfg expires clk h ctx j w = (Inr True, w') \<and>
         map_option status (view (wb w') (job_id j)) = Some SUCCEEDED)"
proof -
  obtain ok b1 where b1: "be_heartbeat ops (clk 2) (job_id j) (wb w) = (Inr ok, b1)" "inv b1"
      "touched (view (wb w)) (view b1)"
    using heartbeat_law [OF i] by blast
  have kb1: "keeps u (wb w) b1" using b1(2,3) by (rule kept_touched)
  obtain w1 where w1: "ws_on_backend (be_heartbeat ops (clk 2) (job_id j)) w = (Inr ok, w1)" "wb w1 = b1" "frame w w1"
    using ws_on_backend_run [of "be_heartbeat ops (clk 2) (job_id j)" w, OF b1(1)] by blast
  obtain k1 where k1: "view (wb w1) (job_id j) = Some k1" using kept_view [OF kb1 k] w1(2) by auto
  obtain w2 where w2: "ws_run_handler ops cfg expires clk h ctx j w1 = (verdict cfg expires h ctx b1, w2)"
      "keeps u (wb w1) (wb w2)" "frame w1 w2"
    using ws_run_handler_run [OF _ k1 h e, of cfg clk ctx] b1(2) w1(2) by auto
  have kept2: "keeps u (wb w) (wb w2)" and fr2: "frame w w2"
    using kb1 w1(2,3) w2(2,3) by (auto intro: kept_trans frame_trans)
  show ?thesis
  proof (cases "verdict cfg expires h ctx b1")
    case (Inl err)
    then have "ws_complete ops cfg expires clk h ctx j w = (Inl err, w2)"
      using w1(1) w2(1) by (simp add: ws_complete_def seq_py_def bind_py_def)
    with Inl kb1 kept2 fr2 show ?thesis by auto
  next
    case (Inr x)
    obtain k2 where k2: "view (wb w2) (job_id j) = Some k2" using kept_view [OF w2(2) k1] by blast
    obtain w3 k3 where w3: "ws_on_backend (be_update_status ops (clk 5) (job_id j) (status_value SUCCEEDED)) w2 = (Inr True, w3)"
        "keeps u (wb w2) (wb w3)" "frame w2 w3" "view (wb w3) = (view (wb w2))(job_id j \<mapsto> k3)" "status k3 = SUCCEEDED"
      using ws_status_run [OF kept_inv [OF w2(2)] k2, of "clk 5" SUCCEEDED] by blast
    obtain w4 where w4: "ws_emit (clk 6) ''job.transition'' ''success'' w3 = (Inr (), w4)" "wb w4 = wb w3" "frame w3 w4"
      using ws_emit_run by blast
    obtain w5 where w5: "ws_inc ''jobs.succeeded'' w4 = (Inr (), w5)" "wb w5 = wb w4" "frame w4 w5"
      using ws_inc_run by blast
    have "ws_complete ops cfg expires clk h ctx j w = (Inr True, w5)"
      using w1(1) w2(1) w3(1) w4(1) w5(1) Inr
      by (simp add: ws_complete_def seq_py_def bind_py_def ret_def)
    moreover have "keeps u (wb w) (wb w5)" using kept2 w3(2) w4(2) w5(2) by (simp add: kept_trans)
    moreover have "frame w w5" using fr2 w3(3) w4(3) w5(3) by (meson frame_trans)
    moreover have "map_option status (view (wb w5) (job_id j)) = Some SUCCEEDED"
      using w3(4,5) w4(2) w5(2) by simp
    ultimately show ?thesis using Inr kb1 by auto
  qed
qed

text \<open>The \<open>except\<close> clause: the job ends in the state its policy asks for.\<close>

lemma ws_failed_run:
  assumes i: "inv (wb w)" and k: "view (wb w) (job_id j) = Some k" and same: "same_submission j k"
    and u: "view (wb w) u = None"
  shows "\<exists>r w'. ws_failed ops cfg u clk j err w = (r, w') \<and> inv (wb w') \<and> frame w w' \<and>
    map_option status (view (wb w') (job_id j)) = Some (final_status cfg j (Inl err)) \<and>
    result_allowed cfg j (Inl err) r"
proof (cases "wk_fallback cfg")
  case None
  obtain w1 k1 where w1: "ws_on_backend (be_update_status ops (clk 7) (job_id j) (status_value FAILED)) w = (Inr True, w1)"
      "keeps u (wb w) (wb w1)" "frame w w1" "view (wb w1) = (view (wb w))(job_id j \<mapsto> k1)" "status k1 = FAILED"
    using ws_status_run [OF i k, of "clk 7" FAILED] by blast
  obtain w2 where w2: "ws_emit (clk 9) ''job.transition'' ''failure'' w1 = (Inr (), w2)" "wb w2 = wb w1" "frame w1 w2"
    using ws_emit_run by blast
  obtain w3 where w3: "ws_inc ''jobs.failed'' w2 = (Inr (), w3)" "wb w3 = wb w2" "frame w2 w3"
    using ws_inc_run by blast
  have "ws_failed ops cfg u clk j err w = (Inl err, w3)"
    using None w1(1) w2(1) w3(1) by (simp add: ws_failed_def seq_py_def bind_py_def raise_exn_def)
  moreover have "frame w w3" using w1(3) w2(3) w3(3) by (meson frame_trans)
  ultimately show ?thesis
    using None w1 w2 w3 by (auto simp: final_status_def result_allowed_def kept_def)
next
  case (Some m)
  obtain r b1 where b1: "fallback_apply ops m u (\<lambda>i. clk (7 + i)) j err (wb w) = (r, b1)" "inv b1"
      "map_option status (view b1 (job_id j)) = Some (policy_status (policy_for m (job_type j)))"
      "case r of
         Inl e \<Rightarrow> fp_action (policy_for m (job_type j)) = NOTIFY \<and> (\<exists>url data. fm_notifier m ''POST'' url data = Inl e)
       | Inr dec \<Rightarrow> fd_should_raise dec = (fp_action (policy_for m (job_type j)) = RETRY)"
    using fallback_apply_outcome [OF i k same u, of m "\<lambda>i. clk (7 + i)" err] by blast
  obtain w1 where w1: "ws_on_backend (fallback_apply ops m u (\<lambda>i. clk (7 + i)) j err) w = (r, w1)" "wb w1 = b1" "frame w w1"
    using ws_on_backend_run [of "fallback_apply ops m u (\<lambda>i. clk (7 + i)) j err" w, OF b1(1)] by blast
  show ?thesis
  proof (cases r)
    case (Inl e)
    then have "ws_failed ops cfg u clk j err w = (Inl e, w1)"
      using Some w1(1) by (simp add: ws_failed_def bind_py_def)
    then show ?thesis using Some Inl w1 b1 by (auto simp: final_status_def result_allowed_def)
  next
    case (Inr dec)
    obtain w2 where w2: "ws_emit (clk 9) ''job.transition'' ''failure'' w1 = (Inr (), w2)" "wb w2 = wb w1" "frame w1 w2"
      using ws_emit_run by blast
    obtain w3 where w3: "(if fd_status dec = status_value RETRY_WAIT then ws_inc ''jobs.retry_wait''
          else if fd_status dec = status_value FAILED then ws_inc ''jobs.failed'' else ret ()) w2 = (Inr (), w3)"
        "wb w3 = wb w2" "frame w2 w3"
      using ws_inc_either by blast
    have "ws_failed ops cfg u clk j err w =
        ((if fp_action (policy_for m (job_type j)) = RETRY then Inl err else Inr True), w3)"
      using Some Inr w1(1) w2(1) w3(1) b1(4)
      by (simp add: ws_failed_def seq_py_def bind_py_def raise_exn_def ret_def)
    moreover have "frame w w3" using w1(3) w2(3) w3(3) by (meson frame_trans)
    moreover have "wb w3 = b1" using w1(2) w2(2) w3(2) by simp
    ultimately show ?thesis
      using Some b1(2,3) by (auto simp: final_status_def result_allowed_def split: fallback_action.split)
  qed
qed

lemma ws_release_job_run:
  assumes "ds_holds (ws_dispatch w) held" and "j \<in> set held"
  shows "\<exists>w'. ws_release_job j w = (Inr (), w') \<and> wb w' = wb w \<and> ds_holds (ws_dispatch w') (remove1 j held)"
proof (cases "has_dispatcher (ws_dispatch w)")
  case True
  obtain d' where "ds_release_job j (ws_dispatch w) = (Inr (), d')" "ds_holds d' (remove1 j held)"
      "ds_backend d' = wb w"
    using ds_release_job_holds [OF assms] by blast
  with True show ?thesis by (auto simp: ws_release_job_def ws_on_dispatch_def on_field_def)
next
  case False
  then have "ds_concurrency (ws_dispatch w) = None" "ds_pool (ws_dispatch w) = None"
    by (auto simp: has_dispatcher_def)
  moreover have "distinct (map job_id (remove1 j held))"
    using assms(1) by (metis ds_holds_def distinct_map distinct_remove1 inj_on_subset set_remove1_subset)
  ultimately have "ds_holds (ws_dispatch w) (remove1 j held)"
    by (simp add: ds_holds_def slots_ok_def pool_ok_def)
  with False show ?thesis by (simp add: ws_release_job_def)
qed

text \<open>A claimed job with a registered handler.\<close>

lemma ws_execute_run:
  assumes i: "inv (wb w)" and k: "view (wb w) (job_id j) = Some k" and same: "same_submission j k"
    and u: "view (wb w) u = None"
    and reg: "dict_get (wk_handlers cfg) (job_type j) = Some h"
    and h: "safe_handler inv view u h" and e: "safe_expiry inv view u expires"
    and held: "ds_holds (ws_dispatch w) held" "j \<in> set held"
  shows "\<exists>r w' ctx b1 v. ws_execute ops cfg expires u clk j w = (r, w') \<and> inv (wb w') \<and>
    ds_holds (ws_dispatch w') (remove1 j held) \<and>
    same_submission j (ctx_job ctx) \<and> keeps u (wb w) b1 \<and> v = verdict cfg expires h ctx b1 \<and>
    map_option status (view (wb w') (job_id j)) = Some (final_status cfg j v) \<and>
    result_allowed cfg j v r"
proof -
  define ctx where "ctx = new_context (be_live ops (wb w) j)"
  have "be_live ops (wb w) j = k \<or> be_live ops (wb w) j = j" using live_law [OF i k] .
  then have ctx: "same_submission j (ctx_job ctx)" using same by (auto simp: ctx_def new_context_def)
  let ?body = "try_except (ws_complete ops cfg expires clk h ctx j) (ws_failed ops cfg u clk j)"
  obtain b1 w1 where c: "keeps u (wb w) b1" "keeps u (wb w) (wb w1)" "frame w w1"
      "case verdict cfg expires h ctx b1 of
         Inl err \<Rightarrow> ws_complete ops cfg expires clk h ctx j w = (Inl err, w1)
       | Inr _ \<Rightarrow> ws_complete ops cfg expires clk h ctx j w = (Inr True, w1) \<and>
           map_option status (view (wb w1) (job_id j)) = Some SUCCEEDED"
    using ws_complete_run [OF i k h e, of cfg clk ctx] by blast
  obtain k1 where k1: "view (wb w1) (job_id j) = Some k1" "same_submission k k1"
    using kept_view [OF c(2) k] by blast
  have "\<exists>r w2. ?body w = (r, w2) \<and> inv (wb w2) \<and> frame w w2 \<and>
    map_option status (view (wb w2) (job_id j)) = Some (final_status cfg j (verdict cfg expires h ctx b1)) \<and>
    result_allowed cfg j (verdict cfg expires h ctx b1) r"
  proof (cases "verdict cfg expires h ctx b1")
    case (Inr x)
    then have "?body w = (Inr True, w1)" using c(4) by (simp add: try_except_def)
    with Inr c kept_inv [OF c(2)] show ?thesis by (simp add: final_status_def result_allowed_def)
  next
    case (Inl err)
    have "view (wb w1) u = None" using c(2) u by (simp add: kept_def)
    then obtain r w2 where "ws_failed ops cfg u clk j err w1 = (r, w2)" "inv (wb w2)" "frame w1 w2"
        "map_option status (view (wb w2) (job_id j)) = Some (final_status cfg j (Inl err))"
        "result_allowed cfg j (Inl err) r"
      using ws_failed_run [OF kept_inv [OF c(2)] k1(1) same_submission_trans [OF same k1(2)]] by blast
    with Inl c show ?thesis by (auto simp: try_except_def intro: frame_trans)
  qed
  then obtain r w2 where b: "?body w = (r, w2)" "inv (wb w2)" "frame w w2"
    "map_option status (view (wb w2) (job_id j)) = Some (final_status cfg j (verdict cfg expires h ctx b1))"
    "result_allowed cfg j (verdict cfg expires h ctx b1) r" by blast
  have "ds_holds (ws_dispatch w2) held" using frame_holds [OF b(3)] held(1) by simp
  then obtain w3 where w3: "ws_release_job j w2 = (Inr (), w3)" "wb w3 = wb w2"
      "ds_holds (ws_dispatch w3) (remove1 j held)"
    using ws_release_job_run [OF _ held(2)] by blast
  have "ws_execute ops cfg expires u clk j w = (r, w3)"
    using reg b(1) w3(1) by (simp add: ws_execute_def registry_get_def Let_def ctx_def try_finally_def)
  with b w3 c(1) ctx show ?thesis by auto
qed

text \<open>
  The whole of \<open>run_once\<close> from the selected job on, with the claim that may be lost to another
  worker and the job type that may have no handler.
\<close>

lemma ws_take_outcome:
  assumes i: "inv (wb w)" and k: "view (wb w) (job_id j) = Some k" and same: "same_submission j k"
    and u: "view (wb w) u = None"
    and h: "\<And>h. dict_get (wk_handlers cfg) (job_type j) = Some h \<Longrightarrow> safe_handler inv view u h"
    and e: "safe_expiry inv view u expires"
    and held: "ds_holds (ws_dispatch w) held" "j \<in> set held"
  shows "\<exists>r w'. ws_take ops cfg expires u clk j w = (r, w') \<and> inv (wb w') \<and>
    (if status k \<noteq> QUEUED then r = Inr False \<and> wb w' = wb w \<and> ds_holds (ws_dispatch w') (remove1 j held)
     else case dict_get (wk_handlers cfg) (job_type j) of
       None \<Rightarrow> r = Inl (KeyError (''Unknown job_type: '' @ job_type j)) \<and> ds_holds (ws_dispatch w') held \<and>
         map_option status (view (wb w') (job_id j)) = Some RUNNING
     | Some h \<Rightarrow> ds_holds (ws_dispatch w') (remove1 j held) \<and>
         (\<exists>ctx b1. same_submission j (ctx_job ctx) \<and> inv b1 \<and>
            map_option status (view (wb w') (job_id j)) =
              Some (final_status cfg j (verdict cfg expires h ctx b1)) \<and>
            result_allowed cfg j (verdict cfg expires h ctx b1) r))"
proof (cases "status k = QUEUED")
  case False
  then have lost: "be_claim ops (clk 0) (job_id j) (wk_host_id cfg) (wk_worker_id cfg) (wb w) = (Inr False, wb w)"
    using k by (intro claim_lost [OF i]) simp
  obtain w1 where w1: "ws_on_backend (be_claim ops (clk 0) (job_id j) (wk_host_id cfg) (wk_worker_id cfg)) w = (Inr False, w1)"
      "wb w1 = wb w" "frame w w1"
    using ws_on_backend_run [of "be_claim ops (clk 0) (job_id j) (wk_host_id cfg) (wk_worker_id cfg)" w, OF lost] by blast
  have "ds_holds (ws_dispatch w1) held" using frame_holds [OF w1(3)] held(1) by simp
  then obtain w2 where w2: "ws_release_job j w1 = (Inr (), w2)" "wb w2 = wb w1" "ds_holds (ws_dispatch w2) (remove1 j held)"
    using ws_release_job_run [OF _ held(2)] by blast
  have "ws_take ops cfg expires u clk j w = (Inr False, w2)"
    using w1(1) w2(1) by (simp add: ws_take_def bind_py_def seq_py_def ret_def)
  with False w1 w2 i show ?thesis by simp
next
  case True
  obtain b1 k1 where b1: "be_claim ops (clk 0) (job_id j) (wk_host_id cfg) (wk_worker_id cfg) (wb w) = (Inr True, b1)"
      "inv b1" "view b1 = (view (wb w))(job_id j \<mapsto> k1)" "same_submission k k1" "status k1 = RUNNING"
    using claim_won [OF i k True] by blast
  obtain w1 where w1: "ws_on_backend (be_claim ops (clk 0) (job_id j) (wk_host_id cfg) (wk_worker_id cfg)) w = (Inr True, w1)"
      "wb w1 = b1" "frame w w1"
    using ws_on_backend_run [of "be_claim ops (clk 0) (job_id j) (wk_host_id cfg) (wk_worker_id cfg)" w, OF b1(1)] by blast
  obtain w2 where w2: "ws_emit (clk 1) ''job.claim'' ''success'' w1 = (Inr (), w2)" "wb w2 = wb w1" "frame w1 w2"
    using ws_emit_run by blast
  have step: "ws_take ops cfg expires u clk j w = ws_execute ops cfg expires u clk j w2"
    using w1(1) w2(1) by (simp add: ws_take_def bind_py_def seq_py_def)
  have held2: "ds_holds (ws_dispatch w2) held"
    using frame_holds [OF frame_trans [OF w1(3) w2(3)]] held(1) by simp
  have i2: "inv (wb w2)" and k2: "view (wb w2) (job_id j) = Some k1" using b1 w1 w2 by simp_all
  show ?thesis
  proof (cases "dict_get (wk_handlers cfg) (job_type j)")
    case None
    then have "ws_execute ops cfg expires u clk j w2 = (Inl (KeyError (''Unknown job_type: '' @ job_type j)), w2)"
      by (simp add: ws_execute_def registry_get_def raise_exn_def)
    with step True None i2 k2 b1(5) held2 show ?thesis by simp
  next
    case (Some h')
    have "u \<noteq> job_id j" using u k by auto
    then have "view (wb w2) u = None" using u b1(3) w1(2) w2(2) by simp
    from ws_execute_run [OF i2 k2 same_submission_trans [OF same b1(4)] this Some h [OF Some] e held2 held(2), of clk]
    obtain r w' ctx b2 where r: "ws_execute ops cfg expires u clk j w2 = (r, w')" "inv (wb w')"
        "ds_holds (ws_dispatch w') (remove1 j held)" "same_submission j (ctx_job ctx)" "keeps u (wb w2) b2"
        "map_option status (view (wb w') (job_id j)) = Some (final_status cfg j (verdict cfg expires h' ctx b2))"
        "result_allowed cfg j (verdict cfg expires h' ctx b2) r" by blast
    then show ?thesis
      using step True Some kept_inv [OF r(5)]
      by (intro exI [of _ r] exI [of _ w']) (simp, blast)
  qed
qed

text \<open>The selection step, with or without a dispatcher, and the whole pass.\<close>

lemma ws_select_run:
  assumes i: "inv (wb w)" and held: "ds_holds (ws_dispatch w) held" and qn: "wk_queue_name cfg \<noteq> Some []"
    and busy: "\<forall>j \<in> set held. \<forall>k. view (wb w) (job_id j) = Some k \<longrightarrow> status k \<noteq> QUEUED"
    and req: "\<forall>jid j. view (wb w) jid = Some j \<longrightarrow> request_ok (resources j)"
  shows "\<exists>w'. wb w' = wb w \<and>
    (ws_select ops cfg w = (Inr [], w') \<and> ds_holds (ws_dispatch w') held \<or>
     (\<exists>j. ws_select ops cfg w = (Inr [j], w') \<and> ds_holds (ws_dispatch w') (j # held) \<and>
        view (wb w) (job_id j) = Some j \<and> dispatchable None (wk_queue_name cfg) j \<and>
        deps_met (ds_tracker (ws_dispatch w)) (view (wb w)) j))"
proof (cases "has_dispatcher (ws_dispatch w)")
  case True
  obtain sel d' where s: "ds_select ops 1 (wk_queue_name cfg) (ws_dispatch w) = (Inr sel, d')"
      "ds_backend d' = wb w" "ds_holds d' (rev sel @ held)" "int (length sel) \<le> 1"
      "\<forall>j \<in> set sel. view (wb w) (job_id j) = Some j \<and> dispatchable None (wk_queue_name cfg) j \<and>
         deps_met (ds_tracker (ws_dispatch w)) (view (wb w)) j"
    using ds_select_holds [OF i held _ qn busy req, of 1] by auto
  have "ws_select ops cfg w = (Inr sel, w\<lparr>ws_dispatch := d'\<rparr>)"
    using True s(1) by (simp add: ws_select_def ws_on_dispatch_def on_field_def)
  moreover have "sel = [] \<or> (\<exists>j. sel = [j])" using s(4) by (cases sel) auto
  ultimately show ?thesis using s by (intro exI [of _ "w\<lparr>ws_dispatch := d'\<rparr>"]) auto
next
  case False
  then have off: "ds_concurrency (ws_dispatch w) = None" "ds_pool (ws_dispatch w) = None" "ds_tracker (ws_dispatch w) = None"
    by (auto simp: has_dispatcher_def)
  obtain js where js: "be_dequeue ops 1 None (wk_queue_name cfg) (wb w) = (Inr js, wb w)" "int (length js) \<le> 1"
      "\<forall>j \<in> set js. view (wb w) (job_id j) = Some j \<and> dispatchable None (wk_queue_name cfg) j"
    using dequeue_law [OF i, of 1 None "wk_queue_name cfg"] qn by auto
  obtain w' where w': "ws_on_backend (be_dequeue ops 1 None (wk_queue_name cfg)) w = (Inr js, w')" "wb w' = wb w" "frame w w'"
    using ws_on_backend_run [of "be_dequeue ops 1 None (wk_queue_name cfg)" w, OF js(1)] by blast
  have hold: "ds_holds (ws_dispatch w') (if js = [] then held else hd js # held)"
  proof (cases js)
    case Nil
    then show ?thesis using frame_holds [OF w'(3)] held by simp
  next
    case (Cons j r)
    then have q: "view (wb w) (job_id j) = Some j" "status j = QUEUED" using js(3) by (auto simp: dispatchable_def)
    then have "job_id j \<notin> job_id ` set held" using busy by force
    then show ?thesis using Cons w'(3) off held by (simp add: frame_def ds_holds_def slots_ok_def pool_ok_def)
  qed
  have "ws_select ops cfg w = (Inr js, w')" using False w'(1) by (simp add: ws_select_def)
  moreover have "js = [] \<or> (\<exists>j. js = [j])" using js(2) by (cases js) auto
  ultimately show ?thesis using w'(2) js(3) hold off by (intro exI [of _ w']) (auto simp: deps_met_def)
qed

lemma run_once_outcome:
  assumes i: "inv (wb w)" and held: "ds_holds (ws_dispatch w) held" and qn: "wk_queue_name cfg \<noteq> Some []"
    and auth: "case wk_authoriser cfg of None \<Rightarrow> True | Some auth \<Rightarrow> auth (wk_host_id cfg) (wk_worker_id cfg)"
    and busy: "\<forall>j \<in> set held. \<forall>k. view (wb w) (job_id j) = Some k \<longrightarrow> status k \<noteq> QUEUED"
    and req: "\<forall>jid j. view (wb w) jid = Some j \<longrightarrow> request_ok (resources j)"
    and u: "view (wb w) u = None"
    and h: "\<And>jt h. dict_get (wk_handlers cfg) jt = Some h \<Longrightarrow> safe_handler inv view u h"
    and e: "safe_expiry inv view u expires"
  shows "\<exists>r w'. run_once ops cfg expires u clk w = (r, w') \<and> inv (wb w') \<and>
    (r = Inr False \<and> wb w' = wb w \<and> ds_holds (ws_dispatch w') held \<or>
     (\<exists>j. view (wb w) (job_id j) = Some j \<and> dispatchable None (wk_queue_name cfg) j \<and>
        deps_met (ds_tracker (ws_dispatch w)) (view (wb w)) j \<and>
        (case dict_get (wk_handlers cfg) (job_type j) of
           None \<Rightarrow> r = Inl (KeyError (''Unknown job_type: '' @ job_type j)) \<and>
             ds_holds (ws_dispatch w') (j # held) \<and>
             map_option status (view (wb w') (job_id j)) = Some RUNNING
         | Some h \<Rightarrow> ds_holds (ws_dispatch w') held \<and>
             (\<exists>ctx b1. same_submission j (ctx_job ctx) \<and> inv b1 \<and>
                map_option status (view (wb w') (job_id j)) =
                  Some (final_status cfg j (verdict cfg expires h ctx b1)) \<and>
                result_allowed cfg j (verdict cfg expires h ctx b1) r))))"
proof -
  have start: "run_once ops cfg expires u clk w =
      bind_py (ws_select ops cfg) (\<lambda>jobs. case jobs of [] \<Rightarrow> ret False
        | j # _ \<Rightarrow> ws_take ops cfg expires u clk j) w"
    using auth by (cases "wk_authoriser cfg") (simp_all add: run_once_def seq_py_def bind_py_def ret_def)
  obtain w1 where w1: "wb w1 = wb w"
    "ws_select ops cfg w = (Inr [], w1) \<and> ds_holds (ws_dispatch w1) held \<or>
     (\<exists>j. ws_select ops cfg w = (Inr [j], w1) \<and> ds_holds (ws_dispatch w1) (j # held) \<and>
        view (wb w) (job_id j) = Some j \<and> dispatchable None (wk_queue_name cfg) j \<and>
        deps_met (ds_tracker (ws_dispatch w)) (view (wb w)) j)"
    using ws_select_run [OF i held qn busy req] by blast
  from w1(2) show ?thesis
  proof (elim disjE exE conjE)
    assume "ws_select ops cfg w = (Inr [], w1)" "ds_holds (ws_dispatch w1) held"
    then show ?thesis using start w1(1) i by (simp add: bind_py_def ret_def)
  next
    fix j
    assume sel: "ws_select ops cfg w = (Inr [j], w1)" "ds_holds (ws_dispatch w1) (j # held)"
      and j: "view (wb w) (job_id j) = Some j" "dispatchable None (wk_queue_name cfg) j"
        "deps_met (ds_tracker (ws_dispatch w)) (view (wb w)) j"
    have step: "run_once ops cfg expires u clk w = ws_take ops cfg expires u clk j w1"
      using start sel(1) by (simp add: bind_py_def)
    have q: "status j = QUEUED" using j(2) by (simp add: dispatchable_def)
    have i1: "inv (wb w1)" "view (wb w1) (job_id j) = Some j" "view (wb w1) u = None" using i j u w1(1) by simp_all
    have rh: "remove1 j (j # held) = held" by simp
    have "j \<in> set (j # held)" by simp
    from ws_take_outcome [OF i1(1,2) same_submission_refl i1(3) h [of "job_type j"] e sel(2) this, of cfg clk, unfolded rh]
    obtain r w' where r: "ws_take ops cfg expires u clk j w1 = (r, w')" "inv (wb w')"
      "case dict_get (wk_handlers cfg) (job_type j) of
         None \<Rightarrow> r = Inl (KeyError (''Unknown job_type: '' @ job_type j)) \<and> ds_holds (ws_dispatch w') (j # held) \<and>
           map_option status (view (wb w') (job_id j)) = Some RUNNING
       | Some h \<Rightarrow> ds_holds (ws_dispatch w') held \<and>
           (\<exists>ctx b1. same_submission j (ctx_job ctx) \<and> inv b1 \<and>
              map_option status (view (wb w') (job_id j)) =
                Some (final_status cfg j (verdict cfg expires h ctx b1)) \<and>
              result_allowed cfg j (verdict cfg expires h ctx b1) r)"
      using q by auto
    with step j show ?thesis by (intro exI [of _ r] exI [of _ w'] conjI disjI2 exI [of _ j]) simp_all
  qed
qed

end

subsection \<open>The loop\<close>

text \<open>
  Nothing in a pass touches the stop flag: every step works on another field of the worker. The rules
  follow the structure of a method body.
\<close>

definition keeps_flag :: "('b worker_state, 'a) py \<Rightarrow> bool" where
  "keeps_flag m \<longleftrightarrow> (\<forall>w. ws_stopped (snd (m w)) = ws_stopped w)"

named_theorems flag_intros \<open>rules for the steps that keep the stop flag\<close>

lemma keeps_flag_ret [flag_intros]: "keeps_flag (ret x)" and keeps_flag_raise [flag_intros]: "keeps_flag (raise_exn e)"
  by (simp_all add: keeps_flag_def ret_def raise_exn_def)

lemma keeps_flag_bind [flag_intros]:
  "keeps_flag m \<Longrightarrow> (\<And>x. keeps_flag (k x)) \<Longrightarrow> keeps_flag (bind_py m k)"
  unfolding keeps_flag_def bind_py_def
  by (metis (no_types, lifting) prod.case_eq_if split_pairs sum.case_eq_if)

lemma keeps_flag_seq [flag_intros]: "keeps_flag m \<Longrightarrow> keeps_flag k \<Longrightarrow> keeps_flag (seq_py m k)"
  by (simp add: seq_py_def keeps_flag_bind)

lemma keeps_flag_except [flag_intros]:
  assumes "keeps_flag m" and "\<And>e. keeps_flag (h e)"
  shows "keeps_flag (try_except m h)"
  unfolding keeps_flag_def
proof
  fix w
  obtain r w1 where "m w = (r, w1)" by (cases "m w")
  then show "ws_stopped (snd (try_except m h w)) = ws_stopped w"
    using assms by (cases r) (auto simp: keeps_flag_def try_except_def dest: spec [of _ w])
qed

lemma keeps_flag_finally [flag_intros]:
  assumes "keeps_flag m" and "keeps_flag f"
  shows "keeps_flag (try_finally m f)"
  unfolding keeps_flag_def
proof
  fix w
  obtain r w1 where m: "m w = (r, w1)" by (cases "m w")
  obtain r2 w2 where f: "f w1 = (r2, w2)" by (cases "f w1")
  have "ws_stopped w2 = ws_stopped w"
    using assms m f unfolding keeps_flag_def by (metis snd_conv)
  then show "ws_stopped (snd (try_finally m f w)) = ws_stopped w"
    using m f by (cases r2) (simp_all add: try_finally_def)
qed

lemma keeps_flag_steps [flag_intros]:
  "keeps_flag (ws_on_dispatch d)" "keeps_flag (ws_on_backend b)" "keeps_flag (ws_emit now act outcome)"
  "keeps_flag (ws_inc key)" "keeps_flag (ws_release_job j)" "keeps_flag (ws_select ops cfg)"
  by (simp_all add: keeps_flag_def ws_on_dispatch_def ws_on_backend_def ws_emit_def ws_inc_def ws_release_job_def
      ws_select_def on_field_def seq_py_def bind_py_def ret_def split: prod.split sum.split)

lemma keeps_flag_handler [flag_intros]: "keeps_flag (ws_run_handler ops cfg expires clk h ctx j)"
proof -
  have late: "keeps_flag (ws_timed_out ops clk secs j)" for secs
    unfolding ws_timed_out_def by (intro flag_intros)
  have "keeps_flag (try_finally (seq_py (ws_on_backend (\<lambda>_. (Inr (), b'))) (ws_timed_out ops clk secs j))
      (ws_on_backend (\<lambda>b. (Inr (), rest b))))" for b' secs rest
    by (intro flag_intros late)
  moreover have "keeps_flag (try_except (seq_py (ws_on_backend (h ctx)) (ret ()))
      (\<lambda>e. case e of TimeoutError _ \<Rightarrow> ws_timed_out ops clk secs j | _ \<Rightarrow> raise_exn e))" for secs
    by (intro flag_intros late) (auto split: exn.split intro: flag_intros late)
  moreover have "keeps_flag (seq_py (ws_on_backend (h ctx)) (ret ()))" by (intro flag_intros)
  ultimately show ?thesis
    unfolding ws_run_handler_def keeps_flag_def by (auto split: option.split)
qed

lemma keeps_flag_failed [flag_intros]: "keeps_flag (ws_failed ops cfg u clk j err)"
  unfolding ws_failed_def by (cases "wk_fallback cfg") (auto intro!: flag_intros)

lemma keeps_flag_execute [flag_intros]: "keeps_flag (ws_execute ops cfg expires u clk j)"
proof -
  have "keeps_flag (try_finally (try_except (ws_complete ops cfg expires clk h ctx j) (ws_failed ops cfg u clk j))
      (ws_release_job j))" for h ctx
    unfolding ws_complete_def by (intro flag_intros)
  then show ?thesis
    unfolding ws_execute_def keeps_flag_def by (auto simp: Let_def raise_exn_def split: sum.split)
qed

lemma keeps_flag_once: "keeps_flag (run_once ops cfg expires u clk)"
  unfolding run_once_def ws_take_def
  by (intro flag_intros) (auto split: option.split list.split intro!: flag_intros)

lemma run_once_flag: "run_once ops cfg expires u clk w = (r, w') \<Longrightarrow> ws_stopped w' = ws_stopped w"
  using keeps_flag_once [of ops cfg expires u clk] unfolding keeps_flag_def by (metis snd_conv)

text \<open>The passes one after another, ended by the first one that raises.\<close>

fun run_passes :: "'b backend_ops \<Rightarrow> 'b worker_config \<Rightarrow> 'b pass_env list \<Rightarrow> ('b worker_state, unit) py" where
  "run_passes ops cfg [] = ret ()"
| "run_passes ops cfg (e # es) =
     seq_py (during e (run_once ops cfg (pe_expires e) (pe_uuid e) (pe_clk e))) (run_passes ops cfg es)"

lemma during_run:
  "during e (run_once ops cfg (pe_expires e) (pe_uuid e) (pe_clk e)) w = (r, w1) \<Longrightarrow>
     ws_stopped w1 = (pe_stopped e \<or> ws_stopped w)"
  by (auto simp: during_def worker_stop_def dest: run_once_flag split: prod.splits if_splits)

text \<open>
  The loop as its passes: entered with the flag cleared, it makes passes up to the first one that
  ends it, and returns their number; when none does, it is still running after the last pass.
\<close>

definition limit_reached :: "int option \<Rightarrow> int \<Rightarrow> bool" where
  "limit_reached max_loops n \<longleftrightarrow> (case max_loops of None \<Rightarrow> False | Some m \<Rightarrow> m \<le> n)"

lemma run_loop_step:
  "\<not> ws_stopped w \<Longrightarrow> run_loop ops cfg ml (e # es) loops w =
     seq_py (during e (run_once ops cfg (pe_expires e) (pe_uuid e) (pe_clk e)))
       (if limit_reached ml (loops + 1) then ret (Some (loops + 1)) else run_loop ops cfg ml es (loops + 1)) w"
  by (simp add: limit_reached_def Let_def)

lemma run_loop_stopped: "ws_stopped w \<Longrightarrow> run_loop ops cfg ml es loops w = (Inr (Some loops), w)"
  by (cases es) (simp_all add: ret_def)

lemma run_loop_passes:
  assumes "0 < n" and "n \<le> length es" and "\<not> ws_stopped w"
    and "pe_stopped (es ! (n - 1)) \<or> limit_reached ml (loops + int n)"
    and "\<And>i. 0 < i \<Longrightarrow> i < n \<Longrightarrow> \<not> (pe_stopped (es ! (i - 1)) \<or> limit_reached ml (loops + int i))"
  shows "run_loop ops cfg ml es loops w = seq_py (run_passes ops cfg (take n es)) (ret (Some (loops + int n))) w"
  using assms
proof (induction n arbitrary: es loops w)
  case (Suc n)
  obtain e es' where es: "es = e # es'" using Suc.prems(2) by (cases es) auto
  let ?pass = "during e (run_once ops cfg (pe_expires e) (pe_uuid e) (pe_clk e))"
  obtain r w1 where p: "?pass w = (r, w1)" by (cases "?pass w")
  note flag = during_run [OF p]
  show ?case
  proof (cases r)
    case (Inl err)
    with p show ?thesis using Suc.prems(3) by (simp add: es run_loop_step seq_py_def bind_py_def del: run_loop.simps)
  next
    case (Inr x)
    have step: "run_loop ops cfg ml es loops w =
        (if limit_reached ml (loops + 1) then ret (Some (loops + 1)) else run_loop ops cfg ml es' (loops + 1)) w1"
      using p Inr Suc.prems(3) by (simp add: es run_loop_step seq_py_def bind_py_def del: run_loop.simps)
    show ?thesis
    proof (cases "n = 0")
      case True
      then have "pe_stopped e \<or> limit_reached ml (loops + 1)" using Suc.prems(4) by (simp add: es)
      then show ?thesis
        using step p Inr True flag by (auto simp: es run_loop_stopped seq_py_def bind_py_def ret_def simp del: run_loop.simps)
    next
      case False
      have go: "\<not> pe_stopped e" "\<not> limit_reached ml (loops + 1)"
        using Suc.prems(5) [of 1] False by (simp_all add: es)
      have "run_loop ops cfg ml es' (loops + 1) w1 =
          seq_py (run_passes ops cfg (take n es')) (ret (Some (loops + 1 + int n))) w1"
      proof (rule Suc.IH)
        show "0 < n" "n \<le> length es'" "\<not> ws_stopped w1" using False Suc.prems(2,3) flag go by (simp_all add: es)
        show "pe_stopped (es' ! (n - 1)) \<or> limit_reached ml (loops + 1 + int n)"
          using Suc.prems(4) False by (simp add: es nth_Cons' add.assoc)
        show "\<not> (pe_stopped (es' ! (i - 1)) \<or> limit_reached ml (loops + 1 + int i))" if "0 < i" "i < n" for i
          using Suc.prems(5) [of "Suc i"] that by (simp add: es nth_Cons' add.assoc)
      qed
      then show ?thesis
        using step p Inr go by (simp add: es seq_py_def bind_py_def add.assoc del: run_loop.simps)
    qed
  qed
qed simp

lemma run_loop_goes_on:
  assumes "\<not> ws_stopped w"
    and "\<And>i. i < length es \<Longrightarrow> \<not> (pe_stopped (es ! i) \<or> limit_reached ml (loops + int (Suc i)))"
  shows "run_loop ops cfg ml es loops w = seq_py (run_passes ops cfg es) (ret None) w"
  using assms
proof (induction es arbitrary: loops w)
  case (Cons e es)
  let ?pass = "during e (run_once ops cfg (pe_expires e) (pe_uuid e) (pe_clk e))"
  obtain r w1 where p: "?pass w = (r, w1)" by (cases "?pass w")
  have go: "\<not> pe_stopped e" "\<not> limit_reached ml (loops + 1)" using Cons.prems(2) [of 0] by simp_all
  have "run_loop ops cfg ml es (loops + 1) w1 = seq_py (run_passes ops cfg es) (ret None) w1"
  proof (rule Cons.IH)
    show "\<not> ws_stopped w1" using Cons.prems(1) go during_run [OF p] by simp
    show "\<not> (pe_stopped (es ! i) \<or> limit_reached ml (loops + 1 + int (Suc i)))" if "i < length es" for i
      using Cons.prems(2) [of "Suc i"] that by (simp add: algebra_simps)
  qed
  then show ?case
    using p go Cons.prems(1) by (cases r) (simp_all add: run_loop_step seq_py_def bind_py_def del: run_loop.simps)
qed (simp add: ret_def seq_py_def bind_py_def)

text \<open>Entered through \<open>run_forever\<close>, for the first pass that ends the loop.\<close>

lemma run_forever_ends:
  assumes "es \<noteq> [] \<and> limit_reached ml (int (length es)) \<or> (\<exists>e \<in> set es. pe_stopped e)"
  shows "\<exists>n. 0 < n \<and> n \<le> length es \<and> (pe_stopped (es ! (n - 1)) \<or> limit_reached ml (int n)) \<and>
    (\<forall>i. 0 < i \<and> i < n \<longrightarrow> \<not> pe_stopped (es ! (i - 1)) \<and> \<not> limit_reached ml (int i)) \<and>
    run_forever ops cfg ml es w =
      seq_py (run_passes ops cfg (take n es)) (ret (Some (int n))) (w\<lparr>ws_stopped := False\<rparr>)"
proof -
  define over where "over i \<longleftrightarrow> 0 < i \<and> i \<le> length es \<and> (pe_stopped (es ! (i - 1)) \<or> limit_reached ml (int i))" for i
  have "\<exists>i. over i"
  proof (cases "\<exists>e \<in> set es. pe_stopped e")
    case True
    then obtain k where "k < length es" "pe_stopped (es ! k)" by (metis in_set_conv_nth)
    then show ?thesis by (intro exI [of _ "Suc k"]) (simp add: over_def)
  next
    case False
    with assms show ?thesis by (intro exI [of _ "length es"]) (simp add: over_def)
  qed
  then obtain n where n: "over n" "\<And>i. i < n \<Longrightarrow> \<not> over i" by (meson exists_least_iff)
  have "run_loop ops cfg ml es 0 (w\<lparr>ws_stopped := False\<rparr>) =
      seq_py (run_passes ops cfg (take n es)) (ret (Some (0 + int n))) (w\<lparr>ws_stopped := False\<rparr>)"
    using n by (intro run_loop_passes) (auto simp: over_def)
  then show ?thesis
    using n by (intro exI [of _ n]) (auto simp: over_def run_forever_def)
qed

end
