(* ===== verification/Call_Process.thy ===== *)
theory Call_Process
  imports Backend_Spec
begin

section \<open>Processes over a shared backend\<close>

text \<open>
  Several workers, clients and sweeps use one backend at the same time. Each call of a method of
  a backend is one step, as \<open>Backend_Spec\<close> says for the three backends, and between two calls of one thread any
  calls of the others may happen. A thread is a tree: the next call and, for every answer, the rest
  of the thread. \<open>run_proc\<close> runs a tree alone; \<open>step\<close> and \<open>trace\<close> interleave any number of trees,
  call by call, and let new ones start at any time. A thread that crashes is one that is never
  scheduled again, so a crash at any point is one of the interleavings.

  \<open>Begin j p\<close> marks the place where the worker calls the handler of job \<open>j\<close>. Nothing happens to
  the backend there; the mark is what the theorems count.
\<close>

subsection \<open>Trees of calls\<close>

datatype 'a proc =
    Done "exn + 'a"
  | Make backend_call "exn + bool \<Rightarrow> 'a proc"
  | Fetch int "string option" "string option" "exn + job list \<Rightarrow> 'a proc"
  | Look job "job \<Rightarrow> 'a proc"
  | Begin job "'a proc"

text \<open>Going on with the result or the exception of a tree: sequencing and \<open>except\<close> are instances.\<close>

primrec then_proc :: "'a proc \<Rightarrow> (exn + 'a \<Rightarrow> 'c proc) \<Rightarrow> 'c proc" where
  "then_proc (Done r) f = f r"
| "then_proc (Make c k) f = Make c (\<lambda>r. then_proc (k r) f)"
| "then_proc (Fetch n jt qn k) f = Fetch n jt qn (\<lambda>r. then_proc (k r) f)"
| "then_proc (Look j k) f = Look j (\<lambda>r. then_proc (k r) f)"
| "then_proc (Begin j p) f = Begin j (then_proc p f)"

definition bind_proc :: "'a proc \<Rightarrow> ('a \<Rightarrow> 'c proc) \<Rightarrow> 'c proc" where
  "bind_proc p f = then_proc p (\<lambda>r. case r of Inl e \<Rightarrow> Done (Inl e) | Inr x \<Rightarrow> f x)"

definition catch_proc :: "'a proc \<Rightarrow> (exn \<Rightarrow> 'a proc) \<Rightarrow> 'a proc" where
  "catch_proc p f = then_proc p (\<lambda>r. case r of Inl e \<Rightarrow> f e | Inr x \<Rightarrow> Done (Inr x))"

definition call_proc :: "backend_call \<Rightarrow> bool proc" where
  "call_proc c = Make c Done"

subsection \<open>Running a tree alone\<close>

primrec run_proc :: "'b backend_ops \<Rightarrow> 'a proc \<Rightarrow> ('b, 'a) py" where
  "run_proc ops (Done r) = (\<lambda>b. (r, b))"
| "run_proc ops (Make c k) = (\<lambda>b. case do_call ops c b of (r, b') \<Rightarrow> run_proc ops (k r) b')"
| "run_proc ops (Fetch n jt qn k) = (\<lambda>b. case be_dequeue ops n jt qn b of (r, b') \<Rightarrow> run_proc ops (k r) b')"
| "run_proc ops (Look j k) = (\<lambda>b. run_proc ops (k (be_live ops b j)) b)"
| "run_proc ops (Begin j p) = run_proc ops p"

lemma then_then: "then_proc (then_proc p f) g = then_proc p (\<lambda>r. then_proc (f r) g)"
  by (induction p) auto

lemma run_then: "run_proc ops (then_proc p f) b = (case run_proc ops p b of (r, b') \<Rightarrow> run_proc ops (f r) b')"
  by (induction p arbitrary: b) (auto split: prod.splits)

lemma run_bind: "run_proc ops (bind_proc p f) b =
    (case run_proc ops p b of (Inl e, b') \<Rightarrow> (Inl e, b') | (Inr x, b') \<Rightarrow> run_proc ops (f x) b')"
  by (auto simp: bind_proc_def run_then split: prod.split sum.split)

lemma run_catch: "run_proc ops (catch_proc p f) b =
    (case run_proc ops p b of (Inl e, b') \<Rightarrow> run_proc ops (f e) b' | (Inr x, b') \<Rightarrow> (Inr x, b'))"
  by (auto simp: catch_proc_def run_then split: prod.split sum.split)

lemma run_call [simp]: "run_proc ops (call_proc c) = do_call ops c"
  by (rule ext) (auto simp: call_proc_def split: prod.split)

subsection \<open>Interleaving\<close>

datatype event =
    Spawned
  | Made nat backend_call "exn + bool"
  | Fetched nat
  | Looked nat
  | Began nat job

type_synonym ('a, 'b) system = "'a proc list \<times> 'b"

text \<open>One step: a new thread starts, or one of the threads makes its next call.\<close>

inductive step ::
  "'b backend_ops \<Rightarrow> ('a proc \<Rightarrow> bool) \<Rightarrow> ('a, 'b) system \<Rightarrow> event \<Rightarrow> ('a, 'b) system \<Rightarrow> bool"
  for ops :: "'b backend_ops" and starts :: "'a proc \<Rightarrow> bool" where
  spawn: "starts p \<Longrightarrow> step ops starts (ps, b) Spawned (ps @ [p], b)"
| make: "i < length ps \<Longrightarrow> ps ! i = Make c k \<Longrightarrow> do_call ops c b = (r, b') \<Longrightarrow>
    step ops starts (ps, b) (Made i c r) (ps[i := k r], b')"
| fetch: "i < length ps \<Longrightarrow> ps ! i = Fetch n jt qn k \<Longrightarrow> be_dequeue ops n jt qn b = (r, b') \<Longrightarrow>
    step ops starts (ps, b) (Fetched i) (ps[i := k r], b')"
| look: "i < length ps \<Longrightarrow> ps ! i = Look j k \<Longrightarrow>
    step ops starts (ps, b) (Looked i) (ps[i := k (be_live ops b j)], b)"
| begin_handler: "i < length ps \<Longrightarrow> ps ! i = Begin j p \<Longrightarrow>
    step ops starts (ps, b) (Began i j) (ps[i := p], b)"

inductive trace ::
  "'b backend_ops \<Rightarrow> ('a proc \<Rightarrow> bool) \<Rightarrow> ('a, 'b) system \<Rightarrow> event list \<Rightarrow> ('a, 'b) system \<Rightarrow> bool"
  for ops :: "'b backend_ops" and starts :: "'a proc \<Rightarrow> bool" and s :: "('a, 'b) system" where
  trace_nil [intro]: "trace ops starts s [] s"
| trace_snoc [intro]: "trace ops starts s es s' \<Longrightarrow> step ops starts s' e s'' \<Longrightarrow> trace ops starts s (es @ [e]) s''"

inductive_cases step_spawnE: "step ops starts s Spawned s'"
inductive_cases step_madeE: "step ops starts s (Made i c r) s'"

text \<open>The rules with the successor as an equation, to evaluate a step.\<close>

lemma make_at:
  "ps ! i = Make c k \<Longrightarrow> i < length ps \<Longrightarrow> do_call ops c b = (r, b') \<Longrightarrow> qs = ps[i := k r] \<Longrightarrow>
     step ops starts (ps, b) (Made i c r) (qs, b')"
  by (simp add: step.make)

lemma fetch_at:
  "ps ! i = Fetch n jt qn k \<Longrightarrow> i < length ps \<Longrightarrow> be_dequeue ops n jt qn b = (r, b') \<Longrightarrow> qs = ps[i := k r] \<Longrightarrow>
     step ops starts (ps, b) (Fetched i) (qs, b')"
  by (simp add: step.fetch)

lemma look_at:
  "ps ! i = Look j k \<Longrightarrow> i < length ps \<Longrightarrow> qs = ps[i := k (be_live ops b j)] \<Longrightarrow>
     step ops starts (ps, b) (Looked i) (qs, b)"
  by (simp add: step.look)

lemma begin_at:
  "ps ! i = Begin j p \<Longrightarrow> i < length ps \<Longrightarrow> qs = ps[i := p] \<Longrightarrow> step ops starts (ps, b) (Began i j) (qs, b)"
  by (simp add: step.begin_handler)

lemma trace_step: "step ops starts s e s' \<Longrightarrow> trace ops starts s [e] s'"
  using trace_snoc [OF trace_nil] by fastforce

lemma trace_append: "trace ops starts s' es' s'' \<Longrightarrow> trace ops starts s es s' \<Longrightarrow> trace ops starts s (es @ es') s''"
proof (induction rule: trace.induct)
  case (trace_snoc es' s1 e s2)
  from trace.trace_snoc [OF trace_snoc.IH [OF trace_snoc.prems] trace_snoc.hyps(2)]
  show ?case by simp
qed simp

lemma trace_cons: "step ops starts s e s' \<Longrightarrow> trace ops starts s' es s'' \<Longrightarrow> trace ops starts s (e # es) s''"
  using trace_append [of ops starts s' es s'' s "[e]"] trace_step [of ops starts s e s'] by simp

text \<open>
  Running a tree alone is one of its interleavings: scheduling the same thread again and again gives
  the result and the backend of \<open>run_proc\<close>.
\<close>

lemma trace_first:
  assumes "step ops starts s e s1" and "\<exists>es. trace ops starts s1 es s2"
  shows "\<exists>es. trace ops starts s es s2"
  using assms trace_append trace_step by blast

lemma run_proc_trace:
  assumes "i < length ps" and "ps ! i = p" and "run_proc ops p b = (r, b')"
  shows "\<exists>es. trace ops starts (ps, b) es (ps[i := Done r], b')"
  using assms
proof (induction p arbitrary: ps b)
  case (Done x)
  then have "ps[i := Done r] = ps" "b' = b" by (auto simp: list_update_same_conv)
  then show ?case by (metis trace_nil)
next
  case (Make c k)
  obtain x b1 where x: "do_call ops c b = (x, b1)" by (cases "do_call ops c b")
  have "\<exists>es. trace ops starts (ps[i := k x], b1) es ((ps[i := k x])[i := Done r], b')"
    using Make.prems x by (intro Make.IH) auto
  then show ?case using trace_first [OF step.make [OF Make.prems(1,2) x]] by simp
next
  case (Fetch n jt qn k)
  obtain x b1 where x: "be_dequeue ops n jt qn b = (x, b1)" by (cases "be_dequeue ops n jt qn b")
  have "\<exists>es. trace ops starts (ps[i := k x], b1) es ((ps[i := k x])[i := Done r], b')"
    using Fetch.prems x by (intro Fetch.IH) auto
  then show ?case using trace_first [OF step.fetch [OF Fetch.prems(1,2) x]] by simp
next
  case (Look j k)
  let ?x = "be_live ops b j"
  have "\<exists>es. trace ops starts (ps[i := k ?x], b) es ((ps[i := k ?x])[i := Done r], b')"
    using Look.prems by (intro Look.IH) auto
  then show ?case using trace_first [OF step.look [OF Look.prems(1,2)]] by simp
next
  case (Begin j p)
  have "\<exists>es. trace ops starts (ps[i := p], b) es ((ps[i := p])[i := Done r], b')"
    using Begin.prems by (intro Begin.IH) auto
  then show ?case using trace_first [OF step.begin_handler [OF Begin.prems(1,2)]] by simp
qed

subsection \<open>What a trace counts\<close>

text \<open>
  The handler starts of a job, and the calls that put it (back) into the queue.
\<close>

fun begins :: "string \<Rightarrow> event \<Rightarrow> bool" where
  "begins jid (Began i j) = (job_id j = jid)"
| "begins jid _ = False"

fun puts_back :: "string \<Rightarrow> event \<Rightarrow> bool" where
  "puts_back jid (Made i c r) = requeues jid c"
| "puts_back jid _ = False"

definition handler_starts :: "string \<Rightarrow> event list \<Rightarrow> nat" where
  "handler_starts jid es = length (filter (begins jid) es)"

definition requeue_calls :: "string \<Rightarrow> event list \<Rightarrow> nat" where
  "requeue_calls jid es = length (filter (puts_back jid) es)"

text \<open>
  A tree is covered for a job with \<open>n\<close> tickets when on every path each handler start of the job has
  a ticket; a won claim of the job gives one more. A quiet tree starts no handler at all.
\<close>

primrec covered :: "'a proc \<Rightarrow> string \<Rightarrow> nat \<Rightarrow> bool" where
  "covered (Done r) jid n = True"
| "covered (Make c k) jid n = (\<forall>r. covered (k r) jid (if claims_of jid c \<and> r = Inr True then Suc n else n))"
| "covered (Fetch m jt qn k) jid n = (\<forall>r. covered (k r) jid n)"
| "covered (Look j k) jid n = (\<forall>x. covered (k x) jid n)"
| "covered (Begin j p) jid n = (if job_id j = jid then 0 < n \<and> covered p jid (n - 1) else covered p jid n)"

primrec quiet :: "'a proc \<Rightarrow> bool" where
  "quiet (Done r) = True"
| "quiet (Make c k) = (\<forall>r. quiet (k r))"
| "quiet (Fetch m jt qn k) = (\<forall>r. quiet (k r))"
| "quiet (Look j k) = (\<forall>x. quiet (k x))"
| "quiet (Begin j p) = False"

text \<open>The callers ask for a number of jobs and never filter by the empty string.\<close>

primrec proper :: "'a proc \<Rightarrow> bool" where
  "proper (Done r) = True"
| "proper (Make c k) = (\<forall>r. proper (k r))"
| "proper (Fetch m jt qn k) = (0 \<le> m \<and> jt \<noteq> Some [] \<and> qn \<noteq> Some [] \<and> (\<forall>r. proper (k r)))"
| "proper (Look j k) = (\<forall>x. proper (k x))"
| "proper (Begin j p) = proper p"

lemma proper_then: "proper p \<Longrightarrow> (\<And>r. proper (f r)) \<Longrightarrow> proper (then_proc p f)"
  by (induction p) auto

fun follows :: "'a proc \<Rightarrow> 'a proc \<Rightarrow> bool" where
  "follows (Make c k) p \<longleftrightarrow> p \<in> range k"
| "follows (Fetch n jt qn k) p \<longleftrightarrow> p \<in> range k"
| "follows (Look j k) p \<longleftrightarrow> p \<in> range k"
| "follows (Begin j q) p \<longleftrightarrow> p = q"
| "follows (Done r) p \<longleftrightarrow> False"

lemma proper_follows: "proper q \<Longrightarrow> follows q p \<Longrightarrow> proper p"
  by (cases q) auto

lemma proper_step:
  assumes "\<forall>q \<in> set ps. proper q" and "i < length ps" and "follows (ps ! i) p"
  shows "\<forall>q \<in> set (ps[i := p]). proper q"
  using assms proper_follows [of "ps ! i" p] set_update_subset_insert [of ps i p] by (metis insert_iff nth_mem subsetD)

lemma covered_mono: "covered p jid n \<Longrightarrow> n \<le> m \<Longrightarrow> covered p jid m"
proof (induction p arbitrary: n m)
  case (Make c k)
  have "covered (k r) jid (if claims_of jid c \<and> r = Inr True then Suc m else m)" for r
  proof (rule Make.IH)
    show "k r \<in> range k" by simp
    show "covered (k r) jid (if claims_of jid c \<and> r = Inr True then Suc n else n)" using Make.prems(1) by simp
    show "(if claims_of jid c \<and> r = Inr True then Suc n else n) \<le> (if claims_of jid c \<and> r = Inr True then Suc m else m)"
      using Make.prems(2) by simp
  qed
  then show ?case by simp
next
  case (Begin j p)
  show ?case
  proof (cases "job_id j = jid")
    case True
    then show ?thesis using Begin.prems Begin.IH [of "n - 1" "m - 1"] by simp
  next
    case False
    then show ?thesis using Begin.prems Begin.IH [of n m] by simp
  qed
qed (simp_all, (meson rangeI)+)

lemma quiet_covered: "quiet p \<Longrightarrow> covered p jid n"
  by (induction p arbitrary: n) auto

lemma covered_then:
  assumes f: "\<And>r. covered (f r) jid 0" and p: "covered p jid n"
  shows "covered (then_proc p f) jid n"
  using p by (induction p arbitrary: n) (auto intro: covered_mono [OF f])

lemma quiet_then: "quiet p \<Longrightarrow> (\<And>r. quiet (f r)) \<Longrightarrow> quiet (then_proc p f)"
  by (induction p) auto

lemma quiet_bind [intro]: "quiet p \<Longrightarrow> (\<And>x. quiet (f x)) \<Longrightarrow> quiet (bind_proc p f)"
  by (auto simp: bind_proc_def intro!: quiet_then split: sum.split)

lemma quiet_call [simp]: "quiet (call_proc c)"
  by (simp add: call_proc_def)

text \<open>
  The calls that write a job, and the threads that write a job or start its handler only after they
  won a claim of it. A thread that looks at a \<open>Job\<close> object sees a job with the same identifier.
\<close>

fun writes :: "string \<Rightarrow> backend_call \<Rightarrow> bool" where
  "writes jid (CallEnqueue j) = (job_id j = jid)"
| "writes jid (CallClaim _ _ _ _) = False"
| "writes jid (CallRelease _ i) = (i = jid)"
| "writes jid (CallHeartbeat _ i) = (i = jid)"
| "writes jid (CallStatus _ i _) = (i = jid)"
| "writes jid (CallAttempt _ i _) = (i = jid)"
| "writes jid (CallProgress _ i _) = (i = jid)"
| "writes jid (CallResult _ i _) = (i = jid)"

primrec guarded :: "'a proc \<Rightarrow> string \<Rightarrow> bool \<Rightarrow> bool" where
  "guarded (Done r) jid own = True"
| "guarded (Make c k) jid own = ((writes jid c \<longrightarrow> own) \<and>
     (\<forall>r. guarded (k r) jid (own \<or> claims_of jid c \<and> r = Inr True)))"
| "guarded (Fetch m jt qn k) jid own = (\<forall>r. guarded (k r) jid own)"
| "guarded (Look j k) jid own = (\<forall>x. job_id x = job_id j \<longrightarrow> guarded (k x) jid own)"
| "guarded (Begin j p) jid own = ((job_id j = jid \<longrightarrow> own) \<and> guarded p jid own)"

lemma guarded_own [simp]: "guarded p jid True"
  by (induction p) auto

lemma guarded_then:
  assumes f: "\<And>r. guarded (f r) jid own" and p: "guarded p jid own"
  shows "guarded (then_proc p f) jid own"
  using p f
proof (induction p arbitrary: own)
  case (Make c k)
  have "guarded (then_proc (k r) f) jid (own \<or> claims_of jid c \<and> r = Inr True)" for r
  proof (cases "claims_of jid c \<and> r = Inr True")
    case False
    then have eq: "(own \<or> claims_of jid c \<and> r = Inr True) = own" by auto
    have "guarded (k r) jid (own \<or> claims_of jid c \<and> r = Inr True)" using Make.prems(1) by simp
    then show ?thesis unfolding eq using Make.prems(2) by (intro Make.IH) simp_all
  qed simp
  then show ?case using Make.prems by simp
qed auto

text \<open>The threads that won a claim of the job, and the events that act on it.\<close>

definition winners :: "string \<Rightarrow> event list \<Rightarrow> nat set" where
  "winners jid es = {i. \<exists>c. Made i c (Inr True) \<in> set es \<and> claims_of jid c}"

fun acts_on :: "string \<Rightarrow> nat \<Rightarrow> event \<Rightarrow> bool" where
  "acts_on jid n (Made i c r) = (n = i \<and> writes jid c)"
| "acts_on jid n (Began i j) = (n = i \<and> job_id j = jid)"
| "acts_on jid n _ = False"

lemma winners_nil [simp]: "winners jid [] = {}"
  by (simp add: winners_def)

lemma winners_snoc:
  "winners jid (es @ [e]) = winners jid es \<union> {i. \<exists>c. e = Made i c (Inr True) \<and> claims_of jid c}"
  by (auto simp: winners_def)

text \<open>
  A thread that leaves a job alone: it neither claims nor writes it and does not start its handler.
\<close>

primrec hands_off :: "'a proc \<Rightarrow> string \<Rightarrow> bool" where
  "hands_off (Done r) jid = True"
| "hands_off (Make c k) jid = (\<not> writes jid c \<and> \<not> claims_of jid c \<and> (\<forall>r. hands_off (k r) jid))"
| "hands_off (Fetch m jt qn k) jid = (\<forall>r. hands_off (k r) jid)"
| "hands_off (Look j k) jid = (\<forall>x. job_id x = job_id j \<longrightarrow> hands_off (k x) jid)"
| "hands_off (Begin j p) jid = (job_id j \<noteq> jid \<and> hands_off p jid)"

lemma hands_off_guarded: "hands_off p jid \<Longrightarrow> guarded p jid False"
  by (induction p) auto

lemma hands_off_then: "hands_off p jid \<Longrightarrow> (\<And>r. hands_off (f r) jid) \<Longrightarrow> hands_off (then_proc p f) jid"
  by (induction p) auto

text \<open>
  What a thread leaves behind: the status of the job as far as the thread decides it, \<open>None\<close> before it
  won a claim. \<open>settled\<close> says that on every path \<open>Q\<close> relates the result to that status.
\<close>

fun status_after :: "string \<Rightarrow> backend_call \<Rightarrow> exn + bool \<Rightarrow> job_status option \<Rightarrow> job_status option" where
  "status_after jid (CallClaim _ i _ _) r st = (if i = jid \<and> r = Inr True then Some RUNNING else st)"
| "status_after jid (CallStatus _ i s) r st = (if i = jid \<and> st \<noteq> None then Some s else st)"
| "status_after jid _ r st = st"

primrec settled ::
  "'a proc \<Rightarrow> string \<Rightarrow> job_status option \<Rightarrow> (exn + 'a \<Rightarrow> job_status \<Rightarrow> bool) \<Rightarrow> bool" where
  "settled (Done r) jid st Q = (\<forall>s. st = Some s \<longrightarrow> Q r s)"
| "settled (Make c k) jid st Q = (\<forall>r. settled (k r) jid (status_after jid c r st) Q)"
| "settled (Fetch m jt qn k) jid st Q = (\<forall>r. settled (k r) jid st Q)"
| "settled (Look j k) jid st Q = (\<forall>x. job_id x = job_id j \<longrightarrow> settled (k x) jid st Q)"
| "settled (Begin j p) jid st Q = settled p jid st Q"

lemma status_after_off: "\<not> writes jid c \<Longrightarrow> \<not> (claims_of jid c \<and> r = Inr True) \<Longrightarrow> status_after jid c r st = st"
  by (cases c) auto

lemma status_after_some: "\<exists>s'. status_after jid c r (Some s) = Some s'"
  by (cases c) auto

lemma hands_off_settled: "hands_off p jid \<Longrightarrow> settled p jid None Q"
  by (induction p) (auto simp: status_after_off)

lemma settled_then:
  assumes f: "\<And>r s. settled (f r) jid (Some s) Q"
  shows "settled (then_proc p f) jid (Some s) Q"
proof (induction p arbitrary: s)
  case (Make c k)
  have "settled (then_proc (k r) f) jid (status_after jid c r (Some s)) Q" for r
    using status_after_some [of jid c r s] Make.IH [of "k r"] by auto
  then show ?case by simp
qed (auto simp: f)

text \<open>
  One call of the thread \<open>n\<close>: with the winners \<open>W\<close> before and \<open>won_after\<close> after it, what the thread may still do and what
  it leaves behind.
\<close>

definition won_after :: "string \<Rightarrow> nat set \<Rightarrow> nat \<Rightarrow> backend_call \<Rightarrow> exn + bool \<Rightarrow> nat set" where
  "won_after jid W n c r = W \<union> (if claims_of jid c \<and> r = Inr True then {n} else {})"

lemma winners_made: "winners jid (es @ [Made n c r]) = won_after jid (winners jid es) n c r"
  by (auto simp: winners_snoc won_after_def)

lemma won_after_other: "m \<noteq> n \<Longrightarrow> m \<in> won_after jid W n c r \<longleftrightarrow> m \<in> W"
  by (simp add: won_after_def)

lemma won_after_self: "n \<in> won_after jid W n c r \<longleftrightarrow> n \<in> W \<or> claims_of jid c \<and> r = Inr True"
  by (auto simp: won_after_def)

lemma guarded_call: "guarded (Make c k) jid (n \<in> W) \<Longrightarrow> guarded (k r) jid (n \<in> won_after jid W n c r)"
  by (simp add: won_after_self)

lemma settled_call:
  assumes "settled (Make c k) jid (if n \<in> W then v else None) Q" and "writes jid c \<Longrightarrow> n \<in> W"
  shows "settled (k r) jid (if n \<in> won_after jid W n c r then status_after jid c r v else None) Q"
proof -
  have k: "settled (k r) jid (status_after jid c r (if n \<in> W then v else None)) Q" using assms(1) by simp
  consider (owner) "n \<in> W" | (won) "claims_of jid c \<and> r = Inr True" | (other) "n \<notin> W" "\<not> (claims_of jid c \<and> r = Inr True)" by blast
  then show ?thesis
  proof cases
    case owner
    then show ?thesis using k by (simp add: won_after_self)
  next
    case won
    then have "status_after jid c r x = Some RUNNING" for x by (cases c) auto
    then show ?thesis using k won by (simp add: won_after_self)
  next
    case other
    moreover from this have "status_after jid c r None = None" using assms(2) by (intro status_after_off) auto
    ultimately show ?thesis using k by (auto simp: won_after_self)
  qed
qed

lemma status_kept_by_other:
  assumes "writes jid c \<Longrightarrow> n \<in> W" and "m \<in> W" and "m \<noteq> n"
    and "\<And>m m'. m \<in> won_after jid W n c r \<Longrightarrow> m' \<in> won_after jid W n c r \<Longrightarrow> m = m'"
  shows "status_after jid c r v = v"
  using assms by (intro status_after_off) (auto simp: won_after_def)

text \<open>A property of every thread and its number, when one thread goes on or a new one starts.\<close>

lemma threads_update:
  assumes "\<And>m. m < length ps \<Longrightarrow> m \<noteq> n \<Longrightarrow> P m (ps ! m)" and "P n p"
  shows "\<forall>m < length (ps[n := p]). P m (ps[n := p] ! m)"
  using assms by (metis length_list_update nth_list_update_eq nth_list_update_neq)

lemma threads_append:
  assumes "\<And>m. m < length ps \<Longrightarrow> P m (ps ! m)" and "P (length ps) p"
  shows "\<forall>m < length (ps @ [p]). P m ((ps @ [p]) ! m)"
  using assms by (auto simp: nth_append less_Suc_eq)

text \<open>The tickets of the threads when one of them goes on with another tree.\<close>

lemma tickets_update:
  assumes all: "list_all2 (\<lambda>p n. covered p jid n) ps ns" and i: "i < length ps"
    and p: "covered p jid m"
  shows "\<exists>ns'. list_all2 (\<lambda>p n. covered p jid n) (ps[i := p]) ns' \<and> sum_list ns' + ns ! i = sum_list ns + m"
proof (intro exI conjI)
  have len: "i < length ns" using all i by (simp add: list_all2_lengthD)
  show "list_all2 (\<lambda>p n. covered p jid n) (ps[i := p]) (ns[i := m])" using all p by (rule list_all2_update_cong)
  have "ns ! i \<le> sum_list ns" using len by (rule elem_le_sum_list)
  then show "sum_list (ns[i := m]) + ns ! i = sum_list ns + m"
    using len by (simp add: sum_list_update)
qed

lemma covered_nth: "list_all2 (\<lambda>p n. covered p jid n) ps ns \<Longrightarrow> i < length ps \<Longrightarrow> covered (ps ! i) jid (ns ! i)"
  using list_all2_nthD [of "\<lambda>p n. covered p jid n" ps ns i] by simp

lemma covered_make:
  "covered (Make c k) jid n \<Longrightarrow> covered (k r) jid (n + (if claims_of jid c \<and> r = Inr True then 1 else 0))"
proof -
  assume "covered (Make c k) jid n"
  then have "covered (k r) jid (if claims_of jid c \<and> r = Inr True then Suc n else n)" by simp
  then show ?thesis by (cases "claims_of jid c \<and> r = Inr True") auto
qed

context queue_backend
begin

text \<open>One call pays for the tickets: a won claim uses up the queued state, and only a requeue restores it.\<close>

abbreviation in_queue :: "string \<Rightarrow> 'b \<Rightarrow> nat" where
  "in_queue jid b \<equiv> (if unqueued jid b then 0 else 1)"

lemma call_pays:
  assumes i: "inv b" and run: "do_call ops c b = (r, b')"
  shows "(if claims_of jid c \<and> r = Inr True then 1 else 0) + in_queue jid b'
    \<le> in_queue jid b + (if requeues jid c then 1 else 0)"
proof (cases "claims_of jid c \<and> r = Inr True")
  case True
  then have nq: "\<not> requeues jid c" by (cases c) auto
  have "unqueued jid b'" using claim_unqueues [OF i] run True by blast
  moreover have "\<not> unqueued jid b" using do_call_unqueued [OF i run nq] True by auto
  ultimately show ?thesis using True by simp
next
  case False
  then show ?thesis using do_call_unqueued [OF i run, of jid] by auto
qed

lemma dequeue_keeps:
  assumes "inv b" and "be_dequeue ops n jt qn b = (r, b')" and "0 \<le> n" and "jt \<noteq> Some []" and "qn \<noteq> Some []"
  shows "b' = b"
  using dequeue_law [OF assms(1,3-5)] assms(2) by auto

text \<open>
  The account of tickets: in every interleaving, the handler starts of a job, the tickets the threads
  still hold and the queued state together never exceed the calls that put the job into the queue and
  its state at the start.
\<close>

lemma tickets:
  assumes tr: "trace ops starts (ps0, b0) es s" and s0: "ps0 = []" and i0: "inv b0"
    and ok: "\<And>p. starts p \<Longrightarrow> proper p \<and> covered p jid 0"
  shows "inv (snd s) \<and> (\<forall>p \<in> set (fst s). proper p) \<and>
    (\<exists>ns. list_all2 (\<lambda>p n. covered p jid n) (fst s) ns \<and>
       handler_starts jid es + sum_list ns + in_queue jid (snd s) \<le> requeue_calls jid es + in_queue jid b0)"
  using tr
proof (induction rule: trace.induct)
  case trace_nil
  then show ?case using s0 i0 by (simp add: handler_starts_def requeue_calls_def)
next
  case (trace_snoc es s e s')
  obtain ns where ns: "list_all2 (\<lambda>p n. covered p jid n) (fst s) ns"
      "handler_starts jid es + sum_list ns + in_queue jid (snd s) \<le> requeue_calls jid es + in_queue jid b0"
    and i: "inv (snd s)" and wf: "\<forall>p \<in> set (fst s). proper p"
    using trace_snoc.IH by blast
  from trace_snoc.hyps(2) show ?case
  proof cases
    case (spawn p ps b)
    then show ?thesis using ns i wf ok
      by (intro conjI exI [of _ "ns @ [0]"]) (auto simp: handler_starts_def requeue_calls_def intro: list_all2_appendI)
  next
    case (make n ps c k b r b')
    let ?w = "if claims_of jid c \<and> r = Inr True then 1 else 0"
    have "covered (k r) jid (ns ! n + ?w)"
      using covered_nth [OF ns(1), of n] make by (intro covered_make) simp
    then obtain ns' where "list_all2 (\<lambda>p n. covered p jid n) (ps[n := k r]) ns'"
        "sum_list ns' + ns ! n = sum_list ns + (ns ! n + ?w)"
      using tickets_update [of jid ps ns n "k r" "ns ! n + ?w"] ns(1) make by auto
    moreover have "?w + in_queue jid b' \<le> in_queue jid b + (if requeues jid c then 1 else 0)"
      using call_pays [of b c r b' jid] i make by simp
    moreover have "inv b'" using do_call_inv [of b c r b'] i make by simp
    ultimately show ?thesis
      using make ns(2) proper_step [OF wf, of n] by (intro conjI exI [of _ ns']) (auto simp: handler_starts_def requeue_calls_def)
  next
    case (fetch n ps m jt qn k b r b')
    have "proper (Fetch m jt qn k)" using wf fetch nth_mem by (metis fst_conv)
    then have same: "b' = b" using fetch i by (intro dequeue_keeps [of b m jt qn r b']) simp_all
    have "covered (k r) jid (ns ! n)" using covered_nth [OF ns(1), of n] fetch by simp
    then obtain ns' where "list_all2 (\<lambda>p n. covered p jid n) (ps[n := k r]) ns'"
        "sum_list ns' + ns ! n = sum_list ns + ns ! n"
      using tickets_update [of jid ps ns n "k r" "ns ! n"] ns(1) fetch by auto
    then show ?thesis
      using fetch same ns(2) i proper_step [OF wf, of n "k r"]
      by (intro conjI exI [of _ ns']) (auto simp: handler_starts_def requeue_calls_def)
  next
    case (look n ps j k b)
    let ?p = "k (be_live ops b j)"
    have "covered ?p jid (ns ! n)" using covered_nth [OF ns(1), of n] look by simp
    then obtain ns' where "list_all2 (\<lambda>p n. covered p jid n) (ps[n := ?p]) ns'"
        "sum_list ns' + ns ! n = sum_list ns + ns ! n"
      using tickets_update [of jid ps ns n ?p "ns ! n"] ns(1) look by auto
    then show ?thesis
      using look ns(2) i proper_step [OF wf, of n ?p]
      by (intro conjI exI [of _ ns']) (auto simp: handler_starts_def requeue_calls_def)
  next
    case (begin_handler n ps j p b)
    let ?w = "if job_id j = jid then 1 else 0"
    have c: "covered (Begin j p) jid (ns ! n)" using covered_nth [OF ns(1), of n] begin_handler by simp
    then have "covered p jid (ns ! n - ?w)" "?w \<le> ns ! n" by (auto split: if_splits)
    then obtain ns' where "list_all2 (\<lambda>p n. covered p jid n) (ps[n := p]) ns'"
        "sum_list ns' + ns ! n = sum_list ns + (ns ! n - ?w)" "?w \<le> ns ! n"
      using tickets_update [of jid ps ns n p "ns ! n - ?w"] ns(1) begin_handler by auto
    then show ?thesis
      using begin_handler ns(2) i proper_step [OF wf, of n p]
      by (intro conjI exI [of _ ns']) (auto simp: handler_starts_def requeue_calls_def)
  qed
qed

text \<open>A claimed job is out of the queue, and only a job that nobody has claimed can be claimed.\<close>

lemma owner_call:
  assumes i: "inv b" and run: "do_call ops c b = (r, b')" and nq: "\<not> requeues jid c"
    and u: "W \<noteq> {} \<Longrightarrow> unqueued jid b"
  shows "won_after jid W n c r \<noteq> {} \<Longrightarrow> unqueued jid b'" and "claims_of jid c \<Longrightarrow> r = Inr True \<Longrightarrow> W = {}"
proof -
  show "claims_of jid c \<Longrightarrow> r = Inr True \<Longrightarrow> W = {}" using do_call_unqueued [OF i run nq] u by fastforce
  show "unqueued jid b'" if "won_after jid W n c r \<noteq> {}"
  proof (cases "claims_of jid c \<and> r = Inr True")
    case True
    then show ?thesis using claim_unqueues [OF i] run by blast
  next
    case False
    then have "W \<noteq> {}" using that by (auto simp: won_after_def)
    then show ?thesis using do_call_unqueued [OF i run nq] u by simp
  qed
qed

text \<open>
  Ownership: when nothing puts the job back into the queue, at most one thread wins a claim of it, and
  that thread alone writes the job and starts its handler.
\<close>

lemma owner:
  assumes tr: "trace ops starts (ps0, b0) es s" and s0: "ps0 = []" and i0: "inv b0"
    and ok: "\<And>p. starts p \<Longrightarrow> proper p \<and> guarded p jid False"
    and once: "\<forall>e \<in> set es. \<not> puts_back jid e"
  shows "inv (snd s) \<and> (\<forall>p \<in> set (fst s). proper p) \<and>
    (\<forall>n < length (fst s). guarded (fst s ! n) jid (n \<in> winners jid es)) \<and>
    winners jid es \<subseteq> {..<length (fst s)} \<and>
    (\<forall>n. \<forall>e \<in> set es. acts_on jid n e \<longrightarrow> n \<in> winners jid es) \<and>
    (winners jid es \<noteq> {} \<longrightarrow> unqueued jid (snd s)) \<and>
    (\<forall>n \<in> winners jid es. \<forall>m \<in> winners jid es. n = m)"
  using tr once
proof (induction rule: trace.induct)
  case trace_nil
  then show ?case using s0 i0 by simp
next
  case (trace_snoc es s e s')
  note w = winners_snoc [of jid es e]
  have IH: "inv (snd s)" "\<forall>p \<in> set (fst s). proper p"
    "\<And>n. n < length (fst s) \<Longrightarrow> guarded (fst s ! n) jid (n \<in> winners jid es)"
    "winners jid es \<subseteq> {..<length (fst s)}"
    "\<And>n e. e \<in> set es \<Longrightarrow> acts_on jid n e \<Longrightarrow> n \<in> winners jid es"
    "winners jid es \<noteq> {} \<Longrightarrow> unqueued jid (snd s)"
    "\<And>n m. n \<in> winners jid es \<Longrightarrow> m \<in> winners jid es \<Longrightarrow> n = m"
    using trace_snoc.IH trace_snoc.prems by auto
  from trace_snoc.hyps(2) show ?case
  proof cases
    case (spawn p ps b)
    have fresh: "length ps \<notin> winners jid es" using IH(4) spawn by auto
    have "\<forall>n < length (ps @ [p]). guarded ((ps @ [p]) ! n) jid (n \<in> winners jid es)"
      using IH(3) ok [of p] spawn fresh by (intro threads_append) simp_all
    then show ?thesis using spawn w IH(1,2,4-7) ok [of p] by auto
  next
    case (make n ps c k b r b')
    let ?W = "winners jid es"
    have w': "winners jid (es @ [e]) = won_after jid ?W n c r" using make winners_made by simp
    have nq: "\<not> requeues jid c" using trace_snoc.prems make by simp
    have g: "guarded (Make c k) jid (n \<in> ?W)" "writes jid c \<Longrightarrow> n \<in> ?W" using IH(3) [of n] make by simp_all
    have i: "inv b" and run: "do_call ops c b = (r, b')" using IH(1) make by simp_all
    have u: "?W \<noteq> {} \<Longrightarrow> unqueued jid b" using IH(6) make by simp
    note free = owner_call [OF i run nq u]
    have "\<forall>m < length (ps[n := k r]). guarded (ps[n := k r] ! m) jid (m \<in> won_after jid ?W n c r)"
      using IH(3) make guarded_call [OF g(1)] by (intro threads_update) (simp_all add: won_after_other)
    moreover have "won_after jid ?W n c r \<subseteq> {..<length ps}" using IH(4) make by (auto simp: won_after_def)
    moreover have "m \<in> won_after jid ?W n c r" if "x \<in> set (es @ [e])" "acts_on jid m x" for m x
      using that IH(5) [of x m] g(2) make by (auto simp: won_after_def)
    moreover have "m = m'" if "m \<in> won_after jid ?W n c r" "m' \<in> won_after jid ?W n c r" for m m'
      using that IH(7) [of m m'] free(2) by (auto simp: won_after_def split: if_splits)
    ultimately show ?thesis
      using make do_call_inv [OF i run] proper_step [OF IH(2), of n "k r"] free(1) unfolding w' by simp
  next
    case (fetch n ps m jt qn k b r b')
    have "proper (Fetch m jt qn k)" using IH(2) fetch nth_mem by (metis fst_conv)
    then have same: "b' = b" using fetch IH(1) by (intro dequeue_keeps [of b m jt qn r b']) simp_all
    have "guarded (k r) jid (n \<in> winners jid es)" using IH(3) [of n] fetch by simp
    then show ?thesis
      using fetch same w IH(1,3-7) proper_step [OF IH(2), of n "k r"] by (auto simp: nth_list_update)
  next
    case (look n ps j k b)
    let ?p = "k (be_live ops b j)"
    have "job_id (be_live ops b j) = job_id j" using live_id IH(1) look by simp
    then have "guarded ?p jid (n \<in> winners jid es)" using IH(3) [of n] look by simp
    then show ?thesis
      using look w IH(1,3-7) proper_step [OF IH(2), of n ?p] by (auto simp: nth_list_update)
  next
    case (begin_handler n ps j p b)
    have "guarded p jid (n \<in> winners jid es)" "job_id j = jid \<Longrightarrow> n \<in> winners jid es"
      using IH(3) [of n] begin_handler by simp_all
    then show ?thesis
      using begin_handler w IH(1,3-7) proper_step [OF IH(2), of n p] by (auto simp: nth_list_update)
  qed
qed

text \<open>
  The status of a job after a call that does not put it into the queue, and what the owner leaves: when
  its thread has ended, the stored status is the one its tree settles.
\<close>

abbreviation status_of :: "string \<Rightarrow> 'b \<Rightarrow> job_status option" where
  "status_of jid b \<equiv> map_option status (view b jid)"

lemma status_touched: "touched (view b) (view b') \<Longrightarrow> status_of jid b' = status_of jid b"
  by (rule touched_status)

lemma do_call_status:
  assumes i: "inv b" and run: "do_call ops c b = (r, b')" and nq: "\<not> requeues jid c"
  shows "status_of jid b' = status_after jid c r (status_of jid b)"
proof (cases c)
  case (CallEnqueue j)
  obtain r1 b1 where e: "be_enqueue ops j b = (r1, b1)" by (cases "be_enqueue ops j b")
  with CallEnqueue run have "b' = b1" by (auto simp: bind_py_def ret_def split: sum.splits)
  with enqueue_frame [OF i e] CallEnqueue nq show ?thesis by simp
next
  case (CallClaim now k h w)
  show ?thesis
  proof (cases "\<exists>j. view b k = Some j \<and> status j = QUEUED")
    case True
    then show ?thesis using claim_won [OF i, of k _ now h w] run CallClaim by fastforce
  next
    case False
    then show ?thesis using claim_lost [OF i, of k now h w] run CallClaim by auto
  qed
next
  case (CallRelease now k)
  with nq have "k \<noteq> jid" by simp
  then show ?thesis
    using release_law [OF i, of k _ now] release_absent [OF i, of k now] run CallRelease
    by (cases "view b k") fastforce+
next
  case (CallStatus now k s)
  then show ?thesis
    using update_status_gen [OF i, of now k s] run by (cases "view b jid") (auto simp: domIff)
next
  case (CallHeartbeat now k)
  then show ?thesis using heartbeat_law [OF i, of now k] run status_touched by auto
next
  case (CallAttempt now k err)
  then show ?thesis using attempt_law [OF i, of now k err] run status_touched by auto
next
  case (CallProgress now k p)
  then show ?thesis using progress_law [OF i, of now k p] run status_touched by auto
next
  case (CallResult now k res)
  then show ?thesis using result_law [OF i, of now k res] run status_touched by auto
qed

lemma settles_step:
  assumes ok: "\<And>p. starts p \<Longrightarrow> proper p \<and> guarded p jid False \<and> settled p jid None Q"
    and tr: "trace ops starts ([], b0) es s" and i0: "inv b0" and st: "step ops starts s e s'"
    and once: "\<forall>x \<in> set (es @ [e]). \<not> puts_back jid x"
    and IH: "\<And>n. n < length (fst s) \<Longrightarrow>
      settled (fst s ! n) jid (if n \<in> winners jid es then status_of jid (snd s) else None) Q"
    and n: "n < length (fst s')"
  shows "settled (fst s' ! n) jid (if n \<in> winners jid (es @ [e]) then status_of jid (snd s') else None) Q"
proof -
  note w = winners_snoc [of jid es e]
  have own: "inv (snd s)" "\<And>p. p \<in> set (fst s) \<Longrightarrow> proper p" "winners jid es \<subseteq> {..<length (fst s)}"
      "\<And>n. n < length (fst s) \<Longrightarrow> guarded (fst s ! n) jid (n \<in> winners jid es)"
      "winners jid es \<noteq> {} \<Longrightarrow> unqueued jid (snd s)"
    using owner [OF tr refl i0, of jid] ok once by auto
  have one: "m = m'" if "m \<in> winners jid (es @ [e])" "m' \<in> winners jid (es @ [e])" for m m'
    using owner [OF trace_snoc [OF tr st] refl i0, of jid] ok once that by blast
  let ?S = "\<lambda>W v n p. settled p jid (if n \<in> W then v else None) Q"
  from st show ?thesis
  proof cases
    case (spawn p ps b)
    have "\<forall>n < length (ps @ [p]). ?S (winners jid es) (status_of jid b) n ((ps @ [p]) ! n)"
    proof (rule threads_append)
      show "?S (winners jid es) (status_of jid b) n (ps ! n)" if "n < length ps" for n
        using IH [unfolded spawn fst_conv snd_conv, OF that] .
      have "length ps \<notin> winners jid es" using own(3) spawn by auto
      then show "?S (winners jid es) (status_of jid b) (length ps) p" using ok [of p] spawn by simp
    qed
    from this [rule_format, of n] show ?thesis using n spawn w by (simp split del: if_split cong: if_cong)
  next
    case (make m ps c k b r b')
    let ?W = "winners jid es"
    have w': "winners jid (es @ [e]) = won_after jid ?W m c r" using make winners_made by simp
    have i: "inv b" and run: "do_call ops c b = (r, b')" using own(1) make by simp_all
    have "\<not> requeues jid c" using once make by simp
    note after = do_call_status [OF i run this]
    have wr: "writes jid c \<Longrightarrow> m \<in> ?W" using own(4) [of m] make by auto
    have "?S ?W (status_of jid b) m (Make c k)" using IH [of m] make by (simp cong: if_cong)
    note own_thread = settled_call [OF this wr, of r, folded after]
    have "?S (won_after jid ?W m c r) (status_of jid b') x (ps ! x)" if "x < length ps" "x \<noteq> m" for x
      using IH [of x] that make after status_kept_by_other [where v = "status_of jid b", OF wr _ that(2) one [unfolded w']]
      by (simp add: won_after_other split: if_splits)
    then have "\<forall>x < length (ps[m := k r]). ?S (won_after jid ?W m c r) (status_of jid b') x (ps[m := k r] ! x)"
      using own_thread by (intro threads_update) auto
    from this [rule_format, of n] show ?thesis using n make unfolding w' by (simp split del: if_split cong: if_cong)
  next
    case (fetch m ps l jt qn k b r b')
    have "proper (Fetch l jt qn k)" using own(2) fetch nth_mem by (metis fst_conv)
    then have "b' = b" using fetch own(1) by (intro dequeue_keeps [of b l jt qn r b']) simp_all
    then show ?thesis using IH [of n] fetch w n by (cases "n = m") auto
  next
    case (look m ps j k b)
    have "job_id (be_live ops b j) = job_id j" using live_id own(1) look by simp
    then show ?thesis using IH [of n] look w n by (cases "n = m") auto
  next
    case (begin_handler m ps j p b)
    then show ?thesis using IH [of n] w n by (cases "n = m") auto
  qed
qed

lemma settles:
  assumes tr: "trace ops starts s0 es s" and s0: "s0 = ([], b0)" and i0: "inv b0"
    and ok: "\<And>p. starts p \<Longrightarrow> proper p \<and> guarded p jid False \<and> settled p jid None Q"
    and once: "\<forall>e \<in> set es. \<not> puts_back jid e" and n: "n < length (fst s)"
  shows "settled (fst s ! n) jid (if n \<in> winners jid es then status_of jid (snd s) else None) Q"
  using tr once n
proof (induction arbitrary: n rule: trace.induct)
  case trace_nil
  then show ?case using s0 by simp
next
  case (trace_snoc es s e s')
  show ?case
  proof (rule settles_step [OF ok _ i0 trace_snoc.hyps(2) trace_snoc.prems(1) _ trace_snoc.prems(2)])
    show "trace ops starts ([], b0) es s" using trace_snoc.hyps(1) s0 by simp
    show "settled (fst s ! m) jid (if m \<in> winners jid es then status_of jid (snd s) else None) Q"
      if "m < length (fst s)" for m
      using trace_snoc.IH [OF _ that] trace_snoc.prems(1) by simp
  qed
qed

text \<open>A claimed job stays stored.\<close>

lemma claimed_stored:
  assumes tr: "trace ops starts s0 es s" and s0: "s0 = ([], b0)" and i0: "inv b0"
    and ok: "\<And>p. starts p \<Longrightarrow> proper p \<and> guarded p jid False"
    and once: "\<forall>e \<in> set es. \<not> puts_back jid e" and won: "winners jid es \<noteq> {}"
  shows "status_of jid (snd s) \<noteq> None"
  using tr once won
proof (induction rule: trace.induct)
  case (trace_snoc es s e s')
  note w = winners_snoc [of jid es e]
  have tr: "trace ops starts ([], b0) es s" using trace_snoc.hyps(1) s0 by simp
  have own: "inv (snd s)" "\<And>p. p \<in> set (fst s) \<Longrightarrow> proper p"
    using owner [OF tr refl i0 ok] trace_snoc.prems(1) by auto
  from trace_snoc.hyps(2) show ?case
  proof cases
    case (make m ps c k b r b')
    have after: "status_of jid b' = status_after jid c r (status_of jid b)"
      using own(1) make trace_snoc.prems(1) by (intro do_call_status) simp_all
    show ?thesis
    proof (cases "winners jid es = {}")
      case True
      then have "claims_of jid c \<and> r = Inr True" using trace_snoc.prems(2) w make by auto
      then have "status_after jid c r (status_of jid b) = Some RUNNING" by (cases c) auto
      then show ?thesis using after make by auto
    next
      case False
      then obtain x where "status_of jid b = Some x" using trace_snoc.IH trace_snoc.prems(1) make by auto
      then show ?thesis using after make status_after_some [of jid c r x] by auto
    qed
  next
    case (fetch m ps l jt qn k b r b')
    have "proper (Fetch l jt qn k)" using own(2) fetch nth_mem by (metis fst_conv)
    then have "b' = b" using fetch own(1) by (intro dequeue_keeps [of b l jt qn r b']) simp_all
    then show ?thesis using trace_snoc.IH trace_snoc.prems fetch w by auto
  qed (use trace_snoc.IH trace_snoc.prems w in auto)
qed simp

text \<open>Both together: one thread owns the job, and what it leaves behind is what its result says.\<close>

lemma owned:
  assumes i: "inv b" and tr: "trace ops starts ([], b) es s"
    and ok: "\<And>p. starts p \<Longrightarrow> proper p \<and> guarded p jid False \<and> settled p jid None Q"
    and once: "\<forall>e \<in> set es. \<not> puts_back jid e"
  shows "(\<forall>n m. \<forall>e \<in> set es. \<forall>f \<in> set es. acts_on jid n e \<longrightarrow> acts_on jid m f \<longrightarrow> n = m) \<and>
    (\<forall>n r. n \<in> winners jid es \<longrightarrow> fst s ! n = Done r \<longrightarrow>
       (\<exists>j. view (snd s) jid = Some j \<and> Q r (status j)))"
proof -
  have ok2: "proper p \<and> guarded p jid False" if "starts p" for p using ok [OF that] by simp
  note own = owner [OF tr refl i ok2 once]
  have "\<exists>j. view (snd s) jid = Some j \<and> Q r (status j)"
    if n: "n \<in> winners jid es" and d: "fst s ! n = Done r" for n r
  proof -
    have "n < length (fst s)" using own n by auto
    from settles [OF tr refl i ok once this] n d
    have st: "\<forall>x. status_of jid (snd s) = Some x \<longrightarrow> Q r x" by simp
    have "status_of jid (snd s) \<noteq> None" using claimed_stored [OF tr refl i ok2 once] n by auto
    then show ?thesis using st by auto
  qed
  then show ?thesis using own by meson
qed

end

end
