(* ===== verification/Worker_Process.thy ===== *)
theory Worker_Process
  imports Worker_Proofs Call_Process
begin

section \<open>Workers side by side\<close>

text \<open>
  One pass of \<open>Worker.run_once\<close> as a tree of backend calls, without a dispatcher and without a run
  timeout, so that the passes of several workers can be interleaved call by call. A handler is a
  tree as well: what it does to the backend happens in its own calls, between which the other threads
  run. The audit log and the metrics are objects of one worker; they change nothing in the backend.

  \<open>pass_proc_run\<close> shows that the tree, run alone, is the pass of the theory \<open>Worker\<close>: the same result
  and the same backend. What holds in every interleaving is proved from \<open>tickets\<close> and \<open>owner\<close>.
\<close>

subsection \<open>The pass as a tree\<close>

type_synonym tree_handler = "job_context \<Rightarrow> pyval proc"

text \<open>\<open>FallbackPolicyManager.apply\<close>: what the worker uses of the decision, its status and whether to raise.\<close>

definition fallback_proc ::
  "fallback_manager \<Rightarrow> string \<Rightarrow> (nat \<Rightarrow> time) \<Rightarrow> job \<Rightarrow> exn \<Rightarrow> (string \<times> bool) proc" where
  "fallback_proc m uuid clk j err =
     (let pol = policy_for m (job_type j) in
      case fp_action pol of
        RETRY \<Rightarrow>
          bind_proc (call_proc (CallStatus (clk 0) (job_id j) RETRY_WAIT))
            (\<lambda>_. Done (Inr (status_value RETRY_WAIT, True)))
      | DEAD_LETTER \<Rightarrow>
          bind_proc (call_proc (CallStatus (clk 0) (job_id j) FAILED))
            (\<lambda>_. Look j (\<lambda>k. bind_proc (call_proc (CallEnqueue (dead_letter_job pol uuid (clk 1) k err)))
               (\<lambda>_. Done (Inr (status_value FAILED, False)))))
      | NOTIFY \<Rightarrow>
          bind_proc (call_proc (CallStatus (clk 0) (job_id j) FAILED))
            (\<lambda>_. bind_proc
               (case fp_notify_url pol of
                  None \<Rightarrow> Done (Inr ())
                | Some url \<Rightarrow>
                    if url = [] then Done (Inr ())
                    else Look j (\<lambda>k. Done (fm_notifier m ''POST'' url (notify_payload k err))))
               (\<lambda>_. Done (Inr (status_value FAILED, False))))
      | IGNORE \<Rightarrow>
          bind_proc (call_proc (CallStatus (clk 0) (job_id j) FAILED))
            (\<lambda>_. Done (Inr (status_value FAILED, False))))"

definition failed_proc :: "'b worker_config \<Rightarrow> string \<Rightarrow> (nat \<Rightarrow> time) \<Rightarrow> job \<Rightarrow> exn \<Rightarrow> bool proc" where
  "failed_proc cfg uuid clk j err =
     (case wk_fallback cfg of
        Some m \<Rightarrow>
          bind_proc (fallback_proc m uuid (\<lambda>i. clk (7 + i)) j err)
            (\<lambda>dec. if snd dec then Done (Inl err) else Done (Inr True))
      | None \<Rightarrow>
          bind_proc (call_proc (CallStatus (clk 7) (job_id j) FAILED)) (\<lambda>_. Done (Inl err)))"

definition complete_proc :: "(nat \<Rightarrow> time) \<Rightarrow> tree_handler \<Rightarrow> job_context \<Rightarrow> job \<Rightarrow> bool proc" where
  "complete_proc clk h ctx j =
     bind_proc (call_proc (CallHeartbeat (clk 2) (job_id j)))
       (\<lambda>_. Begin j (bind_proc (h ctx)
          (\<lambda>_. bind_proc (call_proc (CallStatus (clk 5) (job_id j) SUCCEEDED)) (\<lambda>_. Done (Inr True)))))"

definition execute_proc ::
  "'b worker_config \<Rightarrow> (string, tree_handler) dict \<Rightarrow> string \<Rightarrow> (nat \<Rightarrow> time) \<Rightarrow> job \<Rightarrow> bool proc" where
  "execute_proc cfg hs uuid clk j =
     (case dict_get hs (job_type j) of
        None \<Rightarrow> Done (Inl (KeyError (''Unknown job_type: '' @ job_type j)))
      | Some h \<Rightarrow>
          Look j (\<lambda>k. catch_proc (complete_proc clk h (new_context k) j) (failed_proc cfg uuid clk j)))"

definition take_proc ::
  "'b worker_config \<Rightarrow> (string, tree_handler) dict \<Rightarrow> string \<Rightarrow> (nat \<Rightarrow> time) \<Rightarrow> job \<Rightarrow> bool proc" where
  "take_proc cfg hs uuid clk j =
     bind_proc (call_proc (CallClaim (clk 0) (job_id j) (wk_host_id cfg) (wk_worker_id cfg)))
       (\<lambda>won. if \<not> won then Done (Inr False) else execute_proc cfg hs uuid clk j)"

definition pass_proc ::
  "'b worker_config \<Rightarrow> (string, tree_handler) dict \<Rightarrow> string \<Rightarrow> (nat \<Rightarrow> time) \<Rightarrow> bool proc" where
  "pass_proc cfg hs uuid clk =
     (if case wk_authoriser cfg of Some auth \<Rightarrow> \<not> auth (wk_host_id cfg) (wk_worker_id cfg) | None \<Rightarrow> False
      then Done (Inl (PermissionError (''Worker identity not authorised: '' @ wk_host_id cfg @ '':'' @ wk_worker_id cfg)))
      else Fetch 1 None (wk_queue_name cfg)
             (\<lambda>r. case r of
                Inl e \<Rightarrow> Done (Inl e)
              | Inr [] \<Rightarrow> Done (Inr False)
              | Inr (j # _) \<Rightarrow> take_proc cfg hs uuid clk j))"

subsection \<open>The tree, run alone, is the pass\<close>

text \<open>The registry of the sequential worker: each handler runs its tree.\<close>

definition run_handlers :: "'b backend_ops \<Rightarrow> (string, tree_handler) dict \<Rightarrow> 'b handler_registry" where
  "run_handlers ops hs = map (\<lambda>(t, h). (t, \<lambda>ctx. run_proc ops (h ctx))) hs"

lemma run_handlers_get: "dict_get (run_handlers ops hs) t = map_option (\<lambda>h ctx. run_proc ops (h ctx)) (dict_get hs t)"
  by (induction hs) (auto simp: run_handlers_def)

text \<open>
  A step of the worker follows a tree: the same result, the same backend, and the worker still has no
  dispatcher.
\<close>

definition alone :: "'b worker_state \<Rightarrow> bool" where
  "alone w \<longleftrightarrow> \<not> has_dispatcher (ws_dispatch w)"

definition tracks :: "'b backend_ops \<Rightarrow> ('b worker_state, 'a) py \<Rightarrow> 'a proc \<Rightarrow> bool" where
  "tracks ops m p \<longleftrightarrow>
     (\<forall>w. alone w \<longrightarrow>
        (\<exists>r w'. m w = (r, w') \<and> run_proc ops p (wb w) = (r, wb w') \<and> alone w'))"

named_theorems tracking \<open>the worker's steps and the trees they follow\<close>

lemma tracksI:
  "(\<And>w. alone w \<Longrightarrow> \<exists>r w'. m w = (r, w') \<and> run_proc ops p (wb w) = (r, wb w') \<and> alone w') \<Longrightarrow> tracks ops m p"
  by (simp add: tracks_def)

lemma tracksE:
  assumes "tracks ops m p" and "alone w"
  obtains r w' where "m w = (r, w')" and "run_proc ops p (wb w) = (r, wb w')" and "alone w'"
  using assms by (auto simp: tracks_def)

lemma tracks_backend [tracking]:
  assumes "\<And>b. run_proc ops p b = m b"
  shows "tracks ops (ws_on_backend m) p"
proof (rule tracksI)
  fix w :: "'a worker_state" assume w: "alone w"
  obtain r b' where "m (wb w) = (r, b')" by (cases "m (wb w)")
  with ws_on_backend_run [of m w r b'] assms w frame_has_dispatcher
  show "\<exists>r w'. ws_on_backend m w = (r, w') \<and> run_proc ops p (wb w) = (r, wb w') \<and> alone w'"
    by (fastforce simp: alone_def)
qed

lemma tracks_ret [tracking]: "tracks ops (ret x) (Done (Inr x))"
  by (simp add: tracks_def ret_def)

lemma tracks_raise [tracking]: "tracks ops (raise_exn e) (Done (Inl e))"
  by (simp add: tracks_def raise_exn_def)

lemma tracks_bind [tracking]:
  assumes "tracks ops m p" and "\<And>x. tracks ops (f x) (g x)"
  shows "tracks ops (bind_py m f) (bind_proc p g)"
proof (rule tracksI)
  fix w :: "'a worker_state" assume "alone w"
  then obtain r w1 where 1: "m w = (r, w1)" "run_proc ops p (wb w) = (r, wb w1)" "alone w1"
    using assms(1) by (auto elim: tracksE)
  show "\<exists>r w'. bind_py m f w = (r, w') \<and> run_proc ops (bind_proc p g) (wb w) = (r, wb w') \<and> alone w'"
  proof (cases r)
    case (Inl e)
    then show ?thesis using 1 by (simp add: bind_py_def run_bind)
  next
    case (Inr x)
    then show ?thesis using 1 assms(2) [of x] by (auto simp: bind_py_def run_bind elim: tracksE)
  qed
qed

lemma tracks_seq [tracking]: "tracks ops m p \<Longrightarrow> tracks ops m' q \<Longrightarrow> tracks ops (seq_py m m') (bind_proc p (\<lambda>_. q))"
  unfolding seq_py_def by (rule tracks_bind)

lemma tracks_catch [tracking]:
  assumes "tracks ops m p" and "\<And>e. tracks ops (f e) (g e)"
  shows "tracks ops (try_except m f) (catch_proc p g)"
proof (rule tracksI)
  fix w :: "'a worker_state" assume "alone w"
  then obtain r w1 where 1: "m w = (r, w1)" "run_proc ops p (wb w) = (r, wb w1)" "alone w1"
    using assms(1) by (auto elim: tracksE)
  show "\<exists>r w'. try_except m f w = (r, w') \<and> run_proc ops (catch_proc p g) (wb w) = (r, wb w') \<and> alone w'"
  proof (cases r)
    case (Inr x)
    then show ?thesis using 1 by (simp add: try_except_def run_catch)
  next
    case (Inl e)
    then show ?thesis using 1 assms(2) [of e] by (auto simp: try_except_def run_catch elim: tracksE)
  qed
qed

text \<open>The audit, the metrics and the release without a dispatcher leave the backend alone.\<close>

lemma alone_frame: "frame w w' \<Longrightarrow> alone w' = alone w"
  using frame_has_dispatcher by (simp add: alone_def)

lemma tracks_quiet_seq:
  assumes "\<And>w. alone w \<Longrightarrow> \<exists>w'. m w = (Inr (), w') \<and> wb w' = wb w \<and> frame w w'" and "tracks ops m' q"
  shows "tracks ops (seq_py m m') q"
proof (rule tracksI)
  fix w :: "'a worker_state" assume "alone w"
  then obtain w1 where "m w = (Inr (), w1)" "wb w1 = wb w" "alone w1"
    using assms(1) alone_frame by blast
  then show "\<exists>r w'. seq_py m m' w = (r, w') \<and> run_proc ops q (wb w) = (r, wb w') \<and> alone w'"
    using assms(2) by (auto simp: seq_py_Inr elim: tracksE)
qed

lemma tracks_emit [tracking]: "tracks ops m q \<Longrightarrow> tracks ops (seq_py (ws_emit now act outcome) m) q"
  by (rule tracks_quiet_seq) (use ws_emit_run in blast)

lemma tracks_inc [tracking]: "tracks ops m q \<Longrightarrow> tracks ops (seq_py (ws_inc key) m) q"
  by (rule tracks_quiet_seq [OF ws_inc_run])

lemma tracks_inc_either [tracking]:
  "tracks ops m q \<Longrightarrow> tracks ops (seq_py (if a then ws_inc k else if b then ws_inc k' else ret ()) m) q"
  by (rule tracks_quiet_seq [OF ws_inc_either])

lemma release_alone: "alone w \<Longrightarrow> ws_release_job j w = (Inr (), w)"
  by (simp add: ws_release_job_def alone_def)

lemma tracks_release [tracking]: "tracks ops m q \<Longrightarrow> tracks ops (seq_py (ws_release_job j) m) q"
  by (rule tracks_quiet_seq) (simp_all add: release_alone)

lemma tracks_finally [tracking]:
  assumes "tracks ops m p"
  shows "tracks ops (try_finally m (ws_release_job j)) p"
proof (rule tracksI)
  fix w :: "'a worker_state" assume "alone w"
  then obtain r w1 where "m w = (r, w1)" "run_proc ops p (wb w) = (r, wb w1)" "alone w1"
    using assms by (auto elim: tracksE)
  then show "\<exists>r w'. try_finally m (ws_release_job j) w = (r, w') \<and> run_proc ops p (wb w) = (r, wb w') \<and> alone w'"
    by (simp add: try_finally_def release_alone)
qed

text \<open>The fallback policy, the failure branch and the body of the \<open>try\<close>.\<close>

lemma fallback_proc_run:
  "run_proc ops (fallback_proc m uuid clk j err) b =
     (case fallback_apply ops m uuid clk j err b of
        (Inl e, b') \<Rightarrow> (Inl e, b') | (Inr dec, b') \<Rightarrow> (Inr (fd_status dec, fd_should_raise dec), b'))"
  by (auto simp: fallback_proc_def fallback_apply_def Let_def run_bind py_defs split: fallback_action.split sum.split prod.split option.split)

lemma tracks_bind_via:
  assumes run: "\<And>b. run_proc ops p b =
      (case m b of (Inl e, b') \<Rightarrow> (Inl e, b') | (Inr x, b') \<Rightarrow> (Inr (h x), b'))"
    and f: "\<And>x. tracks ops (f x) (g (h x))"
  shows "tracks ops (bind_py (ws_on_backend m) f) (bind_proc p g)"
proof (rule tracksI)
  fix w :: "'a worker_state" assume w: "alone w"
  obtain r b' where m: "m (wb w) = (r, b')" by (cases "m (wb w)")
  then obtain w1 where 1: "ws_on_backend m w = (r, w1)" "wb w1 = b'" "alone w1"
    using ws_on_backend_run [of m w r b'] alone_frame w by blast
  show "\<exists>r w'. bind_py (ws_on_backend m) f w = (r, w') \<and> run_proc ops (bind_proc p g) (wb w) = (r, wb w') \<and> alone w'"
  proof (cases r)
    case (Inl e)
    then show ?thesis using 1 m run [of "wb w"] by (simp add: bind_py_def run_bind)
  next
    case (Inr x)
    then show ?thesis
      using 1 m run [of "wb w"] f [of x] by (auto simp: bind_py_def run_bind elim: tracksE)
  qed
qed

lemma tracks_failed: "tracks ops (ws_failed ops cfg uuid clk j err) (failed_proc cfg uuid clk j err)"
proof (cases "wk_fallback cfg")
  case None
  then show ?thesis
    by (simp add: ws_failed_def failed_proc_def) (intro tracking, simp)
next
  case (Some m)
  have "tracks ops (bind_py (ws_on_backend (fallback_apply ops m uuid (\<lambda>i. clk (7 + i)) j err))
        (\<lambda>dec. seq_py (ws_emit (clk 9) ''job.transition'' ''failure'')
           (seq_py (if fd_status dec = status_value RETRY_WAIT then ws_inc ''jobs.retry_wait''
                    else if fd_status dec = status_value FAILED then ws_inc ''jobs.failed''
                    else ret ())
              (if fd_should_raise dec then raise_exn err else ret True))))
      (bind_proc (fallback_proc m uuid (\<lambda>i. clk (7 + i)) j err)
        (\<lambda>d. if snd d then Done (Inl err) else Done (Inr True)))"
  proof (rule tracks_bind_via [OF fallback_proc_run], intro tracks_emit tracks_inc_either)
    fix dec
    show "tracks ops (if fd_should_raise dec then raise_exn err else ret True)
        (if snd (fd_status dec, fd_should_raise dec) then Done (Inl err) else Done (Inr True))"
      by (simp add: tracks_raise tracks_ret)
  qed
  then show ?thesis using Some by (simp add: ws_failed_def failed_proc_def)
qed

lemma seq_py_ret: "seq_py (seq_py m (ret ())) k = seq_py m k"
  by (rule ext) (auto simp: py_defs split: prod.split sum.split)

lemma tracks_begin: "tracks ops m p \<Longrightarrow> tracks ops m (Begin j p)"
  by (simp add: tracks_def)

lemma tracks_complete:
  assumes "wk_run_timeout cfg = None" and "h ctx = run_proc ops (t ctx)"
  shows "tracks ops (ws_complete ops cfg expires clk h ctx j) (complete_proc clk t ctx j)"
  unfolding ws_complete_def complete_proc_def
  by (simp add: ws_run_handler_def assms seq_py_ret del: status_value.simps)
    (intro tracks_begin tracking, simp_all del: status_value.simps)

lemma tracks_execute:
  assumes "wk_run_timeout cfg = None" and "wk_handlers cfg = run_handlers ops hs"
  shows "tracks ops (ws_execute ops cfg expires uuid clk j) (execute_proc cfg hs uuid clk j)"
proof (cases "dict_get hs (job_type j)")
  case None
  then show ?thesis
    by (simp add: ws_execute_def execute_proc_def registry_get_def assms(2) run_handlers_get tracks_raise)
next
  case (Some t)
  have get: "registry_get (wk_handlers cfg) (job_type j) = Inr (\<lambda>ctx. run_proc ops (t ctx))"
    using Some by (simp add: registry_get_def assms(2) run_handlers_get)
  have body: "tracks ops (try_finally
      (try_except (ws_complete ops cfg expires clk (\<lambda>ctx. run_proc ops (t ctx)) (new_context k) j)
        (ws_failed ops cfg uuid clk j)) (ws_release_job j))
      (catch_proc (complete_proc clk t (new_context k) j) (failed_proc cfg uuid clk j))" for k
    by (intro tracks_finally tracks_catch tracks_complete tracks_failed assms(1)) simp
  show ?thesis
  proof (rule tracksI)
    fix w :: "'a worker_state" assume "alone w"
    from tracksE [OF body this, of "be_live ops (wb w) j"] Some get
    show "\<exists>r w'. ws_execute ops cfg expires uuid clk j w = (r, w') \<and>
        run_proc ops (execute_proc cfg hs uuid clk j) (wb w) = (r, wb w') \<and> alone w'"
      by (simp add: ws_execute_def execute_proc_def Let_def) blast
  qed
qed

lemma tracks_take:
  assumes "wk_run_timeout cfg = None" and "wk_handlers cfg = run_handlers ops hs"
  shows "tracks ops (ws_take ops cfg expires uuid clk j) (take_proc cfg hs uuid clk j)"
  unfolding ws_take_def take_proc_def
proof (rule tracks_bind)
  fix won
  show "tracks ops (if \<not> won then seq_py (ws_release_job j) (ret False)
        else seq_py (ws_emit (clk 1) ''job.claim'' ''success'') (ws_execute ops cfg expires uuid clk j))
      (if \<not> won then Done (Inr False) else execute_proc cfg hs uuid clk j)"
    using tracks_execute [OF assms] by (simp add: tracks_release tracks_ret tracks_emit)
qed (rule tracks_backend, simp)

lemma tracks_select: "tracks ops (ws_select ops cfg) (Fetch 1 None (wk_queue_name cfg) Done)"
proof (rule tracksI)
  fix w :: "'a worker_state" assume w: "alone w"
  have "tracks ops (ws_on_backend (be_dequeue ops 1 None (wk_queue_name cfg))) (Fetch 1 None (wk_queue_name cfg) Done)"
    by (rule tracks_backend) (simp split: prod.split)
  with w show "\<exists>r w'. ws_select ops cfg w = (r, w') \<and>
      run_proc ops (Fetch 1 None (wk_queue_name cfg) Done) (wb w) = (r, wb w') \<and> alone w'"
    by (simp add: ws_select_def alone_def tracks_def)
qed

lemma tracks_pass:
  assumes "wk_run_timeout cfg = None" and "wk_handlers cfg = run_handlers ops hs"
  shows "tracks ops (run_once ops cfg expires uuid clk) (pass_proc cfg hs uuid clk)"
proof -
  have rest: "tracks ops (bind_py (ws_select ops cfg)
      (\<lambda>jobs. case jobs of [] \<Rightarrow> ret False | j # _ \<Rightarrow> ws_take ops cfg expires uuid clk j))
      (bind_proc (Fetch 1 None (wk_queue_name cfg) Done)
        (\<lambda>jobs. case jobs of [] \<Rightarrow> Done (Inr False) | j # _ \<Rightarrow> take_proc cfg hs uuid clk j))"
  proof (rule tracks_bind [OF tracks_select])
    fix jobs :: "job list"
    show "tracks ops (case jobs of [] \<Rightarrow> ret False | j # _ \<Rightarrow> ws_take ops cfg expires uuid clk j)
        (case jobs of [] \<Rightarrow> Done (Inr False) | j # _ \<Rightarrow> take_proc cfg hs uuid clk j)"
      using tracks_take [OF assms] by (simp add: tracks_ret split: list.split)
  qed
  show ?thesis
  proof (cases "case wk_authoriser cfg of Some auth \<Rightarrow> \<not> auth (wk_host_id cfg) (wk_worker_id cfg) | None \<Rightarrow> False")
    case True
    then show ?thesis
      by (auto simp: run_once_def pass_proc_def tracks_def py_defs split: option.splits)
  next
    case False
    then have "run_once ops cfg expires uuid clk = bind_py (ws_select ops cfg)
        (\<lambda>jobs. case jobs of [] \<Rightarrow> ret False | j # _ \<Rightarrow> ws_take ops cfg expires uuid clk j)"
      by (cases "wk_authoriser cfg") (auto simp: run_once_def seq_py_def bind_py_def ret_def fun_eq_iff)
    moreover have "pass_proc cfg hs uuid clk = bind_proc (Fetch 1 None (wk_queue_name cfg) Done)
        (\<lambda>jobs. case jobs of [] \<Rightarrow> Done (Inr False) | j # _ \<Rightarrow> take_proc cfg hs uuid clk j)"
      using False by (simp add: pass_proc_def bind_proc_def)
    ultimately show ?thesis using rest by simp
  qed
qed

subsection \<open>The pass among others\<close>

text \<open>
  What the handlers do in their calls: they start no handler themselves, ask properly, and leave the
  job \<open>jid\<close> alone unless it is their own.
\<close>

definition plain_handlers :: "(string, tree_handler) dict \<Rightarrow> bool" where
  "plain_handlers hs \<longleftrightarrow> (\<forall>t h ctx. dict_get hs t = Some h \<longrightarrow> quiet (h ctx) \<and> proper (h ctx))"

definition own_handlers :: "string \<Rightarrow> (string, tree_handler) dict \<Rightarrow> bool" where
  "own_handlers jid hs \<longleftrightarrow>
     (\<forall>t h ctx. dict_get hs t = Some h \<longrightarrow> job_id (ctx_job ctx) \<noteq> jid \<longrightarrow> hands_off (h ctx) jid)"

lemma bind_call: "bind_proc (call_proc c) f = Make c (\<lambda>r. case r of Inl e \<Rightarrow> Done (Inl e) | Inr x \<Rightarrow> f x)"
  by (simp add: bind_proc_def call_proc_def)

lemma quiet_fallback: "quiet (fallback_proc m uuid clk j err)"
  by (auto simp: fallback_proc_def Let_def intro!: quiet_bind split: fallback_action.split option.split)

lemma quiet_failed: "quiet (failed_proc cfg uuid clk j err)"
  by (auto simp: failed_proc_def intro!: quiet_bind quiet_fallback split: option.split)

text \<open>A pass starts the handler of a job only after it won a claim of it, and once.\<close>

lemma covered_complete:
  assumes "quiet (h ctx)"
  shows "covered (complete_proc clk h ctx j) jid (if job_id j = jid then 1 else 0)"
proof -
  have "quiet (bind_proc (h ctx) (\<lambda>_. bind_proc (call_proc (CallStatus (clk 5) (job_id j) SUCCEEDED)) (\<lambda>_. Done (Inr True))))"
    using assms by (intro quiet_bind) simp_all
  then show ?thesis
    by (auto simp: complete_proc_def bind_call intro: quiet_covered split: sum.split)
qed

lemma covered_execute:
  assumes "plain_handlers hs"
  shows "covered (execute_proc cfg hs uuid clk j) jid (if job_id j = jid then 1 else 0)"
proof (cases "dict_get hs (job_type j)")
  case (Some h)
  have "covered (catch_proc (complete_proc clk h (new_context k) j) (failed_proc cfg uuid clk j)) jid
      (if job_id j = jid then 1 else 0)" for k
    unfolding catch_proc_def
  proof (rule covered_then)
    show "covered (complete_proc clk h (new_context k) j) jid (if job_id j = jid then 1 else 0)"
      using assms Some by (intro covered_complete) (simp add: plain_handlers_def)
  qed (simp split: sum.split add: quiet_covered [OF quiet_failed])
  then show ?thesis using Some by (simp only: execute_proc_def option.case covered.simps) simp
qed (simp add: execute_proc_def)

lemma covered_take:
  assumes "plain_handlers hs"
  shows "covered (take_proc cfg hs uuid clk j) jid 0"
  using covered_execute [OF assms, of cfg uuid clk j jid]
  by (cases "job_id j = jid") (auto simp: take_proc_def bind_call split: sum.split)

lemma covered_pass: "plain_handlers hs \<Longrightarrow> covered (pass_proc cfg hs uuid clk) jid 0"
  by (auto simp: pass_proc_def intro: covered_take split: sum.split list.split)

lemma proper_bind: "proper p \<Longrightarrow> (\<And>x. proper (f x)) \<Longrightarrow> proper (bind_proc p f)"
  by (auto simp: bind_proc_def intro!: proper_then split: sum.split)

lemma proper_call: "proper (call_proc c)"
  by (simp add: call_proc_def)

lemma proper_failed: "proper (failed_proc cfg uuid clk j err)"
  by (auto simp: failed_proc_def fallback_proc_def Let_def intro!: proper_bind proper_call
      split: option.split fallback_action.split)

lemma proper_complete: "proper (h ctx) \<Longrightarrow> proper (complete_proc clk h ctx j)"
  by (auto simp: complete_proc_def intro!: proper_bind proper_call)

lemma proper_pass:
  assumes "wk_queue_name cfg \<noteq> Some []" and "plain_handlers hs"
  shows "proper (pass_proc cfg hs uuid clk)"
proof -
  have "proper (execute_proc cfg hs uuid clk j)" for j
    using assms(2) by (auto simp: execute_proc_def catch_proc_def plain_handlers_def
        intro!: proper_then proper_complete proper_failed split: option.split sum.split)
  then show ?thesis
    using assms(1) by (auto simp: pass_proc_def take_proc_def intro!: proper_bind proper_call
        split: sum.split list.split)
qed

text \<open>A pass leaves every job alone but the one it selected, and that one until it won a claim of it.\<close>

lemma hands_off_bind: "hands_off p jid \<Longrightarrow> (\<And>x. hands_off (f x) jid) \<Longrightarrow> hands_off (bind_proc p f) jid"
  by (auto simp: bind_proc_def intro!: hands_off_then split: sum.split)

lemma hands_off_failed:
  assumes "job_id j \<noteq> jid" and "uuid \<noteq> jid"
  shows "hands_off (failed_proc cfg uuid clk j err) jid"
  using assms
  by (auto simp: failed_proc_def fallback_proc_def Let_def bind_call dead_letter_job_def intro!: hands_off_bind
      split: option.split fallback_action.split sum.split)

lemma hands_off_complete:
  assumes "job_id j \<noteq> jid" and "hands_off (h ctx) jid"
  shows "hands_off (complete_proc clk h ctx j) jid"
  using assms by (auto simp: complete_proc_def bind_call intro!: hands_off_bind split: sum.split)

lemma hands_off_execute:
  assumes "job_id j \<noteq> jid" and "uuid \<noteq> jid" and "own_handlers jid hs"
  shows "hands_off (execute_proc cfg hs uuid clk j) jid"
proof (cases "dict_get hs (job_type j)")
  case (Some h)
  have "hands_off (catch_proc (complete_proc clk h (new_context k) j) (failed_proc cfg uuid clk j)) jid"
    if "job_id k = job_id j" for k
    unfolding catch_proc_def
  proof (rule hands_off_then)
    have "hands_off (h (new_context k)) jid"
      using assms that Some by (simp add: own_handlers_def new_context_def)
    then show "hands_off (complete_proc clk h (new_context k) j) jid" by (rule hands_off_complete [OF assms(1)])
  qed (simp split: sum.split add: hands_off_failed [OF assms(1,2)])
  then show ?thesis using Some by (simp add: execute_proc_def)
qed (simp add: execute_proc_def)

lemma guarded_pass:
  assumes "uuid \<noteq> jid" and "own_handlers jid hs"
  shows "guarded (pass_proc cfg hs uuid clk) jid False"
proof -
  have "guarded (take_proc cfg hs uuid clk j) jid False" for j
    using hands_off_guarded [OF hands_off_execute [OF _ assms, of j cfg clk]]
    by (cases "job_id j = jid") (auto simp: take_proc_def bind_call split: sum.split)
  then show ?thesis by (simp add: pass_proc_def split: sum.split list.split)
qed

text \<open>
  The status a pass without fallback policies leaves its job in, from what the pass returns or raises.
\<close>

definition verdict_stored :: "exn + bool \<Rightarrow> job_status \<Rightarrow> bool" where
  "verdict_stored r s \<longleftrightarrow>
     (case r of
        Inr ok \<Rightarrow> ok \<and> s = SUCCEEDED
      | Inl e \<Rightarrow> s = FAILED \<or> s = RUNNING \<and> (\<exists>t. e = KeyError (''Unknown job_type: '' @ t)))"

lemma settled_failed:
  "wk_fallback cfg = None \<Longrightarrow> settled (failed_proc cfg uuid clk j err) (job_id j) (Some s) verdict_stored"
  by (simp add: failed_proc_def bind_call verdict_stored_def split: sum.split)

lemma settled_try:
  assumes "wk_fallback cfg = None"
  shows "settled (catch_proc (complete_proc clk h ctx j) (failed_proc cfg uuid clk j)) (job_id j) (Some s) verdict_stored"
proof -
  let ?rest = "\<lambda>r. case r of Inl e \<Rightarrow> failed_proc cfg uuid clk j e | Inr x \<Rightarrow> Done (Inr x)"
  have fin: "settled (then_proc (bind_proc (call_proc (CallStatus (clk 5) (job_id j) SUCCEEDED)) (\<lambda>_. Done (Inr True))) ?rest)
      (job_id j) (Some s) verdict_stored" for s
    using settled_failed [OF assms] by (simp add: bind_call verdict_stored_def split: sum.split)
  have body: "settled (then_proc (bind_proc (h ctx)
      (\<lambda>_. bind_proc (call_proc (CallStatus (clk 5) (job_id j) SUCCEEDED)) (\<lambda>_. Done (Inr True)))) ?rest)
      (job_id j) (Some s) verdict_stored" for s
    unfolding bind_proc_def [of "h ctx"] then_then
    by (rule settled_then) (use fin settled_failed [OF assms] in \<open>simp split: sum.split\<close>)
  then show ?thesis
    using settled_failed [OF assms]
    by (auto simp: catch_proc_def complete_proc_def bind_call split: sum.split)
qed

lemma settled_pass:
  assumes "wk_fallback cfg = None" and "uuid \<noteq> jid" and "own_handlers jid hs"
  shows "settled (pass_proc cfg hs uuid clk) jid None verdict_stored"
proof -
  have "settled (take_proc cfg hs uuid clk j) jid None verdict_stored" for j
  proof (cases "job_id j = jid")
    case True
    have "settled (execute_proc cfg hs uuid clk j) (job_id j) (Some RUNNING) verdict_stored"
      using settled_try [OF assms(1)] by (auto simp: execute_proc_def verdict_stored_def split: option.split)
    with True show ?thesis by (auto simp: take_proc_def bind_call split: sum.split)
  next
    case False
    then show ?thesis
      using hands_off_settled [OF hands_off_execute [OF False assms(2,3), of cfg clk], of verdict_stored]
      by (simp add: take_proc_def bind_call split: sum.split)
  qed
  then show ?thesis by (simp add: pass_proc_def split: sum.split list.split)
qed

subsection \<open>The threads of the system\<close>

text \<open>
  Passes of workers, and clients and sweeps, which start no handler. The configuration of a worker with
  tree handlers has no registry of its own. For the ownership of one job no client writes or claims
  it, no handler but its own touches it, and its identifier is not drawn again.
\<close>

definition thread :: "bool proc \<Rightarrow> bool" where
  "thread p \<longleftrightarrow>
     (\<exists>(cfg :: unit worker_config) hs uuid clk. p = pass_proc cfg hs uuid clk \<and>
        wk_queue_name cfg \<noteq> Some [] \<and> plain_handlers hs) \<or>
     quiet p \<and> proper p"

definition thread_apart :: "string \<Rightarrow> bool proc \<Rightarrow> bool" where
  "thread_apart jid p \<longleftrightarrow>
     (\<exists>(cfg :: unit worker_config) hs uuid clk. p = pass_proc cfg hs uuid clk \<and>
        wk_queue_name cfg \<noteq> Some [] \<and> wk_fallback cfg = None \<and>
        plain_handlers hs \<and> own_handlers jid hs \<and> uuid \<noteq> jid) \<or>
     proper p \<and> hands_off p jid"

lemma thread_ok: "thread p \<Longrightarrow> proper p \<and> covered p jid 0"
  by (auto simp: thread_def intro: proper_pass covered_pass quiet_covered)

lemma thread_apart_ok:
  "thread_apart jid p \<Longrightarrow> proper p \<and> guarded p jid False \<and> settled p jid None verdict_stored"
  by (auto simp: thread_apart_def intro: proper_pass guarded_pass settled_pass hands_off_guarded hands_off_settled)

context queue_backend
begin

lemma starts_bounded:
  assumes "inv b" and "trace ops thread ([], b) es s"
  shows "handler_starts jid es \<le> requeue_calls jid es + in_queue jid b"
  using tickets [OF assms(2) refl assms(1) thread_ok, of jid] by auto

lemma one_owner:
  assumes i: "inv b" and tr: "trace ops (thread_apart jid) ([], b) es s"
    and once: "\<forall>e \<in> set es. \<not> puts_back jid e"
  shows "(\<forall>n m. \<forall>e \<in> set es. \<forall>f \<in> set es. acts_on jid n e \<longrightarrow> acts_on jid m f \<longrightarrow> n = m) \<and>
    (\<forall>n r. n \<in> winners jid es \<longrightarrow> fst s ! n = Done r \<longrightarrow>
       (\<exists>j. view (snd s) jid = Some j \<and> verdict_stored r (status j)))"
  using i tr thread_apart_ok once by (rule owned)

end

end
