(* ===== verification/Drain.thy ===== *)
theory Drain
  imports Worker_Proofs
begin

section \<open>A worker drains its queue\<close>

text \<open>
  \<open>Worker.run_forever\<close> over a backend that keeps the dispatch order, without a dispatcher, a run timeout
  or another thread: every pass takes one waiting_jobs job, runs its handler and leaves it succeeded, so that
  as many passes as jobs wait empty the queue. The handlers return and use the backend for
  bookkeeping only (progress, results, heartbeats).
\<close>

subsection \<open>The assumptions on the environment\<close>

definition steady_handler :: "('b \<Rightarrow> bool) \<Rightarrow> ('b \<Rightarrow> string \<Rightarrow> job option) \<Rightarrow> 'b handler \<Rightarrow> bool" where
  "steady_handler I V h \<longleftrightarrow>
     (\<forall>ctx b. I b \<longrightarrow> (\<exists>v b'. h ctx b = (Inr v, b') \<and> I b' \<and> touched (V b) (V b')))"

text \<open>The jobs that wait for a worker of the queue \<open>qn\<close>.\<close>

definition waiting_jobs :: "string option \<Rightarrow> (string \<rightharpoonup> job) \<Rightarrow> string set" where
  "waiting_jobs qn m = {i. \<exists>j. m i = Some j \<and> dispatchable None qn j}"

definition ready_worker :: "('b \<Rightarrow> bool) \<Rightarrow> ('b \<Rightarrow> string \<Rightarrow> job option) \<Rightarrow> 'b worker_config \<Rightarrow> (string \<rightharpoonup> job) \<Rightarrow> bool" where
  "ready_worker I V cfg m \<longleftrightarrow>
     wk_run_timeout cfg = None \<and> wk_queue_name cfg \<noteq> Some [] \<and>
     (\<forall>auth. wk_authoriser cfg = Some auth \<longrightarrow> auth (wk_host_id cfg) (wk_worker_id cfg)) \<and>
     (\<forall>i j. m i = Some j \<longrightarrow> dispatchable None (wk_queue_name cfg) j \<longrightarrow>
        (\<exists>h. dict_get (wk_handlers cfg) (job_type j) = Some h \<and> steady_handler I V h))"

text \<open>What draining does: the waiting_jobs jobs are succeeded, every other job keeps its status.\<close>

definition drained :: "string option \<Rightarrow> (string \<rightharpoonup> job) \<Rightarrow> (string \<rightharpoonup> job) \<Rightarrow> bool" where
  "drained qn m m' \<longleftrightarrow>
     dom m' = dom m \<and>
     (\<forall>i j. m i = Some j \<longrightarrow> (\<exists>j'. m' i = Some j' \<and> same_submission j j' \<and>
        status j' = (if dispatchable None qn j then SUCCEEDED else status j)))"

lemma touched_upd_both: "touched (m(i \<mapsto> a)) m' \<Longrightarrow> touched (m(i \<mapsto> x)) (m'(i \<mapsto> x))"
  unfolding touched_def by (auto split: if_splits)

lemma touched_get:
  assumes "touched m m'" and "m i = Some j"
  obtains j' where "m' i = Some j'" and "same_submission j j'" and "status j' = status j"
  using assms unfolding touched_def by blast

lemma dispatchable_same:
  "same_submission j j' \<Longrightarrow> status j' = status j \<Longrightarrow> dispatchable jt qn j' = dispatchable jt qn j"
  by (simp add: dispatchable_def same_submission_def)

lemma drained_touched: "waiting_jobs qn m = {} \<Longrightarrow> touched m m' \<Longrightarrow> drained qn m m'"
  by (fastforce simp: drained_def touched_def waiting_jobs_def)

text \<open>One job succeeds: what it does to the jobs that wait, and draining the rest after it.\<close>

definition succeeds :: "string option \<Rightarrow> job \<Rightarrow> (string \<rightharpoonup> job) \<Rightarrow> (string \<rightharpoonup> job) \<Rightarrow> bool" where
  "succeeds qn k m m' \<longleftrightarrow>
     m (job_id k) = Some k \<and> dispatchable None qn k \<and>
     (\<exists>k'. same_submission k k' \<and> status k' = SUCCEEDED \<and> touched (m(job_id k \<mapsto> k')) m')"

lemma succeeds_get:
  assumes "succeeds qn k m m'" and "m i = Some j"
  obtains j' where "m' i = Some j'" and "same_submission j j'"
    and "status j' = (if i = job_id k then SUCCEEDED else status j)"
proof -
  from assms(1) obtain k' where k: "m (job_id k) = Some k" "same_submission k k'" "status k' = SUCCEEDED"
      "touched (m(job_id k \<mapsto> k')) m'"
    by (auto simp: succeeds_def)
  have "(m(job_id k \<mapsto> k')) i = Some (if i = job_id k then k' else j)" using assms(2) by simp
  with k(4) obtain j' where j': "m' i = Some j'" "same_submission (if i = job_id k then k' else j) j'"
      "status j' = status (if i = job_id k then k' else j)"
    by (rule touched_get)
  have "same_submission j j'" using j'(2) k assms(2) same_submission_trans [of k k' j'] by (cases "i = job_id k") auto
  then show thesis using j'(1,3) k(3) that by (cases "i = job_id k") auto
qed

lemma succeeds_dom:
  assumes "succeeds qn k m m'"
  shows "dom m' = dom m"
proof -
  from assms obtain k' where "m (job_id k) = Some k" "dom m' = dom (m(job_id k \<mapsto> k'))"
    unfolding succeeds_def touched_def by blast
  then show ?thesis by (auto simp: domI)
qed

lemma succeeded_not_waiting: "status j = SUCCEEDED \<Longrightarrow> \<not> dispatchable jt qn j"
  by (simp add: dispatchable_def)

lemma succeeds_waiting:
  assumes "succeeds qn k m m'"
  shows "waiting_jobs qn m' = waiting_jobs qn m - {job_id k}"
proof (rule set_eqI)
  fix i
  show "i \<in> waiting_jobs qn m' \<longleftrightarrow> i \<in> waiting_jobs qn m - {job_id k}"
  proof (cases "m i")
    case None
    then have "m' i = None" using succeeds_dom [OF assms] by (metis domIff)
    then show ?thesis using None by (simp add: waiting_jobs_def)
  next
    case (Some j)
    with assms obtain j' where "m' i = Some j'" "same_submission j j'"
        "status j' = (if i = job_id k then SUCCEEDED else status j)" by (rule succeeds_get)
    then show ?thesis
      using Some succeeded_not_waiting [of j'] dispatchable_same [of j j']
      by (cases "i = job_id k") (auto simp: waiting_jobs_def)
  qed
qed

lemma succeeds_drained:
  assumes s: "succeeds qn k m m1" and d: "drained qn m1 m2"
  shows "drained qn m m2"
  unfolding drained_def
proof (intro conjI allI impI)
  show "dom m2 = dom m" using d succeeds_dom [OF s] by (simp add: drained_def)
  fix i j assume j: "m i = Some j"
  with s obtain j1 where j1: "m1 i = Some j1" "same_submission j j1"
      "status j1 = (if i = job_id k then SUCCEEDED else status j)" by (rule succeeds_get)
  then obtain j2 where j2: "m2 i = Some j2" "same_submission j1 j2"
      "status j2 = (if dispatchable None qn j1 then SUCCEEDED else status j1)"
    using d unfolding drained_def by blast
  have "status j2 = (if dispatchable None qn j then SUCCEEDED else status j)"
  proof (cases "i = job_id k")
    case True
    then have "dispatchable None qn j" using s j by (auto simp: succeeds_def)
    then show ?thesis using True j1(3) j2(3) by simp
  next
    case False
    then show ?thesis using j1 j2(3) dispatchable_same [of j j1] by simp
  qed
  with j1 j2 show "\<exists>j2. m2 i = Some j2 \<and> same_submission j j2 \<and>
      status j2 = (if dispatchable None qn j then SUCCEEDED else status j)"
    using same_submission_trans by blast
qed

subsection \<open>The passes\<close>

locale draining = working ops inv view stored + ordered_backend ops inv view stored
  for ops :: "'b backend_ops" and inv :: "'b \<Rightarrow> bool" and view :: "'b \<Rightarrow> string \<Rightarrow> job option" and stored :: "job \<Rightarrow> job"
begin

lemma execute_steady:
  assumes i: "inv (wb w)" and k: "view (wb w) (job_id j) = Some k" and d: "\<not> has_dispatcher (ws_dispatch w)"
    and cfg: "wk_run_timeout cfg = None" "dict_get (wk_handlers cfg) (job_type j) = Some h" "steady_handler inv view h"
  shows "\<exists>w' k'. ws_execute ops cfg expires u clk j w = (Inr True, w') \<and> inv (wb w') \<and> frame w w' \<and>
    same_submission k k' \<and> status k' = SUCCEEDED \<and> touched ((view (wb w))(job_id j \<mapsto> k')) (view (wb w'))"
proof -
  define ctx where "ctx = new_context (be_live ops (wb w) j)"
  obtain ok b1 where b1: "be_heartbeat ops (clk 2) (job_id j) (wb w) = (Inr ok, b1)" "inv b1"
      "touched (view (wb w)) (view b1)"
    using heartbeat_law [OF i] by blast
  obtain w1 where w1: "ws_on_backend (be_heartbeat ops (clk 2) (job_id j)) w = (Inr ok, w1)" "wb w1 = b1" "frame w w1"
    using ws_on_backend_run [of "be_heartbeat ops (clk 2) (job_id j)" w, OF b1(1)] by blast
  obtain v b2 where b2: "h ctx b1 = (Inr v, b2)" "inv b2" "touched (view b1) (view b2)"
    using cfg(3) b1(2) unfolding steady_handler_def by blast
  obtain w2 where w2: "ws_on_backend (h ctx) w1 = (Inr v, w2)" "wb w2 = b2" "frame w1 w2"
    using ws_on_backend_run [of "h ctx" w1] b2(1) w1(2) by auto
  have t: "touched (view (wb w)) (view b2)" using touched_trans [OF b1(3) b2(3)] .
  from this k obtain k2 where k2: "view b2 (job_id j) = Some k2" "same_submission k k2" by (rule touched_get)
  obtain w3 k' where w3: "ws_on_backend (be_update_status ops (clk 5) (job_id j) (status_value SUCCEEDED)) w2 = (Inr True, w3)"
      "keeps u (wb w2) (wb w3)" "frame w2 w3" "view (wb w3) = (view (wb w2))(job_id j \<mapsto> k')" "same_submission k2 k'"
      "status k' = SUCCEEDED"
    using ws_status_run [of w2 "job_id j" k2 "clk 5" SUCCEEDED u] k2 b2(2) w2(2) by blast
  obtain w4 where w4: "ws_emit (clk 6) ''job.transition'' ''success'' w3 = (Inr (), w4)" "wb w4 = wb w3" "frame w3 w4"
    using ws_emit_run by blast
  obtain w5 where w5: "ws_inc ''jobs.succeeded'' w4 = (Inr (), w5)" "wb w5 = wb w4" "frame w4 w5"
    using ws_inc_run by blast
  have fr: "frame w w5" using w1 w2 w3 w4 w5 by (meson frame_trans)
  have "ws_complete ops cfg expires clk h ctx j w = (Inr True, w5)"
    using w1(1) w2(1) w3(1) w4(1) w5(1) cfg(1)
    by (simp add: ws_complete_def ws_run_handler_def seq_py_def bind_py_def ret_def del: status_value.simps)
  moreover have "ws_release_job j w5 = (Inr (), w5)"
    using d frame_has_dispatcher [OF fr] by (simp add: ws_release_job_def)
  ultimately have run: "ws_execute ops cfg expires u clk j w = (Inr True, w5)"
    using cfg(2) by (simp add: ws_execute_def registry_get_def Let_def ctx_def try_except_def try_finally_def)
  have "(view (wb w))(job_id j \<mapsto> k) = view (wb w)" using k by auto
  then have "touched ((view (wb w))(job_id j \<mapsto> k')) ((view b2)(job_id j \<mapsto> k'))"
    using touched_upd_both [of "view (wb w)" "job_id j" k "view b2" k'] t by simp
  with run fr kept_inv [OF w3(2)] w3 w2(2) w4(2) w5(2) same_submission_trans [OF k2(2) w3(5)]
  show ?thesis by (intro exI [of _ w5] exI [of _ k']) simp
qed

text \<open>One pass: nothing waits and nothing changes, or one waiting_jobs job ends as succeeded.\<close>

lemma pass_steady:
  assumes i: "inv (wb w)" and d: "\<not> has_dispatcher (ws_dispatch w)"
    and ready: "ready_worker inv view cfg (view (wb w))"
  shows "\<exists>r w'. run_once ops cfg expires u clk w = (Inr r, w') \<and> inv (wb w') \<and> frame w w' \<and>
    (if waiting_jobs (wk_queue_name cfg) (view (wb w)) = {} then \<not> r \<and> wb w' = wb w
     else r \<and> (\<exists>k. succeeds (wk_queue_name cfg) k (view (wb w)) (view (wb w'))))"
proof -
  let ?qn = "wk_queue_name cfg"
  have qn: "?qn \<noteq> Some []" and no: "wk_run_timeout cfg = None" using ready by (simp_all add: ready_worker_def)
  have start: "run_once ops cfg expires u clk w =
      bind_py (ws_on_backend (be_dequeue ops 1 None ?qn)) (\<lambda>jobs. case jobs of [] \<Rightarrow> ret False
        | j # _ \<Rightarrow> ws_take ops cfg expires u clk j) w"
    using ready d by (cases "wk_authoriser cfg")
      (simp_all add: ready_worker_def run_once_def ws_select_def seq_py_def bind_py_def ret_def)
  show ?thesis
  proof (cases "waiting_jobs ?qn (view (wb w)) = {}")
    case True
    obtain js where js: "be_dequeue ops 1 None ?qn (wb w) = (Inr js, wb w)"
        "\<forall>j \<in> set js. view (wb w) (job_id j) = Some j \<and> dispatchable None ?qn j"
      using dequeue_law [OF i, of 1 None ?qn] qn by auto
    have "js = []" using js(2) True by (cases js) (auto simp: waiting_jobs_def)
    moreover obtain w1 where "ws_on_backend (be_dequeue ops 1 None ?qn) w = (Inr js, w1)" "wb w1 = wb w" "frame w w1"
      using ws_on_backend_run [of "be_dequeue ops 1 None ?qn" w, OF js(1)] by blast
    ultimately show ?thesis
      using start True i by (intro exI [of _ False] exI [of _ w1]) (simp add: bind_py_def ret_def)
  next
    case False
    then obtain i0 j0 where j0: "view (wb w) i0 = Some j0" "dispatchable None ?qn j0" by (auto simp: waiting_jobs_def)
    obtain k where k: "be_dequeue ops 1 None ?qn (wb w) = (Inr [k], wb w)" "view (wb w) (job_id k) = Some k"
        "dispatchable None ?qn k"
      using dequeue_one [OF i qn j0] by blast
    then have q: "status k = QUEUED" by (simp add: dispatchable_def)
    obtain h where h: "dict_get (wk_handlers cfg) (job_type k) = Some h" "steady_handler inv view h"
      using ready k(2,3) unfolding ready_worker_def by blast
    obtain w1 where w1: "ws_on_backend (be_dequeue ops 1 None ?qn) w = (Inr [k], w1)" "wb w1 = wb w" "frame w w1"
      using ws_on_backend_run [of "be_dequeue ops 1 None ?qn" w, OF k(1)] by blast
    obtain b2 k2 where b2: "be_claim ops (clk 0) (job_id k) (wk_host_id cfg) (wk_worker_id cfg) (wb w1) = (Inr True, b2)"
        "inv b2" "view b2 = (view (wb w))(job_id k \<mapsto> k2)" "same_submission k k2"
      using claim_won [OF i k(2) q] w1(2) by metis
    obtain w2 where w2: "ws_on_backend (be_claim ops (clk 0) (job_id k) (wk_host_id cfg) (wk_worker_id cfg)) w1 = (Inr True, w2)"
        "wb w2 = b2" "frame w1 w2"
      using ws_on_backend_run [of "be_claim ops (clk 0) (job_id k) (wk_host_id cfg) (wk_worker_id cfg)" w1, OF b2(1)] by blast
    obtain w3 where w3: "ws_emit (clk 1) ''job.claim'' ''success'' w2 = (Inr (), w3)" "wb w3 = wb w2" "frame w2 w3"
      using ws_emit_run by blast
    have fr: "frame w w3" using w1 w2 w3 by (meson frame_trans)
    have "view (wb w3) (job_id k) = Some k2" "inv (wb w3)" using b2 w2 w3 by simp_all
    then obtain w4 k' where w4: "ws_execute ops cfg expires u clk k w3 = (Inr True, w4)" "inv (wb w4)" "frame w3 w4"
        "same_submission k2 k'" "status k' = SUCCEEDED" "touched ((view (wb w3))(job_id k \<mapsto> k')) (view (wb w4))"
      using execute_steady [of w3 k k2 cfg h expires u clk] d frame_has_dispatcher [OF fr] no h by auto
    have "run_once ops cfg expires u clk w = (Inr True, w4)"
      using start w1(1) w2(1) w3(1) w4(1) by (simp add: ws_take_def bind_py_def seq_py_def)
    moreover have "touched ((view (wb w))(job_id k \<mapsto> k')) (view (wb w4))"
      using w4(6) w3(2) w2(2) b2(3) by simp
    then have "succeeds ?qn k (view (wb w)) (view (wb w4))"
      using k w4(5) same_submission_trans [OF b2(4) w4(4)] by (auto simp: succeeds_def)
    ultimately show ?thesis
      using False w4(2) frame_trans [OF fr w4(3)] by (intro exI [of _ True] exI [of _ w4]) auto
  qed
qed

lemma ready_after:
  assumes "ready_worker inv view cfg m" and s: "succeeds (wk_queue_name cfg) k m m'"
  shows "ready_worker inv view cfg m'"
proof -
  have "\<exists>h. dict_get (wk_handlers cfg) (job_type j') = Some h \<and> steady_handler inv view h"
    if j': "m' i = Some j'" "dispatchable None (wk_queue_name cfg) j'" for i j'
  proof -
    have "i \<in> waiting_jobs (wk_queue_name cfg) m" using that succeeds_waiting [OF s] by (auto simp: waiting_jobs_def)
    then obtain j where j: "m i = Some j" "dispatchable None (wk_queue_name cfg) j" by (auto simp: waiting_jobs_def)
    from s j(1) obtain j1 where "m' i = Some j1" "same_submission j j1" by (rule succeeds_get)
    then have "job_type j' = job_type j" using j'(1) by (simp add: same_submission_def)
    then show ?thesis using assms(1) j unfolding ready_worker_def by metis
  qed
  then show ?thesis using assms(1) unfolding ready_worker_def by blast
qed

text \<open>The loop: as many passes as jobs wait leave none waiting.\<close>

lemma run_loop_drains:
  assumes "inv (wb w)" and "\<not> has_dispatcher (ws_dispatch w)" and "ready_worker inv view cfg (view (wb w))"
    and "finite (waiting_jobs (wk_queue_name cfg) (view (wb w)))"
    and "card (waiting_jobs (wk_queue_name cfg) (view (wb w))) \<le> length es" and "es \<noteq> []"
    and "\<forall>e \<in> set es. \<not> pe_stopped e" and "m = loops + int (length es)" and "\<not> ws_stopped w"
  shows "\<exists>w'. run_loop ops cfg (Some m) es loops w = (Inr (Some m), w') \<and>
    inv (wb w') \<and> drained (wk_queue_name cfg) (view (wb w)) (view (wb w')) \<and>
    waiting_jobs (wk_queue_name cfg) (view (wb w')) = {}"
  using assms
proof (induction es arbitrary: loops w)
  case (Cons e es)
  let ?qn = "wk_queue_name cfg"
  obtain r w1 where w1: "run_once ops cfg (pe_expires e) (pe_uuid e) (pe_clk e) w = (Inr r, w1)" "inv (wb w1)" "frame w w1"
      "if waiting_jobs ?qn (view (wb w)) = {} then \<not> r \<and> wb w1 = wb w
       else r \<and> (\<exists>k. succeeds ?qn k (view (wb w)) (view (wb w1)))"
    using pass_steady [OF Cons.prems(1-3)] by blast
  have pass: "during e (run_once ops cfg (pe_expires e) (pe_uuid e) (pe_clk e)) w = (Inr r, w1)" and go: "\<not> ws_stopped w1"
    using w1(1) run_once_flag [OF w1(1)] Cons.prems(7,9) by (simp_all add: during_def)
  have rest: "ready_worker inv view cfg (view (wb w1)) \<and> finite (waiting_jobs ?qn (view (wb w1))) \<and>
      card (waiting_jobs ?qn (view (wb w1))) \<le> length es \<and>
      (\<forall>m2. drained ?qn (view (wb w1)) m2 \<longrightarrow> drained ?qn (view (wb w)) m2)"
  proof (cases "waiting_jobs ?qn (view (wb w)) = {}")
    case True
    then show ?thesis using w1(4) Cons.prems(3) by simp
  next
    case False
    then obtain k where k: "succeeds ?qn k (view (wb w)) (view (wb w1))" using w1(4) by auto
    then have "job_id k \<in> waiting_jobs ?qn (view (wb w))" by (auto simp: succeeds_def waiting_jobs_def)
    then have "card (waiting_jobs ?qn (view (wb w1))) < card (waiting_jobs ?qn (view (wb w)))"
      unfolding succeeds_waiting [OF k] using Cons.prems(4) by (intro psubset_card_mono) auto
    then show ?thesis
      using ready_after [OF Cons.prems(3) k] succeeds_drained [OF k] Cons.prems(4,5) succeeds_waiting [OF k]
      by simp
  qed
  show ?case
  proof (cases "es = []")
    case True
    then have none: "waiting_jobs ?qn (view (wb w1)) = {}" using rest by auto
    then have "drained ?qn (view (wb w)) (view (wb w1))" using rest drained_touched [OF none touched_refl] by blast
    with True none pass w1(2) Cons.prems(8,9) show ?thesis by (simp add: seq_py_def bind_py_def Let_def ret_def)
  next
    case False
    have step: "run_loop ops cfg (Some m) (e # es) loops w = run_loop ops cfg (Some m) es (loops + 1) w1"
      using pass Cons.prems(8,9) False by (cases es) (auto simp: seq_py_def bind_py_def Let_def)
    have "\<not> has_dispatcher (ws_dispatch w1)" using Cons.prems(2) frame_has_dispatcher [OF w1(3)] by simp
    moreover have "m = (loops + 1) + int (length es)" "\<forall>e \<in> set es. \<not> pe_stopped e" using Cons.prems(7,8) by simp_all
    ultimately show ?thesis
      using Cons.IH [of w1 "loops + 1"] w1(2) rest False step go by auto
  qed
qed simp

lemma run_forever_drains:
  assumes "inv (wb w)" and "\<not> has_dispatcher (ws_dispatch w)" and "ready_worker inv view cfg (view (wb w))"
    and "finite (waiting_jobs (wk_queue_name cfg) (view (wb w)))"
    and "card (waiting_jobs (wk_queue_name cfg) (view (wb w))) \<le> length es" and "es \<noteq> []"
    and "\<forall>e \<in> set es. \<not> pe_stopped e"
  shows "\<exists>w'. run_forever ops cfg (Some (int (length es))) es w = (Inr (Some (int (length es))), w') \<and>
    inv (wb w') \<and> drained (wk_queue_name cfg) (view (wb w)) (view (wb w')) \<and>
    waiting_jobs (wk_queue_name cfg) (view (wb w')) = {}"
  using run_loop_drains [of "w\<lparr>ws_stopped := False\<rparr>" cfg es "int (length es)" 0] assms
  by (simp add: run_forever_def)

end

end
