(* ===== verification/Sweep.thy ===== *)
theory Sweep
  imports Backend_Spec
begin

section \<open>Sweeps over all jobs\<close>

text \<open>
  The maintenance reaper, the admin service and the bulk operations share one pattern: a loop over
  \<open>all_jobs\<close> that gives some of the jobs a new status and counts the updates that succeeded.
  \<open>sweep_step\<close> is that loop's body for a decision function, and the lemmas say what the loop does on
  any backend that meets the contract: exactly the decided jobs change, to the decided status,
  and the accumulator has counted each of them once.
\<close>

text \<open>
  \<open>clk\<close> gives the clock reading \<open>update_status\<close> makes for a job; \<open>bump\<close> is the count kept for a status.
\<close>

definition sweep_step ::
  "'b backend_ops \<Rightarrow> (string \<Rightarrow> time) \<Rightarrow> (job \<Rightarrow> job_status option) \<Rightarrow> (job_status \<Rightarrow> 'a \<Rightarrow> 'a) \<Rightarrow>
   job \<Rightarrow> 'a \<Rightarrow> ('b, 'a) py" where
  "sweep_step ops clk decide bump j acc =
     (case decide j of
        None \<Rightarrow> ret acc
      | Some s \<Rightarrow>
          bind_py (be_update_status ops (clk (job_id j)) (job_id j) (status_value s))
            (\<lambda>ok. ret (if ok then bump s acc else acc)))"

text \<open>The counts after the loop, and the jobs after it.\<close>

definition swept_count :: "(job \<Rightarrow> job_status option) \<Rightarrow> (job_status \<Rightarrow> 'a \<Rightarrow> 'a) \<Rightarrow> job list \<Rightarrow> 'a \<Rightarrow> 'a" where
  "swept_count decide bump js acc =
     fold (\<lambda>j a. case decide j of None \<Rightarrow> a | Some s \<Rightarrow> bump s a) js acc"

definition swept :: "(job \<Rightarrow> job_status option) \<Rightarrow> (string \<rightharpoonup> job) \<Rightarrow> (string \<rightharpoonup> job) \<Rightarrow> bool" where
  "swept decide m m' \<longleftrightarrow>
     (\<forall>i. case m i of
        None \<Rightarrow> m' i = None
      | Some j \<Rightarrow>
          (case decide j of
             None \<Rightarrow> m' i = Some j
           | Some s \<Rightarrow> \<exists>j'. m' i = Some j' \<and> same_submission j j' \<and> status j' = s))"

lemma swept_count_number:
  "swept_count decide (\<lambda>_ n. n + 1) js (n :: int) = n + int (length (filter (\<lambda>j. decide j \<noteq> None) js))"
  by (induction js arbitrary: n) (auto simp: swept_count_def split: option.splits)

locale sweeping = listing_backend
begin

lemma sweep_fold:
  assumes "inv b" and "distinct (map job_id js)" and "\<forall>j \<in> set js. view b (job_id j) = Some j"
  shows "\<exists>b'. fold_py (sweep_step ops clk decide bump) js acc b = (Inr (swept_count decide bump js acc), b') \<and>
    inv b' \<and> (\<forall>i. i \<notin> job_id ` set js \<longrightarrow> view b' i = view b i) \<and>
    (\<forall>j \<in> set js. case decide j of
        None \<Rightarrow> view b' (job_id j) = Some j
      | Some s \<Rightarrow> \<exists>j'. view b' (job_id j) = Some j' \<and> same_submission j j' \<and> status j' = s)"
  using assms
proof (induction js arbitrary: b acc)
  case Nil
  then show ?case by (simp add: ret_def swept_count_def)
next
  case (Cons j js)
  obtain b1 acc1 where s1: "sweep_step ops clk decide bump j acc b = (Inr acc1, b1)" "inv b1"
      "\<forall>i. i \<noteq> job_id j \<longrightarrow> view b1 i = view b i"
      "acc1 = (case decide j of None \<Rightarrow> acc | Some s \<Rightarrow> bump s acc)"
      "case decide j of None \<Rightarrow> view b1 (job_id j) = Some j
       | Some s \<Rightarrow> \<exists>j'. view b1 (job_id j) = Some j' \<and> same_submission j j' \<and> status j' = s"
  proof (cases "decide j")
    case None
    then show ?thesis using Cons.prems that by (simp add: sweep_step_def ret_def)
  next
    case (Some s)
    have v: "view b (job_id j) = Some j" using Cons.prems(3) by simp
    from update_status_law [OF Cons.prems(1) v, of "clk (job_id j)" s] Some that
    show ?thesis by (auto simp: sweep_step_def bind_py_def ret_def)
  qed
  have other: "\<forall>k \<in> set js. view b1 (job_id k) = Some k"
    using Cons.prems(2,3) s1(3) by (auto simp: image_iff)
  have "distinct (map job_id js)" using Cons.prems(2) by simp
  from Cons.IH [OF s1(2) this other, of acc1] obtain b' where
      s2: "fold_py (sweep_step ops clk decide bump) js acc1 b1 = (Inr (swept_count decide bump js acc1), b')"
      "inv b'" "\<forall>i. i \<notin> job_id ` set js \<longrightarrow> view b' i = view b1 i"
      "\<forall>j \<in> set js. case decide j of None \<Rightarrow> view b' (job_id j) = Some j
       | Some s \<Rightarrow> \<exists>j'. view b' (job_id j) = Some j' \<and> same_submission j j' \<and> status j' = s"
    by blast
  have "job_id j \<notin> job_id ` set js" using Cons.prems(2) by simp
  then have here: "view b' (job_id j) = view b1 (job_id j)" using s2(3) by simp
  have "fold_py (sweep_step ops clk decide bump) (j # js) acc b =
      (Inr (swept_count decide bump (j # js) acc), b')"
    using s1(1,4) s2(1) by (simp add: bind_py_Inr swept_count_def)
  moreover have "\<forall>i. i \<notin> job_id ` set (j # js) \<longrightarrow> view b' i = view b i" using s1(3) s2(3) by simp
  ultimately show ?case using s2(2,4) s1(5) here by (simp split: option.splits)
qed

text \<open>The loop over all jobs, as every sweep runs it.\<close>

lemma sweep_all:
  assumes "inv b"
  shows "\<exists>js b'. be_all_jobs ops b = (Inr js, b) \<and> (\<forall>j. j \<in> set js \<longleftrightarrow> view b (job_id j) = Some j) \<and>
    distinct (map job_id js) \<and>
    bind_py (be_all_jobs ops) (\<lambda>js. fold_py (sweep_step ops clk decide bump) js acc) b =
      (Inr (swept_count decide bump js acc), b') \<and>
    inv b' \<and> swept decide (view b) (view b')"
proof -
  obtain js where js: "be_all_jobs ops b = (Inr js, b)" "distinct (map job_id js)"
      "\<forall>j. j \<in> set js \<longleftrightarrow> view b (job_id j) = Some j"
    using all_jobs_law [OF assms] by blast
  have "\<forall>j \<in> set js. view b (job_id j) = Some j" using js(3) by blast
  from sweep_fold [OF assms js(2) this, of clk decide bump acc] obtain b' where
      b': "fold_py (sweep_step ops clk decide bump) js acc b = (Inr (swept_count decide bump js acc), b')" "inv b'"
      "\<forall>i. i \<notin> job_id ` set js \<longrightarrow> view b' i = view b i"
      "\<forall>j \<in> set js. case decide j of None \<Rightarrow> view b' (job_id j) = Some j
       | Some s \<Rightarrow> \<exists>j'. view b' (job_id j) = Some j' \<and> same_submission j j' \<and> status j' = s"
    by blast
  have "swept decide (view b) (view b')"
    unfolding swept_def
  proof (rule allI)
    fix i
    show "case view b i of None \<Rightarrow> view b' i = None
      | Some j \<Rightarrow> (case decide j of None \<Rightarrow> view b' i = Some j
          | Some s \<Rightarrow> \<exists>j'. view b' i = Some j' \<and> same_submission j j' \<and> status j' = s)"
    proof (cases "view b i")
      case None
      then have "i \<notin> job_id ` set js" using js(3) by fastforce
      with b'(3) None show ?thesis by simp
    next
      case (Some j)
      then have "job_id j = i" "j \<in> set js" using view_id [OF assms Some] js(3) by auto
      then show ?thesis using b'(4) Some by auto
    qed
  qed
  with js b' show ?thesis by (intro exI [of _ js] exI [of _ b']) (simp add: bind_py_Inr)
qed

end

end
