(* ===== verification/Reaper.thy ===== *)
theory Reaper
  imports Sweep
begin

section \<open>Maintenance\<close>

text \<open>
  \<open>maintenance/reaper.py\<close>, \<open>ttl/expiry.py\<close>, \<open>ttl/retention.py\<close> and \<open>polling/poller.py\<close>. An age is
  compared in microseconds; \<open>total_seconds\<close> gives the same comparisons for every age below
  \<open>2 ^ 33\<close> seconds (272 years), where a float still tells a microsecond apart from a whole second.
\<close>

definition is_ttl_expired :: "time \<Rightarrow> int \<Rightarrow> time \<Rightarrow> bool" where
  "is_ttl_expired created ttl_seconds now \<longleftrightarrow> now - created > ttl_seconds * second"

definition should_purge :: "time \<Rightarrow> int \<Rightarrow> time \<Rightarrow> bool" where
  "should_purge updated max_age_seconds now \<longleftrightarrow> now - updated > max_age_seconds * second"

record poll_policy =
  pp_interval_seconds :: int
  pp_max_age_seconds :: int

definition should_continue_polling :: "int \<Rightarrow> poll_policy \<Rightarrow> bool" where
  "should_continue_polling age_seconds pol \<longleftrightarrow> age_seconds \<le> pp_max_age_seconds pol"

subsection \<open>The reaper\<close>

definition find_stuck_job_ids :: "'b backend_ops \<Rightarrow> int \<Rightarrow> time \<Rightarrow> ('b, string list) py" where
  "find_stuck_job_ids ops claim_timeout now =
     bind_py (be_dequeue ops 10000 None None)
       (\<lambda>jobs. ret (map job_id (filter
          (\<lambda>j. status j = RUNNING \<and> now - updated_at j > claim_timeout * second) jobs)))"

record sweep_summary =
  stuck_recovered :: int
  ttl_expired :: int
  retention_purged :: int

definition reap_job ::
  "'b backend_ops \<Rightarrow> (string \<Rightarrow> time) \<Rightarrow> int \<Rightarrow> int \<Rightarrow> int \<Rightarrow> time \<Rightarrow> job \<Rightarrow> sweep_summary \<Rightarrow> ('b, sweep_summary) py" where
  "reap_job ops clk claim_timeout ttl retention now j s =
     (if status j = RUNNING \<and> now - updated_at j > claim_timeout * second
      then bind_py (be_update_status ops (clk (job_id j)) (job_id j) (status_value FAILED))
             (\<lambda>ok. ret (if ok then s\<lparr>stuck_recovered := stuck_recovered s + 1\<rparr> else s))
      else if status j \<in> {QUEUED, RUNNING} \<and> is_ttl_expired (created_at j) ttl now
      then bind_py (be_update_status ops (clk (job_id j)) (job_id j) (status_value TTL_EXPIRED))
             (\<lambda>ok. ret (if ok then s\<lparr>ttl_expired := ttl_expired s + 1\<rparr> else s))
      else if should_purge (updated_at j) retention now
      then bind_py (be_update_status ops (clk (job_id j)) (job_id j) (status_value CANCELLED))
             (\<lambda>ok. ret (if ok then s\<lparr>retention_purged := retention_purged s + 1\<rparr> else s))
      else ret s)"

definition run_sweep ::
  "'b backend_ops \<Rightarrow> (string \<Rightarrow> time) \<Rightarrow> int \<Rightarrow> int \<Rightarrow> int \<Rightarrow> time \<Rightarrow> ('b, sweep_summary) py" where
  "run_sweep ops clk claim_timeout ttl retention now =
     bind_py (be_all_jobs ops)
       (\<lambda>jobs. fold_py (reap_job ops clk claim_timeout ttl retention now) jobs
          \<lparr>stuck_recovered = 0, ttl_expired = 0, retention_purged = 0\<rparr>)"

subsection \<open>What a sweep does\<close>

definition reap_target :: "int \<Rightarrow> int \<Rightarrow> int \<Rightarrow> time \<Rightarrow> job \<Rightarrow> job_status option" where
  "reap_target claim_timeout ttl retention now j =
     (if status j = RUNNING \<and> now - updated_at j > claim_timeout * second then Some FAILED
      else if status j \<in> {QUEUED, RUNNING} \<and> now - created_at j > ttl * second then Some TTL_EXPIRED
      else if now - updated_at j > retention * second then Some CANCELLED
      else None)"

fun reap_bump :: "job_status \<Rightarrow> sweep_summary \<Rightarrow> sweep_summary" where
  "reap_bump FAILED s = s\<lparr>stuck_recovered := stuck_recovered s + 1\<rparr>"
| "reap_bump TTL_EXPIRED s = s\<lparr>ttl_expired := ttl_expired s + 1\<rparr>"
| "reap_bump _ s = s\<lparr>retention_purged := retention_purged s + 1\<rparr>"

lemma reap_job_sweep:
  "reap_job ops clk ct ttl rt now = sweep_step ops clk (reap_target ct ttl rt now) reap_bump"
  by (rule ext)+
    (simp add: reap_job_def sweep_step_def reap_target_def is_ttl_expired_def should_purge_def cong: if_cong)

definition targeted :: "(job \<Rightarrow> job_status option) \<Rightarrow> job_status \<Rightarrow> job list \<Rightarrow> int" where
  "targeted decide s js = int (length (filter (\<lambda>j. decide j = Some s) js))"

lemma reap_counts:
  assumes "\<And>j s. decide j = Some s \<Longrightarrow> s \<in> {FAILED, TTL_EXPIRED, CANCELLED}"
  shows "swept_count decide reap_bump js s =
    \<lparr>stuck_recovered = stuck_recovered s + targeted decide FAILED js,
     ttl_expired = ttl_expired s + targeted decide TTL_EXPIRED js,
     retention_purged = retention_purged s + targeted decide CANCELLED js\<rparr>"
proof (induction js arbitrary: s)
  case Nil
  then show ?case by (simp add: swept_count_def targeted_def)
next
  case (Cons j js)
  have "swept_count decide reap_bump (j # js) s =
      swept_count decide reap_bump js (case decide j of None \<Rightarrow> s | Some t \<Rightarrow> reap_bump t s)"
    by (simp add: swept_count_def)
  with Cons assms [of j] show ?case by (cases "decide j") (auto simp: targeted_def)
qed

lemma reap_target_range: "reap_target ct ttl rt now j = Some s \<Longrightarrow> s \<in> {FAILED, TTL_EXPIRED, CANCELLED}"
  by (auto simp: reap_target_def split: if_splits)

locale reaping = sweeping
begin

lemma run_sweep_outcome:
  assumes "inv b"
  shows "\<exists>js b' s. be_all_jobs ops b = (Inr js, b) \<and> run_sweep ops clk ct ttl rt now b = (Inr s, b') \<and>
    inv b' \<and> swept (reap_target ct ttl rt now) (view b) (view b') \<and>
    stuck_recovered s = targeted (reap_target ct ttl rt now) FAILED js \<and>
    ttl_expired s = targeted (reap_target ct ttl rt now) TTL_EXPIRED js \<and>
    retention_purged s = targeted (reap_target ct ttl rt now) CANCELLED js"
proof -
  let ?z = "\<lparr>stuck_recovered = 0, ttl_expired = 0, retention_purged = 0\<rparr>"
  let ?d = "reap_target ct ttl rt now"
  obtain js b' where s: "be_all_jobs ops b = (Inr js, b)"
      "bind_py (be_all_jobs ops) (\<lambda>js. fold_py (sweep_step ops clk ?d reap_bump) js ?z) b =
        (Inr (swept_count ?d reap_bump js ?z), b')"
      "inv b'" "swept ?d (view b) (view b')"
    using sweep_all [OF assms, of clk ?d reap_bump ?z] by blast
  then show ?thesis
    by (intro exI [of _ js] exI [of _ b'] exI [of _ "swept_count ?d reap_bump js ?z"])
      (simp add: run_sweep_def reap_job_sweep reap_counts [OF reap_target_range])
qed

text \<open>\<open>find_stuck_job_ids\<close> scans the queued jobs only, so it never finds a running one.\<close>

lemma find_stuck_empty:
  assumes "inv b"
  shows "find_stuck_job_ids ops ct now b = (Inr [], b)"
proof -
  obtain js where "be_dequeue ops 10000 None None b = (Inr js, b)" "\<forall>j \<in> set js. dispatchable None None j"
    using dequeue_law [OF assms, of 10000 None None] by auto
  then show ?thesis
    by (auto simp: find_stuck_job_ids_def bind_py_def ret_def dispatchable_def filter_empty_conv)
qed

end

end
