(* ===== verification/Security.thy ===== *)
theory Security
  imports Py_Text
begin

section \<open>Payload checks and permissions\<close>

text \<open>
  \<open>security/secrets.py\<close>, the payload check of \<open>security/validation.py\<close> and \<open>security/rbac.py\<close>.
  Texts are of ASCII characters, so that \<open>lower\<close> is that of the letters and the length of the UTF-8
  encoding is the number of characters; payloads are made of JSON values.
  The specification of the secret scan is \<open>inside\<close>, the values nested anywhere in a value.
\<close>

definition secret_tokens :: "string list" where
  "secret_tokens = [''password'', ''secret'', ''token'', ''api_key'', ''private_key'', ''credential'']"

definition secret_markers :: "string list" where
  "secret_markers = [''bearer '', ''sk-'', ''-----begin'', ''xox'', ''ghp_'']"

definition key_is_secret :: "string \<Rightarrow> bool" where
  "key_is_secret key \<longleftrightarrow> list_ex (\<lambda>tok. str_in tok (py_lower key)) secret_tokens"

definition text_is_secret :: "string \<Rightarrow> bool" where
  "text_is_secret s \<longleftrightarrow> list_ex (\<lambda>tok. str_in tok (py_lower s)) secret_markers"

fun payload_contains_secret :: "pyval \<Rightarrow> bool" where
  "payload_contains_secret (PDict kvs) \<longleftrightarrow>
     list_ex (\<lambda>(key, value). key_is_secret key \<or> payload_contains_secret value) kvs"
| "payload_contains_secret (PList vs) \<longleftrightarrow> list_ex payload_contains_secret vs"
| "payload_contains_secret (PStr s) \<longleftrightarrow> text_is_secret s"
| "payload_contains_secret _ \<longleftrightarrow> False"

definition assert_no_secrets :: "(string, pyval) dict \<Rightarrow> exn + unit" where
  "assert_no_secrets p =
     (if payload_contains_secret (PDict p)
      then Inl (ValueError ''Payload appears to contain secret material'')
      else Inr ())"

definition payload_size :: "(string, pyval) dict \<Rightarrow> int" where
  "payload_size p = int (length (py_repr (PDict p)))"

definition validate_payload_size :: "(string, pyval) dict \<Rightarrow> int \<Rightarrow> exn + unit" where
  "validate_payload_size p max_bytes =
     (let size = payload_size p in
      if size > max_bytes
      then Inl (ValueError (''Payload size '' @ int_str size @ '' exceeds max '' @ int_str max_bytes))
      else Inr ())"

subsection \<open>Permissions\<close>

definition check_permission :: "string set \<Rightarrow> string \<Rightarrow> bool" where
  "check_permission granted required \<longleftrightarrow> required \<in> granted"

definition require_permission :: "string set \<Rightarrow> string \<Rightarrow> exn + unit" where
  "require_permission granted required =
     (if \<not> check_permission granted required
      then Inl (PermissionError (''Missing required permission: '' @ required))
      else Inr ())"

subsection \<open>What the scan finds\<close>

inductive inside :: "pyval \<Rightarrow> pyval \<Rightarrow> bool" where
  self: "inside v v"
| item: "inside w v \<Longrightarrow> v \<in> set vs \<Longrightarrow> inside w (PList vs)"
| entry: "inside w v \<Longrightarrow> (k, v) \<in> set kvs \<Longrightarrow> inside w (PDict kvs)"

inductive_cases inside_PDictE: "inside w (PDict kvs)"
inductive_cases inside_PListE: "inside w (PList vs)"
inductive_simps inside_leaf: "inside w PNone" "inside w (PBool b)" "inside w (PInt i)"
  "inside w (PFloat f)" "inside w (PStr s)"

text \<open>A value that is a secret on its own: a dictionary with a secret key, or a secret text.\<close>

fun secret_here :: "pyval \<Rightarrow> bool" where
  "secret_here (PDict kvs) \<longleftrightarrow> (\<exists>(k, _) \<in> set kvs. key_is_secret k)"
| "secret_here (PStr s) \<longleftrightarrow> text_is_secret s"
| "secret_here _ \<longleftrightarrow> False"

lemma secret_scan_sound: "payload_contains_secret v \<Longrightarrow> \<exists>w. inside w v \<and> secret_here w"
proof (induction v rule: payload_contains_secret.induct)
  case (1 kvs)
  then obtain k v where kv: "(k, v) \<in> set kvs" "key_is_secret k \<or> payload_contains_secret v"
    by (auto simp: list_ex_iff)
  show ?case
  proof (cases "key_is_secret k")
    case True
    with kv have "secret_here (PDict kvs)" by auto
    then show ?thesis using inside.self by blast
  next
    case False
    with kv 1(1) [of "(k, v)" k v] show ?thesis by (auto intro: inside.entry)
  qed
next
  case (2 vs)
  then show ?case by (auto simp: list_ex_iff) (metis inside.item)
next
  case (3 s)
  then show ?case using inside.self [of "PStr s"] by auto
qed auto

lemma secret_scan_complete: "inside w v \<Longrightarrow> secret_here w \<Longrightarrow> payload_contains_secret v"
proof (induction rule: inside.induct)
  case (self v)
  then show ?case by (cases v) (auto simp: list_ex_iff)
next
  case (item w v vs)
  then show ?case by (auto simp: list_ex_iff)
next
  case (entry w v k kvs)
  then show ?case by (auto simp: list_ex_iff)
qed

end
