(* ===== verification/Admin.thy ===== *)
theory Admin
  imports Sweep Observability Security
begin

section \<open>Administration\<close>

text \<open>
  \<open>admin/service.py\<close> and \<open>admin/bulk.py\<close>. The service has its own audit sink over a backend; the
  permission checker, when there is one, is a parameter. \<open>resubmit_job\<close> and \<open>reassign_queue\<close> take the
  identifier of the clone and the clock reading of its creation. \<open>update_job\<close> assigns to the
  priority of the object \<open>get\<close> returned, which reaches the backend as far as the two share the
  object (\<open>be_poke\<close>), and then releases the job.
\<close>

record 'b admin_service =
  ad_backend :: 'b
  ad_audit :: audit_emitter

type_synonym checker = "(string \<Rightarrow> bool) option"

definition ad_on_backend :: "('b, 'a) py \<Rightarrow> ('b admin_service, 'a) py" where
  "ad_on_backend m = on_field ad_backend (\<lambda>b a. a\<lparr>ad_backend := b\<rparr>) m"

definition ad_emit :: "time \<Rightarrow> string \<Rightarrow> string \<Rightarrow> ('b admin_service, unit) py" where
  "ad_emit now act outcome =
     seq_py (on_field ad_audit (\<lambda>e a. a\<lparr>ad_audit := e\<rparr>) (emit now act outcome)) (ret ())"

definition ad_require :: "checker \<Rightarrow> string \<Rightarrow> ('s, unit) py" where
  "ad_require chk perm =
     (case chk of
        None \<Rightarrow> ret ()
      | Some f \<Rightarrow>
          if \<not> f perm then raise_exn (PermissionError (''Missing required permission: '' @ perm)) else ret ())"

subsection \<open>Bulk operations\<close>

definition truthy_filter :: "string option \<Rightarrow> string \<Rightarrow> bool" where
  "truthy_filter flt v \<longleftrightarrow> (case flt of None \<Rightarrow> True | Some f \<Rightarrow> f = [] \<or> v = f)"

definition filter_jobs ::
  "'b backend_ops \<Rightarrow> string option \<Rightarrow> string option \<Rightarrow> string option \<Rightarrow> ('b, job list) py" where
  "filter_jobs ops st qn jt =
     bind_py (be_all_jobs ops)
       (\<lambda>jobs. ret (filter (\<lambda>j. truthy_filter st (status_value (status j)) \<and>
          truthy_filter qn (queue_name j) \<and> truthy_filter jt (job_type j)) jobs))"

definition bulk_mark :: "'b backend_ops \<Rightarrow> (string \<Rightarrow> time) \<Rightarrow> job \<Rightarrow> job_status \<Rightarrow> int \<Rightarrow> ('b, int) py" where
  "bulk_mark ops clk j s n =
     bind_py (be_update_status ops (clk (job_id j)) (job_id j) (status_value s))
       (\<lambda>ok. ret (if ok then n + 1 else n))"

definition bulk_job ::
  "'b backend_ops \<Rightarrow> (string \<Rightarrow> time) \<Rightarrow> string \<Rightarrow> string set option \<Rightarrow> job \<Rightarrow> int \<Rightarrow> ('b, int) py" where
  "bulk_job ops clk act job_ids j n =
     (if (case job_ids of None \<Rightarrow> False | Some ids \<Rightarrow> job_id j \<notin> ids) then ret n
      else if act = ''cancel'' then bulk_mark ops clk j CANCELLED n
      else if act = ''retry'' then bulk_mark ops clk j QUEUED n
      else if act = ''fail'' then bulk_mark ops clk j FAILED n
      else raise_exn (ValueError (''Unsupported bulk action: '' @ act)))"

definition bulk_apply ::
  "'b backend_ops \<Rightarrow> checker \<Rightarrow> (string \<Rightarrow> time) \<Rightarrow> string \<Rightarrow> string option \<Rightarrow> string option \<Rightarrow> string option \<Rightarrow>
   string set option \<Rightarrow> ('b, int) py" where
  "bulk_apply ops chk clk act st qn jt job_ids =
     seq_py (ad_require chk ''jobs.bulk'')
       (bind_py (filter_jobs ops st qn jt) (\<lambda>targets. fold_py (bulk_job ops clk act job_ids) targets 0))"

subsection \<open>The service\<close>

definition admin_submit ::
  "'b backend_ops \<Rightarrow> checker \<Rightarrow> string \<Rightarrow> time \<Rightarrow> job_request \<Rightarrow> ('b admin_service, string) py" where
  "admin_submit ops chk uuid now req =
     seq_py (ad_require chk ''jobs.submit'') (ad_on_backend (be_enqueue ops (from_request uuid now req)))"

definition admin_get :: "'b backend_ops \<Rightarrow> string \<Rightarrow> ('b admin_service, job option) py" where
  "admin_get ops jid = ad_on_backend (be_get ops jid)"

definition admin_list :: "'b backend_ops \<Rightarrow> int \<Rightarrow> ('b admin_service, job list) py" where
  "admin_list ops limit = ad_on_backend (be_dequeue ops limit None None)"

definition admin_update ::
  "'b backend_ops \<Rightarrow> checker \<Rightarrow> time \<Rightarrow> string \<Rightarrow> int option \<Rightarrow> ('b admin_service, bool) py" where
  "admin_update ops chk now jid prio =
     seq_py (ad_require chk ''jobs.update'')
       (bind_py (ad_on_backend (be_get ops jid))
          (\<lambda>job. case job of
             None \<Rightarrow> ret False
           | Some j \<Rightarrow>
               (case prio of
                  None \<Rightarrow> ret True
                | Some n \<Rightarrow>
                    seq_py (ad_on_backend (modify (be_poke ops jid (\<lambda>j. j\<lparr>priority := n\<rparr>))))
                      (seq_py (ad_on_backend (be_release ops now jid)) (ret True)))))"

definition admin_delete :: "'b backend_ops \<Rightarrow> checker \<Rightarrow> time \<Rightarrow> string \<Rightarrow> ('b admin_service, bool) py" where
  "admin_delete ops chk now jid =
     seq_py (ad_require chk ''jobs.delete'')
       (ad_on_backend (be_update_status ops now jid (status_value CANCELLED)))"

definition admin_cancel :: "'b backend_ops \<Rightarrow> checker \<Rightarrow> (nat \<Rightarrow> time) \<Rightarrow> string \<Rightarrow> ('b admin_service, bool) py" where
  "admin_cancel ops chk clk jid =
     seq_py (ad_require chk ''jobs.cancel'')
       (bind_py (ad_on_backend (be_update_status ops (clk 0) jid (status_value CANCELLED)))
          (\<lambda>ok. seq_py (ad_emit (clk 1) ''job.cancel'' (if ok then ''success'' else ''failure'')) (ret ok)))"

definition admin_reschedule :: "'b backend_ops \<Rightarrow> checker \<Rightarrow> time \<Rightarrow> string \<Rightarrow> time \<Rightarrow> ('b admin_service, bool) py" where
  "admin_reschedule ops chk now jid next_run =
     seq_py (ad_require chk ''jobs.reschedule'')
       (ad_on_backend (be_update_status ops now jid (status_value QUEUED)))"

definition admin_retry_now :: "'b backend_ops \<Rightarrow> checker \<Rightarrow> (nat \<Rightarrow> time) \<Rightarrow> string \<Rightarrow> ('b admin_service, bool) py" where
  "admin_retry_now ops chk clk jid =
     seq_py (ad_require chk ''jobs.retry'')
       (bind_py (ad_on_backend (be_update_status ops (clk 0) jid (status_value QUEUED)))
          (\<lambda>ok. seq_py (ad_emit (clk 1) ''job.resubmit'' (if ok then ''success'' else ''failure'')) (ret ok)))"

text \<open>The request \<open>resubmit_job\<close> and \<open>reassign_queue\<close> build from a job.\<close>

definition clone_request :: "job \<Rightarrow> string \<Rightarrow> job_request" where
  "clone_request j queue =
     (default_request (job_type j))
       \<lparr>rq_queue_name := queue, rq_payload := payload j, rq_priority := priority j,
        rq_correlation_id := correlation_id j, rq_app_id := app_id j, rq_tenant_id := tenant_id j,
        rq_user_id := user_id j, rq_session_id := session_id j, rq_channel_id := channel_id j\<rparr>"

definition admin_resubmit ::
  "'b backend_ops \<Rightarrow> checker \<Rightarrow> string \<Rightarrow> time \<Rightarrow> string \<Rightarrow> ('b admin_service, string option) py" where
  "admin_resubmit ops chk uuid now jid =
     seq_py (ad_require chk ''jobs.resubmit'')
       (bind_py (ad_on_backend (be_get ops jid))
          (\<lambda>job. case job of
             None \<Rightarrow> ret None
           | Some j \<Rightarrow>
               bind_py (ad_on_backend (be_enqueue ops (from_request uuid now (clone_request j (queue_name j)))))
                 (\<lambda>i. ret (Some i))))"

definition option_int :: "(string, int) dict option \<Rightarrow> string \<Rightarrow> int \<Rightarrow> int" where
  "option_int opts key dflt =
     (case opts of None \<Rightarrow> dflt | Some d \<Rightarrow> if d = [] then dflt else dict_get_or d key dflt)"

definition clear_old_job ::
  "'b backend_ops \<Rightarrow> (string \<Rightarrow> time) \<Rightarrow> int \<Rightarrow> time \<Rightarrow> job \<Rightarrow> int \<Rightarrow> ('b, int) py" where
  "clear_old_job ops clk max_age now j n =
     (if now - updated_at j > max_age * second \<and> status j \<notin> {SUCCEEDED, FAILED, CANCELLED}
      then bulk_mark ops clk j CANCELLED n
      else ret n)"

definition admin_clear_old ::
  "'b backend_ops \<Rightarrow> checker \<Rightarrow> (string \<Rightarrow> time) \<Rightarrow> time \<Rightarrow> time \<Rightarrow> (string, int) dict option \<Rightarrow>
   ('b admin_service, int) py" where
  "admin_clear_old ops chk clk now later policy =
     seq_py (ad_require chk ''jobs.purge'')
       (let max_age = option_int policy ''max_age_seconds'' 86400 in
        bind_py (ad_on_backend (bind_py (be_all_jobs ops)
            (\<lambda>jobs. fold_py (clear_old_job ops clk max_age now) jobs 0)))
          (\<lambda>n. seq_py (if n \<noteq> 0 then ad_emit later ''job.admin.purge'' ''success'' else ret ()) (ret n)))"

definition clear_stuck_job ::
  "'b backend_ops \<Rightarrow> (string \<Rightarrow> time) \<Rightarrow> int \<Rightarrow> string \<Rightarrow> time \<Rightarrow> job \<Rightarrow> int \<Rightarrow> ('b, int) py" where
  "clear_stuck_job ops clk timeout act now j n =
     (if status j \<noteq> RUNNING then ret n
      else if now - updated_at j \<le> timeout * second then ret n
      else bulk_mark ops clk j (if act = ''cancel'' then CANCELLED else FAILED) n)"

definition admin_clear_stuck ::
  "'b backend_ops \<Rightarrow> checker \<Rightarrow> (string \<Rightarrow> time) \<Rightarrow> time \<Rightarrow> time \<Rightarrow> (string, int) dict option \<Rightarrow> string \<Rightarrow>
   ('b admin_service, int) py" where
  "admin_clear_stuck ops chk clk now later flt act =
     seq_py (ad_require chk ''jobs.stuck_recovery'')
       (let timeout = option_int flt ''claim_timeout_seconds'' 60 in
        bind_py (ad_on_backend (bind_py (be_all_jobs ops)
            (\<lambda>jobs. fold_py (clear_stuck_job ops clk timeout act now) jobs 0)))
          (\<lambda>n. seq_py (if n \<noteq> 0 then ad_emit later ''job.admin.stuck_recovery'' ''success'' else ret ()) (ret n)))"

definition admin_reassign ::
  "'b backend_ops \<Rightarrow> checker \<Rightarrow> string \<Rightarrow> time \<Rightarrow> string \<Rightarrow> string \<Rightarrow> ('b admin_service, bool) py" where
  "admin_reassign ops chk uuid now jid queue =
     seq_py (ad_require chk ''jobs.reassign'')
       (bind_py (ad_on_backend (be_get ops jid))
          (\<lambda>job. case job of
             None \<Rightarrow> ret False
           | Some j \<Rightarrow>
               bind_py (ad_on_backend (be_enqueue ops (from_request uuid now (clone_request j queue))))
                 (\<lambda>i. ret (i \<noteq> []))))"

definition admin_bulk_update ::
  "'b backend_ops \<Rightarrow> checker \<Rightarrow> (string \<Rightarrow> time) \<Rightarrow> string list \<Rightarrow> string \<Rightarrow> ('b admin_service, int) py" where
  "admin_bulk_update ops chk clk job_ids act =
     seq_py (ad_require chk ''jobs.bulk'')
       (ad_on_backend (bulk_apply ops chk clk act None None None (Some (set job_ids))))"

definition admin_queue_status :: "'b backend_ops \<Rightarrow> ('b admin_service, (string, int) dict) py" where
  "admin_queue_status ops = ad_on_backend (be_get_queue_status ops)"

subsection \<open>Permissions\<close>

text \<open>The operations that change jobs, and the permission each one asks for.\<close>

datatype admin_call =
    AdminSubmit string time job_request
  | AdminUpdate time string "int option"
  | AdminDelete time string
  | AdminCancel "nat \<Rightarrow> time" string
  | AdminReschedule time string time
  | AdminRetry "nat \<Rightarrow> time" string
  | AdminResubmit string time string
  | AdminClearOld "string \<Rightarrow> time" time time "(string, int) dict option"
  | AdminClearStuck "string \<Rightarrow> time" time time "(string, int) dict option" string
  | AdminReassign string time string string
  | AdminBulk "string \<Rightarrow> time" "string list" string

definition discard :: "('s, 'a) py \<Rightarrow> ('s, unit) py" where
  "discard m = bind_py m (\<lambda>_. ret ())"

fun admin_do :: "'b backend_ops \<Rightarrow> checker \<Rightarrow> admin_call \<Rightarrow> ('b admin_service, unit) py" where
  "admin_do ops chk (AdminSubmit uuid now req) = discard (admin_submit ops chk uuid now req)"
| "admin_do ops chk (AdminUpdate now jid prio) = discard (admin_update ops chk now jid prio)"
| "admin_do ops chk (AdminDelete now jid) = discard (admin_delete ops chk now jid)"
| "admin_do ops chk (AdminCancel clk jid) = discard (admin_cancel ops chk clk jid)"
| "admin_do ops chk (AdminReschedule now jid at) = discard (admin_reschedule ops chk now jid at)"
| "admin_do ops chk (AdminRetry clk jid) = discard (admin_retry_now ops chk clk jid)"
| "admin_do ops chk (AdminResubmit uuid now jid) = discard (admin_resubmit ops chk uuid now jid)"
| "admin_do ops chk (AdminClearOld clk now later pol) = discard (admin_clear_old ops chk clk now later pol)"
| "admin_do ops chk (AdminClearStuck clk now later flt act) =
     discard (admin_clear_stuck ops chk clk now later flt act)"
| "admin_do ops chk (AdminReassign uuid now jid queue) = discard (admin_reassign ops chk uuid now jid queue)"
| "admin_do ops chk (AdminBulk clk jids act) = discard (admin_bulk_update ops chk clk jids act)"

fun admin_permission :: "admin_call \<Rightarrow> string" where
  "admin_permission (AdminSubmit _ _ _) = ''jobs.submit''"
| "admin_permission (AdminUpdate _ _ _) = ''jobs.update''"
| "admin_permission (AdminDelete _ _) = ''jobs.delete''"
| "admin_permission (AdminCancel _ _) = ''jobs.cancel''"
| "admin_permission (AdminReschedule _ _ _) = ''jobs.reschedule''"
| "admin_permission (AdminRetry _ _) = ''jobs.retry''"
| "admin_permission (AdminResubmit _ _ _) = ''jobs.resubmit''"
| "admin_permission (AdminClearOld _ _ _ _) = ''jobs.purge''"
| "admin_permission (AdminClearStuck _ _ _ _ _) = ''jobs.stuck_recovery''"
| "admin_permission (AdminReassign _ _ _ _) = ''jobs.reassign''"
| "admin_permission (AdminBulk _ _ _) = ''jobs.bulk''"

lemma ad_require_denied:
  "\<not> f perm \<Longrightarrow> seq_py (ad_require (Some f) perm) k s =
     (Inl (PermissionError (''Missing required permission: '' @ perm)), s)"
  by (simp add: ad_require_def seq_py_def bind_py_def raise_exn_def)

lemma ad_require_granted: "case chk of None \<Rightarrow> True | Some f \<Rightarrow> f perm \<Longrightarrow> seq_py (ad_require chk perm) k = k"
  by (cases chk) (simp_all add: ad_require_def seq_py_def bind_py_def ret_def)

lemma discard_denied:
  "\<not> f perm \<Longrightarrow> discard (seq_py (ad_require (Some f) perm) k) s =
     (Inl (PermissionError (''Missing required permission: '' @ perm)), s)"
  by (simp add: discard_def bind_py_def ad_require_denied)

lemmas admin_ops_defs = admin_submit_def admin_update_def admin_delete_def admin_cancel_def
  admin_reschedule_def admin_retry_now_def admin_resubmit_def admin_clear_old_def admin_clear_stuck_def
  admin_reassign_def admin_bulk_update_def

lemma admin_do_denied:
  assumes "\<not> f (admin_permission c)"
  shows "admin_do ops (Some f) c s =
    (Inl (PermissionError (''Missing required permission: '' @ admin_permission c)), s)"
  using assms by (cases c) (simp_all add: admin_ops_defs discard_denied)

subsection \<open>The sweeps\<close>

definition old_target :: "int \<Rightarrow> time \<Rightarrow> job \<Rightarrow> job_status option" where
  "old_target max_age now j =
     (if now - updated_at j > max_age * second \<and> status j \<notin> {SUCCEEDED, FAILED, CANCELLED}
      then Some CANCELLED else None)"

definition stuck_target :: "int \<Rightarrow> string \<Rightarrow> time \<Rightarrow> job \<Rightarrow> job_status option" where
  "stuck_target timeout act now j =
     (if status j = RUNNING \<and> now - updated_at j > timeout * second
      then Some (if act = ''cancel'' then CANCELLED else FAILED) else None)"

lemma clear_old_job_sweep:
  "clear_old_job ops clk max_age now = sweep_step ops clk (old_target max_age now) (\<lambda>_ n. n + 1)"
  by (rule ext)+ (simp add: clear_old_job_def sweep_step_def old_target_def bulk_mark_def)

lemma clear_stuck_job_sweep:
  "clear_stuck_job ops clk timeout act now = sweep_step ops clk (stuck_target timeout act now) (\<lambda>_ n. n + 1)"
  by (rule ext)+ (simp add: clear_stuck_job_def sweep_step_def stuck_target_def bulk_mark_def)

lemma ad_emit_run:
  "\<exists>a'. ad_emit now act outcome a = (Inr (), a') \<and> ad_backend a' = ad_backend a \<and>
     audit_log (ad_audit a') = audit_log (ad_audit a) @ [(Some (PStr act), Some (PStr outcome))]"
proof -
  obtain ev e where "emit now act outcome (ad_audit a) = (Inr ev, e)" by (simp add: emit_def Let_def)
  with emit_log [OF this] show ?thesis by (simp add: ad_emit_def py_defs)
qed

locale administering = sweeping
begin

text \<open>A sweep of the service: the decided jobs change, the number is exact, and it is audited when it is not zero.\<close>

lemma admin_sweep:
  assumes "inv (ad_backend a)"
  shows "\<exists>js n a'. be_all_jobs ops (ad_backend a) = (Inr js, ad_backend a) \<and>
    n = int (length (filter (\<lambda>j. decide j \<noteq> None) js)) \<and>
    bind_py (ad_on_backend (bind_py (be_all_jobs ops)
        (\<lambda>jobs. fold_py (sweep_step ops clk decide (\<lambda>_ n. n + 1)) jobs 0)))
      (\<lambda>n. seq_py (if n \<noteq> 0 then ad_emit later act ''success'' else ret ()) (ret n)) a = (Inr n, a') \<and>
    inv (ad_backend a') \<and> swept decide (view (ad_backend a)) (view (ad_backend a')) \<and>
    audit_log (ad_audit a') = audit_log (ad_audit a) @
      (if n = 0 then [] else [(Some (PStr act), Some (PStr ''success''))])"
proof -
  obtain js b' where s: "be_all_jobs ops (ad_backend a) = (Inr js, ad_backend a)"
      "bind_py (be_all_jobs ops) (\<lambda>js. fold_py (sweep_step ops clk decide (\<lambda>_ n. n + 1)) js 0) (ad_backend a) =
        (Inr (swept_count decide (\<lambda>_ n. n + 1) js (0 :: int)), b')"
      "inv b'" "swept decide (view (ad_backend a)) (view b')"
    using sweep_all [OF assms, of clk decide "\<lambda>_ n. n + 1" "0 :: int"] by blast
  let ?n = "int (length (filter (\<lambda>j. decide j \<noteq> None) js))"
  let ?a1 = "a\<lparr>ad_backend := b'\<rparr>"
  have run: "ad_on_backend (bind_py (be_all_jobs ops)
      (\<lambda>js. fold_py (sweep_step ops clk decide (\<lambda>_ n. n + 1)) js 0)) a = (Inr ?n, ?a1)"
    using s(2) by (simp add: ad_on_backend_def on_field_def swept_count_number)
  obtain a2 where a2: "ad_emit later act ''success'' ?a1 = (Inr (), a2)" "ad_backend a2 = b'"
      "audit_log (ad_audit a2) = audit_log (ad_audit a) @ [(Some (PStr act), Some (PStr ''success''))]"
    using ad_emit_run [of later act "''success''" ?a1] by auto
  show ?thesis
  proof (cases "?n = 0")
    case True
    with run s show ?thesis
      by (intro exI [of _ js] exI [of _ ?n] exI [of _ ?a1]) (simp add: bind_py_Inr seq_py_def bind_py_def ret_def)
  next
    case False
    with run s a2 show ?thesis
      by (intro exI [of _ js] exI [of _ ?n] exI [of _ a2]) (simp add: bind_py_Inr seq_py_def bind_py_def ret_def)
  qed
qed

lemma admin_resubmit_run:
  assumes i: "inv (ad_backend a)" and ok: "case chk of None \<Rightarrow> True | Some f \<Rightarrow> f ''jobs.resubmit''"
    and j: "view (ad_backend a) jid = Some j" and fresh: "view (ad_backend a) uuid = None"
  shows "\<exists>a' k. admin_resubmit ops chk uuid now jid a = (Inr (Some uuid), a') \<and> inv (ad_backend a') \<and>
    view (ad_backend a') = (view (ad_backend a))(uuid \<mapsto> k) \<and> job_id k = uuid \<and> status k = QUEUED \<and>
    job_type k = job_type j \<and> queue_name k = queue_name j \<and> payload k = payload j \<and> priority k = priority j"
proof -
  let ?k = "from_request uuid now (clone_request j (queue_name j))"
  obtain b' where b': "be_enqueue ops ?k (ad_backend a) = (Inr uuid, b')" "inv b'"
      "view b' = (view (ad_backend a))(uuid \<mapsto> stored ?k)"
    using enqueue_fresh [OF i, of ?k] fresh by auto
  have run: "admin_resubmit ops chk uuid now jid a = (Inr (Some uuid), a\<lparr>ad_backend := b'\<rparr>)"
    using b'(1) j get_law [OF i, of jid]
    by (simp add: admin_resubmit_def ad_require_granted [OF ok] ad_on_backend_def on_field_def bind_py_def ret_def)
  show ?thesis
    using run b' stored_law [of ?k]
    by (intro exI [of _ "a\<lparr>ad_backend := b'\<rparr>"] exI [of _ "stored ?k"])
      (simp add: clone_request_def default_request_def)
qed

end

end
