(* ===== verification/Job_Queue.thy ===== *)
theory Job_Queue
  imports Backend_Spec Dependency Observability Security
begin

section \<open>The queue facade and idempotency keys\<close>

text \<open>
  \<open>queue.py\<close> and \<open>idempotency/manager.py\<close>. A queue owns an idempotency manager, an audit sink and,
  optionally, a dependency tracker, over a backend with the methods \<open>ops\<close>. \<open>jq_submit\<close> takes the
  identifier that \<open>uuid4\<close> would return and the clock readings: \<open>clk 0\<close> for the job's creation,
  \<open>clk 1\<close> for the idempotency window, \<open>clk 2\<close> for the audit event. The asynchronous variants of
  the source run the same methods in a thread and add nothing.
\<close>

subsection \<open>Idempotency keys\<close>

record idempotency_manager =
  im_ttl_seconds :: int
  im_entries :: "(string, string \<times> time) dict"

definition new_idempotency_manager :: "int \<Rightarrow> idempotency_manager" where
  "new_idempotency_manager ttl = \<lparr>im_ttl_seconds = ttl, im_entries = []\<rparr>"

definition register_or_get :: "time \<Rightarrow> string \<Rightarrow> string \<Rightarrow> (idempotency_manager, string) py" where
  "register_or_get now key jid =
     (\<lambda>m. case dict_get (im_entries m) key of
        Some (prior, expires) \<Rightarrow>
          if expires > now then (Inr prior, m)
          else (Inr jid, m\<lparr>im_entries := dict_set (im_entries m) key (jid, now + im_ttl_seconds m * second)\<rparr>)
      | None \<Rightarrow>
          (Inr jid, m\<lparr>im_entries := dict_set (im_entries m) key (jid, now + im_ttl_seconds m * second)\<rparr>))"

subsection \<open>The queue\<close>

record 'b job_queue =
  jq_backend :: 'b
  jq_payload_max :: int
  jq_idempotency :: idempotency_manager
  jq_audit :: audit_emitter
  jq_tracker :: "dependency_tracker option"

definition new_job_queue :: "'b \<Rightarrow> dependency_tracker option \<Rightarrow> 'b job_queue" where
  "new_job_queue b tracker =
     \<lparr>jq_backend = b, jq_payload_max = 16384, jq_idempotency = new_idempotency_manager 86400,
      jq_audit = new_audit_emitter, jq_tracker = tracker\<rparr>"

definition jq_on_backend :: "('b, 'a) py \<Rightarrow> ('b job_queue, 'a) py" where
  "jq_on_backend m = on_field jq_backend (\<lambda>b q. q\<lparr>jq_backend := b\<rparr>) m"

definition jq_emit :: "time \<Rightarrow> string \<Rightarrow> string \<Rightarrow> ('b job_queue, unit) py" where
  "jq_emit now act outcome =
     seq_py (on_field jq_audit (\<lambda>a q. q\<lparr>jq_audit := a\<rparr>) (emit now act outcome)) (ret ())"

definition jq_register_key :: "time \<Rightarrow> string \<Rightarrow> string \<Rightarrow> ('b job_queue, string) py" where
  "jq_register_key now key jid =
     on_field jq_idempotency (\<lambda>m q. q\<lparr>jq_idempotency := m\<rparr>) (register_or_get now key jid)"

definition jq_check :: "(exn + unit) \<Rightarrow> ('b job_queue, unit) py" where
  "jq_check r = (case r of Inl e \<Rightarrow> raise_exn e | Inr u \<Rightarrow> ret u)"

definition jq_validate_deps :: "string \<Rightarrow> string list \<Rightarrow> ('b job_queue, unit) py" where
  "jq_validate_deps jid deps =
     (\<lambda>q. case jq_tracker q of
        None \<Rightarrow> (Inr (), q)
      | Some t \<Rightarrow>
          if deps = [] then (Inr (), q)
          else (case validate_and_register jid deps t of
                  (r, t') \<Rightarrow> (r, q\<lparr>jq_tracker := Some t'\<rparr>)))"

definition jq_enqueue :: "'b backend_ops \<Rightarrow> (nat \<Rightarrow> time) \<Rightarrow> job \<Rightarrow> ('b job_queue, string) py" where
  "jq_enqueue ops clk j =
     seq_py (jq_validate_deps (job_id j) (depends_on j))
       (bind_py (jq_on_backend (be_enqueue ops j))
          (\<lambda>jid. seq_py (jq_emit (clk 2) ''job.submit'' ''success'') (ret jid)))"

definition jq_submit ::
  "'b backend_ops \<Rightarrow> string \<Rightarrow> (nat \<Rightarrow> time) \<Rightarrow> job_request \<Rightarrow> ('b job_queue, string) py" where
  "jq_submit ops uuid clk req =
     seq_py (\<lambda>q. jq_check (validate_payload_size (rq_payload req) (jq_payload_max q)) q)
       (seq_py (jq_check (assert_no_secrets (rq_payload req)))
          (let j = from_request uuid (clk 0) req in
           case rq_idempotency_key req of
             Some key \<Rightarrow>
               if key = [] then jq_enqueue ops clk j
               else bind_py (jq_register_key (clk 1) key (job_id j))
                 (\<lambda>prior.
                    if prior \<noteq> job_id j
                    then seq_py (jq_emit (clk 2) ''job.submit'' ''deduplicated'') (ret prior)
                    else jq_enqueue ops clk j)
           | None \<Rightarrow> jq_enqueue ops clk j))"

definition jq_get :: "'b backend_ops \<Rightarrow> string \<Rightarrow> ('b job_queue, job option) py" where
  "jq_get ops jid = jq_on_backend (be_get ops jid)"

definition jq_list :: "'b backend_ops \<Rightarrow> int \<Rightarrow> string option \<Rightarrow> ('b job_queue, job list) py" where
  "jq_list ops limit jt = jq_on_backend (be_dequeue ops limit jt None)"

definition jq_cancel :: "'b backend_ops \<Rightarrow> (nat \<Rightarrow> time) \<Rightarrow> string \<Rightarrow> ('b job_queue, bool) py" where
  "jq_cancel ops clk jid =
     bind_py (jq_on_backend (be_update_status ops (clk 0) jid (status_value CANCELLED)))
       (\<lambda>ok. seq_py (jq_emit (clk 1) ''job.cancel'' (if ok then ''success'' else ''failure'')) (ret ok))"

definition jq_health :: "'b backend_ops \<Rightarrow> ('b job_queue, bool) py" where
  "jq_health ops = jq_on_backend (be_health_check ops)"

subsection \<open>Idempotency window\<close>

definition key_holds :: "idempotency_manager \<Rightarrow> string \<Rightarrow> string \<Rightarrow> time \<Rightarrow> bool" where
  "key_holds m key jid until \<longleftrightarrow> dict_get (im_entries m) key = Some (jid, until)"

lemma register_or_get_held:
  "key_holds m key jid until \<Longrightarrow> now < until \<Longrightarrow> register_or_get now key jid' m = (Inr jid, m)"
  by (simp add: key_holds_def register_or_get_def)

lemma register_or_get_free:
  assumes "\<And>prior until. key_holds m key prior until \<Longrightarrow> until \<le> now"
  shows "\<exists>m'. register_or_get now key jid m = (Inr jid, m') \<and>
    key_holds m' key jid (now + im_ttl_seconds m * second) \<and> im_ttl_seconds m' = im_ttl_seconds m"
  using assms by (auto simp: key_holds_def register_or_get_def split: option.splits prod.splits)

lemma register_or_get_other:
  "register_or_get now key jid m = (r, m') \<Longrightarrow> k \<noteq> key \<Longrightarrow>
     dict_get (im_entries m') k = dict_get (im_entries m) k"
  by (auto simp: register_or_get_def split: option.splits prod.splits if_splits)

subsection \<open>The payload gate\<close>

definition payload_accepted :: "int \<Rightarrow> job_request \<Rightarrow> bool" where
  "payload_accepted max_bytes req \<longleftrightarrow>
     payload_size (rq_payload req) \<le> max_bytes \<and> \<not> payload_contains_secret (PDict (rq_payload req))"

lemma jq_submit_gate:
  "jq_submit ops uuid clk req q =
     (if payload_accepted (jq_payload_max q) req
      then (case rq_idempotency_key req of
              Some key \<Rightarrow>
                if key = [] then jq_enqueue ops clk (from_request uuid (clk 0) req) q
                else bind_py (jq_register_key (clk 1) key uuid)
                  (\<lambda>prior. if prior \<noteq> uuid
                     then seq_py (jq_emit (clk 2) ''job.submit'' ''deduplicated'') (ret prior)
                     else jq_enqueue ops clk (from_request uuid (clk 0) req)) q
            | None \<Rightarrow> jq_enqueue ops clk (from_request uuid (clk 0) req) q)
      else (fst (jq_submit ops uuid clk req q), q))"
  by (simp add: jq_submit_def jq_check_def validate_payload_size_def assert_no_secrets_def
      payload_accepted_def Let_def seq_py_def bind_py_def raise_exn_def ret_def split: option.splits)

lemma jq_submit_rejects:
  "\<not> payload_accepted (jq_payload_max q) req \<Longrightarrow>
     \<exists>m. jq_submit ops uuid clk req q = (Inl (ValueError m), q)"
  by (auto simp: jq_submit_def jq_check_def validate_payload_size_def assert_no_secrets_def
      payload_accepted_def Let_def py_defs)

lemma jq_submit_dedup:
  assumes "payload_accepted (jq_payload_max q) req" and "rq_idempotency_key req = Some key" "key \<noteq> []"
    and "key_holds (jq_idempotency q) key prior until" "clk 1 < until" and "prior \<noteq> uuid"
  shows "\<exists>q'. jq_submit ops uuid clk req q = (Inr prior, q') \<and>
    jq_backend q' = jq_backend q \<and> jq_idempotency q' = jq_idempotency q \<and> jq_tracker q' = jq_tracker q \<and>
    audit_log (jq_audit q') = audit_log (jq_audit q) @ [(Some (PStr ''job.submit''), Some (PStr ''deduplicated''))]"
proof -
  obtain ev a' where e: "emit (clk 2) ''job.submit'' ''deduplicated'' (jq_audit q) = (Inr ev, a')"
    by (simp add: emit_def Let_def)
  show ?thesis
    using assms emit_log [OF e]
    by (simp add: jq_submit_gate jq_register_key_def register_or_get_held jq_emit_def py_defs e)
qed

subsection \<open>Submission over any backend that meets the contract\<close>

definition deps_acceptable :: "'b job_queue \<Rightarrow> string \<Rightarrow> string list \<Rightarrow> bool" where
  "deps_acceptable q jid deps \<longleftrightarrow> (\<forall>t. jq_tracker q = Some t \<longrightarrow> \<not> detect_cycle t jid deps)"

definition registered_tracker :: "'b job_queue \<Rightarrow> string \<Rightarrow> string list \<Rightarrow> dependency_tracker option" where
  "registered_tracker q jid deps =
     map_option (\<lambda>t. if deps = [] then t else t\<lparr>dt_edges := dict_set (dt_edges t) jid deps\<rparr>) (jq_tracker q)"

lemma jq_validate_deps_ok:
  "deps_acceptable q jid deps \<Longrightarrow>
     jq_validate_deps jid deps q = (Inr (), q\<lparr>jq_tracker := registered_tracker q jid deps\<rparr>)"
  by (auto simp: jq_validate_deps_def deps_acceptable_def registered_tracker_def
      validate_and_register_def split: option.splits)

locale submitting = queue_backend
begin

lemma jq_enqueue_ok:
  assumes i: "inv (jq_backend q)" and fresh: "view (jq_backend q) (job_id j) = None"
    and deps: "deps_acceptable q (job_id j) (depends_on j)" and nores: "result_ref j = None"
  shows "\<exists>q'. jq_enqueue ops clk j q = (Inr (job_id j), q') \<and> inv (jq_backend q') \<and>
    view (jq_backend q') = (view (jq_backend q))(job_id j \<mapsto> stored j) \<and>
    jq_idempotency q' = jq_idempotency q \<and> jq_payload_max q' = jq_payload_max q \<and>
    jq_tracker q' = registered_tracker q (job_id j) (depends_on j) \<and>
    audit_log (jq_audit q') = audit_log (jq_audit q) @ [(Some (PStr ''job.submit''), Some (PStr ''success''))]"
proof -
  obtain b' where b': "be_enqueue ops j (jq_backend q) = (Inr (job_id j), b')" "inv b'"
      "view b' = (view (jq_backend q))(job_id j \<mapsto> stored j)"
    using enqueue_fresh [OF i fresh nores] by blast
  obtain ev a' where e: "emit (clk 2) ''job.submit'' ''success'' (jq_audit q) = (Inr ev, a')"
    by (simp add: emit_def Let_def)
  show ?thesis
    using b' emit_log [OF e] jq_validate_deps_ok [OF deps]
    by (simp add: jq_enqueue_def jq_on_backend_def jq_emit_def py_defs e)
qed

lemma jq_submit_ok:
  assumes acc: "payload_accepted (jq_payload_max q) req"
    and i: "inv (jq_backend q)" and fresh: "view (jq_backend q) uuid = None"
    and deps: "deps_acceptable q uuid (rq_depends_on req)"
    and key: "\<And>k prior until. rq_idempotency_key req = Some k \<Longrightarrow> key_holds (jq_idempotency q) k prior until \<Longrightarrow> until \<le> clk 1"
  shows "\<exists>q'. jq_submit ops uuid clk req q = (Inr uuid, q') \<and> inv (jq_backend q') \<and>
    view (jq_backend q') = (view (jq_backend q))(uuid \<mapsto> stored (from_request uuid (clk 0) req)) \<and>
    jq_payload_max q' = jq_payload_max q \<and>
    jq_tracker q' = registered_tracker q uuid (rq_depends_on req) \<and>
    audit_log (jq_audit q') = audit_log (jq_audit q) @ [(Some (PStr ''job.submit''), Some (PStr ''success''))] \<and>
    (\<forall>k. rq_idempotency_key req = Some k \<longrightarrow> k \<noteq> [] \<longrightarrow>
       key_holds (jq_idempotency q') k uuid (clk 1 + im_ttl_seconds (jq_idempotency q) * second))"
proof (cases "\<exists>k. rq_idempotency_key req = Some k \<and> k \<noteq> []")
  case False
  then have "jq_submit ops uuid clk req q = jq_enqueue ops clk (from_request uuid (clk 0) req) q"
    using acc by (auto simp: jq_submit_gate split: option.splits)
  with False show ?thesis
    using jq_enqueue_ok [of q "from_request uuid (clk 0) req" clk] i fresh deps by auto
next
  case True
  then obtain k where k: "rq_idempotency_key req = Some k" "k \<noteq> []" by blast
  obtain m' where m': "register_or_get (clk 1) k uuid (jq_idempotency q) = (Inr uuid, m')"
      "key_holds m' k uuid (clk 1 + im_ttl_seconds (jq_idempotency q) * second)"
    using register_or_get_free [of "jq_idempotency q" k "clk 1" uuid] key [OF k(1)] by blast
  define q1 where "q1 = q\<lparr>jq_idempotency := m'\<rparr>"
  have "jq_submit ops uuid clk req q = jq_enqueue ops clk (from_request uuid (clk 0) req) q1"
    using acc k m'(1) by (simp add: jq_submit_gate jq_register_key_def py_defs q1_def)
  moreover have "deps_acceptable q1 uuid (rq_depends_on req)"
    using deps by (simp add: deps_acceptable_def q1_def)
  moreover have "registered_tracker q1 uuid (rq_depends_on req) = registered_tracker q uuid (rq_depends_on req)"
    by (simp add: registered_tracker_def q1_def)
  ultimately show ?thesis
    using jq_enqueue_ok [of q1 "from_request uuid (clk 0) req" clk] i fresh m'(2) k
    by (auto simp: q1_def)
qed

lemma jq_cancel_ok:
  assumes "inv (jq_backend q)"
  shows "\<exists>q'. jq_cancel ops clk jid q = (Inr (view (jq_backend q) jid \<noteq> None), q') \<and>
    inv (jq_backend q') \<and> dom (view (jq_backend q')) = dom (view (jq_backend q)) \<and>
    (\<forall>i. i \<noteq> jid \<longrightarrow> view (jq_backend q') i = view (jq_backend q) i) \<and>
    (\<forall>j. view (jq_backend q') jid = Some j \<longrightarrow> status j = CANCELLED) \<and>
    jq_tracker q' = jq_tracker q"
proof -
  obtain b' where b': "be_update_status ops (clk 0) jid (status_value CANCELLED) (jq_backend q) =
      (Inr (view (jq_backend q) jid \<noteq> None), b')" "inv b'" "dom (view b') = dom (view (jq_backend q))"
      "\<forall>i. i \<noteq> jid \<longrightarrow> view b' i = view (jq_backend q) i"
      "\<forall>j. view (jq_backend q) jid = Some j \<longrightarrow> (\<exists>j'. view b' jid = Some j' \<and> same_submission j j' \<and> status j' = CANCELLED)"
    using update_status_gen [OF assms, of "clk 0" jid CANCELLED] by auto
  have st: "\<forall>j. view b' jid = Some j \<longrightarrow> status j = CANCELLED"
    using b'(3,5) by (metis domI domIff option.exhaust option.inject)
  show ?thesis
    using b' st by (auto simp: jq_cancel_def jq_on_backend_def jq_emit_def py_defs emit_def Let_def)
qed

end

end
