(* ===== verification/Fanout.thy ===== *)
theory Fanout
  imports Complex_Main Job_Queue
begin

section \<open>Fan-out\<close>

text \<open>
  \<open>fanout/manager.py\<close> and \<open>async_jobs/mcp_adapter.py\<close>. A finite float threshold is the rational
  number it denotes. The success ratio \<open>success_count / len(statuses)\<close> is a float division of two
  integers, which Python rounds correctly: \<open>float_ratio\<close> rounds the quotient of two naturals, with
  the smaller on top, to 53 significant bits, ties to even. A specification given as a dictionary
  has the types of \<open>ChildJobSpec\<close>, and \<open>None\<close> stands for a missing or null entry; only \<open>job_type\<close>, which
  is read with \<open>spec["job_type"]\<close> and passed to \<open>str\<close>, is any value, with \<open>None\<close> for a missing key.
\<close>

subsection \<open>The success ratio\<close>

function scale_bits :: "nat \<Rightarrow> nat \<Rightarrow> nat \<Rightarrow> nat" where
  "scale_bits s n k = (if s = 0 \<or> s * 2 ^ k \<ge> n * 2 ^ 52 then k else scale_bits s n (k + 1))"
  by pat_completeness auto
termination
  by (relation "measure (\<lambda>(s, n, k). n * 2 ^ 52 - s * 2 ^ k)") (auto simp: less_diff_conv2 intro!: diff_less_mono2)

declare scale_bits.simps [simp del]

definition round_half_even :: "nat \<Rightarrow> nat \<Rightarrow> nat" where
  "round_half_even a n =
     (let q = a div n; r = a mod n in
      if 2 * r < n then q else if n < 2 * r then q + 1 else if even q then q else q + 1)"

definition float_ratio :: "nat \<Rightarrow> nat \<Rightarrow> rat" where
  "float_ratio s n =
     (let k = scale_bits s n 0 in of_nat (round_half_even (s * 2 ^ k) n) / 2 ^ k)"

subsection \<open>The parent's status\<close>

definition active_states :: "string list" where
  "active_states = map status_value [QUEUED, SCHEDULED, RUNNING, RETRY_WAIT, PAUSED]"

definition aggregate_child_statuses :: "string list \<Rightarrow> rat option \<Rightarrow> string" where
  "aggregate_child_statuses statuses threshold =
     (if statuses = [] then status_value QUEUED
      else
        let success_count = length (filter (\<lambda>s. s = status_value SUCCEEDED) statuses);
            failure_count = length (filter (\<lambda>s. s = status_value FAILED) statuses);
            active_count = length (filter (\<lambda>s. s \<in> set active_states) statuses)
        in case threshold of
             None \<Rightarrow>
               if failure_count > 0 then status_value FAILED
               else if success_count = length statuses then status_value SUCCEEDED
               else if active_count > 0 then status_value RUNNING
               else status_value QUEUED
           | Some t \<Rightarrow>
               if active_count > 0 then status_value RUNNING
               else if float_ratio success_count (length statuses) \<ge> min (max t 0) 1
               then status_value SUCCEEDED
               else status_value FAILED)"

subsection \<open>The manager\<close>

record child_job_spec =
  cs_job_type :: string
  cs_payload :: "(string, pyval) dict"
  cs_queue_name :: string
  cs_priority :: int

record spec_dict =
  sd_job_type :: "pyval option"
  sd_payload :: "(string, pyval) dict option"
  sd_queue_name :: "string option"
  sd_priority :: "int option"

datatype fan_spec = SpecObject child_job_spec | SpecDict spec_dict

fun child_spec :: "fan_spec \<Rightarrow> exn + child_job_spec" where
  "child_spec (SpecObject c) = Inr c"
| "child_spec (SpecDict d) =
     (case sd_job_type d of
        None \<Rightarrow> Inl (KeyError ''job_type'')
      | Some t \<Rightarrow>
          Inr \<lparr>cs_job_type = py_str t,
               cs_payload = (case sd_payload d of None \<Rightarrow> [] | Some p \<Rightarrow> p),
               cs_queue_name = (case sd_queue_name d of None \<Rightarrow> ''default''
                  | Some q \<Rightarrow> if q = [] then ''default'' else q),
               cs_priority = (case sd_priority d of None \<Rightarrow> 0 | Some n \<Rightarrow> n)\<rparr>)"

definition child_request :: "string \<Rightarrow> child_job_spec \<Rightarrow> job_request" where
  "child_request parent c =
     (default_request (cs_job_type c))
       \<lparr>rq_queue_name := cs_queue_name c,
        rq_payload := dict_set (cs_payload c) ''__fanout_parent_job_id'' (PStr parent),
        rq_priority := cs_priority c\<rparr>"

record 'b fan_out_manager =
  fo_queue :: "'b job_queue"
  fo_children :: "(string, string list) dict"

definition fo_on_queue :: "('b job_queue, 'a) py \<Rightarrow> ('b fan_out_manager, 'a) py" where
  "fo_on_queue m = on_field fo_queue (\<lambda>q f. f\<lparr>fo_queue := q\<rparr>) m"

text \<open>The fresh identifier and the clock of each submission come from the environment, one entry per child.\<close>

type_synonym submit_env = "string \<times> (nat \<Rightarrow> time)"

definition fan_child ::
  "'b backend_ops \<Rightarrow> string \<Rightarrow> submit_env \<times> fan_spec \<Rightarrow> string list \<Rightarrow> ('b job_queue, string list) py" where
  "fan_child ops parent es ids =
     (case es of ((uuid, clk), spec) \<Rightarrow>
        (case child_spec spec of
           Inl e \<Rightarrow> raise_exn e
         | Inr c \<Rightarrow>
             bind_py (jq_submit ops uuid clk (child_request parent c)) (\<lambda>cid. ret (ids @ [cid]))))"

definition create_fan_out ::
  "'b backend_ops \<Rightarrow> string \<Rightarrow> (submit_env \<times> fan_spec) list \<Rightarrow> ('b fan_out_manager, string list) py" where
  "create_fan_out ops parent specs =
     bind_py (fo_on_queue (fold_py (fan_child ops parent) specs []))
       (\<lambda>ids. seq_py (modify (\<lambda>f. f\<lparr>fo_children := dict_set (fo_children f) parent ids\<rparr>)) (ret ids))"

definition get_children :: "'b fan_out_manager \<Rightarrow> string \<Rightarrow> string list" where
  "get_children f parent = dict_get_or (fo_children f) parent []"

definition child_status :: "'b backend_ops \<Rightarrow> string \<Rightarrow> string list \<Rightarrow> ('b job_queue, string list) py" where
  "child_status ops cid acc =
     bind_py (jq_get ops cid)
       (\<lambda>child. ret (acc @ [case child of None \<Rightarrow> status_value FAILED | Some j \<Rightarrow> status_value (status j)]))"

definition aggregate_parent_status ::
  "'b backend_ops \<Rightarrow> string \<Rightarrow> rat option \<Rightarrow> ('b fan_out_manager, string) py" where
  "aggregate_parent_status ops parent threshold =
     (\<lambda>f. bind_py (fo_on_queue (fold_py (child_status ops) (get_children f parent) []))
        (\<lambda>sts. ret (aggregate_child_statuses sts threshold)) f)"

definition cancel_one :: "'b backend_ops \<Rightarrow> (string \<Rightarrow> nat \<Rightarrow> time) \<Rightarrow> string \<Rightarrow> int \<Rightarrow> ('b job_queue, int) py" where
  "cancel_one ops clks jid n = bind_py (jq_cancel ops (clks jid) jid) (\<lambda>ok. ret (if ok then n + 1 else n))"

definition cancel_parent_and_children ::
  "'b backend_ops \<Rightarrow> (string \<Rightarrow> nat \<Rightarrow> time) \<Rightarrow> string \<Rightarrow> ('b fan_out_manager, int) py" where
  "cancel_parent_and_children ops clks parent =
     (\<lambda>f. fo_on_queue (bind_py (cancel_one ops clks parent 0)
        (fold_py (cancel_one ops clks) (get_children f parent))) f)"

subsection \<open>The MCP adapter\<close>

definition submit_async ::
  "'b backend_ops \<Rightarrow> string \<Rightarrow> (nat \<Rightarrow> time) \<Rightarrow> string \<Rightarrow> (string, pyval) dict \<Rightarrow> ('b job_queue, string) py" where
  "submit_async ops uuid clk tool arguments =
     jq_submit ops uuid clk ((default_request tool)\<lparr>rq_payload := arguments\<rparr>)"

definition get_result :: "'b backend_ops \<Rightarrow> string \<Rightarrow> ('b job_queue, (string, pyval) dict) py" where
  "get_result ops jid =
     bind_py (jq_get ops jid)
       (\<lambda>job. ret (case job of
          None \<Rightarrow> [(''status'', PStr ''not_found'')]
        | Some j \<Rightarrow> [(''status'', PStr (status_value (status j))), (''job_id'', PStr (job_id j)),
                      (''payload'', PDict (payload j))]))"

subsection \<open>The aggregate\<close>

lemma scale_bits_exit: "s \<noteq> 0 \<Longrightarrow> n * 2 ^ 52 \<le> s * 2 ^ scale_bits s n k"
  by (induction s n k rule: scale_bits.induct) (subst scale_bits.simps, simp)

lemma round_half_even_le: "0 < n \<Longrightarrow> 2 * (round_half_even a n * n) \<le> 2 * a + n"
proof -
  assume "0 < n"
  have a: "2 * a = 2 * (a div n * n) + 2 * (a mod n)" by (simp flip: distrib_left)
  show ?thesis using a by (auto simp: round_half_even_def Let_def algebra_simps)
qed

lemma float_ratio_one: "0 < n \<Longrightarrow> float_ratio n n = 1"
  by (simp add: float_ratio_def Let_def round_half_even_def)

lemma float_ratio_zero: "0 < n \<Longrightarrow> float_ratio 0 n = 0"
  by (simp add: float_ratio_def Let_def round_half_even_def)

text \<open>Rounding never lifts a missing success to the full ratio.\<close>

lemma float_ratio_less_one:
  assumes "s < n" and "n < 2 ^ 53"
  shows "float_ratio s n < 1"
proof (cases "s = 0")
  case True
  with assms show ?thesis by (simp add: float_ratio_zero)
next
  case False
  define k where "k = scale_bits s n 0"
  have e: "n * 2 ^ 52 \<le> s * 2 ^ k" using scale_bits_exit [OF False] by (simp add: k_def)
  also have "s * 2 ^ k < n * 2 ^ k" using assms by simp
  finally have "2 ^ 52 < (2 :: nat) ^ k" using assms by simp
  then have "52 < k" by (rule power_less_imp_less_exp [rotated]) simp
  then have "53 \<le> k" by simp
  then have "(2 :: nat) ^ 53 \<le> 2 ^ k" by (intro power_increasing) auto
  then have big: "n < 2 ^ k" using assms(2) by linarith
  have "s * 2 ^ k + 2 ^ k \<le> n * 2 ^ k" using assms(1) by (metis Suc_leI add.commute mult_Suc mult_le_mono1)
  moreover have "2 * (round_half_even (s * 2 ^ k) n * n) \<le> 2 * (s * 2 ^ k) + n"
    using assms by (intro round_half_even_le) simp
  ultimately have "round_half_even (s * 2 ^ k) n * n < n * 2 ^ k"
    using big by linarith
  then have "n * round_half_even (s * 2 ^ k) n < n * 2 ^ k" by (simp only: mult.commute)
  then have "round_half_even (s * 2 ^ k) n < 2 ^ k" by simp
  then have "(of_nat (round_half_even (s * 2 ^ k) n) :: rat) < of_nat (2 ^ k)" by (simp only: of_nat_less_iff)
  then show ?thesis by (simp add: float_ratio_def Let_def k_def [symmetric])
qed

lemma count_all: "length (filter P xs) = length xs \<longleftrightarrow> (\<forall>x \<in> set xs. P x)"
  by (metis filter_True length_filter_less order_less_irrefl)

text \<open>The counts of the aggregate, as conditions on the list of statuses.\<close>

lemma aggregate_strict:
  assumes "statuses \<noteq> []"
  shows "aggregate_child_statuses statuses None =
    (if status_value FAILED \<in> set statuses then status_value FAILED
     else if set statuses = {status_value SUCCEEDED} then status_value SUCCEEDED
     else if set statuses \<inter> set active_states \<noteq> {} then status_value RUNNING
     else status_value QUEUED)"
proof -
  have "(\<forall>s \<in> set statuses. s = status_value SUCCEEDED) \<longleftrightarrow> set statuses = {status_value SUCCEEDED}"
    using assms by (cases statuses) auto
  moreover have "0 < length (filter P statuses) \<longleftrightarrow> (\<exists>s \<in> set statuses. P s)" for P
    by (auto simp: filter_empty_conv)
  ultimately show ?thesis
    using assms by (simp add: aggregate_child_statuses_def Let_def count_all Int_commute disjoint_iff) blast
qed

lemma aggregate_threshold:
  assumes "statuses \<noteq> []" and "set statuses \<inter> set active_states = {}"
  shows "aggregate_child_statuses statuses (Some t) =
    (if min (max t 0) 1 \<le> float_ratio (length (filter (\<lambda>s. s = status_value SUCCEEDED) statuses)) (length statuses)
     then status_value SUCCEEDED else status_value FAILED)"
proof -
  have "filter (\<lambda>s. s \<in> set active_states) statuses = []" using assms(2) by (auto simp: filter_empty_conv)
  then show ?thesis using assms(1) by (simp add: aggregate_child_statuses_def Let_def)
qed

text \<open>A threshold of one or more asks for every child, one of zero or less for none.\<close>

lemma aggregate_full_threshold:
  assumes "statuses \<noteq> []" and "set statuses \<inter> set active_states = {}" and "1 \<le> t" and "length statuses < 2 ^ 53"
  shows "aggregate_child_statuses statuses (Some t) = status_value SUCCEEDED \<longleftrightarrow>
    set statuses = {status_value SUCCEEDED}"
proof -
  let ?n = "length (filter (\<lambda>s. s = status_value SUCCEEDED) statuses)"
  have all: "?n = length statuses \<longleftrightarrow> set statuses = {status_value SUCCEEDED}"
    unfolding count_all using assms(1) by (cases statuses) auto
  have clamp: "min (max t 0) 1 = 1" using assms(3) by simp
  show ?thesis
  proof (cases "?n = length statuses")
    case True
    then show ?thesis
      using all clamp float_ratio_one [of "length statuses"] assms(1) aggregate_threshold [OF assms(1,2), of t] by simp
  next
    case False
    then have "?n < length statuses" using length_filter_le [of _ statuses] by (metis le_neq_implies_less)
    then have "float_ratio ?n (length statuses) < 1" using assms(4) by (rule float_ratio_less_one)
    then show ?thesis
      using all clamp False aggregate_threshold [OF assms(1,2), of t] by (simp add: not_le)
  qed
qed

subsection \<open>The manager over any backend that meets the contract\<close>

definition child_ready :: "int \<Rightarrow> string \<Rightarrow> fan_spec \<Rightarrow> bool" where
  "child_ready max_bytes parent spec \<longleftrightarrow>
     (\<exists>c. child_spec spec = Inr c \<and> payload_accepted max_bytes (child_request parent c))"

lemma child_request_simps [simp]:
  "rq_idempotency_key (child_request parent c) = None"
  "rq_depends_on (child_request parent c) = []"
  by (simp_all add: child_request_def default_request_def)

lemma registered_nothing: "registered_tracker q jid [] = jq_tracker q"
  by (cases "jq_tracker q") (simp_all add: registered_tracker_def)

definition is_child :: "string \<Rightarrow> job \<Rightarrow> bool" where
  "is_child parent j \<longleftrightarrow> dict_get (payload j) ''__fanout_parent_job_id'' = Some (PStr parent)"

text \<open>The job a specification asks for: its type, queue and priority, and its payload with the parent's identifier.\<close>

definition child_of :: "string \<Rightarrow> fan_spec \<Rightarrow> job \<Rightarrow> bool" where
  "child_of parent spec k \<longleftrightarrow>
     (\<exists>c. child_spec spec = Inr c \<and> job_type k = cs_job_type c \<and> queue_name k = cs_queue_name c \<and>
        priority k = cs_priority c \<and> payload k = dict_set (cs_payload c) ''__fanout_parent_job_id'' (PStr parent))"

lemma child_of_is_child: "child_of parent spec k \<Longrightarrow> is_child parent k"
  by (auto simp: child_of_def is_child_def)

locale fanning_out = submitting
begin

lemma fan_child_ok:
  assumes i: "inv (jq_backend q)" and fresh: "view (jq_backend q) uuid = None"
    and ready: "child_ready (jq_payload_max q) parent spec"
  shows "\<exists>q' k. fan_child ops parent ((uuid, clk), spec) ids q = (Inr (ids @ [uuid]), q') \<and> inv (jq_backend q') \<and>
    view (jq_backend q') = (view (jq_backend q))(uuid \<mapsto> k) \<and> child_of parent spec k \<and> status k = QUEUED \<and>
    jq_payload_max q' = jq_payload_max q"
proof -
  obtain c where c: "child_spec spec = Inr c" "payload_accepted (jq_payload_max q) (child_request parent c)"
    using ready by (auto simp: child_ready_def)
  let ?j = "from_request uuid (clk 0) (child_request parent c)"
  have "deps_acceptable q uuid (rq_depends_on (child_request parent c))"
    by (simp add: deps_acceptable_def detect_cycle_iff)
  from jq_submit_ok [OF c(2) i fresh this, of clk] obtain q' where
      q': "jq_submit ops uuid clk (child_request parent c) q = (Inr uuid, q')" "inv (jq_backend q')"
      "view (jq_backend q') = (view (jq_backend q))(uuid \<mapsto> stored ?j)" "jq_payload_max q' = jq_payload_max q"
    by auto
  have "child_of parent spec (stored ?j)" "status (stored ?j) = QUEUED"
    using stored_law [of ?j] c(1) by (simp_all add: child_of_def child_request_def default_request_def)
  with q' c(1) show ?thesis
    by (intro exI [of _ q'] exI [of _ "stored ?j"]) (simp add: fan_child_def bind_py_def ret_def)
qed

lemma fan_children_ok:
  assumes "inv (jq_backend q)" and "distinct (map (fst \<circ> fst) specs)"
    and "\<forall>e \<in> set specs. view (jq_backend q) (fst (fst e)) = None"
    and "\<forall>e \<in> set specs. child_ready (jq_payload_max q) parent (snd e)"
  shows "\<exists>q'. fold_py (fan_child ops parent) specs ids q = (Inr (ids @ map (fst \<circ> fst) specs), q') \<and>
    inv (jq_backend q') \<and>
    (\<forall>i. i \<notin> set (map (fst \<circ> fst) specs) \<longrightarrow> view (jq_backend q') i = view (jq_backend q) i) \<and>
    (\<forall>e \<in> set specs. \<exists>k. view (jq_backend q') (fst (fst e)) = Some k \<and> child_of parent (snd e) k \<and> status k = QUEUED)"
  using assms
proof (induction specs arbitrary: q ids)
  case Nil
  then show ?case by (simp add: ret_def)
next
  case (Cons e specs)
  obtain uuid clk spec where e: "e = ((uuid, clk), spec)" by (metis prod.exhaust)
  obtain q1 k where q1: "fan_child ops parent e ids q = (Inr (ids @ [uuid]), q1)" "inv (jq_backend q1)"
      "view (jq_backend q1) = (view (jq_backend q))(uuid \<mapsto> k)" "child_of parent spec k" "status k = QUEUED"
      "jq_payload_max q1 = jq_payload_max q"
    using fan_child_ok [OF Cons.prems(1), of uuid parent spec clk ids] Cons.prems(3,4) e by auto
  have "\<forall>x \<in> set specs. view (jq_backend q1) (fst (fst x)) = None"
    using Cons.prems(2,3) q1(3) e by (auto simp: image_iff)
  then obtain q2 where q2: "fold_py (fan_child ops parent) specs (ids @ [uuid]) q1 =
        (Inr ((ids @ [uuid]) @ map (fst \<circ> fst) specs), q2)" "inv (jq_backend q2)"
      "\<forall>i. i \<notin> set (map (fst \<circ> fst) specs) \<longrightarrow> view (jq_backend q2) i = view (jq_backend q1) i"
      "\<forall>e \<in> set specs. \<exists>k. view (jq_backend q2) (fst (fst e)) = Some k \<and> child_of parent (snd e) k \<and> status k = QUEUED"
    using Cons.IH [OF q1(2), of "ids @ [uuid]"] Cons.prems(2,4) q1(6) by auto
  have "uuid \<notin> set (map (fst \<circ> fst) specs)" using Cons.prems(2) e by auto
  then have "view (jq_backend q2) uuid = Some k" using q2(3) q1(3) by simp
  with q1 q2 e show ?case by (intro exI [of _ q2]) (auto simp: bind_py_Inr)
qed

lemma child_statuses_read:
  assumes "inv (jq_backend q)"
  shows "fold_py (child_status ops) ids acc q =
    (Inr (acc @ map (\<lambda>i. case view (jq_backend q) i of None \<Rightarrow> status_value FAILED
        | Some j \<Rightarrow> status_value (status j)) ids), q)"
proof (induction ids arbitrary: acc)
  case Nil
  then show ?case by (simp add: ret_def)
next
  case (Cons i ids)
  have "child_status ops i acc q = (Inr (acc @ [case view (jq_backend q) i of None \<Rightarrow> status_value FAILED
      | Some j \<Rightarrow> status_value (status j)]), q)"
    using get_law [OF assms, of i]
    by (simp add: child_status_def jq_get_def jq_on_backend_def on_field_def bind_py_def ret_def)
  with Cons show ?case by (simp add: bind_py_Inr)
qed

lemma aggregate_parent_reads:
  "inv (jq_backend (fo_queue f)) \<Longrightarrow>
   aggregate_parent_status ops parent threshold f =
     (Inr (aggregate_child_statuses
        (map (\<lambda>i. case view (jq_backend (fo_queue f)) i of None \<Rightarrow> status_value FAILED
           | Some j \<Rightarrow> status_value (status j)) (get_children f parent)) threshold), f)"
  by (simp add: aggregate_parent_status_def fo_on_queue_def on_field_def bind_py_def child_statuses_read ret_def)

lemma cancel_fold:
  assumes "inv (jq_backend q)"
  shows "\<exists>q'. fold_py (cancel_one ops clks) ids n q =
      (Inr (n + int (length (filter (\<lambda>i. view (jq_backend q) i \<noteq> None) ids))), q') \<and>
    inv (jq_backend q') \<and> dom (view (jq_backend q')) = dom (view (jq_backend q)) \<and>
    (\<forall>i. i \<notin> set ids \<longrightarrow> view (jq_backend q') i = view (jq_backend q) i) \<and>
    (\<forall>i \<in> set ids. \<forall>j. view (jq_backend q') i = Some j \<longrightarrow> status j = CANCELLED)"
  using assms
proof (induction ids arbitrary: n q)
  case Nil
  then show ?case by (simp add: ret_def)
next
  case (Cons a ids)
  obtain q1 where q1: "jq_cancel ops (clks a) a q = (Inr (view (jq_backend q) a \<noteq> None), q1)"
      "inv (jq_backend q1)" "dom (view (jq_backend q1)) = dom (view (jq_backend q))"
      "\<forall>i. i \<noteq> a \<longrightarrow> view (jq_backend q1) i = view (jq_backend q) i"
      "\<forall>j. view (jq_backend q1) a = Some j \<longrightarrow> status j = CANCELLED"
    using jq_cancel_ok [OF Cons.prems] by blast
  let ?n1 = "if view (jq_backend q) a \<noteq> None then n + 1 else n"
  have step: "cancel_one ops clks a n q = (Inr ?n1, q1)"
    using q1(1) by (simp add: cancel_one_def bind_py_def ret_def)
  obtain q2 where q2: "fold_py (cancel_one ops clks) ids ?n1 q1 =
        (Inr (?n1 + int (length (filter (\<lambda>i. view (jq_backend q1) i \<noteq> None) ids))), q2)"
      "inv (jq_backend q2)" "dom (view (jq_backend q2)) = dom (view (jq_backend q1))"
      "\<forall>i. i \<notin> set ids \<longrightarrow> view (jq_backend q2) i = view (jq_backend q1) i"
      "\<forall>i \<in> set ids. \<forall>j. view (jq_backend q2) i = Some j \<longrightarrow> status j = CANCELLED"
    using Cons.IH [OF q1(2)] by blast
  have "view (jq_backend q1) i \<noteq> None \<longleftrightarrow> view (jq_backend q) i \<noteq> None" for i
    using q1(3) by (metis domIff)
  then have "?n1 + int (length (filter (\<lambda>i. view (jq_backend q1) i \<noteq> None) ids)) =
      n + int (length (filter (\<lambda>i. view (jq_backend q) i \<noteq> None) (a # ids)))" by simp
  then have "fold_py (cancel_one ops clks) (a # ids) n q =
      (Inr (n + int (length (filter (\<lambda>i. view (jq_backend q) i \<noteq> None) (a # ids)))), q2)"
    using step q2(1) by (simp only: fold_py.simps bind_py_Inr)
  moreover have "\<forall>i \<in> set (a # ids). \<forall>j. view (jq_backend q2) i = Some j \<longrightarrow> status j = CANCELLED"
    using q2(4,5) q1(5) by (metis set_ConsD)
  ultimately show ?case using q2(2,3,4) q1(3,4) by (intro exI [of _ q2]) simp
qed

end

end
