(* ===== verification/Backend_Clients.thy ===== *)
theory Backend_Clients
  imports Memory_Backend Sql_Backend Worker_Process Drain Reaper Admin Fanout
begin

section \<open>The clients over the backends of the package\<close>

text \<open>
  Every client of the backend interface is proved over the contract, in a locale of its own. Here each
  of them is interpreted on the in-memory backend, and made a consequence of \<open>job_table\<close> for the SQL
  backend.
\<close>

interpretation memq: fanning_out memory_ops mem_inv mem_view "\<lambda>j. j"
  by unfold_locales

interpretation memw: working memory_ops mem_inv mem_view "\<lambda>j. j"
  by unfold_locales

interpretation memr: reaping memory_ops mem_inv mem_view "\<lambda>j. j"
  by unfold_locales

interpretation mema: administering memory_ops mem_inv mem_view "\<lambda>j. j"
  by unfold_locales

interpretation memd: draining memory_ops mem_inv mem_view "\<lambda>j. j"
  by unfold_locales

sublocale job_table \<subseteq> sqlq: fanning_out "sql_ops tb" "sql_inv rows" "sql_view rows" sql_stored
  by unfold_locales

sublocale job_table \<subseteq> sqlw: working "sql_ops tb" "sql_inv rows" "sql_view rows" sql_stored
  by unfold_locales

sublocale job_table \<subseteq> sqlr: reaping "sql_ops tb" "sql_inv rows" "sql_view rows" sql_stored
  by unfold_locales

sublocale job_table \<subseteq> sqla: administering "sql_ops tb" "sql_inv rows" "sql_view rows" sql_stored
  by unfold_locales

sublocale job_table \<subseteq> sqld: draining "sql_ops tb" "sql_inv rows" "sql_view rows" sql_stored
  by unfold_locales

end
