(* ===== verification/Queue_Properties.thy ===== *)
theory Queue_Properties
  imports Backend_Clients
begin

section \<open>Properties of the backends, the queue and the dependency tracker\<close>

text \<open>
  The laws of the contract and the component lemmas, stated over the model's own definitions: the
  in-memory backend, the SQL backend over any table that meets \<open>job_table\<close>, the queue over the
  in-memory backend, and the dependency tracker. Each property with a hypothesis is followed by a
  concrete instance.
\<close>

subsection \<open>Concrete states\<close>

definition demo_job :: "string \<Rightarrow> int \<Rightarrow> job" where
  "demo_job i prio = new_job i ''mail'' ''default'' [] QUEUED prio 0 0"

definition demo_backend :: memory_backend where
  "demo_backend = \<lparr>mb_jobs = [(''a'', demo_job ''a'' 1), (''b'', demo_job ''b'' 5)]\<rparr>"

lemma demo_job_simps [simp]:
  "job_id (demo_job i n) = i" "job_type (demo_job i n) = ''mail''" "queue_name (demo_job i n) = ''default''"
  "status (demo_job i n) = QUEUED" "priority (demo_job i n) = n" "created_at (demo_job i n) = 0"
  "updated_at (demo_job i n) = 0" "payload (demo_job i n) = []" "resources (demo_job i n) = []"
  "depends_on (demo_job i n) = []"
  by (simp_all add: demo_job_def)

lemma demo_inv: "mem_inv demo_backend"
  by (simp add: mem_inv_def demo_backend_def dict_ok_def)

lemma demo_table_inv: "sql_inv find_row [job_to_row (demo_job ''a'' 1)]"
  unfolding sql_inv_def using row_ok_to_row find_row_Some by (metis empty_iff empty_set set_ConsD)

subsection \<open>Claims\<close>

text \<open>
  C1. On the in-memory backend, whatever calls are interleaved by whichever workers, at most one claim
  of a job succeeds as long as no call puts the job back into the queue.
\<close>

theorem memory_claim_exclusive:
  assumes "mem_inv b" and "\<forall>c \<in> set cs. \<not> requeues jid c"
  shows "won_claims jid cs (fst (run_calls memory_ops cs b)) \<le> 1"
  using assms by (rule memb.claim_exclusive)

theorem memory_claim_exclusive_witness:
  "won_claims ''a'' [CallClaim 1 ''a'' ''h'' ''w1'', CallHeartbeat 2 ''a'', CallClaim 3 ''a'' ''h'' ''w2'']
     (fst (run_calls memory_ops
       [CallClaim 1 ''a'' ''h'' ''w1'', CallHeartbeat 2 ''a'', CallClaim 3 ''a'' ''h'' ''w2''] demo_backend)) \<le> 1"
  by (rule memory_claim_exclusive [OF demo_inv]) simp

text \<open>
  C2. The SQL backend has the same guarantee over every table with a primary key: the conditional
  update of \<open>set_claimed\<close> lets at most one worker win.
\<close>

theorem sql_claim_exclusive:
  assumes "job_table tb rows" and "sql_inv rows d" and "\<forall>c \<in> set cs. \<not> requeues jid c"
  shows "won_claims jid cs (fst (run_calls (sql_ops tb) cs d)) \<le> 1"
proof -
  have "queue_backend (sql_ops tb) (sql_inv rows) (sql_view rows) sql_stored"
    using ordered_backend.axioms(1) [OF job_table.sql_contract [OF assms(1)]] .
  then show ?thesis using assms(2,3) by (rule queue_backend.claim_exclusive)
qed

theorem sql_claim_exclusive_witness:
  "won_claims ''a'' [CallClaim 1 ''a'' ''h'' ''w1'', CallClaim 3 ''a'' ''h'' ''w2'']
     (fst (run_calls (sql_ops list_table)
       [CallClaim 1 ''a'' ''h'' ''w1'', CallClaim 3 ''a'' ''h'' ''w2''] [job_to_row (demo_job ''a'' 1)])) \<le> 1"
  by (rule sql_claim_exclusive [OF listt.job_table_axioms demo_table_inv]) simp

subsection \<open>Dispatch order\<close>

text \<open>
  C10. A dequeue from the in-memory backend gives at most the asked number of queued jobs that pass the
  filters, highest priority first and oldest first within a priority, and it leaves out such a job
  only when it is full of jobs that are no later in that order.
\<close>

theorem memory_dispatch_order:
  assumes "mem_inv b" and "0 \<le> n" and "jt \<noteq> Some []" and "qn \<noteq> Some []"
  shows "\<exists>js. mem_dequeue n jt qn b = (Inr js, b) \<and> int (length js) \<le> n \<and> sorted (map dispatch_key js) \<and>
    (\<forall>j \<in> set js. mem_view b (job_id j) = Some j \<and> dispatchable jt qn j) \<and>
    (\<forall>i j. mem_view b i = Some j \<and> dispatchable jt qn j \<and> j \<notin> set js \<longrightarrow>
       int (length js) = n \<and> (\<forall>k \<in> set js. dispatch_key k \<le> dispatch_key j))"
proof -
  have deq: "be_dequeue memory_ops = mem_dequeue" by (simp add: memory_ops_def)
  obtain js where js: "mem_dequeue n jt qn b = (Inr js, b)" "int (length js) \<le> n"
      "\<forall>j \<in> set js. mem_view b (job_id j) = Some j \<and> dispatchable jt qn j"
    using memb.dequeue_law [OF assms] deq by auto
  then show ?thesis
    using memb.dequeue_sorted [OF assms, of js] memb.dequeue_complete [OF assms, of js] deq by auto
qed

theorem memory_dispatch_order_witness:
  "\<exists>js. mem_dequeue 1 None (Some ''default'') demo_backend = (Inr js, demo_backend) \<and> int (length js) \<le> 1 \<and>
    sorted (map dispatch_key js) \<and>
    (\<forall>j \<in> set js. mem_view demo_backend (job_id j) = Some j \<and> dispatchable None (Some ''default'') j) \<and>
    (\<forall>i j. mem_view demo_backend i = Some j \<and> dispatchable None (Some ''default'') j \<and> j \<notin> set js \<longrightarrow>
       int (length js) = 1 \<and> (\<forall>k \<in> set js. dispatch_key k \<le> dispatch_key j))"
  by (rule memory_dispatch_order [OF demo_inv]) simp_all

text \<open>
  C11. The SQL query of \<open>queued\<close> gives the same order and the same completeness over every table with a
  primary key.
\<close>

theorem sql_dispatch_order:
  assumes "job_table tb rows" and "sql_inv rows d" and "0 \<le> n" and "jt \<noteq> Some []" and "qn \<noteq> Some []"
  shows "\<exists>js. repo_queued tb n jt qn d = (Inr js, d) \<and> int (length js) \<le> n \<and> sorted (map dispatch_key js) \<and>
    (\<forall>j \<in> set js. sql_view rows d (job_id j) = Some j \<and> dispatchable jt qn j) \<and>
    (\<forall>i j. sql_view rows d i = Some j \<and> dispatchable jt qn j \<and> j \<notin> set js \<longrightarrow>
       int (length js) = n \<and> (\<forall>k \<in> set js. dispatch_key k \<le> dispatch_key j))"
  using job_table.queued_run [OF assms] by blast

theorem sql_dispatch_order_witness:
  "\<exists>js. repo_queued list_table 3 None None [job_to_row (demo_job ''a'' 1)] =
      (Inr js, [job_to_row (demo_job ''a'' 1)]) \<and> int (length js) \<le> 3 \<and> sorted (map dispatch_key js) \<and>
    (\<forall>j \<in> set js. sql_view find_row [job_to_row (demo_job ''a'' 1)] (job_id j) = Some j \<and> dispatchable None None j) \<and>
    (\<forall>i j. sql_view find_row [job_to_row (demo_job ''a'' 1)] i = Some j \<and> dispatchable None None j \<and> j \<notin> set js \<longrightarrow>
       int (length js) = 3 \<and> (\<forall>k \<in> set js. dispatch_key k \<le> dispatch_key j))"
  by (rule sql_dispatch_order [OF listt.job_table_axioms demo_table_inv]) simp_all

subsection \<open>Storage\<close>

lemma run_calls_inv: "mem_inv b \<Longrightarrow> mem_inv (snd (run_calls memory_ops cs b))"
proof (induction cs arbitrary: b)
  case (Cons c cs)
  obtain r b' where run: "do_call memory_ops c b = (r, b')" by (cases "do_call memory_ops c b")
  show ?case
    using Cons.IH [OF memb.do_call_inv [OF Cons.prems run]] run by (simp split: prod.splits) (metis snd_conv)
qed simp

text \<open>
  Every sequence of backend calls keeps the in-memory invariant: no identifier twice, every job under
  its own identifier.
\<close>

theorem memory_invariant: "mem_inv (snd (run_calls memory_ops cs new_memory_backend))"
  by (rule run_calls_inv) simp

text \<open>
  C15. The SQL repository stores what the \<open>jobs\<close> table has columns for: a fresh job is read back with
  its identity, routing, payload, status, priority and creation time, but without its resources and
  its dependencies; a second insertion under the same identifier raises and changes nothing.
\<close>

theorem sql_store_read:
  assumes "job_table tb rows" and "sql_inv rows d" and "sql_view rows d (job_id j) = None"
  shows "\<exists>d' k. repo_enqueue tb j d = (Inr (job_id j), d') \<and> repo_get tb (job_id j) d' = (Inr (Some k), d') \<and>
    job_id k = job_id j \<and> job_type k = job_type j \<and> queue_name k = queue_name j \<and> payload k = payload j \<and>
    status k = status j \<and> priority k = priority j \<and> created_at k = created_at j \<and>
    resources k = [] \<and> depends_on k = [] \<and>
    (\<exists>m. repo_enqueue tb j d' = (Inl (IntegrityError m), d'))"
proof -
  obtain d' where d': "repo_enqueue tb j d = (Inr (job_id j), d')" "sql_inv rows d'"
      "sql_view rows d' = (sql_view rows d)(job_id j \<mapsto> sql_stored j)"
    using job_table.enqueue_run [OF assms] by blast
  have "repo_get tb (job_id j) d' = (Inr (Some (sql_stored j)), d')"
    using job_table.get_run [OF assms(1) d'(2), of "job_id j"] d'(3) by simp
  moreover have "\<exists>m. repo_enqueue tb j d' = (Inl (IntegrityError m), d')"
    using job_table.enqueue_taken [OF assms(1) d'(2), of j] d'(3) by simp
  moreover have "resources (sql_stored j) = []" "depends_on (sql_stored j) = []"
    using row_to_job_fields(9,10) [OF sql_stored_row [of j]] by simp_all
  ultimately show ?thesis
    using d'(1) job_table.stored_fields [OF assms(1), of j]
    by (intro exI [of _ d'] exI [of _ "sql_stored j"]) simp
qed

theorem sql_store_read_witness:
  "\<exists>d' k. repo_enqueue list_table (demo_job ''a'' 1) [] = (Inr (job_id (demo_job ''a'' 1)), d') \<and>
    repo_get list_table (job_id (demo_job ''a'' 1)) d' = (Inr (Some k), d') \<and>
    job_id k = job_id (demo_job ''a'' 1) \<and> job_type k = job_type (demo_job ''a'' 1) \<and>
    queue_name k = queue_name (demo_job ''a'' 1) \<and> payload k = payload (demo_job ''a'' 1) \<and>
    status k = status (demo_job ''a'' 1) \<and> priority k = priority (demo_job ''a'' 1) \<and>
    created_at k = created_at (demo_job ''a'' 1) \<and> resources k = [] \<and> depends_on k = [] \<and>
    (\<exists>m. repo_enqueue list_table (demo_job ''a'' 1) d' = (Inl (IntegrityError m), d'))"
  by (rule sql_store_read [OF listt.job_table_axioms])
    (simp_all add: sql_inv_def sql_view_def find_row_def)

subsection \<open>Submission\<close>

text \<open>
  C16. A request whose payload is small enough and free of secrets, whose idempotency key is free and
  whose dependencies close no cycle is stored once: the queue answers with the new identifier, reads
  the job back with the fields of the request, leaves every other job alone, registers the
  dependencies and logs one successful submission.
\<close>

theorem submit_stores:
  assumes "payload_accepted (jq_payload_max q) req" and "mem_inv (jq_backend q)"
    and "mem_view (jq_backend q) uuid = None" and "deps_acceptable q uuid (rq_depends_on req)"
    and "\<forall>k prior until. rq_idempotency_key req = Some k \<longrightarrow> key_holds (jq_idempotency q) k prior until \<longrightarrow> until \<le> clk 1"
  shows "\<exists>q'. jq_submit memory_ops uuid clk req q = (Inr uuid, q') \<and> mem_inv (jq_backend q') \<and>
    jq_get memory_ops uuid q' = (Inr (Some (from_request uuid (clk 0) req)), q') \<and>
    mem_view (jq_backend q') = (mem_view (jq_backend q))(uuid \<mapsto> from_request uuid (clk 0) req) \<and>
    jq_tracker q' = registered_tracker q uuid (rq_depends_on req) \<and>
    audit_log (jq_audit q') = audit_log (jq_audit q) @ [(Some (PStr ''job.submit''), Some (PStr ''success''))]"
proof -
  obtain q' where q': "jq_submit memory_ops uuid clk req q = (Inr uuid, q')" "mem_inv (jq_backend q')"
      "mem_view (jq_backend q') = (mem_view (jq_backend q))(uuid \<mapsto> from_request uuid (clk 0) req)"
      "jq_tracker q' = registered_tracker q uuid (rq_depends_on req)"
      "audit_log (jq_audit q') = audit_log (jq_audit q) @ [(Some (PStr ''job.submit''), Some (PStr ''success''))]"
    using memq.jq_submit_ok [OF assms(1-4), of clk] assms(5) by blast
  have "jq_get memory_ops uuid q' = (Inr (Some (from_request uuid (clk 0) req)), q')"
    using memb.get_law [OF q'(2), of uuid] q'(3) by (simp add: jq_get_def jq_on_backend_def on_field_def)
  with q' show ?thesis by blast
qed

definition demo_queue :: "memory_backend job_queue" where
  "demo_queue = new_job_queue demo_backend (Some new_tracker)"

definition demo_request :: job_request where
  "demo_request = (default_request ''mail'')\<lparr>rq_idempotency_key := Some ''k'', rq_depends_on := [''a'']\<rparr>"

lemma demo_accepted: "payload_accepted (jq_payload_max demo_queue) demo_request"
  by (simp add: payload_accepted_def payload_size_def demo_queue_def new_job_queue_def demo_request_def
      default_request_def)

lemma demo_deps: "deps_acceptable demo_queue ''n'' (rq_depends_on demo_request)"
  by (simp add: deps_acceptable_def demo_queue_def new_job_queue_def demo_request_def default_request_def
      detect_cycle_def new_tracker_def)

theorem submit_stores_witness:
  "\<exists>q'. jq_submit memory_ops ''n'' (\<lambda>_. 7) demo_request demo_queue = (Inr ''n'', q') \<and> mem_inv (jq_backend q') \<and>
    jq_get memory_ops ''n'' q' = (Inr (Some (from_request ''n'' 7 demo_request)), q') \<and>
    mem_view (jq_backend q') = (mem_view (jq_backend demo_queue))(''n'' \<mapsto> from_request ''n'' 7 demo_request) \<and>
    jq_tracker q' = registered_tracker demo_queue ''n'' (rq_depends_on demo_request) \<and>
    audit_log (jq_audit q') = audit_log (jq_audit demo_queue) @ [(Some (PStr ''job.submit''), Some (PStr ''success''))]"
  by (rule submit_stores [OF demo_accepted _ _ demo_deps, where clk = "\<lambda>_. 7"])
    (simp_all add: demo_queue_def new_job_queue_def demo_inv, simp_all add: demo_backend_def mem_view_def
      key_holds_def new_idempotency_manager_def)

text \<open>
  A payload that is too large or that holds a secret raises \<open>ValueError\<close> and leaves the whole queue
  as it was, on every backend.
\<close>

theorem submit_rejects:
  assumes "\<not> payload_accepted (jq_payload_max q) req"
  shows "\<exists>m. jq_submit ops uuid clk req q = (Inl (ValueError m), q)"
  using assms by (rule jq_submit_rejects)

theorem submit_rejects_witness:
  "\<exists>m. jq_submit memory_ops ''n'' (\<lambda>_. 7) ((default_request ''mail'')\<lparr>rq_payload := [(''api_key'', PInt 1)]\<rparr>)
     demo_queue = (Inl (ValueError m), demo_queue)"
proof (rule submit_rejects)
  have "key_is_secret ''api_key''" by code_simp
  then show "\<not> payload_accepted (jq_payload_max demo_queue)
      ((default_request ''mail'')\<lparr>rq_payload := [(''api_key'', PInt 1)]\<rparr>)"
    by (simp add: payload_accepted_def)
qed

text \<open>
  C17. Two submissions with one idempotency key inside the window: the second answers with the first
  job's identifier and stores nothing.
\<close>

theorem submit_deduplicates:
  assumes "payload_accepted (jq_payload_max q) req" and "mem_inv (jq_backend q)"
    and "mem_view (jq_backend q) uuid = None" and "deps_acceptable q uuid (rq_depends_on req)"
    and "rq_idempotency_key req = Some key" and "key \<noteq> []"
    and "\<forall>prior until. key_holds (jq_idempotency q) key prior until \<longrightarrow> until \<le> clk 1"
    and "payload_accepted (jq_payload_max q) req2" and "rq_idempotency_key req2 = Some key" and "uuid2 \<noteq> uuid"
    and "clk2 1 < clk 1 + im_ttl_seconds (jq_idempotency q) * second"
  shows "\<exists>q1 q2. jq_submit memory_ops uuid clk req q = (Inr uuid, q1) \<and>
    jq_submit memory_ops uuid2 clk2 req2 q1 = (Inr uuid, q2) \<and> jq_backend q2 = jq_backend q1 \<and>
    jq_tracker q2 = jq_tracker q1"
proof -
  have free: "\<And>k prior until. rq_idempotency_key req = Some k \<Longrightarrow> key_holds (jq_idempotency q) k prior until \<Longrightarrow> until \<le> clk 1"
    using assms(5,7) by simp
  obtain q1 where q1: "jq_submit memory_ops uuid clk req q = (Inr uuid, q1)" "jq_payload_max q1 = jq_payload_max q"
      "key_holds (jq_idempotency q1) key uuid (clk 1 + im_ttl_seconds (jq_idempotency q) * second)"
    using memq.jq_submit_ok [OF assms(1-4), of clk] free assms(5,6) by blast
  have "payload_accepted (jq_payload_max q1) req2" using assms(8) q1(2) by simp
  with jq_submit_dedup [OF this assms(9,6) q1(3), of clk2 uuid2 memory_ops] assms(10,11) q1(1) show ?thesis by blast
qed

theorem submit_deduplicates_witness:
  "\<exists>q1 q2. jq_submit memory_ops ''n'' (\<lambda>_. 7) demo_request demo_queue = (Inr ''n'', q1) \<and>
    jq_submit memory_ops ''m'' (\<lambda>_. 9) demo_request q1 = (Inr ''n'', q2) \<and> jq_backend q2 = jq_backend q1 \<and>
    jq_tracker q2 = jq_tracker q1"
  by (rule submit_deduplicates [OF demo_accepted _ _ demo_deps _ _ _ demo_accepted, where key = "''k''"])
    (simp_all add: demo_queue_def new_job_queue_def demo_inv demo_request_def key_holds_def
      new_idempotency_manager_def, simp add: demo_backend_def mem_view_def)

subsection \<open>Dependencies\<close>

text \<open>
  The search behind \<open>detect_cycle\<close> ends and is exact: it reports a cycle exactly when one of the
  new dependencies reaches the job along the registered edges.
\<close>

theorem cycle_check_exact:
  "detect_cycle t jid deps \<longleftrightarrow> (\<exists>d \<in> set deps. (d, jid) \<in> (edge_rel (dt_edges t))\<^sup>*)"
  by (rule detect_cycle_iff)

text \<open>
  C20. Registering dependencies keeps the graph acyclic: a registration that would close a cycle raises
  \<open>DependencyCycleError\<close> and changes nothing, every other one is recorded.
\<close>

theorem register_keeps_acyclic:
  assumes "tracker_inv t" and "deps \<noteq> []" and "validate_and_register jid deps t = (r, t')"
  shows "tracker_inv t' \<and>
    (if \<exists>d \<in> set deps. (d, jid) \<in> (edge_rel (dt_edges t))\<^sup>* then r = Inl (cycle_error jid deps) \<and> t' = t
     else r = Inr () \<and> get_dependencies t' jid = deps)"
  using validate_and_register_inv [OF assms(1,3)] assms(2,3)
  by (cases "\<exists>d \<in> set deps. (d, jid) \<in> (edge_rel (dt_edges t))\<^sup>*")
    (simp_all add: validate_and_register_def detect_cycle_iff get_dependencies_def, auto)

theorem register_keeps_acyclic_witness:
  "tracker_inv \<lparr>dt_edges = [(''b'', [''a''])]\<rparr> \<and>
    (if \<exists>d \<in> set [''a'']. (d, ''b'') \<in> (edge_rel (dt_edges new_tracker))\<^sup>*
     then Inr () = Inl (cycle_error ''b'' [''a'']) \<and> \<lparr>dt_edges = [(''b'', [''a''])]\<rparr> = new_tracker
     else Inr () = (Inr () :: exn + unit) \<and> get_dependencies \<lparr>dt_edges = [(''b'', [''a''])]\<rparr> ''b'' = [''a''])"
  by (rule register_keeps_acyclic [OF tracker_inv_new])
    (simp_all add: validate_and_register_def detect_cycle_def new_tracker_def)

text \<open>
  C21. Dependent jobs do not block each other: after any sequence of checked registrations and removals on
  the tracker, refused ones included, one of the waiting jobs is runnable, unless some waiting job
  depends on one that is neither waiting nor succeeded (failed, cancelled, running or unknown).
\<close>

theorem some_job_runnable:
  assumes "mem_inv b" and "waiting \<noteq> {}"
  shows "let t = fold do_tracker calls new_tracker in
    (\<exists>x \<in> waiting. is_runnable t x (get_job_status memory_ops) b = (Inr True, b)) \<or>
    (\<exists>x \<in> waiting. \<exists>d \<in> set (get_dependencies t x).
      d \<notin> waiting \<and> map_option status (mem_view b d) \<noteq> Some SUCCEEDED)"
proof -
  define t where "t = fold do_tracker calls new_tracker"
  have "tracker_inv t" unfolding t_def by (rule tracker_calls_inv [OF tracker_inv_new])
  then obtain x where x: "x \<in> waiting" "set (get_dependencies t x) \<inter> waiting = {}"
    using acyclic_has_sink [of "dt_edges t" _ waiting] assms(2) by (auto simp: tracker_inv_def get_dependencies_def)
  show ?thesis
  proof (cases "\<forall>d \<in> set (get_dependencies t x). map_option status (mem_view b d) = Some SUCCEEDED")
    case True
    then have "is_runnable t x (get_job_status memory_ops) b = (Inr True, b)"
      using is_runnable_reads [OF memw.get_job_status_reads [OF assms(1)], of t x] by auto
    then show ?thesis using x(1) unfolding t_def [symmetric] Let_def by blast
  next
    case False
    then show ?thesis using x unfolding t_def [symmetric] Let_def by blast
  qed
qed

theorem some_job_runnable_witness:
  "\<exists>x \<in> {''a'', ''b''}. is_runnable (fold do_tracker
       [CheckedRegister ''b'' [''a''], CheckedRegister ''a'' [''b'']] new_tracker) x (get_job_status memory_ops) demo_backend =
     (Inr True, demo_backend)"
proof -
  let ?t = "fold do_tracker [CheckedRegister ''b'' [''a''], CheckedRegister ''a'' [''b'']] new_tracker"
  have "detect_cycle \<lparr>dt_edges = [(''b'', [''a''])]\<rparr> ''a'' [''b'']"
    by (auto simp: detect_cycle_iff edge_rel_def dict_get_or_def)
  moreover have "\<not> detect_cycle \<lparr>dt_edges = []\<rparr> ''b'' [''a'']"
    by (simp add: detect_cycle_def)
  ultimately have t: "?t = \<lparr>dt_edges = [(''b'', [''a''])]\<rparr>"
    by (simp add: validate_and_register_def new_tracker_def)
  have "set (get_dependencies ?t x) \<subseteq> {''a'', ''b''}" for x
    unfolding t by (simp add: get_dependencies_def dict_get_or_def)
  then show ?thesis
    using some_job_runnable [OF demo_inv, of "{''a'', ''b''}" "[CheckedRegister ''b'' [''a''], CheckedRegister ''a'' [''b'']]"]
    unfolding Let_def by blast
qed

text \<open>
  What the tracker reports over the in-memory backend is exact: a job is runnable when all its
  dependencies have succeeded, the failed dependencies are those in a failed state, and the blocked
  jobs come with each unfinished dependency and its status.
\<close>

theorem dependency_reports:
  assumes "mem_inv b"
  shows "is_runnable t jid (get_job_status memory_ops) b =
      (Inr (\<forall>d \<in> set (get_dependencies t jid). map_option status (mem_view b d) = Some SUCCEEDED), b) \<and>
    has_failed_dependency t jid (get_job_status memory_ops) b =
      (let bad = filter (failed_in (\<lambda>i. map_option status (mem_view b i))) (get_dependencies t jid)
       in (Inr (bad \<noteq> [], bad), b)) \<and>
    blocked_jobs_with_reasons t (get_job_status memory_ops) b =
      (Inr (filter (\<lambda>(_, bs). bs \<noteq> [])
         (map (\<lambda>(j, ds). (j, blockers_in (\<lambda>i. map_option status (mem_view b i)) ds)) (dt_edges t))), b)"
  using is_runnable_reads [OF memw.get_job_status_reads [OF assms]]
    has_failed_dependency_reads [OF memw.get_job_status_reads [OF assms]]
    blocked_jobs_reads [OF memw.get_job_status_reads [OF assms], of "dt_edges t" "[]"]
  by (simp add: blocked_jobs_with_reasons_def)

theorem dependency_reports_witness:
  "mem_inv demo_backend \<and>
   fst (is_runnable \<lparr>dt_edges = [(''b'', [''a''])]\<rparr> ''b'' (get_job_status memory_ops) demo_backend) = Inr False"
  using dependency_reports [OF demo_inv, of "\<lparr>dt_edges = [(''b'', [''a''])]\<rparr>" "''b''"] demo_inv
  by (simp add: get_dependencies_def dict_get_or_def mem_view_def demo_backend_def)

end
