(* ===== verification/Work_Properties.thy ===== *)
theory Work_Properties
  imports Queue_Properties
begin

section \<open>Properties of dispatch and work\<close>

text \<open>
  The dispatcher, the limits it enforces, the worker and its fallback policies, over the in-memory
  backend.
\<close>

definition demo_dispatcher :: "memory_backend dispatcher" where
  "demo_dispatcher =
     \<lparr>ds_backend = demo_backend, ds_concurrency = Some (new_concurrency_manager default_limits),
      ds_pool = Some (new_resource_pool (Some [(''gpu'', 1)])), ds_tracker = Some new_tracker\<rparr>"

lemma demo_view: "mem_view demo_backend i = Some j \<longleftrightarrow> i = ''a'' \<and> j = demo_job ''a'' 1 \<or> i = ''b'' \<and> j = demo_job ''b'' 5"
  by (auto simp: mem_view_def demo_backend_def)

lemma demo_holds: "ds_holds demo_dispatcher []"
  by (simp add: ds_holds_def slots_ok_def pool_ok_def demo_dispatcher_def)
    (simp add: new_resource_pool_def)

lemma demo_requests: "\<forall>jid j. mem_view demo_backend jid = Some j \<longrightarrow> request_ok (resources j)"
  by (auto simp: demo_view request_ok_def)

text \<open>The dispatcher after it acquired a slot for the job \<open>a\<close>.\<close>

definition busy_dispatcher :: "memory_backend dispatcher" where
  "busy_dispatcher = demo_dispatcher\<lparr>ds_concurrency :=
     Some (snd (cm_acquire ''mail'' ''default'' ''default'' (new_concurrency_manager default_limits)))\<rparr>"

lemma busy_holds: "ds_holds busy_dispatcher [demo_job ''a'' 1]"
proof -
  let ?c = "snd (cm_acquire ''mail'' ''default'' ''default'' (new_concurrency_manager default_limits))"
  have run: "cm_acquire ''mail'' ''default'' ''default'' (new_concurrency_manager default_limits) = (Inr True, ?c)"
    by (simp add: cm_acquire_def cm_can_acquire_def new_concurrency_manager_def default_limits_def)
  have "cm_within ?c" using cm_acquire_within [OF cm_within_new run] .
  moreover have "cm_counts ?c {#slot_of (demo_job ''a'' 1)#}"
    using cm_acquire_counts [OF cm_counts_new run] by (simp add: slot_of_def)
  ultimately show ?thesis
    by (simp add: busy_dispatcher_def ds_holds_def slots_ok_def pool_ok_def demo_dispatcher_def rp_held_by_def)
      (simp add: new_resource_pool_def)
qed

subsection \<open>Dispatch\<close>

text \<open>
  C22. \<open>select_eligible\<close> returns at most \<open>limit\<close> jobs, each queued, in the asked queue and with all its
  dependencies succeeded; exactly for these jobs it has acquired a slot and the resources, every limit
  is respected, and the backend is unchanged.
\<close>

theorem select_accounts:
  assumes "mem_inv (ds_backend d)" and "ds_holds d held" and "0 \<le> n" and "qn \<noteq> Some []"
    and "\<forall>j \<in> set held. \<forall>k. mem_view (ds_backend d) (job_id j) = Some k \<longrightarrow> status k \<noteq> QUEUED"
    and "\<forall>jid j. mem_view (ds_backend d) jid = Some j \<longrightarrow> request_ok (resources j)"
  shows "\<exists>sel d'. ds_select memory_ops n qn d = (Inr sel, d') \<and> ds_backend d' = ds_backend d \<and>
    ds_tracker d' = ds_tracker d \<and> ds_holds d' (rev sel @ held) \<and> int (length sel) \<le> n \<and>
    (\<forall>j \<in> set sel. mem_view (ds_backend d) (job_id j) = Some j \<and> dispatchable None qn j \<and>
       deps_met (ds_tracker d) (mem_view (ds_backend d)) j)"
  using assms by (rule memw.ds_select_holds)

theorem select_accounts_witness:
  "\<exists>sel d'. ds_select memory_ops 5 None demo_dispatcher = (Inr sel, d') \<and>
    ds_backend d' = ds_backend demo_dispatcher \<and>
    ds_tracker d' = ds_tracker demo_dispatcher \<and> ds_holds d' (rev sel @ []) \<and> int (length sel) \<le> 5 \<and>
    (\<forall>j \<in> set sel. mem_view (ds_backend demo_dispatcher) (job_id j) = Some j \<and> dispatchable None None j \<and>
       deps_met (ds_tracker demo_dispatcher) (mem_view (ds_backend demo_dispatcher)) j)"
proof (rule select_accounts [OF _ demo_holds])
  show "mem_inv (ds_backend demo_dispatcher)" by (simp add: demo_dispatcher_def demo_inv)
  show "\<forall>jid j. mem_view (ds_backend demo_dispatcher) jid = Some j \<longrightarrow> request_ok (resources j)"
    using demo_requests by (simp add: demo_dispatcher_def)
qed simp_all

text \<open>\<open>release_job\<close> gives back exactly the slot and the resources of the job and touches nothing else.\<close>

theorem release_restores:
  assumes "ds_holds d held" and "j \<in> set held"
  shows "\<exists>d'. ds_release_job j d = (Inr (), d') \<and> ds_holds d' (remove1 j held) \<and>
    ds_backend d' = ds_backend d \<and> ds_tracker d' = ds_tracker d"
  using assms by (rule ds_release_job_holds)

theorem release_restores_witness:
  "\<exists>d'. ds_release_job (demo_job ''a'' 1) busy_dispatcher = (Inr (), d') \<and>
    ds_holds d' (remove1 (demo_job ''a'' 1) [demo_job ''a'' 1]) \<and>
    ds_backend d' = ds_backend busy_dispatcher \<and> ds_tracker d' = ds_tracker busy_dispatcher"
  by (rule release_restores [OF busy_holds]) simp

text \<open>
  C23. The concurrency manager counts what is held: an acquisition succeeds exactly when every limit
  leaves room, and then all four counters count one slot more; a release of a held slot takes it out
  again; the limits are never exceeded.
\<close>

theorem slots_account:
  assumes "cm_within c" and "cm_counts c held"
  shows "(\<exists>c'. cm_acquire t n u c = (Inr (cm_can_acquire c t n u), c') \<and> cm_within c' \<and>
      cm_counts c' (if cm_can_acquire c t n u then add_mset (t, n, u) held else held)) \<and>
    ((t, n, u) \<in># held \<longrightarrow>
      (\<exists>c'. cm_release t n u c = (Inr (), c') \<and> cm_within c' \<and> cm_counts c' (held - {#(t, n, u)#})))"
proof (intro conjI impI)
  obtain r c' where run: "cm_acquire t n u c = (r, c')" by (cases "cm_acquire t n u c")
  then have "r = Inr (cm_can_acquire c t n u)" using cm_acquire_result [of t n u c] by simp
  with run cm_acquire_within [OF assms(1) run] cm_acquire_counts [OF assms(2), of t n u _ c']
  show "\<exists>c'. cm_acquire t n u c = (Inr (cm_can_acquire c t n u), c') \<and> cm_within c' \<and>
      cm_counts c' (if cm_can_acquire c t n u then add_mset (t, n, u) held else held)" by auto
next
  assume "(t, n, u) \<in># held"
  then have "cm_counts c (add_mset (t, n, u) (held - {#(t, n, u)#}))" using assms(2) by simp
  from cm_release_counts [OF this] cm_release_within [OF assms(1)]
  show "\<exists>c'. cm_release t n u c = (Inr (), c') \<and> cm_within c' \<and> cm_counts c' (held - {#(t, n, u)#})" by blast
qed

theorem slots_account_witness:
  "\<exists>c'. cm_acquire ''mail'' ''default'' ''default'' (new_concurrency_manager default_limits) = (Inr True, c') \<and>
    cm_within c' \<and> cm_counts c' {#(''mail'', ''default'', ''default'')#}"
  using slots_account [OF cm_within_new [of default_limits] cm_counts_new, of "''mail''" "''default''" "''default''"]
  by (simp add: cm_can_acquire_def new_concurrency_manager_def default_limits_def)

text \<open>
  The resource pool is all or nothing and balanced: a request succeeds exactly when it fits every
  configured limit, otherwise nothing changes; after a success the job holds the request, no limit
  is exceeded, and its release restores the use of every pool.
\<close>

theorem pool_account:
  assumes "rp_inv p" and "request_ok res" and "res \<noteq> []" and "dict_get (rp_holders p) jid = None"
  shows "\<exists>p'. rp_acquire jid res p = (Inr (rp_can_acquire p res), p') \<and> rp_inv p' \<and>
    (rp_can_acquire p res \<longleftrightarrow> (\<forall>pool limit. pool \<in> set (dict_keys res) \<longrightarrow> dict_get (rp_limits p) pool = Some limit \<longrightarrow>
       dict_get_or (rp_used p) pool 0 + dict_get_or res pool 0 \<le> limit)) \<and>
    (if rp_can_acquire p res
     then rp_held_by p' jid = res \<and>
       (\<exists>p''. rp_release jid p' = (Inr (), p'') \<and> rp_inv p'' \<and>
          (\<forall>pool. dict_get_or (rp_used p'') pool 0 = dict_get_or (rp_used p) pool 0))
     else p' = p)"
proof -
  obtain r p' where run: "rp_acquire jid res p = (r, p')" by (cases "rp_acquire jid res p")
  note c = rp_acquire_cases [OF run assms(3)]
  have inv': "rp_inv p'" using rp_acquire_inv [OF assms(1,2,4) run] .
  have ok: "dict_ok res" using assms(2) by (simp add: request_ok_def)
  have "\<exists>p''. rp_release jid p' = (Inr (), p'') \<and> rp_inv p'' \<and>
      (\<forall>pool. slots_of (rp_used p'') pool = slots_of (rp_used p) pool)" if can: "rp_can_acquire p res"
  proof -
    have used: "slots_of (rp_used p') pool = slots_of (rp_used p) pool + slots_of res pool" for pool
      using c can add_slots_get [OF ok] by simp
    have held: "rp_held_by p' jid = res" using c can by (simp add: rp_held_by_def)
    obtain p'' where "rp_release jid p' = (Inr (), p'')" "rp_inv p''"
        "\<forall>pool. slots_of (rp_used p'') pool = slots_of (rp_used p') pool - slots_of (rp_held_by p' jid) pool"
      using rp_release_inv [OF inv', of jid] by blast
    with used held show ?thesis by auto
  qed
  with c run inv' rp_check_iff [OF ok, of p] assms(3) show ?thesis
    by (auto simp: rp_can_acquire_def rp_held_by_def)
qed

theorem pool_account_witness:
  "\<exists>p'. rp_acquire ''a'' [(''gpu'', 1)] (new_resource_pool (Some [(''gpu'', 1)])) = (Inr True, p') \<and>
     rp_held_by p' ''a'' = [(''gpu'', 1)] \<and>
     (\<exists>p''. rp_release ''a'' p' = (Inr (), p'') \<and> dict_get_or (rp_used p'') ''gpu'' 0 = 0)"
proof -
  let ?p = "new_resource_pool (Some [(''gpu'', 1)])"
  have "rp_can_acquire ?p [(''gpu'', 1)]" "dict_get_or (rp_used ?p) ''gpu'' 0 = 0"
    by (simp_all add: rp_can_acquire_def new_resource_pool_def)
  then show ?thesis
    using pool_account [OF rp_inv_new [of "Some [(''gpu'', 1)]"], of "[(''gpu'', 1)]" "''a''"]
    by (simp add: request_ok_def dict_ok_def) (auto simp: new_resource_pool_def)
qed

subsection \<open>The worker\<close>

text \<open>A worker with one handler that returns, one that raises, and no run timeout.\<close>

definition demo_config :: "memory_backend worker_config" where
  "demo_config =
     \<lparr>wk_host_id = ''h'', wk_worker_id = ''w'', wk_queue_name = None,
      wk_handlers = [(''mail'', \<lambda>ctx. ret PNone), (''bad'', \<lambda>ctx. raise_exn (RuntimeError ''no''))],
      wk_run_timeout = None, wk_authoriser = None, wk_fallback = None\<rparr>"

definition demo_worker :: "memory_backend worker_state" where
  "demo_worker = \<lparr>ws_dispatch = demo_dispatcher, ws_audit = new_audit_emitter, ws_metrics = new_metrics, ws_stopped = False\<rparr>"

definition no_expiry :: "memory_backend expiry" where
  "no_expiry = (\<lambda>_ _. None)"

lemma demo_safe: "dict_get (wk_handlers demo_config) jt = Some h \<Longrightarrow> safe_handler mem_inv mem_view u h"
  by (auto simp: demo_config_def safe_handler_def ret_def raise_exn_def memw.kept_refl split: if_splits)

lemma no_expiry_safe: "safe_expiry mem_inv mem_view u no_expiry"
  by (simp add: safe_expiry_def no_expiry_def)

text \<open>
  C24. One pass of the worker. Either it takes no job and changes nothing, or one eligible job is
  taken: with a registered handler it ends as succeeded, or as failed or waiting for a retry as the
  policy of its type says, the result or exception of the pass is the one the policy asks for, and
  every slot and resource acquired for the job is released, whatever the handler did. The handler
  may use the backend as long as it keeps its invariant and removes and rewrites no job.
\<close>

theorem worker_pass:
  assumes "mem_inv (wb w)" and "ds_holds (ws_dispatch w) held" and "wk_queue_name cfg \<noteq> Some []"
    and "case wk_authoriser cfg of None \<Rightarrow> True | Some auth \<Rightarrow> auth (wk_host_id cfg) (wk_worker_id cfg)"
    and "\<forall>j \<in> set held. \<forall>k. mem_view (wb w) (job_id j) = Some k \<longrightarrow> status k \<noteq> QUEUED"
    and "\<forall>jid j. mem_view (wb w) jid = Some j \<longrightarrow> request_ok (resources j)"
    and "mem_view (wb w) u = None"
    and "\<And>jt h. dict_get (wk_handlers cfg) jt = Some h \<Longrightarrow> safe_handler mem_inv mem_view u h"
    and "safe_expiry mem_inv mem_view u expires"
  shows "\<exists>r w'. run_once memory_ops cfg expires u clk w = (r, w') \<and> mem_inv (wb w') \<and>
    (r = Inr False \<and> wb w' = wb w \<and> ds_holds (ws_dispatch w') held \<or>
     (\<exists>j. mem_view (wb w) (job_id j) = Some j \<and> dispatchable None (wk_queue_name cfg) j \<and>
        deps_met (ds_tracker (ws_dispatch w)) (mem_view (wb w)) j \<and>
        (case dict_get (wk_handlers cfg) (job_type j) of
           None \<Rightarrow> r = Inl (KeyError (''Unknown job_type: '' @ job_type j)) \<and>
             ds_holds (ws_dispatch w') (j # held) \<and>
             map_option status (mem_view (wb w') (job_id j)) = Some RUNNING
         | Some h \<Rightarrow> ds_holds (ws_dispatch w') held \<and>
             (\<exists>ctx b1. same_submission j (ctx_job ctx) \<and> mem_inv b1 \<and>
                map_option status (mem_view (wb w') (job_id j)) =
                  Some (final_status cfg j (verdict cfg expires h ctx b1)) \<and>
                result_allowed cfg j (verdict cfg expires h ctx b1) r))))"
  using assms by (rule memw.run_once_outcome)

theorem worker_pass_witness:
  "\<exists>r w'. run_once memory_ops demo_config no_expiry ''u'' (\<lambda>_. 3) demo_worker = (r, w') \<and> mem_inv (wb w') \<and>
    (r = Inr False \<and> wb w' = wb demo_worker \<and> ds_holds (ws_dispatch w') [] \<or>
     (\<exists>j. mem_view (wb demo_worker) (job_id j) = Some j \<and> dispatchable None (wk_queue_name demo_config) j \<and>
        deps_met (ds_tracker (ws_dispatch demo_worker)) (mem_view (wb demo_worker)) j \<and>
        (case dict_get (wk_handlers demo_config) (job_type j) of
           None \<Rightarrow> r = Inl (KeyError (''Unknown job_type: '' @ job_type j)) \<and>
             ds_holds (ws_dispatch w') (j # []) \<and>
             map_option status (mem_view (wb w') (job_id j)) = Some RUNNING
         | Some h \<Rightarrow> ds_holds (ws_dispatch w') [] \<and>
             (\<exists>ctx b1. same_submission j (ctx_job ctx) \<and> mem_inv b1 \<and>
                map_option status (mem_view (wb w') (job_id j)) =
                  Some (final_status demo_config j (verdict demo_config no_expiry h ctx b1)) \<and>
                result_allowed demo_config j (verdict demo_config no_expiry h ctx b1) r))))"
proof (rule worker_pass [OF _ _ _ _ _ _ _ demo_safe no_expiry_safe])
  show "mem_inv (wb demo_worker)" by (simp add: demo_worker_def demo_dispatcher_def demo_inv)
  show "ds_holds (ws_dispatch demo_worker) []" using demo_holds by (simp add: demo_worker_def)
  show "wk_queue_name demo_config \<noteq> Some []" by (simp add: demo_config_def)
  show "case wk_authoriser demo_config of None \<Rightarrow> True
    | Some auth \<Rightarrow> auth (wk_host_id demo_config) (wk_worker_id demo_config)" by (simp add: demo_config_def)
  show "\<forall>jid j. mem_view (wb demo_worker) jid = Some j \<longrightarrow> request_ok (resources j)"
    using demo_requests by (simp add: demo_worker_def demo_dispatcher_def)
  show "mem_view (wb demo_worker) ''u'' = None"
    by (simp add: demo_worker_def demo_dispatcher_def mem_view_def demo_backend_def)
qed simp_all

text \<open>
  C25. A job whose type has no handler is claimed all the same: the pass raises \<open>KeyError\<close>, the job
  stays running, and its slot and resources stay held.
\<close>

theorem unknown_type_keeps_slots:
  assumes "mem_inv (wb w)" and "mem_view (wb w) (job_id j) = Some j" and "status j = QUEUED"
    and "mem_view (wb w) u = None" and "dict_get (wk_handlers cfg) (job_type j) = None"
    and "safe_expiry mem_inv mem_view u expires" and "ds_holds (ws_dispatch w) held" and "j \<in> set held"
  shows "\<exists>w'. ws_take memory_ops cfg expires u clk j w = (Inl (KeyError (''Unknown job_type: '' @ job_type j)), w') \<and>
    map_option status (mem_view (wb w') (job_id j)) = Some RUNNING \<and> ds_holds (ws_dispatch w') held"
  using memw.ws_take_outcome [OF assms(1,2) same_submission_refl assms(4) _ assms(6-8), of cfg clk] assms(3,5) by auto

theorem unknown_type_keeps_slots_witness:
  "\<exists>w'. ws_take memory_ops (demo_config\<lparr>wk_handlers := []\<rparr>) no_expiry ''u'' (\<lambda>_. 3) (demo_job ''a'' 1)
      (demo_worker\<lparr>ws_dispatch := busy_dispatcher\<rparr>) =
      (Inl (KeyError (''Unknown job_type: '' @ job_type (demo_job ''a'' 1))), w') \<and>
    map_option status (mem_view (wb w') (job_id (demo_job ''a'' 1))) = Some RUNNING \<and>
    ds_holds (ws_dispatch w') [demo_job ''a'' 1]"
  by (rule unknown_type_keeps_slots [OF _ _ _ _ _ no_expiry_safe])
    (simp_all add: busy_holds, simp_all add: busy_dispatcher_def demo_dispatcher_def demo_inv,
      simp_all add: demo_backend_def mem_view_def)

text \<open>
  C36. The dead-letter policy fails the job and enqueues exactly one new job, in the policy's queue, with
  the job's type and priority, whose payload carries the error, the original payload and the
  identifier of the failed job; the exception is swallowed.
\<close>

theorem dead_letter_enqueues:
  assumes "mem_inv b" and "mem_view b (job_id j) = Some k" and "same_submission j k"
    and "fp_action (policy_for m (job_type j)) = DEAD_LETTER" and "mem_view b uuid = None"
  shows "\<exists>b' dec k' dl. fallback_apply memory_ops m uuid clk j err b = (Inr dec, b') \<and> mem_inv b' \<and>
    mem_view b' = (mem_view b)(job_id j \<mapsto> k', uuid \<mapsto> dl) \<and> same_submission k k' \<and> status k' = FAILED \<and>
    job_id dl = uuid \<and> status dl = QUEUED \<and> job_type dl = job_type j \<and> priority dl = priority j \<and>
    queue_name dl = fp_dead_letter_queue (policy_for m (job_type j)) \<and>
    payload dl = [(''error'', PStr (exn_str err)), (''original_payload'', PDict (payload j)),
      (''source_job_id'', PStr (job_id j))] \<and>
    fd_status dec = status_value FAILED \<and> \<not> fd_should_raise dec \<and> fd_dead_letter_job_id dec = Some uuid"
  using assms by (rule memw.fallback_apply_dead_letter)

definition demo_policies :: fallback_manager where
  "demo_policies =
     \<lparr>fm_policies = [(''mail'', \<lparr>fp_action = DEAD_LETTER, fp_dead_letter_queue = ''dlq'', fp_notify_url = None\<rparr>)],
      fm_notifier = (\<lambda>_ _ _. Inr ())\<rparr>"

theorem dead_letter_enqueues_witness:
  "\<exists>b' dec k' dl. fallback_apply memory_ops demo_policies ''u'' (\<lambda>_. 3) (demo_job ''a'' 1) (ValueError ''bad'') demo_backend =
      (Inr dec, b') \<and> mem_inv b' \<and>
    mem_view b' = (mem_view demo_backend)(job_id (demo_job ''a'' 1) \<mapsto> k', ''u'' \<mapsto> dl) \<and>
    same_submission (demo_job ''a'' 1) k' \<and> status k' = FAILED \<and>
    job_id dl = ''u'' \<and> status dl = QUEUED \<and> job_type dl = job_type (demo_job ''a'' 1) \<and>
    priority dl = priority (demo_job ''a'' 1) \<and>
    queue_name dl = fp_dead_letter_queue (policy_for demo_policies (job_type (demo_job ''a'' 1))) \<and>
    payload dl = [(''error'', PStr (exn_str (ValueError ''bad''))),
      (''original_payload'', PDict (payload (demo_job ''a'' 1))), (''source_job_id'', PStr (job_id (demo_job ''a'' 1)))] \<and>
    fd_status dec = status_value FAILED \<and> \<not> fd_should_raise dec \<and> fd_dead_letter_job_id dec = Some ''u''"
  by (rule dead_letter_enqueues [OF demo_inv])
    (simp_all add: demo_policies_def policy_for_def dict_get_or_def, simp_all add: demo_backend_def mem_view_def)

end
