(* ===== verification/Run_Properties.thy ===== *)
theory Run_Properties
  imports Work_Properties
begin

section \<open>Properties of whole runs\<close>

text \<open>
  Workers and clients side by side over one backend, and a worker that drains its queue.
\<close>

subsection \<open>Workers side by side\<close>

text \<open>A worker of the demonstrations, as a tree; two of them race for the job \<open>b\<close>.\<close>

definition race_config :: "unit worker_config" where
  "race_config =
     \<lparr>wk_host_id = ''h'', wk_worker_id = ''w'', wk_queue_name = None, wk_handlers = [],
      wk_run_timeout = None, wk_authoriser = None, wk_fallback = None\<rparr>"

definition race_pass :: "bool proc" where
  "race_pass = pass_proc race_config [(''mail'', \<lambda>ctx. Done (Inr PNone))] ''u'' (\<lambda>_. 3)"

lemma race_thread: "thread race_pass"
  unfolding thread_def race_pass_def
  by (intro disjI1 exI conjI, rule refl) (simp_all add: race_config_def plain_handlers_def)

lemma race_apart: "jid \<noteq> ''u'' \<Longrightarrow> thread_apart jid race_pass"
  unfolding thread_apart_def race_pass_def
  by (intro disjI1 exI conjI, rule refl) (simp_all add: race_config_def plain_handlers_def own_handlers_def)

text \<open>
  Both workers fetch the job \<open>b\<close>, the first claims it, the second loses the claim, and the first runs the
  handler and stores the result.
\<close>

definition race_claimed :: memory_backend where
  "race_claimed = snd (mem_claim 3 ''b'' ''h'' ''w'' demo_backend)"

definition race_beaten :: memory_backend where
  "race_beaten = snd (mem_heartbeat 3 ''b'' race_claimed)"

definition race_finished :: memory_backend where
  "race_finished = snd (mem_update_status 3 ''b'' (status_value SUCCEEDED) race_beaten)"

definition race_events :: "event list" where
  "race_events =
     [Spawned, Spawned, Fetched 0, Fetched 1, Made 0 (CallClaim 3 ''b'' ''h'' ''w'') (Inr True),
      Made 1 (CallClaim 3 ''b'' ''h'' ''w'') (Inr False), Looked 0, Made 0 (CallHeartbeat 3 ''b'') (Inr True),
      Began 0 (demo_job ''b'' 5), Made 0 (CallStatus 3 ''b'' SUCCEEDED) (Inr True)]"

abbreviation race_take :: "bool proc" where
  "race_take \<equiv> take_proc race_config [(''mail'', \<lambda>ctx. Done (Inr PNone))] ''u'' (\<lambda>_. 3) (demo_job ''b'' 5)"

abbreviation race_execute :: "bool proc" where
  "race_execute \<equiv> execute_proc race_config [(''mail'', \<lambda>ctx. Done (Inr PNone))] ''u'' (\<lambda>_. 3) (demo_job ''b'' 5)"

lemma race_pass_tree:
  "race_pass = Fetch 1 None None (\<lambda>r. case r of Inl e \<Rightarrow> Done (Inl e) | Inr [] \<Rightarrow> Done (Inr False)
     | Inr (j # _) \<Rightarrow> take_proc race_config [(''mail'', \<lambda>ctx. Done (Inr PNone))] ''u'' (\<lambda>_. 3) j)"
  unfolding race_pass_def pass_proc_def
  by (simp only: race_config_def worker_config.simps option.case if_False)

lemma race_fetch: "be_dequeue memory_ops 1 None None demo_backend = (Inr [demo_job ''b'' 5], demo_backend)"
  by (simp add: memory_ops_def mem_dequeue_def demo_backend_def slice_to_def)

lemma race_claims:
  "do_call memory_ops (CallClaim 3 ''b'' ''h'' ''w'') demo_backend = (Inr True, race_claimed)"
  "do_call memory_ops (CallClaim 3 ''b'' ''h'' ''w'') race_claimed = (Inr False, race_claimed)"
  by (simp_all add: memory_ops_def race_claimed_def mem_claim_def demo_backend_def)

lemma race_writes:
  "do_call memory_ops (CallHeartbeat 3 ''b'') race_claimed = (Inr True, race_beaten)"
  "do_call memory_ops (CallStatus 3 ''b'' SUCCEEDED) race_beaten = (Inr True, race_finished)"
  by (simp_all add: memory_ops_def race_finished_def race_beaten_def race_claimed_def mem_claim_def demo_backend_def
      mem_heartbeat_def mem_update_status_eq mem_write_def del: status_value.simps)

text \<open>What is left of the first worker after its claim was won, and of the second after it lost.\<close>

lemma race_take_tree:
  "race_take = Make (CallClaim 3 ''b'' ''h'' ''w'')
     (\<lambda>r. case r of Inl e \<Rightarrow> Done (Inl e) | Inr won \<Rightarrow> if \<not> won then Done (Inr False) else race_execute)"
  by (simp add: take_proc_def bind_call) (simp add: race_config_def)

lemma bind_done: "bind_proc (Done (Inr x)) f = f x"
  by (simp add: bind_proc_def)

lemma race_execute_tree:
  "race_execute = Look (demo_job ''b'' 5) (\<lambda>k. Make (CallHeartbeat 3 ''b'')
     (\<lambda>r. then_proc (case r of Inl e \<Rightarrow> Done (Inl e) | Inr _ \<Rightarrow> Begin (demo_job ''b'' 5)
        (Make (CallStatus 3 ''b'' SUCCEEDED) (\<lambda>r. case r of Inl e \<Rightarrow> Done (Inl e) | Inr _ \<Rightarrow> Done (Inr True))))
        (\<lambda>r. case r of Inl e \<Rightarrow> failed_proc race_config ''u'' (\<lambda>_. 3) (demo_job ''b'' 5) e | Inr x \<Rightarrow> Done (Inr x))))"
  by (simp add: execute_proc_def catch_proc_def complete_proc_def bind_call) (unfold bind_done, rule refl)

lemma race_trace:
  assumes "starts race_pass"
  shows "trace memory_ops starts ([], demo_backend) race_events ([Done (Inr True), Done (Inr False)], race_finished)"
  unfolding race_events_def
proof -
  let ?step = "step memory_ops starts"
  let ?stored = "\<lambda>r. case r of Inl e \<Rightarrow> failed_proc race_config ''u'' (\<lambda>_. 3) (demo_job ''b'' 5) e | Inr x \<Rightarrow> Done (Inr x)"
  let ?status = "Make (CallStatus 3 ''b'' SUCCEEDED)
    (\<lambda>r. then_proc (case r of Inl e \<Rightarrow> Done (Inl e) | Inr _ \<Rightarrow> Done (Inr True)) ?stored)"
  let ?beat = "Make (CallHeartbeat 3 ''b'')
     (\<lambda>r. then_proc (case r of Inl e \<Rightarrow> Done (Inl e) | Inr _ \<Rightarrow> Begin (demo_job ''b'' 5)
        (Make (CallStatus 3 ''b'' SUCCEEDED) (\<lambda>r. case r of Inl e \<Rightarrow> Done (Inl e) | Inr _ \<Rightarrow> Done (Inr True)))) ?stored)"
  let ?lost = "Done (Inr False) :: bool proc"
  have 1: "?step ([], demo_backend) Spawned ([race_pass], demo_backend)"
    using step.spawn [where starts = starts and p = race_pass and ps = "[]"] assms by simp
  have 2: "?step ([race_pass], demo_backend) Spawned ([race_pass, race_pass], demo_backend)"
    using step.spawn [where starts = starts and p = race_pass and ps = "[race_pass]"] assms by simp
  have 3: "?step ([race_pass, race_pass], demo_backend) (Fetched 0) ([race_take, race_pass], demo_backend)"
    by (rule fetch_at [OF _ _ race_fetch]) (simp, rule race_pass_tree, simp_all)
  have 4: "?step ([race_take, race_pass], demo_backend) (Fetched 1) ([race_take, race_take], demo_backend)"
    by (rule fetch_at [OF _ _ race_fetch]) (simp, rule race_pass_tree, simp_all)
  have 5: "?step ([race_take, race_take], demo_backend)
      (Made 0 (CallClaim 3 ''b'' ''h'' ''w'') (Inr True)) ([race_execute, race_take], race_claimed)"
    by (rule make_at [OF _ _ race_claims(1)]) (simp, rule race_take_tree, simp_all)
  have 6: "?step ([race_execute, race_take], race_claimed)
      (Made 1 (CallClaim 3 ''b'' ''h'' ''w'') (Inr False)) ([race_execute, ?lost], race_claimed)"
    by (rule make_at [OF _ _ race_claims(2)]) (simp, rule race_take_tree, simp_all)
  have 7: "?step ([race_execute, ?lost], race_claimed) (Looked 0) ([?beat, ?lost], race_claimed)"
    by (rule look_at) (simp, rule race_execute_tree, simp_all)
  have 8: "?step ([?beat, ?lost], race_claimed) (Made 0 (CallHeartbeat 3 ''b'') (Inr True))
      ([Begin (demo_job ''b'' 5) ?status, ?lost], race_beaten)"
    by (rule make_at [OF _ _ race_writes(1)], rule nth_Cons_0) simp_all
  have 9: "?step ([Begin (demo_job ''b'' 5) ?status, ?lost], race_beaten) (Began 0 (demo_job ''b'' 5)) ([?status, ?lost], race_beaten)"
    by (rule begin_at, rule nth_Cons_0) simp_all
  have 10: "?step ([?status, ?lost], race_beaten) (Made 0 (CallStatus 3 ''b'' SUCCEEDED) (Inr True))
      ([Done (Inr True), ?lost], race_finished)"
    by (rule make_at [OF _ _ race_writes(2)], rule nth_Cons_0) simp_all
  show "trace memory_ops starts ([], demo_backend)
     [Spawned, Spawned, Fetched 0, Fetched 1, Made 0 (CallClaim 3 ''b'' ''h'' ''w'') (Inr True),
      Made 1 (CallClaim 3 ''b'' ''h'' ''w'') (Inr False), Looked 0, Made 0 (CallHeartbeat 3 ''b'') (Inr True),
      Began 0 (demo_job ''b'' 5), Made 0 (CallStatus 3 ''b'' SUCCEEDED) (Inr True)]
     ([Done (Inr True), Done (Inr False)], race_finished)"
    by (rule trace_cons [OF 1] trace_cons [OF 2] trace_cons [OF 3] trace_cons [OF 4] trace_cons [OF 5]
        trace_cons [OF 6] trace_cons [OF 7] trace_cons [OF 8] trace_cons [OF 9] trace_step [OF 10])+
qed

text \<open>
  C5. In every interleaving of any number of workers and clients over one backend, with crashes anywhere,
  the handler of a job is started at most as often as the job was put into the queue: once when it was
  queued at the start, and once more for every call that enqueues, releases or requeues it.
\<close>

theorem handler_starts_bounded:
  assumes "queue_backend ops binv bview bstored" and "binv b" and "trace ops thread ([], b) es s"
  shows "handler_starts jid es \<le> requeue_calls jid es +
    (if \<exists>j. bview b jid = Some j \<and> status j = QUEUED then 1 else 0)"
  using queue_backend.starts_bounded [OF assms, of jid] queue_backend.unqueued_def [OF assms(1), of jid b]
  by (auto split: if_splits)

theorem handler_starts_bounded_witness:
  "handler_starts ''b'' race_events = 1 \<and> requeue_calls ''b'' race_events = 0 \<and>
    handler_starts ''b'' race_events \<le> requeue_calls ''b'' race_events +
      (if \<exists>j. mem_view demo_backend ''b'' = Some j \<and> status j = QUEUED then 1 else 0)"
proof (intro conjI)
  show "handler_starts ''b'' race_events = 1" by (simp add: handler_starts_def race_events_def)
  show "requeue_calls ''b'' race_events = 0" by (simp add: requeue_calls_def race_events_def)
  show "handler_starts ''b'' race_events \<le> requeue_calls ''b'' race_events +
      (if \<exists>j. mem_view demo_backend ''b'' = Some j \<and> status j = QUEUED then 1 else 0)"
    by (rule handler_starts_bounded [OF memb.queue_backend_axioms demo_inv race_trace [where starts = thread, OF race_thread]])
qed

text \<open>
  C6. A job that nothing puts back into the queue and that no client writes has one owner: in every
  interleaving of workers without fallback policies and clients, one thread makes all the writes of the job
  and starts its handler, and once the pass that won the claim has ended, the job is stored as
  succeeded when the pass returned, and as failed when it raised (or still running when its type had no
  handler), whatever the others did in between.
\<close>

theorem claimed_job_settles:
  assumes "queue_backend ops binv bview bstored" and "binv b" and "trace ops (thread_apart jid) ([], b) es s"
    and "\<forall>e \<in> set es. \<not> puts_back jid e"
  shows "(\<forall>n m. \<forall>e \<in> set es. \<forall>f \<in> set es. acts_on jid n e \<longrightarrow> acts_on jid m f \<longrightarrow> n = m) \<and>
    (\<forall>n r. n \<in> winners jid es \<longrightarrow> fst s ! n = Done r \<longrightarrow>
       (\<exists>j. bview (snd s) jid = Some j \<and> verdict_stored r (status j)))"
  using assms by (rule queue_backend.one_owner)

theorem claimed_job_settles_witness:
  "{n. \<exists>e. e \<in> set race_events \<and> acts_on ''b'' n e} = {0} \<and>
    (\<exists>j. mem_view race_finished ''b'' = Some j \<and> verdict_stored (Inr True) (status j))"
proof -
  have "thread_apart ''b'' race_pass" by (rule race_apart) simp
  note run = claimed_job_settles [OF memb.queue_backend_axioms demo_inv
      race_trace [where starts = "thread_apart ''b''", OF this]]
  have "\<forall>e \<in> set race_events. \<not> puts_back ''b'' e" by (simp add: race_events_def)
  note out = run [OF this]
  have own: "Began 0 (demo_job ''b'' 5) \<in> set race_events" "acts_on ''b'' 0 (Began 0 (demo_job ''b'' 5))"
    by (simp_all add: race_events_def)
  have one: "n = 0" if "e \<in> set race_events" and "acts_on ''b'' n e" for n e
    using conjunct1 [OF out] that own by blast
  have "0 \<in> winners ''b'' race_events"
    by (auto simp: winners_def race_events_def intro!: exI [of _ "CallClaim 3 ''b'' ''h'' ''w''"])
  with out have "\<exists>j. mem_view race_finished ''b'' = Some j \<and> verdict_stored (Inr True) (status j)" by force
  moreover have "{n. \<exists>e. e \<in> set race_events \<and> acts_on ''b'' n e} = {0}" using one own by blast
  ultimately show ?thesis by simp
qed


text \<open>The worker of the race with its registry, and its state over the demonstration backend.\<close>

definition lone_config :: "memory_backend worker_config" where
  "lone_config =
     \<lparr>wk_host_id = ''h'', wk_worker_id = ''w'', wk_queue_name = None,
      wk_handlers = run_handlers memory_ops [(''mail'', \<lambda>ctx. Done (Inr PNone))],
      wk_run_timeout = None, wk_authoriser = None, wk_fallback = None\<rparr>"

definition lone_worker :: "memory_backend \<Rightarrow> memory_backend worker_state" where
  "lone_worker b =
     \<lparr>ws_dispatch = \<lparr>ds_backend = b, ds_concurrency = None, ds_pool = None, ds_tracker = None\<rparr>,
      ws_audit = new_audit_emitter, ws_metrics = new_metrics, ws_stopped = False\<rparr>"

lemma lone_alone: "\<not> has_dispatcher (ws_dispatch (lone_worker b))" and lone_backend: "wb (lone_worker b) = b"
  by (simp_all add: has_dispatcher_def lone_worker_def)


subsection \<open>Draining a queue\<close>

text \<open>
  C19. \<open>run_forever\<close> over a backend that keeps the dispatch order, with handlers that return and only
  keep books: given at least as many passes as jobs wait, the loop ends at its limit with every
  job that waited succeeded, every other job in the status it had, and none waiting.
\<close>

theorem worker_drains:
  assumes "ordered_backend ops binv bview bstored" and "binv (wb w)" and "\<not> has_dispatcher (ws_dispatch w)"
    and "ready_worker binv bview cfg (bview (wb w))"
    and "finite (waiting_jobs (wk_queue_name cfg) (bview (wb w)))"
    and "card (waiting_jobs (wk_queue_name cfg) (bview (wb w))) \<le> length es" and "es \<noteq> []"
    and "\<forall>e \<in> set es. \<not> pe_stopped e"
  shows "\<exists>w'. run_forever ops cfg (Some (int (length es))) es w = (Inr (Some (int (length es))), w') \<and>
    binv (wb w') \<and> drained (wk_queue_name cfg) (bview (wb w)) (bview (wb w')) \<and>
    waiting_jobs (wk_queue_name cfg) (bview (wb w')) = {}"
proof -
  have "draining ops binv bview bstored"
    using assms(1) by (simp add: draining_def working_def dispatching_def falling_back_def ordered_backend_def)
  from draining.run_forever_drains [OF this assms(2-8)] show ?thesis .
qed

lemma memory_waiting_finite: "finite (waiting_jobs qn (mem_view b))"
proof (rule finite_subset)
  show "waiting_jobs qn (mem_view b) \<subseteq> dom (dict_get (mb_jobs b))"
    by (auto simp: waiting_jobs_def mem_view_def)
qed (rule finite_dom_map_of)

lemma lone_ready: "(\<And>i j. m i = Some j \<Longrightarrow> job_type j = ''mail'') \<Longrightarrow> ready_worker mem_inv mem_view lone_config m"
  by (auto simp: ready_worker_def lone_config_def run_handlers_def steady_handler_def)

definition quiet_env :: "memory_backend pass_env" where
  "quiet_env = \<lparr>pe_expires = no_expiry, pe_uuid = ''u'', pe_clk = (\<lambda>_. 3), pe_stopped = False\<rparr>"

lemma demo_waiting: "waiting_jobs None (mem_view demo_backend) = {''a'', ''b''}"
  by (auto simp: waiting_jobs_def demo_view dispatchable_def passes_def)

theorem worker_drains_witness:
  "\<exists>w'. run_forever memory_ops lone_config (Some (int (length [quiet_env, quiet_env]))) [quiet_env, quiet_env]
      (lone_worker demo_backend) = (Inr (Some (int (length [quiet_env, quiet_env]))), w') \<and> mem_inv (wb w') \<and>
    drained (wk_queue_name lone_config) (mem_view (wb (lone_worker demo_backend))) (mem_view (wb w')) \<and>
    waiting_jobs (wk_queue_name lone_config) (mem_view (wb w')) = {}"
proof (rule worker_drains [OF memb.ordered_backend_axioms])
  show "\<not> has_dispatcher (ws_dispatch (lone_worker demo_backend))" by (rule lone_alone)
  show "ready_worker mem_inv mem_view lone_config (mem_view (wb (lone_worker demo_backend)))"
    by (rule lone_ready) (auto simp: lone_backend demo_view)
  show "card (waiting_jobs (wk_queue_name lone_config) (mem_view (wb (lone_worker demo_backend))))
      \<le> length [quiet_env, quiet_env]"
    by (simp add: lone_backend) (simp add: lone_config_def demo_waiting)
qed (simp_all add: lone_backend demo_inv memory_waiting_finite, simp add: quiet_env_def)

text \<open>
  C18. End to end on the in-memory backend that a queue and a worker share: an accepted request (payload
  within the limits, fresh identifier, free idempotency key, dependencies without a cycle), of a type
  and in a queue that the worker serves, reads back through \<open>JobQueue.get\<close> as succeeded, with the fields
  it was submitted with, after the worker made at least one pass more than jobs waited before. The
  worker has no dispatcher and no run timeout, is not stopped during these passes, and its handlers of
  the new and of all waiting jobs return and only keep books.
\<close>

theorem submitted_job_succeeds:
  assumes "payload_accepted (jq_payload_max q) req" and "mem_inv (jq_backend q)"
    and "mem_view (jq_backend q) uuid = None" and "deps_acceptable q uuid (rq_depends_on req)"
    and "\<forall>k prior until. rq_idempotency_key req = Some k \<longrightarrow> key_holds (jq_idempotency q) k prior until \<longrightarrow> until \<le> clk 1"
    and "ready_worker mem_inv mem_view cfg (mem_view (jq_backend q))" and "\<not> has_dispatcher (ws_dispatch w)"
    and "dict_get (wk_handlers cfg) (rq_job_type req) = Some h" and "steady_handler mem_inv mem_view h"
    and "passes (wk_queue_name cfg) (rq_queue_name req)"
    and "card (waiting_jobs (wk_queue_name cfg) (mem_view (jq_backend q))) < length es"
    and "\<forall>e \<in> set es. \<not> pe_stopped e"
  shows "\<exists>q' w' j. jq_submit memory_ops uuid clk req q = (Inr uuid, q') \<and>
    run_forever memory_ops cfg (Some (int (length es))) es
      (w\<lparr>ws_dispatch := (ws_dispatch w)\<lparr>ds_backend := jq_backend q'\<rparr>\<rparr>) = (Inr (Some (int (length es))), w') \<and>
    jq_get memory_ops uuid (q'\<lparr>jq_backend := wb w'\<rparr>) = (Inr (Some j), q'\<lparr>jq_backend := wb w'\<rparr>) \<and>
    same_submission (from_request uuid (clk 0) req) j \<and> status j = SUCCEEDED"
proof -
  let ?qn = "wk_queue_name cfg" and ?j = "from_request uuid (clk 0) req"
  obtain q' where q': "jq_submit memory_ops uuid clk req q = (Inr uuid, q')" "mem_inv (jq_backend q')"
      "mem_view (jq_backend q') = (mem_view (jq_backend q))(uuid \<mapsto> ?j)"
    using memq.jq_submit_ok [OF assms(1-4), of clk] assms(5) by blast
  define w1 where "w1 = w\<lparr>ws_dispatch := (ws_dispatch w)\<lparr>ds_backend := jq_backend q'\<rparr>\<rparr>"
  have w1: "wb w1 = jq_backend q'" "\<not> has_dispatcher (ws_dispatch w1)"
    using assms(7) by (simp_all add: w1_def has_dispatcher_def)
  have d: "dispatchable None ?qn ?j" using assms(10) by (simp add: dispatchable_def passes_def)
  have "waiting_jobs ?qn (mem_view (jq_backend q')) = insert uuid (waiting_jobs ?qn (mem_view (jq_backend q)))"
    using d assms(3) by (auto simp: waiting_jobs_def q'(3))
  then have card: "card (waiting_jobs ?qn (mem_view (wb w1))) \<le> length es"
    using card_insert_le_m1 [of "length es" "waiting_jobs ?qn (mem_view (jq_backend q))" uuid] assms(11)
    by (simp add: w1 card_insert_if memory_waiting_finite)
  have ready: "ready_worker mem_inv mem_view cfg (mem_view (wb w1))"
    using assms(6,8,9) by (auto simp: ready_worker_def w1 q'(3))
  have "es \<noteq> []" using assms(11) by auto
  then obtain w' where w': "run_forever memory_ops cfg (Some (int (length es))) es w1 = (Inr (Some (int (length es))), w')"
      "drained ?qn (mem_view (wb w1)) (mem_view (wb w'))" "mem_inv (wb w')"
    using memd.run_forever_drains [of w1 cfg es] w1 q'(2) ready card assms(12)
      memory_waiting_finite by auto
  have "mem_view (wb w1) uuid = Some ?j" using w1 q'(3) by simp
  then obtain j where j: "mem_view (wb w') uuid = Some j" "same_submission ?j j" "status j = SUCCEEDED"
    using w'(2) d unfolding drained_def by metis
  have "jq_get memory_ops uuid (q'\<lparr>jq_backend := wb w'\<rparr>) = (Inr (Some j), q'\<lparr>jq_backend := wb w'\<rparr>)"
    using memb.get_law [OF w'(3), of uuid] j(1) by (simp add: jq_get_def jq_on_backend_def on_field_def)
  with q'(1) w'(1) j(2,3) show ?thesis unfolding w1_def by blast
qed

theorem submitted_job_succeeds_witness:
  "\<exists>q' w' j. jq_submit memory_ops ''n'' (\<lambda>_. 7) demo_request demo_queue = (Inr ''n'', q') \<and>
    run_forever memory_ops lone_config (Some (int (length [quiet_env, quiet_env, quiet_env])))
      [quiet_env, quiet_env, quiet_env]
      ((lone_worker demo_backend)\<lparr>ws_dispatch := (ws_dispatch (lone_worker demo_backend))\<lparr>ds_backend := jq_backend q'\<rparr>\<rparr>) =
      (Inr (Some (int (length [quiet_env, quiet_env, quiet_env]))), w') \<and>
    jq_get memory_ops ''n'' (q'\<lparr>jq_backend := wb w'\<rparr>) = (Inr (Some j), q'\<lparr>jq_backend := wb w'\<rparr>) \<and>
    same_submission (from_request ''n'' 7 demo_request) j \<and> status j = SUCCEEDED"
proof (rule submitted_job_succeeds [OF demo_accepted _ _ demo_deps, where clk = "\<lambda>_. 7"])
  have b: "jq_backend demo_queue = demo_backend" by (simp add: demo_queue_def new_job_queue_def)
  show "mem_inv (jq_backend demo_queue)" by (simp add: b demo_inv)
  show "mem_view (jq_backend demo_queue) ''n'' = None" by (simp add: b demo_backend_def mem_view_def)
  show "ready_worker mem_inv mem_view lone_config (mem_view (jq_backend demo_queue))"
    by (rule lone_ready) (auto simp: b demo_view)
  show "dict_get (wk_handlers lone_config) (rq_job_type demo_request) = Some (\<lambda>ctx. run_proc memory_ops (Done (Inr PNone)))"
    by (simp add: lone_config_def run_handlers_def demo_request_def default_request_def)
  show "steady_handler mem_inv mem_view (\<lambda>ctx. run_proc memory_ops (Done (Inr PNone)))"
    by (simp add: steady_handler_def)
  show "card (waiting_jobs (wk_queue_name lone_config) (mem_view (jq_backend demo_queue)))
      < length [quiet_env, quiet_env, quiet_env]"
    by (simp add: b) (simp add: lone_config_def demo_waiting)
qed (simp_all add: lone_alone demo_queue_def new_job_queue_def key_holds_def new_idempotency_manager_def
  lone_config_def passes_def quiet_env_def)

end
