(* ===== verification/Conformance.thy ===== *)
theory Conformance
  imports Job_Queue
begin

section \<open>The conformance check of a backend\<close>

text \<open>
  \<open>run_basic_backend_conformance\<close> of \<open>testing/conformance.py\<close>, the check that a backend author runs: over
  the backend that the factory made, with a failed \<open>assert\<close> as an exception. It passes on every empty
  backend that meets the contract with the dispatch order.
\<close>

definition assert_py :: "bool \<Rightarrow> ('s, unit) py" where
  "assert_py c = (if c then ret () else raise_exn (OtherException ''AssertionError''))"

definition conformance_request :: job_request where
  "conformance_request =
     (default_request ''conformance.ping'')\<lparr>rq_payload := [(''ok'', PBool True)], rq_priority := 1\<rparr>"

definition run_basic_backend_conformance :: "'b backend_ops \<Rightarrow> string \<Rightarrow> (nat \<Rightarrow> time) \<Rightarrow> ('b job_queue, unit) py" where
  "run_basic_backend_conformance ops uuid clk =
     bind_py (jq_submit ops uuid clk conformance_request) (\<lambda>jid.
     seq_py (assert_py (jid \<noteq> []))
     (bind_py (jq_list ops 10 None) (\<lambda>listed.
     seq_py (assert_py (\<exists>j \<in> set listed. job_id j = jid))
     (bind_py (jq_on_backend (be_claim ops (clk 3) jid ''conf-host'' ''conf-worker'')) (\<lambda>claimed.
     seq_py (assert_py claimed)
     (bind_py (jq_get ops jid) (\<lambda>job.
     seq_py (assert_py (job \<noteq> None))
     (seq_py (assert_py (map_option status job \<in> {Some RUNNING, Some QUEUED}))
     (bind_py (jq_on_backend (be_update_status ops (clk 4) jid (status_value SUCCEEDED))) (\<lambda>ok.
     seq_py (assert_py ok)
     (bind_py (jq_get ops jid) (\<lambda>final.
       assert_py (map_option status final = Some SUCCEEDED)))))))))))))"

lemma conformance_accepted: "payload_accepted 16384 conformance_request"
  by code_simp

locale conforming = ordered_backend + submitting
begin

lemma conformance_run:
  assumes i: "inv b" and empty: "view b = Map.empty" and uuid: "uuid \<noteq> []"
  shows "\<exists>q'. run_basic_backend_conformance ops uuid clk (new_job_queue b None) = (Inr (), q')"
proof -
  let ?q = "new_job_queue b None" and ?j = "stored (from_request uuid (clk 0) conformance_request)"
  have req: "rq_idempotency_key conformance_request = None" "rq_depends_on conformance_request = []"
    by (simp_all add: conformance_request_def default_request_def)
  have acc: "payload_accepted (jq_payload_max ?q) conformance_request"
    using conformance_accepted by (simp add: new_job_queue_def)
  obtain q1 where q1: "jq_submit ops uuid clk conformance_request ?q = (Inr uuid, q1)" "inv (jq_backend q1)"
      "view (jq_backend q1) = [uuid \<mapsto> ?j]"
    using jq_submit_ok [OF acc, of uuid clk] i empty req by (auto simp: new_job_queue_def deps_acceptable_def)
  have j: "job_id ?j = uuid" "status ?j = QUEUED" using stored_law [of "from_request uuid (clk 0) conformance_request"] by simp_all
  have v: "view (jq_backend q1) uuid = Some ?j" using q1(3) by simp
  obtain js where js: "be_dequeue ops 10 None None (jq_backend q1) = (Inr js, jq_backend q1)"
      "\<forall>k \<in> set js. view (jq_backend q1) (job_id k) = Some k \<and> dispatchable None None k"
    using dequeue_law [OF q1(2), of 10 None None] by auto
  have d: "dispatchable None None ?j" using j(2) by (simp add: dispatchable_def passes_def)
  have one: "set js \<subseteq> {?j}" using js(2) q1(3) by (auto split: if_splits)
  have "distinct (map job_id js)" "int (length js) \<le> 10" using dequeue_law [OF q1(2), of 10 None None] js(1) by auto
  then have "length js \<le> 1" using one distinct_card [of js] card_mono [OF _ one] by (simp add: distinct_map)
  then have listed: "?j \<in> set js"
    using dequeue_complete [OF q1(2) _ _ _ js(1) v d] by fastforce
  obtain b2 j2 where b2: "be_claim ops (clk 3) uuid ''conf-host'' ''conf-worker'' (jq_backend q1) = (Inr True, b2)" "inv b2"
      "view b2 = (view (jq_backend q1))(uuid \<mapsto> j2)" "status j2 = RUNNING"
    using claim_won [OF q1(2) v j(2)] by blast
  have v2: "view b2 uuid = Some j2" using b2(3) by simp
  obtain b3 j3 where b3: "be_update_status ops (clk 4) uuid (status_value SUCCEEDED) b2 = (Inr True, b3)" "inv b3"
      "view b3 = (view b2)(uuid \<mapsto> j3)" "status j3 = SUCCEEDED"
    using update_status_law [OF b2(2) v2] by blast
  have v3: "view b3 uuid = Some j3" using b3(3) by simp
  have l: "\<exists>k \<in> set js. job_id k = uuid" using listed j(1) by blast
  show ?thesis
    using q1(1) js(1) l b2 b3 uuid get_law [OF b2(2), of uuid] get_law [OF b3(2), of uuid] v2 v3
    by (simp add: run_basic_backend_conformance_def jq_list_def jq_get_def jq_on_backend_def assert_py_def py_defs del: status_value.simps)
qed

end

end
