(* ===== verification/Async_Variants.thy ===== *)
theory Async_Variants
  imports Worker_Proofs Admin Job_Queue
begin

section \<open>The asynchronous variants\<close>

text \<open>
  The \<open>async\<close> methods of \<open>queue.py\<close>, \<open>admin/service.py\<close> and \<open>worker/worker.py\<close>, and
  \<open>register_handler\<close>. \<open>asyncio.to_thread\<close> runs a call in another thread, and \<open>await\<close> gives its result or raises its
  exception; what the other threads do meanwhile is the subject of \<open>Call_Process\<close>.
\<close>

definition to_thread :: "('s, 'a) py \<Rightarrow> ('s, 'a) py" where
  "to_thread m = m"

subsection \<open>The queue and the admin service\<close>

definition jq_submit_async ::
  "'b backend_ops \<Rightarrow> string \<Rightarrow> (nat \<Rightarrow> time) \<Rightarrow> job_request \<Rightarrow> ('b job_queue, string) py" where
  "jq_submit_async ops uuid clk req = to_thread (jq_submit ops uuid clk req)"

definition jq_get_async :: "'b backend_ops \<Rightarrow> string \<Rightarrow> ('b job_queue, job option) py" where
  "jq_get_async ops jid = to_thread (jq_get ops jid)"

definition jq_list_async :: "'b backend_ops \<Rightarrow> int \<Rightarrow> string option \<Rightarrow> ('b job_queue, job list) py" where
  "jq_list_async ops limit jt = to_thread (jq_list ops limit jt)"

definition jq_cancel_async :: "'b backend_ops \<Rightarrow> (nat \<Rightarrow> time) \<Rightarrow> string \<Rightarrow> ('b job_queue, bool) py" where
  "jq_cancel_async ops clk jid = to_thread (jq_cancel ops clk jid)"

definition jq_health_async :: "'b backend_ops \<Rightarrow> ('b job_queue, bool) py" where
  "jq_health_async ops = to_thread (jq_health ops)"

definition admin_get_async :: "'b backend_ops \<Rightarrow> string \<Rightarrow> ('b admin_service, job option) py" where
  "admin_get_async ops jid = to_thread (admin_get ops jid)"

definition admin_list_async :: "'b backend_ops \<Rightarrow> int \<Rightarrow> ('b admin_service, job list) py" where
  "admin_list_async ops limit = to_thread (admin_list ops limit)"

definition admin_cancel_async ::
  "'b backend_ops \<Rightarrow> checker \<Rightarrow> (nat \<Rightarrow> time) \<Rightarrow> string \<Rightarrow> ('b admin_service, bool) py" where
  "admin_cancel_async ops chk clk jid = to_thread (admin_cancel ops chk clk jid)"

subsection \<open>The worker\<close>

definition run_once_async ::
  "'b backend_ops \<Rightarrow> 'b worker_config \<Rightarrow> 'b expiry \<Rightarrow> string \<Rightarrow> (nat \<Rightarrow> time) \<Rightarrow> ('b worker_state, bool) py" where
  "run_once_async ops cfg expires uuid clk = to_thread (run_once ops cfg expires uuid clk)"

fun run_loop_async ::
  "'b backend_ops \<Rightarrow> 'b worker_config \<Rightarrow> int option \<Rightarrow> 'b pass_env list \<Rightarrow> int \<Rightarrow>
   ('b worker_state, int option) py" where
  "run_loop_async ops cfg max_loops [] loops = (\<lambda>w. if ws_stopped w then ret (Some loops) w else ret None w)"
| "run_loop_async ops cfg max_loops (e # es) loops =
     (\<lambda>w. if ws_stopped w then ret (Some loops) w
          else seq_py (during e (run_once_async ops cfg (pe_expires e) (pe_uuid e) (pe_clk e)))
                 (let loops' = loops + 1 in
                  if (case max_loops of None \<Rightarrow> False | Some m \<Rightarrow> loops' \<ge> m) then ret (Some loops')
                  else run_loop_async ops cfg max_loops es loops') w)"

definition run_forever_async ::
  "'b backend_ops \<Rightarrow> 'b worker_config \<Rightarrow> int option \<Rightarrow> 'b pass_env list \<Rightarrow> ('b worker_state, int option) py" where
  "run_forever_async ops cfg max_loops es = (\<lambda>w. run_loop_async ops cfg max_loops es 0 (w\<lparr>ws_stopped := False\<rparr>))"

definition register_handler :: "string \<Rightarrow> 'b handler \<Rightarrow> 'b worker_config \<Rightarrow> 'b worker_config" where
  "register_handler jt h cfg = cfg\<lparr>wk_handlers := registry_register jt h (wk_handlers cfg)\<rparr>"

subsection \<open>Lemmas\<close>

lemma run_loop_async_eq: "run_loop_async ops cfg max_loops es loops = run_loop ops cfg max_loops es loops"
proof (induction es arbitrary: loops)
  case (Cons e es)
  then show ?case by (simp only: run_loop.simps run_loop_async.simps run_once_async_def to_thread_def Let_def)
qed simp

lemma run_forever_async_eq: "run_forever_async ops cfg max_loops es = run_forever ops cfg max_loops es"
  by (simp add: run_forever_async_def run_forever_def run_loop_async_eq)

lemma registered_get:
  "registry_get (wk_handlers (register_handler jt h cfg)) t = (if t = jt then Inr h else registry_get (wk_handlers cfg) t)"
  by (simp add: register_handler_def registry_register_def registry_get_def)

end
