(* ===== verification/Conformance_Worker.thy ===== *)
theory Conformance_Worker
  imports Conformance Async_Variants Memory_Backend
begin

section \<open>The conformance checks through the worker\<close>

text \<open>
  \<open>run_resource_pool_conformance\<close> and \<open>run_dependency_scheduler_conformance\<close> of
  \<open>testing/conformance.py\<close>: a queue and a worker over one backend, which the factory made, with a
  resource pool or a dependency tracker that they share. The handlers of the checks append to a list of
  the test, which \<open>with_log\<close> keeps beside the backend; every method of the backend leaves it alone.
  A failed \<open>assert\<close> is an exception.
\<close>

subsection \<open>The test bench\<close>

definition with_log :: "'b backend_ops \<Rightarrow> ('b \<times> string list) backend_ops" where
  "with_log ops =
     \<lparr>be_enqueue = (\<lambda>j. on_field fst (\<lambda>b s. (b, snd s)) (be_enqueue ops j)),
       be_dequeue = (\<lambda>n jt qn. on_field fst (\<lambda>b s. (b, snd s)) (be_dequeue ops n jt qn)),
       be_claim = (\<lambda>now i h w. on_field fst (\<lambda>b s. (b, snd s)) (be_claim ops now i h w)),
       be_release = (\<lambda>now i. on_field fst (\<lambda>b s. (b, snd s)) (be_release ops now i)),
       be_heartbeat = (\<lambda>now i. on_field fst (\<lambda>b s. (b, snd s)) (be_heartbeat ops now i)),
       be_get = (\<lambda>i. on_field fst (\<lambda>b s. (b, snd s)) (be_get ops i)),
       be_update_status = (\<lambda>now i st. on_field fst (\<lambda>b s. (b, snd s)) (be_update_status ops now i st)),
       be_get_queue_status = on_field fst (\<lambda>b s. (b, snd s)) (be_get_queue_status ops),
       be_health_check = on_field fst (\<lambda>b s. (b, snd s)) (be_health_check ops),
       be_all_jobs = on_field fst (\<lambda>b s. (b, snd s)) (be_all_jobs ops),
       be_record_attempt = (\<lambda>now i e. on_field fst (\<lambda>b s. (b, snd s)) (be_record_attempt ops now i e)),
       be_update_progress = (\<lambda>now i p. on_field fst (\<lambda>b s. (b, snd s)) (be_update_progress ops now i p)),
       be_store_result = (\<lambda>now i r. on_field fst (\<lambda>b s. (b, snd s)) (be_store_result ops now i r)),
       be_live = (\<lambda>s j. be_live ops (fst s) j),
       be_poke = (\<lambda>i f s. (be_poke ops i f (fst s), snd s))\<rparr>"

text \<open>The queue and the worker hold references to the same backend and tracker.\<close>

record 'b bench =
  bn_queue :: "('b \<times> string list) job_queue"
  bn_worker :: "('b \<times> string list) worker_state"

definition bench_queue :: "(('b \<times> string list) job_queue, 'a) py \<Rightarrow> ('b bench, 'a) py" where
  "bench_queue m =
     (\<lambda>s. let w = bn_worker s; d = ws_dispatch w in
          case m ((bn_queue s)\<lparr>jq_backend := ds_backend d, jq_tracker := ds_tracker d\<rparr>) of
            (r, q) \<Rightarrow> (r, \<lparr>bn_queue = q,
              bn_worker = w\<lparr>ws_dispatch := d\<lparr>ds_backend := jq_backend q, ds_tracker := jq_tracker q\<rparr>\<rparr>\<rparr>))"

definition bench_worker :: "(('b \<times> string list) worker_state, 'a) py \<Rightarrow> ('b bench, 'a) py" where
  "bench_worker m = on_field bn_worker (\<lambda>w s. s\<lparr>bn_worker := w\<rparr>) m"

definition bench_results :: "'b bench \<Rightarrow> string list" where
  "bench_results s = snd (ds_backend (ws_dispatch (bn_worker s)))"

definition bench_pool :: "'b bench \<Rightarrow> resource_pool option" where
  "bench_pool s = ds_pool (ws_dispatch (bn_worker s))"

definition new_bench ::
  "'b \<Rightarrow> concurrency_manager option \<Rightarrow> resource_pool option \<Rightarrow> dependency_tracker option \<Rightarrow> 'b bench" where
  "new_bench b c p t =
     \<lparr>bn_queue = new_job_queue (b, []) t,
      bn_worker = \<lparr>ws_dispatch = \<lparr>ds_backend = (b, []), ds_concurrency = c, ds_pool = p, ds_tracker = t\<rparr>,
                   ws_audit = new_audit_emitter, ws_metrics = new_metrics, ws_stopped = False\<rparr>\<rparr>"

definition bench_config :: "'b worker_config" where
  "bench_config =
     \<lparr>wk_host_id = ''localhost'', wk_worker_id = ''worker-1'', wk_queue_name = None, wk_handlers = [],
      wk_run_timeout = None, wk_authoriser = None, wk_fallback = None\<rparr>"

text \<open>The results so far: \<open>assert len(results) == n\<close> and the like.\<close>

definition assert_bench :: "('b bench \<Rightarrow> bool) \<Rightarrow> ('b bench, unit) py" where
  "assert_bench p = (\<lambda>s. if p s then (Inr (), s) else (Inl (OtherException ''AssertionError''), s))"

subsection \<open>Resources\<close>

definition handler_success :: "('b \<times> string list) handler" where
  "handler_success ctx = (\<lambda>(b, out). (Inr PNone, (b, out @ [''success:'' @ job_id (ctx_job ctx)])))"

definition handler_fail :: "('b \<times> string list) handler" where
  "handler_fail ctx =
     (\<lambda>(b, out). (Inl (RuntimeError ''deliberate failure''), (b, out @ [''fail:'' @ job_id (ctx_job ctx)])))"

definition resource_config :: "('b \<times> string list) worker_config" where
  "resource_config =
     register_handler ''resource_fail_test'' handler_fail (register_handler ''resource_test'' handler_success bench_config)"

definition resource_request :: "string \<Rightarrow> job_request" where
  "resource_request jt = (default_request jt)\<lparr>rq_resources := [(''llm-pool'', 1)]\<rparr>"

definition pool_free :: "'b bench \<Rightarrow> bool" where
  "pool_free s = (case bench_pool s of None \<Rightarrow> False | Some p \<Rightarrow> rp_can_acquire p [(''llm-pool'', 1)])"

definition run_resource_pool_conformance ::
  "'b backend_ops \<Rightarrow> string \<Rightarrow> string \<Rightarrow> (nat \<Rightarrow> nat \<Rightarrow> time) \<Rightarrow> ('b bench, unit) py" where
  "run_resource_pool_conformance ops u1 u2 clk =
     (let once = (\<lambda>n. bench_worker (run_once (with_log ops) resource_config (\<lambda>_ _. None) [] (clk n))) in
      seq_py (bench_queue (jq_submit (with_log ops) u1 (clk 0) (resource_request ''resource_test'')))
      (bind_py (once 1) (\<lambda>ok.
       seq_py (assert_py ok)
      (seq_py (assert_bench (\<lambda>s. length (bench_results s) = 1))
      (seq_py (assert_bench pool_free)
      (seq_py (bench_queue (jq_submit (with_log ops) u2 (clk 2) (resource_request ''resource_fail_test'')))
      (seq_py (try_except (once 3) (\<lambda>e. case e of RuntimeError _ \<Rightarrow> ret True | _ \<Rightarrow> raise_exn e))
      (seq_py (assert_bench pool_free)
        (assert_bench (\<lambda>s. length (bench_results s) = 2))))))))))"

definition resource_bench :: "'b \<Rightarrow> 'b bench" where
  "resource_bench b =
     new_bench b
       (Some (new_concurrency_manager (default_limits\<lparr>global_max := 10, per_type_max := 5\<rparr>)))
       (Some (new_resource_pool (Some [(''llm-pool'', 1)]))) None"

subsection \<open>Dependencies\<close>

definition dep_handler :: "('b \<times> string list) handler" where
  "dep_handler ctx = (\<lambda>(b, out). (Inr PNone, (b, out @ [job_id (ctx_job ctx)])))"

definition dep_config :: "('b \<times> string list) worker_config" where
  "dep_config = register_handler ''dep_test'' dep_handler bench_config"

definition dep_request :: "string list \<Rightarrow> job_request" where
  "dep_request deps = (default_request ''dep_test'')\<lparr>rq_depends_on := deps\<rparr>"

definition run_dependency_scheduler_conformance ::
  "'b backend_ops \<Rightarrow> string \<Rightarrow> string \<Rightarrow> string \<Rightarrow> string \<Rightarrow> (nat \<Rightarrow> nat \<Rightarrow> time) \<Rightarrow> ('b bench, unit) py" where
  "run_dependency_scheduler_conformance ops ua ub uc ud clk =
     (let once = (\<lambda>n. bench_worker (run_once (with_log ops) dep_config (\<lambda>_ _. None) [] (clk n)));
          submit = (\<lambda>u n deps. bench_queue (jq_submit (with_log ops) u (clk n) (dep_request deps))) in
      bind_py (submit ua 0 []) (\<lambda>a_id.
      bind_py (submit ub 1 [a_id]) (\<lambda>b_id.
      bind_py (once 2) (\<lambda>ok.
      seq_py (assert_py ok)
      (seq_py (assert_bench (\<lambda>s. length (bench_results s) = 1))
      (seq_py (assert_bench (\<lambda>s. bench_results s ! 0 = a_id))
      (bind_py (once 3) (\<lambda>ok.
      seq_py (assert_py ok)
      (seq_py (assert_bench (\<lambda>s. length (bench_results s) = 2))
      (seq_py (assert_bench (\<lambda>s. bench_results s ! 1 = b_id))
      (bind_py (submit uc 4 []) (\<lambda>c_id.
       seq_py (try_except (submit ud 5 [c_id])
         (\<lambda>e. case e of DependencyCycleError _ \<Rightarrow> raise_exn (OtherException ''AssertionError'') | _ \<Rightarrow> raise_exn e))
         (ret ())))))))))))))"

definition dep_bench :: "'b \<Rightarrow> 'b bench" where
  "dep_bench b = new_bench b None None (Some new_tracker)"

subsection \<open>Both checks pass on the in-memory backend\<close>

lemma resource_accepted: "payload_accepted 16384 (resource_request t)" "payload_accepted 16384 (dep_request d)"
  by (simp_all add: payload_accepted_def payload_size_def resource_request_def dep_request_def default_request_def)

text \<open>One pass of a worker, step by step, from what the backend and the handler answer.\<close>

lemma run_once_steps:
  assumes cfg: "wk_authoriser cfg = None" "wk_run_timeout cfg = None" "wk_fallback cfg = None"
    "dict_get (wk_handlers cfg) (job_type j) = Some h"
    and sel: "ws_select ops cfg w = (Inr [j], w1)"
    and claim: "be_claim ops (clk 0) (job_id j) (wk_host_id cfg) (wk_worker_id cfg) (wb w1) = (Inr True, b1)"
    and beat: "be_heartbeat ops (clk 2) (job_id j) b1 = (Inr ok, b2)"
    and run: "h (new_context (be_live ops b1 j)) b2 = (rh, b3)"
    and stat: "be_update_status ops (clk (if isl rh then 7 else 5)) (job_id j)
      (status_value (if isl rh then FAILED else SUCCEEDED)) b3 = (Inr ok', b4)"
    and release: "\<And>v. frame w1 v \<Longrightarrow> \<exists>v'. ws_release_job j v = (Inr (), v') \<and> wb v' = wb v \<and> P (ws_dispatch v')"
  shows "\<exists>w'. run_once ops cfg expires u clk w = ((case rh of Inl e \<Rightarrow> Inl e | Inr _ \<Rightarrow> Inr True), w') \<and>
    wb w' = b4 \<and> P (ws_dispatch w')"
proof -
  obtain w2 where w2: "ws_on_backend (be_claim ops (clk 0) (job_id j) (wk_host_id cfg) (wk_worker_id cfg)) w1 = (Inr True, w2)"
      "wb w2 = b1" "frame w1 w2"
    using ws_on_backend_run [of "be_claim ops (clk 0) (job_id j) (wk_host_id cfg) (wk_worker_id cfg)" w1, OF claim] by blast
  obtain w3 where w3: "ws_emit (clk 1) ''job.claim'' ''success'' w2 = (Inr (), w3)" "wb w3 = wb w2" "frame w2 w3"
    using ws_emit_run by blast
  obtain w4 where w4: "ws_on_backend (be_heartbeat ops (clk 2) (job_id j)) w3 = (Inr ok, w4)" "wb w4 = b2" "frame w3 w4"
    using ws_on_backend_run [of "be_heartbeat ops (clk 2) (job_id j)" w3] beat w3(2) w2(2) by auto
  obtain w5 where w5: "ws_on_backend (h (new_context (be_live ops b1 j))) w4 = (rh, w5)" "wb w5 = b3" "frame w4 w5"
    using ws_on_backend_run [of "h (new_context (be_live ops b1 j))" w4] run w4(2) by auto
  have fr5: "frame w1 w5" using w2 w3 w4 w5 by (meson frame_trans)
  have enter: "ws_execute ops cfg expires u clk j w3 =
      try_finally (try_except (ws_complete ops cfg expires clk h (new_context (be_live ops b1 j)) j)
        (ws_failed ops cfg u clk j)) (ws_release_job j) w3"
    using cfg(4) w3(2) w2(2) by (simp add: ws_execute_def registry_get_def Let_def)
  have start: "run_once ops cfg expires u clk w = ws_execute ops cfg expires u clk j w3"
    using cfg(1) sel w2(1) w3(1) by (simp add: run_once_def ws_take_def seq_py_def bind_py_def ret_def)
  show ?thesis
  proof (cases rh)
    case (Inr v)
    obtain w6 where w6: "ws_on_backend (be_update_status ops (clk 5) (job_id j) (status_value SUCCEEDED)) w5 = (Inr ok', w6)"
        "wb w6 = b4" "frame w5 w6"
      using ws_on_backend_run [of "be_update_status ops (clk 5) (job_id j) (status_value SUCCEEDED)" w5] stat Inr w5(2) by auto
    obtain w7 where w7: "ws_emit (clk 6) ''job.transition'' ''success'' w6 = (Inr (), w7)" "wb w7 = wb w6" "frame w6 w7"
      using ws_emit_run by blast
    obtain w8 where w8: "ws_inc ''jobs.succeeded'' w7 = (Inr (), w8)" "wb w8 = wb w7" "frame w7 w8"
      using ws_inc_run by blast
    have "frame w1 w8" using fr5 w6 w7 w8 by (meson frame_trans)
    then obtain w9 where w9: "ws_release_job j w8 = (Inr (), w9)" "wb w9 = wb w8" "P (ws_dispatch w9)"
      using release by blast
    have "ws_complete ops cfg expires clk h (new_context (be_live ops b1 j)) j w3 = (Inr True, w8)"
      using w4(1) w5(1) w6(1) w7(1) w8(1) cfg(2) Inr
      by (simp add: ws_complete_def ws_run_handler_def seq_py_def bind_py_def ret_def del: status_value.simps)
    then show ?thesis
      using start enter w9 w8(2) w7(2) w6(2) Inr by (simp add: try_except_def try_finally_def)
  next
    case (Inl e)
    obtain w6 where w6: "ws_on_backend (be_update_status ops (clk 7) (job_id j) (status_value FAILED)) w5 = (Inr ok', w6)"
        "wb w6 = b4" "frame w5 w6"
      using ws_on_backend_run [of "be_update_status ops (clk 7) (job_id j) (status_value FAILED)" w5] stat Inl w5(2) by auto
    obtain w7 where w7: "ws_emit (clk 9) ''job.transition'' ''failure'' w6 = (Inr (), w7)" "wb w7 = wb w6" "frame w6 w7"
      using ws_emit_run by blast
    obtain w8 where w8: "ws_inc ''jobs.failed'' w7 = (Inr (), w8)" "wb w8 = wb w7" "frame w7 w8"
      using ws_inc_run by blast
    have "frame w1 w8" using fr5 w6 w7 w8 by (meson frame_trans)
    then obtain w9 where w9: "ws_release_job j w8 = (Inr (), w9)" "wb w9 = wb w8" "P (ws_dispatch w9)"
      using release by blast
    have "ws_complete ops cfg expires clk h (new_context (be_live ops b1 j)) j w3 = (Inl e, w5)"
      using w4(1) w5(1) cfg(2) Inl
      by (simp add: ws_complete_def ws_run_handler_def seq_py_def bind_py_def ret_def del: status_value.simps)
    moreover have "ws_failed ops cfg u clk j e w5 = (Inl e, w8)"
      using w6(1) w7(1) w8(1) cfg(3)
      by (simp add: ws_failed_def seq_py_def bind_py_def raise_exn_def del: status_value.simps)
    ultimately show ?thesis
      using start enter w9 w8(2) w7(2) w6(2) Inl by (simp add: try_except_def try_finally_def)
  qed
qed

text \<open>What the bench looks like between two steps of a check over the in-memory backend.\<close>

definition bench_at ::
  "memory_backend bench \<Rightarrow> (string, job) dict \<Rightarrow> string list \<Rightarrow> concurrency_manager option \<Rightarrow> resource_pool option \<Rightarrow>
   dependency_tracker option \<Rightarrow> bool" where
  "bench_at s jobs out c p t \<longleftrightarrow>
     ws_dispatch (bn_worker s) = \<lparr>ds_backend = (\<lparr>mb_jobs = jobs\<rparr>, out), ds_concurrency = c, ds_pool = p, ds_tracker = t\<rparr> \<and>
     jq_payload_max (bn_queue s) = 16384"

lemma bench_at_new: "bench_at (new_bench new_memory_backend c p t) [] [] c p t"
  by (simp add: bench_at_def new_bench_def new_memory_backend_def new_job_queue_def)

lemma bench_at_results: "bench_at s jobs out c p t \<Longrightarrow> bench_results s = out \<and> bench_pool s = p"
  by (simp add: bench_at_def bench_results_def bench_pool_def)

lemma log_simps:
  "be_enqueue (with_log memory_ops) j (b, o') = (case mem_enqueue j b of (r, b') \<Rightarrow> (r, (b', o')))"
  "be_dequeue (with_log memory_ops) n jt qn (b, o') = (case mem_dequeue n jt qn b of (r, b') \<Rightarrow> (r, (b', o')))"
  "be_claim (with_log memory_ops) now i hid wid (b, o') = (case mem_claim now i hid wid b of (r, b') \<Rightarrow> (r, (b', o')))"
  "be_heartbeat (with_log memory_ops) now i (b, o') = (case mem_heartbeat now i b of (r, b') \<Rightarrow> (r, (b', o')))"
  "be_get (with_log memory_ops) i (b, o') = (case mem_get i b of (r, b') \<Rightarrow> (r, (b', o')))"
  "be_update_status (with_log memory_ops) now i st (b, o') = (case mem_update_status now i st b of (r, b') \<Rightarrow> (r, (b', o')))"
  "be_live (with_log memory_ops) (b, o') j = mem_live b j"
  by (simp_all add: with_log_def memory_ops_def on_field_def)

lemma bench_submit:
  assumes at: "bench_at s jobs out c p t" and acc: "payload_accepted 16384 req" and key: "rq_idempotency_key req = None"
    and deps: "\<And>x. t = Some x \<Longrightarrow> \<not> detect_cycle x u (rq_depends_on req)"
  shows "\<exists>s'. bench_queue (jq_submit (with_log memory_ops) u clk req) s = (Inr u, s') \<and>
    bench_at s' (dict_set jobs u (from_request u (clk 0) req)) out c p
      (map_option (\<lambda>x. if rq_depends_on req = [] then x
         else x\<lparr>dt_edges := dict_set (dt_edges x) u (rq_depends_on req)\<rparr>) t)"
proof -
  let ?q = "(bn_queue s)\<lparr>jq_backend := (\<lparr>mb_jobs = jobs\<rparr>, out), jq_tracker := t\<rparr>"
  have ok: "deps_acceptable ?q u (rq_depends_on req)" using deps by (simp add: deps_acceptable_def)
  have run: "jq_submit (with_log memory_ops) u clk req ?q = jq_enqueue (with_log memory_ops) clk (from_request u (clk 0) req) ?q"
    using at acc key by (simp add: jq_submit_gate bench_at_def)
  show ?thesis
    using at jq_validate_deps_ok [OF ok]
    by (simp add: bench_queue_def bench_at_def Let_def run)
      (simp add: jq_enqueue_def jq_on_backend_def jq_emit_def py_defs emit_def Let_def log_simps mem_enqueue_def
        registered_tracker_def)
qed

lemma dict_set_again: "dict_set (dict_set d k v) k v' = dict_set d k v'"
  by (induction d k v rule: dict_set.induct) auto

text \<open>A handler that appends one entry to the list of the test and returns or raises.\<close>

definition logging_handler :: "(memory_backend \<times> string list) handler \<Rightarrow> exn + pyval \<Rightarrow> string \<Rightarrow> bool" where
  "logging_handler h rh tag \<longleftrightarrow> (\<forall>ctx b o'. h ctx (b, o') = (rh, (b, o' @ [tag @ job_id (ctx_job ctx)])))"

lemma bench_pass:
  assumes at: "bench_at s jobs out c p t" and disp: "c \<noteq> None \<or> p \<noteq> None \<or> t \<noteq> None"
      "c1 \<noteq> None \<or> p1 \<noteq> None \<or> t \<noteq> None"
    and cfg: "wk_authoriser cfg = None" "wk_run_timeout cfg = None" "wk_fallback cfg = None" "wk_queue_name cfg = None"
      "dict_get (wk_handlers cfg) (job_type j) = Some h"
    and deq: "mem_dequeue 1 None None \<lparr>mb_jobs = jobs\<rparr> = (Inr [j], \<lparr>mb_jobs = jobs\<rparr>)"
    and j: "dict_get jobs (job_id j) = Some j" "status j = QUEUED"
    and cons: "ds_consider (with_log memory_ops) j []
        \<lparr>ds_backend = (\<lparr>mb_jobs = jobs\<rparr>, out), ds_concurrency = c, ds_pool = p, ds_tracker = t\<rparr> =
      (Inr [j], \<lparr>ds_backend = (\<lparr>mb_jobs = jobs\<rparr>, out), ds_concurrency = c1, ds_pool = p1, ds_tracker = t\<rparr>)"
    and rel: "\<And>b :: memory_backend \<times> string list.
      ds_release_job j \<lparr>ds_backend = b, ds_concurrency = c1, ds_pool = p1, ds_tracker = t\<rparr> =
        (Inr (), \<lparr>ds_backend = b, ds_concurrency = c2, ds_pool = p2, ds_tracker = t\<rparr>)"
    and h: "logging_handler h rh tag"
  shows "\<exists>s' j'. bench_worker (run_once (with_log memory_ops) cfg expires u clk) s =
      ((case rh of Inl e \<Rightarrow> Inl e | Inr _ \<Rightarrow> Inr True), s') \<and>
    bench_at s' (dict_set jobs (job_id j) j') (out @ [tag @ job_id j]) c2 p2 t \<and>
    same_submission j j' \<and> status j' = (if isl rh then FAILED else SUCCEEDED)"
proof -
  let ?ops = "with_log memory_ops" and ?w = "bn_worker s" and ?i = "job_id j" and ?s = "if isl rh then FAILED else SUCCEEDED"
  define w1 where "w1 = ?w\<lparr>ws_dispatch := \<lparr>ds_backend = (\<lparr>mb_jobs = jobs\<rparr>, out), ds_concurrency = c1, ds_pool = p1, ds_tracker = t\<rparr>\<rparr>"
  have "has_dispatcher (ws_dispatch ?w)" using at disp(1) by (auto simp: has_dispatcher_def bench_at_def)
  then have sel: "ws_select ?ops cfg ?w = (Inr [j], w1)"
    using at deq cons cfg(4)
    by (simp add: ws_select_def bench_at_def ws_on_dispatch_def ds_select_def ds_on_backend_def
        log_simps py_defs w1_def)
  define j1 where "j1 = j\<lparr>status := RUNNING, claimed_by := Some (wk_host_id cfg @ '':'' @ wk_worker_id cfg), updated_at := clk 0\<rparr>"
  define j2 where "j2 = j1\<lparr>updated_at := clk 2\<rparr>"
  define j3 where "j3 = j2\<lparr>status := ?s, updated_at := clk (if isl rh then 7 else 5)\<rparr>"
  have ids: "job_id j1 = ?i" by (simp add: j1_def)
  let ?b = "\<lambda>x. \<lparr>mb_jobs = dict_set jobs ?i x\<rparr>"
  have claim: "be_claim ?ops (clk 0) ?i (wk_host_id cfg) (wk_worker_id cfg) (wb w1) = (Inr True, (?b j1, out))"
    using j by (simp add: log_simps mem_claim_def w1_def j1_def)
  have beat: "be_heartbeat ?ops (clk 2) ?i (?b j1, out) = (Inr True, (?b j2, out))"
    by (simp add: log_simps mem_heartbeat_def mem_write_def dict_set_again j2_def)
  have run: "h (new_context (be_live ?ops (?b j1, out) j)) (?b j2, out) = (rh, (?b j2, out @ [tag @ ?i]))"
    using ids h by (simp add: logging_handler_def new_context_def log_simps mem_live_def)
  have stat: "be_update_status ?ops (clk (if isl rh then 7 else 5)) ?i (status_value ?s) (?b j2, out @ [tag @ ?i]) =
      (Inr True, (?b j3, out @ [tag @ ?i]))"
    by (simp add: log_simps mem_update_status_eq mem_write_def dict_set_again j3_def del: status_value.simps)
  have release: "\<exists>v'. ws_release_job j v = (Inr (), v') \<and> wb v' = wb v \<and>
      (ds_concurrency (ws_dispatch v') = c2 \<and> ds_pool (ws_dispatch v') = p2 \<and> ds_tracker (ws_dispatch v') = t)"
    if "frame w1 v" for v
  proof -
    have "ws_dispatch v = \<lparr>ds_backend = wb v, ds_concurrency = c1, ds_pool = p1, ds_tracker = t\<rparr>"
      using that by (simp add: frame_def w1_def)
    moreover have "has_dispatcher (ws_dispatch v)" using that disp(2) unfolding frame_def w1_def has_dispatcher_def by simp blast
    ultimately show ?thesis
      using rel [of "wb v"] by (simp add: ws_release_job_def ws_on_dispatch_def on_field_def)
  qed
  obtain w' where w': "run_once ?ops cfg expires u clk ?w = ((case rh of Inl e \<Rightarrow> Inl e | Inr _ \<Rightarrow> Inr True), w')"
      "wb w' = (?b j3, out @ [tag @ ?i])"
      "ds_concurrency (ws_dispatch w') = c2 \<and> ds_pool (ws_dispatch w') = p2 \<and> ds_tracker (ws_dispatch w') = t"
    using run_once_steps [OF cfg(1-3,5) sel claim beat run stat release] by blast
  have "same_submission j j3" "status j3 = ?s" by (simp_all add: j3_def j2_def j1_def same_submission_def)
  with w' at show ?thesis
    by (intro exI [of _ "s\<lparr>bn_worker := w'\<rparr>"] exI [of _ j3]) (simp add: bench_worker_def on_field_def bench_at_def)
qed

subsection \<open>The resource check\<close>

lemma resource_cfg:
  "wk_authoriser resource_config = None" "wk_run_timeout resource_config = None" "wk_fallback resource_config = None"
  "wk_queue_name resource_config = None"
  "dict_get (wk_handlers resource_config) ''resource_test'' = Some handler_success"
  "dict_get (wk_handlers resource_config) ''resource_fail_test'' = Some handler_fail"
  by (simp_all add: resource_config_def register_handler_def bench_config_def registry_register_def)

text \<open>The limits of the check and one slot of the pool taken and given back.\<close>

definition check_slots :: "concurrency_manager \<Rightarrow> bool" where
  "check_slots c \<longleftrightarrow> cm_limits c = default_limits \<and> cm_within c \<and> cm_counts c {#}"

definition check_pool :: "resource_pool \<Rightarrow> bool" where
  "check_pool p \<longleftrightarrow> rp_limits p = [(''llm-pool'', 1)] \<and> dict_get_or (rp_used p) ''llm-pool'' 0 = 0"

lemma resource_pass:
  assumes at: "bench_at s jobs out (Some c) (Some p) None" and ok: "check_slots c" "check_pool p"
    and cfg: "dict_get (wk_handlers resource_config) (job_type j) = Some h"
    and deq: "mem_dequeue 1 None None \<lparr>mb_jobs = jobs\<rparr> = (Inr [j], \<lparr>mb_jobs = jobs\<rparr>)"
    and j: "dict_get jobs (job_id j) = Some j" "status j = QUEUED" "resources j = [(''llm-pool'', 1)]"
    and h: "logging_handler h rh tag"
  shows "\<exists>s' j' c' p'. bench_worker (run_once (with_log memory_ops) resource_config expires u clk) s =
      ((case rh of Inl e \<Rightarrow> Inl e | Inr _ \<Rightarrow> Inr True), s') \<and>
    bench_at s' (dict_set jobs (job_id j) j') (out @ [tag @ job_id j]) (Some c') (Some p') None \<and>
    check_slots c' \<and> check_pool p' \<and> same_submission j j' \<and> status j' = (if isl rh then FAILED else SUCCEEDED)"
proof -
  let ?sl = "(job_type j, ''default'', ''default'')"
  have can: "cm_can_acquire c (job_type j) ''default'' ''default''"
    using ok(1) by (simp add: check_slots_def cm_can_acquire_def cm_counts_def dim_counts_def default_limits_def)
  obtain c1 where c1: "cm_acquire (job_type j) ''default'' ''default'' c = (Inr True, c1)" using can by (simp add: cm_acquire_def)
  obtain p1 where p1: "rp_acquire (job_id j) (resources j) p = (Inr True, p1)" "rp_limits p1 = rp_limits p"
      "dict_get_or (rp_used p1) ''llm-pool'' 0 = 1" "dict_get_or (rp_holders p1) (job_id j) [] = [(''llm-pool'', 1)]"
    using ok(2) j(3) by (simp add: rp_acquire_def rp_can_acquire_def check_pool_def)
  obtain c2 where c2: "cm_release (job_type j) ''default'' ''default'' c1 = (Inr (), c2)" by (simp add: cm_release_def)
  obtain p2 where p2: "rp_release (job_id j) p1 = (Inr (), p2)" "rp_limits p2 = rp_limits p1"
      "dict_get_or (rp_used p2) ''llm-pool'' 0 = 0"
    using p1(3,4) by (simp add: rp_release_def)
  have "cm_counts c1 {#?sl#}" using ok(1) cm_acquire_counts [OF _ c1] by (auto simp: check_slots_def)
  from cm_release_counts [OF this] c2 have "cm_counts c2 {#}" by simp
  then have slots: "check_slots c2"
    using ok(1) cm_acquire_limits [OF c1] cm_release_limits [OF c2] cm_release_within [OF cm_acquire_within [OF _ c1] c2]
    by (simp add: check_slots_def)
  have pool: "check_pool p2" using ok(2) p1(2) p2 by (simp add: check_pool_def)
  let ?d = "\<lambda>c p. \<lparr>ds_backend = (\<lparr>mb_jobs = jobs\<rparr>, out), ds_concurrency = Some c, ds_pool = Some p, ds_tracker = None\<rparr>"
  have cons: "ds_consider (with_log memory_ops) j [] (?d c p) = (Inr [j], ?d c1 p1)"
    using c1 p1(1) j(3)
    by (simp add: ds_consider_def ds_runnable_def ds_acquire_slot_def ds_acquire_resources_def bind_py_def ret_def)
  have rel: "ds_release_job j \<lparr>ds_backend = b, ds_concurrency = Some c1, ds_pool = Some p1, ds_tracker = None\<rparr> =
      (Inr (), \<lparr>ds_backend = b, ds_concurrency = Some c2, ds_pool = Some p2, ds_tracker = None\<rparr>)"
    for b :: "memory_backend \<times> string list"
    using c2 p2(1) by (simp add: ds_release_job_def ds_release_slot_def ds_release_resources_def seq_py_def bind_py_def)
  obtain s' j' where "bench_worker (run_once (with_log memory_ops) resource_config expires u clk) s =
      ((case rh of Inl e \<Rightarrow> Inl e | Inr _ \<Rightarrow> Inr True), s')"
      "bench_at s' (dict_set jobs (job_id j) j') (out @ [tag @ job_id j]) (Some c2) (Some p2) None"
      "same_submission j j'" "status j' = (if isl rh then FAILED else SUCCEEDED)"
    using bench_pass [OF at _ _ resource_cfg(1-4) cfg deq j(1,2) cons rel h, of expires u clk] by blast
  with slots pool show ?thesis by blast
qed

lemma pool_free_at: "bench_at s jobs out c (Some p) t \<Longrightarrow> check_pool p \<Longrightarrow> pool_free s"
  by (simp add: pool_free_def bench_at_results rp_can_acquire_def check_pool_def)

text \<open>The queue has one job to hand out.\<close>

lemma dequeue_only:
  assumes "filter (\<lambda>j. status j = QUEUED) (dict_values jobs) = [j]"
  shows "mem_dequeue 1 None None \<lparr>mb_jobs = jobs\<rparr> = (Inr [j], \<lparr>mb_jobs = jobs\<rparr>)"
  using assms by (simp add: mem_dequeue_def slice_to_def)

lemma resource_run:
  assumes "u1 \<noteq> u2"
  shows "\<exists>s'. run_resource_pool_conformance memory_ops u1 u2 clk (resource_bench new_memory_backend) = (Inr (), s')"
proof -
  let ?c = "new_concurrency_manager (default_limits\<lparr>global_max := 10, per_type_max := 5\<rparr>)"
  let ?p = "new_resource_pool (Some [(''llm-pool'', 1)])"
  let ?r1 = "resource_request ''resource_test''" and ?r2 = "resource_request ''resource_fail_test''"
  let ?j1 = "from_request u1 (clk 0 0) ?r1" and ?j2 = "from_request u2 (clk 2 0) ?r2"
  have ok: "check_slots ?c" "check_pool ?p"
    by (simp_all add: check_slots_def check_pool_def) (simp_all add: default_limits_def new_concurrency_manager_def new_resource_pool_def)
  have rq: "rq_idempotency_key (resource_request t) = None" "rq_depends_on (resource_request t) = []"
      "rq_job_type (resource_request t) = t" "rq_resources (resource_request t) = [(''llm-pool'', 1)]" for t
    by (simp_all add: resource_request_def default_request_def)
  have at0: "bench_at (resource_bench new_memory_backend) [] [] (Some ?c) (Some ?p) None"
    unfolding resource_bench_def by (rule bench_at_new)
  obtain s1 where s1: "bench_queue (jq_submit (with_log memory_ops) u1 (clk 0) ?r1) (resource_bench new_memory_backend) = (Inr u1, s1)"
      "bench_at s1 [(u1, ?j1)] [] (Some ?c) (Some ?p) None"
    using bench_submit [OF at0 resource_accepted(1) rq(1), where u = u1 and clk = "clk 0"] by auto
  obtain s2 j1 c1 p1 where s2: "bench_worker (run_once (with_log memory_ops) resource_config (\<lambda>_ _. None) [] (clk 1)) s1 = (Inr True, s2)"
      "bench_at s2 [(u1, j1)] [''success:'' @ u1] (Some c1) (Some p1) None" "check_slots c1" "check_pool p1" "status j1 = SUCCEEDED"
    using resource_pass [OF s1(2) ok, of ?j1 handler_success "Inr PNone" "''success:''" "\<lambda>_ _. None" "[]" "clk 1"]
      dequeue_only [of "[(u1, ?j1)]" ?j1] resource_cfg(5) by (auto simp: rq logging_handler_def handler_success_def)
  obtain s3 where s3: "bench_queue (jq_submit (with_log memory_ops) u2 (clk 2) ?r2) s2 = (Inr u2, s3)"
      "bench_at s3 [(u1, j1), (u2, ?j2)] [''success:'' @ u1] (Some c1) (Some p1) None"
    using bench_submit [OF s2(2) resource_accepted(1) rq(1), where u = u2 and clk = "clk 2"] assms by auto
  obtain s4 j2 c2 p2 where s4: "bench_worker (run_once (with_log memory_ops) resource_config (\<lambda>_ _. None) [] (clk 3)) s3 =
      (Inl (RuntimeError ''deliberate failure''), s4)"
      "bench_at s4 [(u1, j1), (u2, j2)] [''success:'' @ u1, ''fail:'' @ u2] (Some c2) (Some p2) None" "check_pool p2"
    using resource_pass [OF s3(2) s2(3,4), of ?j2 handler_fail "Inl (RuntimeError ''deliberate failure'')" "''fail:''" "\<lambda>_ _. None" "[]" "clk 3"]
      dequeue_only [of "[(u1, j1), (u2, ?j2)]" ?j2] resource_cfg(6) s2(5) assms by (auto simp: rq logging_handler_def handler_fail_def)
  have "run_resource_pool_conformance memory_ops u1 u2 clk (resource_bench new_memory_backend) = (Inr (), s4)"
    using s1(1) s2(1) s3(1) s4(1) bench_at_results [OF s2(2)] bench_at_results [OF s4(2)]
      pool_free_at [OF s2(2,4)] pool_free_at [OF s4(2,3)]
    by (simp add: run_resource_pool_conformance_def Let_def seq_py_def bind_py_def assert_py_def assert_bench_def
        try_except_def ret_def)
  then show ?thesis by blast
qed

subsection \<open>The dependency check\<close>

lemma dep_cfg:
  "wk_authoriser dep_config = None" "wk_run_timeout dep_config = None" "wk_fallback dep_config = None"
  "wk_queue_name dep_config = None" "dict_get (wk_handlers dep_config) ''dep_test'' = Some dep_handler"
  by (simp_all add: dep_config_def register_handler_def bench_config_def registry_register_def)

lemma dep_pass:
  assumes at: "bench_at s jobs out None None (Some t)" and type: "job_type j = ''dep_test''"
    and deq: "mem_dequeue 1 None None \<lparr>mb_jobs = jobs\<rparr> = (Inr [j], \<lparr>mb_jobs = jobs\<rparr>)"
    and j: "dict_get jobs (job_id j) = Some j" "status j = QUEUED"
    and deps: "depends_on j = [] \<or>
      (\<forall>d \<in> set (successors (dt_edges t) (job_id j)). map_option status (dict_get jobs d) = Some SUCCEEDED)"
  shows "\<exists>s' j'. bench_worker (run_once (with_log memory_ops) dep_config expires u clk) s = (Inr True, s') \<and>
    bench_at s' (dict_set jobs (job_id j) j') (out @ [job_id j]) None None (Some t) \<and>
    same_submission j j' \<and> status j' = SUCCEEDED"
proof -
  let ?d = "\<lparr>ds_backend = (\<lparr>mb_jobs = jobs\<rparr>, out), ds_concurrency = None, ds_pool = None, ds_tracker = Some t\<rparr>"
  have all: "all_succeeded (get_job_status (with_log memory_ops)) ds (\<lparr>mb_jobs = jobs\<rparr>, out) = (Inr True, (\<lparr>mb_jobs = jobs\<rparr>, out))"
    if "\<forall>d \<in> set ds. map_option status (dict_get jobs d) = Some SUCCEEDED" for ds
    using that by (induction ds) (simp_all add: ret_def get_job_status_def bind_py_def log_simps mem_get_def gets_def)
  have "ds_runnable (with_log memory_ops) j ?d = (Inr True, ?d)"
    using deps all by (auto simp: ds_runnable_def is_runnable_def ds_on_backend_def on_field_def Let_def ret_def)
  then have cons: "ds_consider (with_log memory_ops) j [] ?d = (Inr [j], ?d)"
    by (simp add: ds_consider_def ds_acquire_slot_def ds_acquire_resources_def bind_py_def ret_def)
  have rel: "ds_release_job j \<lparr>ds_backend = b, ds_concurrency = None, ds_pool = None, ds_tracker = Some t\<rparr> =
      (Inr (), \<lparr>ds_backend = b, ds_concurrency = None, ds_pool = None, ds_tracker = Some t\<rparr>)"
    for b :: "memory_backend \<times> string list"
    by (simp add: ds_release_job_def ds_release_slot_def ds_release_resources_def seq_py_def bind_py_def)
  have h: "logging_handler dep_handler (Inr PNone) []" by (simp add: logging_handler_def dep_handler_def)
  have cfg: "dict_get (wk_handlers dep_config) (job_type j) = Some dep_handler" using dep_cfg(5) type by simp
  show ?thesis
    using bench_pass [OF at _ _ dep_cfg(1-4) cfg deq j cons rel h, of expires u clk] by simp
qed

lemma dep_acyclic:
  assumes "dt_edges t = [] \<or> (\<exists>b ds. dt_edges t = [(b, ds)] \<and> b \<noteq> d)" and "d \<noteq> u"
  shows "\<not> detect_cycle t u [d]"
  using assms by (auto simp: detect_cycle_def dict_get_or_def)

lemma dependency_run:
  assumes dist: "distinct [ua, ub, uc, ud]" and clk: "clk 0 0 \<le> clk 1 0"
  shows "\<exists>s'. run_dependency_scheduler_conformance memory_ops ua ub uc ud clk (dep_bench new_memory_backend) = (Inr (), s')"
proof -
  let ?a = "from_request ua (clk 0 0) (dep_request [])" and ?b = "from_request ub (clk 1 0) (dep_request [ua])"
  let ?t = "\<lparr>dt_edges = [(ub, [ua])]\<rparr>" and ?ops = "with_log memory_ops"
  have rq: "rq_idempotency_key (dep_request d) = None" "rq_depends_on (dep_request d) = d"
      "rq_job_type (dep_request d) = ''dep_test''" "rq_priority (dep_request d) = 0" for d
    by (simp_all add: dep_request_def default_request_def)
  have at0: "bench_at (dep_bench new_memory_backend) [] [] None None (Some new_tracker)"
    unfolding dep_bench_def by (rule bench_at_new)
  obtain s1 where s1: "bench_queue (jq_submit ?ops ua (clk 0) (dep_request [])) (dep_bench new_memory_backend) = (Inr ua, s1)"
      "bench_at s1 [(ua, ?a)] [] None None (Some new_tracker)"
    using bench_submit [OF at0 resource_accepted(2) [of "[]"] rq(1), where u = ua and clk = "clk 0"]
    by (auto simp: rq detect_cycle_def)
  have "\<not> detect_cycle new_tracker ub [ua]" using dist by (intro dep_acyclic) (auto simp: new_tracker_def)
  then obtain s2 where s2: "bench_queue (jq_submit ?ops ub (clk 1) (dep_request [ua])) s1 = (Inr ub, s2)"
      "bench_at s2 [(ua, ?a), (ub, ?b)] [] None None (Some ?t)"
    using bench_submit [OF s1(2) resource_accepted(2) [of "[ua]"] rq(1), where u = ub and clk = "clk 1"] dist
    by (auto simp: rq new_tracker_def)
  have "mem_dequeue 1 None None \<lparr>mb_jobs = [(ua, ?a), (ub, ?b)]\<rparr> = (Inr [?a], \<lparr>mb_jobs = [(ua, ?a), (ub, ?b)]\<rparr>)"
    using clk by (simp add: mem_dequeue_def slice_to_def rq)
  then obtain s3 a' where s3: "bench_worker (run_once ?ops dep_config (\<lambda>_ _. None) [] (clk 2)) s2 = (Inr True, s3)"
      "bench_at s3 [(ua, a'), (ub, ?b)] [ua] None None (Some ?t)" "status a' = SUCCEEDED"
    using dep_pass [OF s2(2), of ?a "\<lambda>_ _. None" "[]" "clk 2"] by (auto simp: rq)
  have "mem_dequeue 1 None None \<lparr>mb_jobs = [(ua, a'), (ub, ?b)]\<rparr> = (Inr [?b], \<lparr>mb_jobs = [(ua, a'), (ub, ?b)]\<rparr>)"
    using s3(3) by (intro dequeue_only) simp
  then obtain s4 b' where s4: "bench_worker (run_once ?ops dep_config (\<lambda>_ _. None) [] (clk 3)) s3 = (Inr True, s4)"
      "bench_at s4 [(ua, a'), (ub, b')] [ua, ub] None None (Some ?t)"
    using dep_pass [OF s3(2), of ?b "\<lambda>_ _. None" "[]" "clk 3"] s3(3) dist by (auto simp: rq dict_get_or_def)
  obtain s5 jobs where s5: "bench_queue (jq_submit ?ops uc (clk 4) (dep_request [])) s4 = (Inr uc, s5)"
      "bench_at s5 jobs [ua, ub] None None (Some ?t)"
    using bench_submit [OF s4(2) resource_accepted(2) [of "[]"] rq(1), where u = uc and clk = "clk 4"]
    by (auto simp: rq detect_cycle_def)
  have "\<not> detect_cycle ?t ud [uc]" using dist by (intro dep_acyclic) auto
  then obtain s6 where s6: "bench_queue (jq_submit ?ops ud (clk 5) (dep_request [uc])) s5 = (Inr ud, s6)"
    using bench_submit [OF s5(2) resource_accepted(2) [of "[uc]"] rq(1), where u = ud and clk = "clk 5"]
    by (auto simp: rq)
  have "run_dependency_scheduler_conformance memory_ops ua ub uc ud clk (dep_bench new_memory_backend) = (Inr (), s6)"
    using s1(1) s2(1) s3(1) s4(1) s5(1) s6 bench_at_results [OF s3(2)] bench_at_results [OF s4(2)]
    by (simp add: run_dependency_scheduler_conformance_def Let_def seq_py_def bind_py_def assert_py_def assert_bench_def
        try_except_def ret_def)
  then show ?thesis by blast
qed

end
