(* ===== verification/Testing_Backend.thy ===== *)
theory Testing_Backend
  imports Memory_Backend
begin

section \<open>The testing backend, the fixtures and the abstract methods\<close>

text \<open>
  \<open>testing/mock_backends.py\<close> and \<open>testing/fixtures.py\<close>. The mock keeps one dictionary \<open>_jobs\<close>, as the
  in-memory backend does, and shares its state type. It leaves three abstract methods of \<open>QueueBackend\<close>
  undefined, so that only a subclass that adds them can be instantiated: they are parameters of
  \<open>mock_ops\<close>, and the locale \<open>completed_mock\<close> says what a subclass owes for them.
\<close>

subsection \<open>Methods of MockQueueBackend\<close>

definition mock_enqueue :: "job \<Rightarrow> (memory_backend, string) py" where
  "mock_enqueue j =
     (\<lambda>b. (Inr (job_id j), b\<lparr>mb_jobs := dict_set (mb_jobs b) (job_id j) j\<rparr>))"

text \<open>The filters are tested for truth: the empty string filters nothing.\<close>

definition mock_dequeue ::
  "int \<Rightarrow> string option \<Rightarrow> string option \<Rightarrow> (memory_backend, job list) py" where
  "mock_dequeue limit jt qn =
     (\<lambda>b. let jobs = filter (\<lambda>j. status j = QUEUED) (dict_values (mb_jobs b));
              jobs = (case jt of None \<Rightarrow> jobs
                      | Some t \<Rightarrow> if t = [] then jobs else filter (\<lambda>j. job_type j = t) jobs);
              jobs = (case qn of None \<Rightarrow> jobs
                      | Some q \<Rightarrow> if q = [] then jobs else filter (\<lambda>j. queue_name j = q) jobs)
          in (Inr (slice_to (sort_key (\<lambda>j. (- priority j, created_at j)) jobs) limit), b))"

definition mock_claim :: "time \<Rightarrow> string \<Rightarrow> string \<Rightarrow> string \<Rightarrow> (memory_backend, bool) py" where
  "mock_claim now jid host wkr =
     (\<lambda>b. case dict_get (mb_jobs b) jid of
        None \<Rightarrow> (Inr False, b)
      | Some j \<Rightarrow>
          if status j \<noteq> QUEUED then (Inr False, b)
          else (Inr True, b\<lparr>mb_jobs := dict_set (mb_jobs b) jid
                  (j\<lparr>status := RUNNING, claimed_by := Some (host @ '':'' @ wkr), updated_at := now\<rparr>)\<rparr>))"

definition mock_heartbeat :: "time \<Rightarrow> string \<Rightarrow> (memory_backend, bool) py" where
  "mock_heartbeat now jid =
     (\<lambda>b. case dict_get (mb_jobs b) jid of
        None \<Rightarrow> (Inr False, b)
      | Some j \<Rightarrow> (Inr True, b\<lparr>mb_jobs := dict_set (mb_jobs b) jid (j\<lparr>updated_at := now\<rparr>)\<rparr>))"

definition mock_get :: "string \<Rightarrow> (memory_backend, job option) py" where
  "mock_get jid = gets (\<lambda>b. dict_get (mb_jobs b) jid)"

text \<open>Every status but \<open>running\<close> also clears the claim.\<close>

definition mock_update_status :: "time \<Rightarrow> string \<Rightarrow> string \<Rightarrow> (memory_backend, bool) py" where
  "mock_update_status now jid st =
     (\<lambda>b. case dict_get (mb_jobs b) jid of
        None \<Rightarrow> (Inr False, b)
      | Some j \<Rightarrow>
          (case job_status_of st of
             Inl e \<Rightarrow> (Inl e, b)
           | Inr s \<Rightarrow>
               let j' = j\<lparr>status := s, updated_at := now\<rparr> in
               (Inr True, b\<lparr>mb_jobs := dict_set (mb_jobs b) jid
                  (if s \<noteq> RUNNING then j'\<lparr>claimed_by := None\<rparr> else j')\<rparr>)))"

definition mock_release :: "time \<Rightarrow> string \<Rightarrow> (memory_backend, bool) py" where
  "mock_release now jid = mock_update_status now jid (status_value QUEUED)"

definition mock_get_queue_status :: "(memory_backend, (string, int) dict) py" where
  "mock_get_queue_status =
     gets (\<lambda>b. counter (map (\<lambda>j. status_value (status j)) (dict_values (mb_jobs b))))"

definition mock_health_check :: "(memory_backend, bool) py" where
  "mock_health_check = ret True"

definition mock_all_jobs :: "(memory_backend, job list) py" where
  "mock_all_jobs = gets (\<lambda>b. dict_values (mb_jobs b))"

definition mock_ops ::
  "(time \<Rightarrow> string \<Rightarrow> string option \<Rightarrow> (memory_backend, bool) py) \<Rightarrow>
   (time \<Rightarrow> string \<Rightarrow> (string, pyval) dict \<Rightarrow> (memory_backend, bool) py) \<Rightarrow>
   (time \<Rightarrow> string \<Rightarrow> pyval \<Rightarrow> (memory_backend, bool) py) \<Rightarrow> memory_backend backend_ops" where
  "mock_ops record_attempt update_progress store_result =
     \<lparr>be_enqueue = mock_enqueue, be_dequeue = mock_dequeue, be_claim = mock_claim,
      be_release = mock_release, be_heartbeat = mock_heartbeat, be_get = mock_get,
      be_update_status = mock_update_status, be_get_queue_status = mock_get_queue_status,
      be_health_check = mock_health_check, be_all_jobs = mock_all_jobs,
      be_record_attempt = record_attempt, be_update_progress = update_progress,
      be_store_result = store_result, be_live = mem_live, be_poke = mem_poke\<rparr>"

subsection \<open>Fixtures\<close>

definition sample_job_request :: "string \<Rightarrow> string \<Rightarrow> int \<Rightarrow> job_request" where
  "sample_job_request jt qn prio =
     (default_request jt)\<lparr>rq_queue_name := qn, rq_payload := [(''value'', PStr ''ok'')], rq_priority := prio\<rparr>"

definition sample_job :: "string \<Rightarrow> time \<Rightarrow> string \<Rightarrow> string \<Rightarrow> int \<Rightarrow> job" where
  "sample_job uuid now jt qn prio = from_request uuid now (sample_job_request jt qn prio)"

subsection \<open>Abstract methods\<close>

text \<open>
  A class is instantiated only when it defines every abstract method of its bases. The names that
  \<open>QueueBackend\<close> declares abstract, and the names each class of the package defines.
\<close>

definition abstract_methods :: "string list" where
  "abstract_methods =
     [''enqueue'', ''dequeue'', ''claim'', ''release'', ''heartbeat'', ''get'', ''update_status'',
      ''get_queue_status'', ''health_check'', ''all_jobs'', ''record_attempt'', ''update_progress'', ''store_result'']"

datatype backend_class = MemoryQueueBackend | SQLQueueBackend | RedisQueueBackend | HybridQueueBackend | MockQueueBackend

fun class_methods :: "backend_class \<Rightarrow> string list" where
  "class_methods MemoryQueueBackend =
     [''enqueue'', ''dequeue'', ''claim'', ''release'', ''heartbeat'', ''get'', ''update_status'', ''get_queue_status'',
      ''health_check'', ''all_jobs'', ''record_attempt'', ''update_progress'', ''store_result'']"
| "class_methods SQLQueueBackend =
     [''enqueue'', ''dequeue'', ''claim'', ''release'', ''heartbeat'', ''get'', ''update_status'', ''get_queue_status'',
      ''health_check'', ''all_jobs'', ''record_attempt'', ''update_progress'', ''store_result'', ''close'']"
| "class_methods RedisQueueBackend =
     [''_job_to_hash'', ''_hash_to_job'', ''_job_key'', ''_lease_key'', ''enqueue'', ''dequeue'', ''claim'', ''release'',
      ''heartbeat'', ''get'', ''update_status'', ''get_queue_status'', ''health_check'', ''all_jobs'', ''record_attempt'',
      ''update_progress'', ''store_result'', ''reap_expired_leases'', ''lease_ttl'', ''close'', ''clear_prefix'']"
| "class_methods HybridQueueBackend =
     [''enqueue'', ''dequeue'', ''claim'', ''release'', ''heartbeat'', ''get'', ''update_status'', ''get_queue_status'',
      ''health_check'', ''all_jobs'', ''record_attempt'', ''update_progress'', ''store_result'']"
| "class_methods MockQueueBackend =
     [''enqueue'', ''dequeue'', ''claim'', ''release'', ''heartbeat'', ''get'', ''update_status'', ''get_queue_status'',
      ''health_check'', ''all_jobs'']"

definition missing_methods :: "backend_class \<Rightarrow> string list" where
  "missing_methods c = filter (\<lambda>m. m \<notin> set (class_methods c)) abstract_methods"

definition instantiable :: "backend_class \<Rightarrow> bool" where
  "instantiable c \<longleftrightarrow> missing_methods c = []"

subsection \<open>A completed mock meets the contract\<close>

text \<open>What a subclass owes for the three methods: they answer, and are bookkeeping only.\<close>

locale completed_mock =
  fixes att :: "time \<Rightarrow> string \<Rightarrow> string option \<Rightarrow> (memory_backend, bool) py"
    and prog :: "time \<Rightarrow> string \<Rightarrow> (string, pyval) dict \<Rightarrow> (memory_backend, bool) py"
    and res :: "time \<Rightarrow> string \<Rightarrow> pyval \<Rightarrow> (memory_backend, bool) py"
  assumes att_law: "mem_inv b \<Longrightarrow>
      \<exists>ok b'. att now jid err b = (Inr ok, b') \<and> mem_inv b' \<and> touched (mem_view b) (mem_view b')"
    and prog_law: "mem_inv b \<Longrightarrow>
      \<exists>ok b'. prog now jid p b = (Inr ok, b') \<and> mem_inv b' \<and> touched (mem_view b) (mem_view b')"
    and res_law: "mem_inv b \<Longrightarrow>
      \<exists>r b'. res now jid v b = (r, b') \<and> mem_inv b' \<and> touched (mem_view b) (mem_view b')"

lemma mock_dequeue_eq: "jt \<noteq> Some [] \<Longrightarrow> qn \<noteq> Some [] \<Longrightarrow> mock_dequeue n jt qn = mem_dequeue n jt qn"
  by (rule ext) (auto simp: mock_dequeue_def mem_dequeue_def Let_def intro!: arg_cong [of _ _ "\<lambda>js. slice_to js n"]
      arg_cong [of _ _ "sort_key _"] filter_cong split: option.split)

lemma mock_update_status_eq:
  "mock_update_status now k (status_value s) = mem_write k
     (\<lambda>j. if s \<noteq> RUNNING then j\<lparr>status := s, updated_at := now, claimed_by := None\<rparr> else j\<lparr>status := s, updated_at := now\<rparr>)"
  by (rule ext) (simp add: mock_update_status_def mem_write_def Let_def split: option.splits)

lemma mock_same: "mock_enqueue = mem_enqueue" "mock_claim = mem_claim" "mock_heartbeat = mem_heartbeat"
    "mock_get = mem_get" "mock_all_jobs = mem_all_jobs"
  by (intro ext; simp add: mock_enqueue_def mem_enqueue_def mock_claim_def mem_claim_def mock_heartbeat_def
      mem_heartbeat_def mem_write_def mock_get_def mem_get_def mock_all_jobs_def mem_all_jobs_def)+

lemma memory_fields:
  "be_enqueue memory_ops = mem_enqueue" "be_claim memory_ops = mem_claim" "be_heartbeat memory_ops = mem_heartbeat"
  "be_get memory_ops = mem_get" "be_all_jobs memory_ops = mem_all_jobs" "be_dequeue memory_ops = mem_dequeue"
  "be_live memory_ops = mem_live" "be_poke memory_ops = mem_poke"
  by (simp_all add: memory_ops_def)

lemma mock_fields:
  "be_enqueue (mock_ops a p r) = mem_enqueue" "be_claim (mock_ops a p r) = mem_claim"
  "be_heartbeat (mock_ops a p r) = mem_heartbeat" "be_get (mock_ops a p r) = mem_get"
  "be_all_jobs (mock_ops a p r) = mem_all_jobs" "be_dequeue (mock_ops a p r) = mock_dequeue"
  "be_live (mock_ops a p r) = mem_live" "be_poke (mock_ops a p r) = mem_poke"
  "be_release (mock_ops a p r) = mock_release" "be_update_status (mock_ops a p r) = mock_update_status"
  "be_record_attempt (mock_ops a p r) = a" "be_update_progress (mock_ops a p r) = p" "be_store_result (mock_ops a p r) = r"
  by (simp_all add: mock_ops_def mock_same)

sublocale completed_mock \<subseteq> mockb: queue_backend "mock_ops att prog res" mem_inv mem_view "\<lambda>j. j"
proof (unfold_locales, unfold mock_fields, goal_cases)
  case (1 b jid)
  then show ?case by (rule memb.get_law [unfolded memory_fields])
next
  case (2 b jid j)
  then show ?case by (rule mem_view_id)
next
  case (3 b j)
  then show ?case by (rule memb.enqueue_fresh [unfolded memory_fields])
next
  case (4 b j r b')
  then show ?case by (rule memb.enqueue_frame [unfolded memory_fields])
next
  case (5 j)
  show ?case by simp
next
  case (6 b n jt qn)
  then show ?case using mem_dequeue_sound [of b n jt qn] by (simp add: mock_dequeue_eq)
next
  case (7 b jid j now h w)
  then show ?case by (rule memb.claim_won [unfolded memory_fields])
next
  case (8 b jid now h w)
  then show ?case by (rule memb.claim_lost [unfolded memory_fields])
next
  case (9 b jid j now s)
  show ?case unfolding mock_update_status_eq
    by (rule mem_write_to [OF 9, where P = "\<lambda>j. status j = s"]) (simp_all add: same_submission_def)
next
  case (10 b jid now s)
  then show ?case unfolding mock_update_status_eq by (simp add: mem_write_absent)
next
  case (11 b jid j now)
  show ?case unfolding mock_release_def mock_update_status_eq
    by (rule mem_write_to [OF 11, where P = "\<lambda>j. status j = QUEUED \<and> claimed_by j = None"])
      (simp_all add: same_submission_def)
next
  case (12 b jid now)
  then show ?case unfolding mock_release_def mock_update_status_eq by (simp add: mem_write_absent)
next
  case (13 b now jid)
  then show ?case by (rule memb.heartbeat_law [unfolded memory_fields])
next
  case (14 b now jid err)
  then show ?case by (rule att_law)
next
  case (15 b now jid p)
  then show ?case by (rule prog_law)
next
  case (16 b now jid v)
  then show ?case by (rule res_law)
next
  case (17 b j j')
  then show ?case by (rule memb.live_law [unfolded memory_fields])
next
  case (18 b jid j f)
  then show ?case by (rule memb.poke_law [unfolded memory_fields])
next
  case (19 b j)
  then show ?case by (rule memb.live_id [unfolded memory_fields])
qed

sublocale completed_mock \<subseteq> mockb: listing_backend "mock_ops att prog res" mem_inv mem_view "\<lambda>j. j"
  by (unfold_locales, unfold mock_fields) (rule memb.all_jobs_law [unfolded memory_fields])

sublocale completed_mock \<subseteq> mockb: ordered_backend "mock_ops att prog res" mem_inv mem_view "\<lambda>j. j"
proof (unfold_locales, unfold mock_fields, goal_cases)
  case (1 b n jt qn js)
  then show ?case using memb.dequeue_sorted [of b n jt qn js] by (simp add: memory_fields mock_dequeue_eq)
next
  case (2 b n jt qn js i j)
  then show ?case using memb.dequeue_complete [of b n jt qn js i j] by (simp add: memory_fields mock_dequeue_eq)
qed

context completed_mock
begin

lemma mock_contract:
  "ordered_backend (mock_ops att prog res) mem_inv mem_view (\<lambda>j. j)"
  "listing_backend (mock_ops att prog res) mem_inv mem_view (\<lambda>j. j)"
  by (rule mockb.ordered_backend_axioms, rule mockb.listing_backend_axioms)

end

text \<open>A subclass that takes the three methods from the in-memory backend.\<close>

interpretation memmock: completed_mock mem_record_attempt mem_update_progress mem_store_result
  by unfold_locales (rule memb.attempt_law [unfolded memory_ops_def, simplified]
      memb.progress_law [unfolded memory_ops_def, simplified] memb.result_law [unfolded memory_ops_def, simplified], assumption)+

end
