(* ===== verification/Callback.thy ===== *)
theory Callback
  imports Py_Text
begin

section \<open>Callbacks\<close>

text \<open>
  \<open>callbacks/manager.py\<close> and \<open>validate_callback_url\<close> of \<open>security/validation.py\<close>. A manager keeps its
  registrations in a dictionary and, when it has a database, in the table \<open>job_callbacks\<close>; the
  statements on that table are the parameter \<open>callback_table\<close>, and \<open>None\<close> stands for a manager
  without a database. The requester and the sleeper are parameters that take the number of the
  attempt, so that each attempt can go its own way, and the calls on them are kept in order in
  \<open>cb_calls\<close>, as what the outside sees of a manager; the floats of a policy are identified by their
  \<open>repr\<close>, and their arithmetic is the parameter \<open>float_ops\<close>, in which \<open>**\<close> may raise
  \<open>OverflowError\<close>. The registration that \<open>_deliver\<close> changes is the object in the dictionary: the loop
  writes it back after every change.
\<close>

subsection \<open>Callback addresses\<close>

text \<open>
  The scheme that \<open>urlparse\<close> finds: leading blanks and control characters and all tabs and line breaks
  are dropped, the scheme ends at the first colon and is lower-cased. An unbalanced bracket in the
  network location raises. Bracketed hosts are not parsed further.
\<close>

definition url_clean :: "string \<Rightarrow> string" where
  "url_clean s =
     filter (\<lambda>c. (of_char c :: nat) \<notin> {9, 10, 13}) (dropWhile (\<lambda>c. (of_char c :: nat) \<le> 32) s)"

definition ascii_alpha :: "char \<Rightarrow> bool" where
  "ascii_alpha c \<longleftrightarrow> (let n = (of_char c :: nat) in 65 \<le> n \<and> n \<le> 90 \<or> 97 \<le> n \<and> n \<le> 122)"

definition scheme_char :: "char \<Rightarrow> bool" where
  "scheme_char c \<longleftrightarrow>
     ascii_alpha c \<or> 48 \<le> (of_char c :: nat) \<and> (of_char c :: nat) \<le> 57 \<or> c \<in> set ''+-.''"

definition split_scheme :: "string \<Rightarrow> string \<times> string" where
  "split_scheme u =
     (let p = takeWhile (\<lambda>c. c \<noteq> CHR '':'') u in
      if p \<noteq> u \<and> p \<noteq> [] \<and> ascii_alpha (hd p) \<and> list_all scheme_char p
      then (py_lower p, drop (length p + 1) u) else ([], u))"

definition netloc :: "string \<Rightarrow> string" where
  "netloc rest = (if starts_with ''//'' rest then takeWhile (\<lambda>c. c \<notin> set ''/?#'') (drop 2 rest) else [])"

definition urlparse_scheme :: "string \<Rightarrow> exn + string" where
  "urlparse_scheme url =
     (let (scheme, rest) = split_scheme (url_clean url);
          loc = netloc rest
      in if (CHR ''['' \<in> set loc) \<noteq> (CHR '']'' \<in> set loc) then Inl (ValueError ''Invalid IPv6 URL'')
         else Inr scheme)"

definition validate_callback_url :: "string \<Rightarrow> exn + unit" where
  "validate_callback_url url =
     (case urlparse_scheme url of
        Inl e \<Rightarrow> Inl e
      | Inr scheme \<Rightarrow>
          if scheme \<notin> {''http'', ''https''}
          then Inl (ValueError ''Only http/https callback URLs are allowed'') else Inr ())"

subsection \<open>Data\<close>

record retry_policy =
  rt_max_attempts :: int
  rt_base_delay :: string
  rt_max_delay :: string
  rt_multiplier :: string

definition default_retry :: retry_policy where
  "default_retry = \<lparr>rt_max_attempts = 3, rt_base_delay = ''0.1'', rt_max_delay = ''2.0'', rt_multiplier = ''2.0''\<rparr>"

text \<open>A policy given as a dictionary: the keys that are present, with values of the declared types.\<close>

record policy_dict =
  pd_max_attempts :: "int option"
  pd_base_delay :: "string option"
  pd_max_delay :: "string option"
  pd_multiplier :: "string option"

datatype policy_arg = NoPolicy | PolicyObject retry_policy | PolicyDict policy_dict

record callback_registration =
  cb_url :: string
  cb_method :: string
  cb_headers :: "(string, string) dict"
  cb_retry :: retry_policy
  cb_attempt_count :: int
  cb_last_error :: "string option"

definition new_registration :: "string \<Rightarrow> callback_registration" where
  "new_registration url =
     \<lparr>cb_url = url, cb_method = ''POST'', cb_headers = [], cb_retry = default_retry,
      cb_attempt_count = 0, cb_last_error = None\<rparr>"

record callback_row =
  cr_job_id :: string
  cr_callback_url :: string
  cr_method :: string
  cr_headers :: "(string, string) dict"
  cr_retry_policy :: policy_dict
  cr_attempt_count :: int
  cr_last_error :: "string option"
  cr_created_at :: time
  cr_updated_at :: time

record 'd callback_table =
  ct_select :: "(callback_row \<Rightarrow> bool) \<Rightarrow> ('d, callback_row list) py"
  ct_insert :: "callback_row \<Rightarrow> ('d, unit) py"
  ct_update :: "(callback_row \<Rightarrow> bool) \<Rightarrow> (callback_row \<Rightarrow> callback_row) \<Rightarrow> ('d, unit) py"
  ct_delete :: "(callback_row \<Rightarrow> bool) \<Rightarrow> ('d, unit) py"

datatype callback_effect =
    Requested string string "(string, pyval) dict" "(string, string) dict"
  | Slept string

record 'd callback_manager =
  cb_registry :: "(string, callback_registration) dict"
  cb_db :: 'd
  cb_calls :: "callback_effect list"

definition new_callback_manager :: "'d \<Rightarrow> 'd callback_manager" where
  "new_callback_manager d = \<lparr>cb_registry = [], cb_db = d, cb_calls = []\<rparr>"

record float_ops =
  fl_pow :: "string \<Rightarrow> int \<Rightarrow> exn + string"
  fl_mul :: "string \<Rightarrow> string \<Rightarrow> string"
  fl_min :: "string \<Rightarrow> string \<Rightarrow> string"

definition cb_sql :: "('d, 'a) py \<Rightarrow> ('d callback_manager, 'a) py" where
  "cb_sql m = on_field cb_db (\<lambda>d c. c\<lparr>cb_db := d\<rparr>) m"

definition cb_put :: "string \<Rightarrow> callback_registration \<Rightarrow> ('d callback_manager, unit) py" where
  "cb_put jid reg = modify (\<lambda>c. c\<lparr>cb_registry := dict_set (cb_registry c) jid reg\<rparr>)"

definition cb_log :: "callback_effect \<Rightarrow> ('d callback_manager, unit) py" where
  "cb_log x = modify (\<lambda>c. c\<lparr>cb_calls := cb_calls c @ [x]\<rparr>)"

subsection \<open>Policies\<close>

definition or_default :: "'a option \<Rightarrow> 'a \<Rightarrow> 'a" where
  "or_default x d = (case x of None \<Rightarrow> d | Some v \<Rightarrow> v)"

fun normalise_retry_policy :: "policy_arg \<Rightarrow> retry_policy" where
  "normalise_retry_policy NoPolicy = default_retry"
| "normalise_retry_policy (PolicyObject p) = p"
| "normalise_retry_policy (PolicyDict d) =
     \<lparr>rt_max_attempts = or_default (pd_max_attempts d) 3, rt_base_delay = or_default (pd_base_delay d) ''0.1'',
      rt_max_delay = or_default (pd_max_delay d) ''2.0'', rt_multiplier = or_default (pd_multiplier d) ''2.0''\<rparr>"

definition delay_for_attempt :: "float_ops \<Rightarrow> retry_policy \<Rightarrow> int \<Rightarrow> exn + string" where
  "delay_for_attempt fl p a =
     (case fl_pow fl (rt_multiplier p) (max 0 (a - 1)) of
        Inl e \<Rightarrow> Inl e
      | Inr x \<Rightarrow> Inr (fl_min fl (rt_max_delay p) (fl_mul fl (rt_base_delay p) x)))"

subsection \<open>Persistence\<close>

definition registration_of_row :: "callback_row \<Rightarrow> callback_registration" where
  "registration_of_row r =
     \<lparr>cb_url = cr_callback_url r, cb_method = cr_method r, cb_headers = cr_headers r,
      cb_retry = normalise_retry_policy (PolicyDict (cr_retry_policy r)),
      cb_attempt_count = cr_attempt_count r, cb_last_error = cr_last_error r\<rparr>"

definition load_persisted :: "'d callback_table option \<Rightarrow> ('d callback_manager, unit) py" where
  "load_persisted tb =
     (case tb of
        None \<Rightarrow> ret ()
      | Some t \<Rightarrow>
          bind_py (cb_sql (ct_select t (\<lambda>_. True)))
            (\<lambda>rows. fold_py (\<lambda>r _. cb_put (cr_job_id r) (registration_of_row r)) rows ()))"

definition row_of_registration :: "time \<Rightarrow> string \<Rightarrow> callback_registration \<Rightarrow> callback_row" where
  "row_of_registration now jid reg =
     \<lparr>cr_job_id = jid, cr_callback_url = cb_url reg, cr_method = cb_method reg, cr_headers = cb_headers reg,
      cr_retry_policy =
        \<lparr>pd_max_attempts = Some (rt_max_attempts (cb_retry reg)), pd_base_delay = Some (rt_base_delay (cb_retry reg)),
         pd_max_delay = Some (rt_max_delay (cb_retry reg)), pd_multiplier = Some (rt_multiplier (cb_retry reg))\<rparr>,
      cr_attempt_count = cb_attempt_count reg, cr_last_error = cb_last_error reg,
      cr_created_at = now, cr_updated_at = now\<rparr>"

definition cb_persist ::
  "'d callback_table option \<Rightarrow> time \<Rightarrow> string \<Rightarrow> callback_registration \<Rightarrow> ('d callback_manager, unit) py" where
  "cb_persist tb now jid reg =
     (case tb of
        None \<Rightarrow> ret ()
      | Some t \<Rightarrow>
          cb_sql (bind_py (ct_select t (\<lambda>r. cr_job_id r = jid))
            (\<lambda>existing.
               if existing = [] then ct_insert t (row_of_registration now jid reg)
               else ct_update t (\<lambda>r. cr_job_id r = jid)
                      (\<lambda>r. (row_of_registration now jid reg)\<lparr>cr_created_at := cr_created_at r\<rparr>))))"

definition persist_attempt ::
  "'d callback_table option \<Rightarrow> time \<Rightarrow> string \<Rightarrow> callback_registration \<Rightarrow> ('d callback_manager, unit) py" where
  "persist_attempt tb now jid reg =
     (case tb of
        None \<Rightarrow> ret ()
      | Some t \<Rightarrow>
          cb_sql (ct_update t (\<lambda>r. cr_job_id r = jid)
            (\<lambda>r. r\<lparr>cr_attempt_count := cb_attempt_count reg, cr_last_error := cb_last_error reg,
                   cr_updated_at := now\<rparr>)))"

subsection \<open>Registration\<close>

definition register_callback ::
  "'d callback_table option \<Rightarrow> time \<Rightarrow> string \<Rightarrow> string \<Rightarrow> (string, string) dict option \<Rightarrow> policy_arg \<Rightarrow>
   ('d callback_manager, unit) py" where
  "register_callback tb now jid url headers pol =
     seq_py (\<lambda>c. (validate_callback_url url, c))
       (let reg = (new_registration url)\<lparr>cb_headers := or_default headers [], cb_retry := normalise_retry_policy pol\<rparr> in
        seq_py (cb_put jid reg) (cb_persist tb now jid reg))"

definition cb_register ::
  "'d callback_table option \<Rightarrow> time \<Rightarrow> string \<Rightarrow> string \<Rightarrow> string \<Rightarrow> (string, string) dict option \<Rightarrow>
   ('d callback_manager, unit) py" where
  "cb_register tb now jid url meth headers =
     seq_py (\<lambda>c. (validate_callback_url url, c))
       (let reg = (new_registration url)\<lparr>cb_method := meth, cb_headers := or_default headers []\<rparr> in
        seq_py (cb_put jid reg) (cb_persist tb now jid reg))"

definition cb_unregister :: "'d callback_table option \<Rightarrow> string \<Rightarrow> ('d callback_manager, bool) py" where
  "cb_unregister tb jid =
     (\<lambda>c. seq_py (modify (\<lambda>c. c\<lparr>cb_registry := dict_pop (cb_registry c) jid\<rparr>))
        (seq_py (case tb of None \<Rightarrow> ret () | Some t \<Rightarrow> cb_sql (ct_delete t (\<lambda>r. cr_job_id r = jid)))
           (ret (dict_get (cb_registry c) jid \<noteq> None))) c)"

subsection \<open>Delivery\<close>

type_synonym requester =
  "int \<Rightarrow> string \<Rightarrow> string \<Rightarrow> (string, pyval) dict \<Rightarrow> (string, string) dict \<Rightarrow> exn + int"

record 'd delivery_env =
  de_table :: "'d callback_table option"
  de_request :: requester
  de_sleep :: "int \<Rightarrow> string \<Rightarrow> exn + unit"
  de_float :: float_ops
  de_clk :: "int \<Rightarrow> nat \<Rightarrow> time"

text \<open>The body of the \<open>try\<close>: the answer and the registration as the body leaves it.\<close>

definition send_attempt ::
  "'d delivery_env \<Rightarrow> string \<Rightarrow> (string, pyval) dict \<Rightarrow> int \<Rightarrow> callback_registration \<Rightarrow>
   ('d callback_manager, bool \<times> callback_registration) py" where
  "send_attempt env jid body a cb =
     seq_py (cb_log (Requested (cb_method cb) (cb_url cb) body (cb_headers cb)))
     (case de_request env a (cb_method cb) (cb_url cb) body (cb_headers cb) of
        Inl e \<Rightarrow> raise_exn e
      | Inr code \<Rightarrow>
          if 200 \<le> code \<and> code < 300
          then let cb' = cb\<lparr>cb_last_error := None\<rparr> in
               seq_py (cb_put jid cb')
                 (seq_py (persist_attempt (de_table env) (de_clk env a 0) jid cb') (ret (True, cb')))
          else let cb' = cb\<lparr>cb_last_error := Some (''HTTP '' @ int_str code)\<rparr> in
               seq_py (cb_put jid cb') (ret (False, cb')))"

definition deliver_pause :: "'d delivery_env \<Rightarrow> retry_policy \<Rightarrow> int \<Rightarrow> ('d callback_manager, unit) py" where
  "deliver_pause env pol a =
     (if a < rt_max_attempts pol
      then (case delay_for_attempt (de_float env) pol a of
              Inl e \<Rightarrow> raise_exn e
            | Inr s \<Rightarrow> seq_py (cb_log (Slept s)) (\<lambda>c. (de_sleep env a s, c)))
      else ret ())"

fun deliver_loop ::
  "'d delivery_env \<Rightarrow> string \<Rightarrow> (string, pyval) dict \<Rightarrow> retry_policy \<Rightarrow> int list \<Rightarrow> callback_registration \<Rightarrow>
   ('d callback_manager, bool) py" where
  "deliver_loop env jid body pol [] cb = ret False"
| "deliver_loop env jid body pol (a # as) cb =
     (let cb1 = cb\<lparr>cb_attempt_count := cb_attempt_count cb + 1\<rparr> in
      seq_py (cb_put jid cb1)
        (bind_py (try_except (send_attempt env jid body a cb1)
             (\<lambda>e. let cb2 = cb1\<lparr>cb_last_error := Some (exn_str e)\<rparr> in
                  seq_py (cb_put jid cb2) (ret (False, cb2))))
           (\<lambda>(done, cb2).
              if done then ret True
              else seq_py (persist_attempt (de_table env) (de_clk env a 1) jid cb2)
                     (seq_py (deliver_pause env pol a) (deliver_loop env jid body pol as cb2)))))"

definition cb_deliver ::
  "'d delivery_env \<Rightarrow> string \<Rightarrow> callback_registration \<Rightarrow> (string, pyval) dict \<Rightarrow> retry_policy \<Rightarrow>
   ('d callback_manager, bool) py" where
  "cb_deliver env jid cb body pol = deliver_loop env jid body pol [1..max 1 (rt_max_attempts pol)] cb"

definition cb_trigger ::
  "'d delivery_env \<Rightarrow> string \<Rightarrow> (string, pyval) dict \<Rightarrow> int \<Rightarrow> ('d callback_manager, bool) py" where
  "cb_trigger env jid body retries =
     (\<lambda>c. case dict_get (cb_registry c) jid of
        None \<Rightarrow> (Inr False, c)
      | Some cb \<Rightarrow> cb_deliver env jid cb body ((cb_retry cb)\<lparr>rt_max_attempts := max 1 (retries + 1)\<rparr>) c)"

definition completion_payload ::
  "string \<Rightarrow> string \<Rightarrow> (string, pyval) dict option \<Rightarrow> int \<Rightarrow> (string, pyval) dict" where
  "completion_payload jid st summary duration =
     [(''job_id'', PStr jid), (''status'', PStr st), (''result_summary'', PDict (or_default summary [])),
      (''duration_ms'', PInt duration)]"

definition trigger_job_completion ::
  "'d delivery_env \<Rightarrow> string \<Rightarrow> string \<Rightarrow> (string, pyval) dict option \<Rightarrow> int \<Rightarrow> ('d callback_manager, bool) py" where
  "trigger_job_completion env jid st summary duration =
     (\<lambda>c. case dict_get (cb_registry c) jid of
        None \<Rightarrow> (Inr False, c)
      | Some cb \<Rightarrow> cb_deliver env jid cb (completion_payload jid st summary duration) (cb_retry cb) c)"

text \<open>Any sequence of calls on one manager; a call that raises leaves the manager in use.\<close>

datatype 'd callback_call =
    CallRegister time string string "(string, string) dict option" policy_arg
  | CallRegisterMethod time string string string "(string, string) dict option"
  | CallUnregister string
  | CallTrigger "'d delivery_env" string "(string, pyval) dict" int
  | CallCompletion "'d delivery_env" string string "(string, pyval) dict option" int

fun do_callback :: "'d callback_table \<Rightarrow> 'd callback_call \<Rightarrow> 'd callback_manager \<Rightarrow> 'd callback_manager" where
  "do_callback t (CallRegister now jid url headers pol) c = snd (register_callback (Some t) now jid url headers pol c)"
| "do_callback t (CallRegisterMethod now jid url meth headers) c = snd (cb_register (Some t) now jid url meth headers c)"
| "do_callback t (CallUnregister jid) c = snd (cb_unregister (Some t) jid c)"
| "do_callback t (CallTrigger env jid body retries) c = snd (cb_trigger (env\<lparr>de_table := Some t\<rparr>) jid body retries c)"
| "do_callback t (CallCompletion env jid st summary dur) c =
     snd (trigger_job_completion (env\<lparr>de_table := Some t\<rparr>) jid st summary dur c)"

subsection \<open>What a delivery does\<close>

definition accepted :: "exn + int \<Rightarrow> bool" where
  "accepted answer \<longleftrightarrow> (case answer of Inl _ \<Rightarrow> False | Inr code \<Rightarrow> 200 \<le> code \<and> code < 300)"

definition answer_to ::
  "'d delivery_env \<Rightarrow> callback_registration \<Rightarrow> (string, pyval) dict \<Rightarrow> int \<Rightarrow> exn + int" where
  "answer_to env cb body a = de_request env a (cb_method cb) (cb_url cb) body (cb_headers cb)"

definition error_of :: "exn + int \<Rightarrow> string option" where
  "error_of answer =
     (case answer of
        Inl e \<Rightarrow> Some (exn_str e)
      | Inr code \<Rightarrow> if accepted answer then None else Some (''HTTP '' @ int_str code))"

definition request_of :: "callback_registration \<Rightarrow> (string, pyval) dict \<Rightarrow> callback_effect" where
  "request_of cb body = Requested (cb_method cb) (cb_url cb) body (cb_headers cb)"

definition tried :: "callback_registration \<Rightarrow> int \<Rightarrow> string option \<Rightarrow> callback_registration" where
  "tried cb n err = cb\<lparr>cb_attempt_count := cb_attempt_count cb + n, cb_last_error := err\<rparr>"

definition quiet :: "'d callback_table option \<Rightarrow> bool" where
  "quiet tb \<longleftrightarrow> (\<forall>now jid reg c. \<exists>d. persist_attempt tb now jid reg c = (Inr (), c\<lparr>cb_db := d\<rparr>))"

definition no_delay_error :: "'d delivery_env \<Rightarrow> bool" where
  "no_delay_error env \<longleftrightarrow> (\<forall>a s. de_sleep env a s = Inr ()) \<and> (\<forall>x n. \<exists>y. fl_pow (de_float env) x n = Inr y)"

lemma quiet_None [simp]: "quiet None"
  unfolding quiet_def
proof (intro allI)
  fix now jid reg and c :: "'d callback_manager"
  show "\<exists>d. persist_attempt None now jid reg c = (Inr (), c\<lparr>cb_db := d\<rparr>)"
    by (rule exI [of _ "cb_db c"]) (simp add: persist_attempt_def ret_def)
qed

lemma tried_simps [simp]:
  "cb_url (tried cb n e) = cb_url cb" "cb_method (tried cb n e) = cb_method cb"
  "cb_headers (tried cb n e) = cb_headers cb" "cb_retry (tried cb n e) = cb_retry cb"
  "cb_attempt_count (tried cb n e) = cb_attempt_count cb + n" "cb_last_error (tried cb n e) = e"
  "tried (tried cb n e) n' e' = tried cb (n + n') e'"
  by (simp_all add: tried_def)

lemma answer_tried [simp]: "answer_to env (tried cb n e) body a = answer_to env cb body a"
  by (simp add: answer_to_def)

lemma request_tried [simp]: "request_of (tried cb n e) body = request_of cb body"
  by (simp add: request_of_def)

lemma error_of_None: "error_of answer = None \<longleftrightarrow> accepted answer"
  by (auto simp: error_of_def accepted_def split: sum.split)

lemma cb_log_run: "cb_log x c = (Inr (), c\<lparr>cb_calls := cb_calls c @ [x]\<rparr>)"
  by (simp add: cb_log_def modify_def)

lemma cb_put_run: "cb_put jid reg c = (Inr (), c\<lparr>cb_registry := dict_set (cb_registry c) jid reg\<rparr>)"
  by (simp add: cb_put_def modify_def)

definition pause_of :: "'d delivery_env \<Rightarrow> retry_policy \<Rightarrow> int \<Rightarrow> string" where
  "pause_of env pol a = projr (delay_for_attempt (de_float env) pol a)"

lemma pause_of_delay:
  assumes "no_delay_error env"
  shows "delay_for_attempt (de_float env) pol a = Inr (pause_of env pol a)"
proof -
  obtain y where "fl_pow (de_float env) (rt_multiplier pol) (max 0 (a - 1)) = Inr y"
    using assms unfolding no_delay_error_def by blast
  then show ?thesis by (simp add: pause_of_def delay_for_attempt_def)
qed

lemma deliver_pause_run:
  assumes "no_delay_error env"
  shows "deliver_pause env pol a c =
    (Inr (), if a < rt_max_attempts pol then c\<lparr>cb_calls := cb_calls c @ [Slept (pause_of env pol a)]\<rparr> else c)"
  using assms pause_of_delay [OF assms]
  by (simp add: deliver_pause_def no_delay_error_def ret_def seq_py_def bind_py_def cb_log_run)

lemma deliver_pause_keeps:
  "\<exists>r l. deliver_pause env pol a c = (r, c\<lparr>cb_calls := l\<rparr>)"
  by (auto simp: deliver_pause_def ret_def raise_exn_def seq_py_def bind_py_def cb_log_run
      intro: exI [of _ "cb_calls c"] split: sum.split)

lemma dict_set_twice [simp]: "dict_set (dict_set d k v) k w = dict_set d k w"
  by (induction d k v rule: dict_set.induct) auto

text \<open>
  One pass of the loop, up to the pause: the attempt is counted, its error is noted, both are written to
  the table, and the delivery ends when the answer was accepted.
\<close>

definition noted ::
  "'d callback_table option \<Rightarrow> time \<Rightarrow> string \<Rightarrow> callback_registration \<Rightarrow> 'd callback_manager \<Rightarrow> 'd callback_manager" where
  "noted tb now jid reg c =
     snd (persist_attempt tb now jid reg (c\<lparr>cb_registry := dict_set (cb_registry c) jid reg\<rparr>))"

lemma quiet_noted:
  assumes "quiet tb"
  shows "persist_attempt tb now jid reg (c\<lparr>cb_registry := dict_set (cb_registry c) jid reg\<rparr>) =
      (Inr (), noted tb now jid reg c)"
    and "cb_registry (noted tb now jid reg c) = dict_set (cb_registry c) jid reg"
    and "cb_calls (noted tb now jid reg c) = cb_calls c"
proof -
  obtain d where "persist_attempt tb now jid reg (c\<lparr>cb_registry := dict_set (cb_registry c) jid reg\<rparr>) =
      (Inr (), c\<lparr>cb_registry := dict_set (cb_registry c) jid reg, cb_db := d\<rparr>)"
    using assms unfolding quiet_def by blast
  then show "persist_attempt tb now jid reg (c\<lparr>cb_registry := dict_set (cb_registry c) jid reg\<rparr>) =
      (Inr (), noted tb now jid reg c)"
    and "cb_registry (noted tb now jid reg c) = dict_set (cb_registry c) jid reg"
    and "cb_calls (noted tb now jid reg c) = cb_calls c"
    by (simp_all add: noted_def)
qed

lemma noted_put [simp]:
  "noted tb now jid reg (c\<lparr>cb_registry := dict_set (cb_registry c) jid x\<rparr>) = noted tb now jid reg c"
  by (simp add: noted_def)

definition asked :: "callback_effect \<Rightarrow> 'd callback_manager \<Rightarrow> 'd callback_manager" where
  "asked x c = c\<lparr>cb_calls := cb_calls c @ [x]\<rparr>"

lemma asked_simps [simp]:
  "cb_registry (asked x c) = cb_registry c" "cb_db (asked x c) = cb_db c" "cb_calls (asked x c) = cb_calls c @ [x]"
  by (simp_all add: asked_def)

lemma deliver_pass:
  assumes "quiet (de_table env)"
  shows "\<exists>now. deliver_loop env jid body pol (a # as) cb c =
    (let answer = answer_to env cb body a;
         cb' = tried cb 1 (error_of answer);
         c' = noted (de_table env) now jid cb' (asked (request_of cb body) c)
     in if accepted answer then (Inr True, c')
        else seq_py (deliver_pause env pol a) (deliver_loop env jid body pol as cb') c')"
proof -
  let ?cb1 = "cb\<lparr>cb_attempt_count := cb_attempt_count cb + 1\<rparr>"
  let ?c = "asked (request_of cb body) c"
  have ans: "de_request env a (cb_method ?cb1) (cb_url ?cb1) body (cb_headers ?cb1) = answer_to env cb body a"
    by (simp add: answer_to_def)
  have last: "?cb1\<lparr>cb_last_error := e\<rparr> = tried cb 1 e" for e by (simp add: tried_def)
  have stored: "c\<lparr>cb_calls := cb_calls c @ [Requested (cb_method cb) (cb_url cb) body (cb_headers cb)],
      cb_registry := dict_set (cb_registry c) jid reg\<rparr> = ?c\<lparr>cb_registry := dict_set (cb_registry ?c) jid reg\<rparr>" for reg
    by (simp add: asked_def request_of_def)
  note run = seq_py_def bind_py_def try_except_def ret_def raise_exn_def cb_put_run cb_log_run stored
    quiet_noted(1) [OF assms, of _ jid _ ?c, unfolded asked_simps] accepted_def error_of_def send_attempt_def Let_def last
  show ?thesis
  proof (cases "answer_to env cb body a")
    case (Inl e)
    with ans show ?thesis by (intro exI [of _ "de_clk env a 1"]) (simp add: run)
  next
    case (Inr code)
    show ?thesis
    proof (cases "200 \<le> code \<and> code < 300")
      case True
      with Inr ans show ?thesis by (intro exI [of _ "de_clk env a 0"]) (simp add: run)
    next
      case False
      with Inr ans show ?thesis by (intro exI [of _ "de_clk env a 1"]) (auto simp: run simp del: append.simps)
    qed
  qed
qed

text \<open>
  The attempts of a delivery along a list of attempt numbers, up to the first accepted answer: how
  many are made, the error of the last one, and the calls on the requester and the sleeper.
\<close>

fun attempts_made :: "(int \<Rightarrow> bool) \<Rightarrow> int list \<Rightarrow> int" where
  "attempts_made good [] = 0"
| "attempts_made good (a # as) = (if good a then 1 else 1 + attempts_made good as)"

fun last_answer :: "(int \<Rightarrow> bool) \<Rightarrow> (int \<Rightarrow> string option) \<Rightarrow> int list \<Rightarrow> string option \<Rightarrow> string option" where
  "last_answer good err [] e = e"
| "last_answer good err (a # as) e = (if good a then err a else last_answer good err as (err a))"

fun calls_made :: "(int \<Rightarrow> bool) \<Rightarrow> callback_effect \<Rightarrow> (int \<Rightarrow> string) \<Rightarrow> int \<Rightarrow> int list \<Rightarrow> callback_effect list" where
  "calls_made good req pause m [] = []"
| "calls_made good req pause m (a # as) =
     req # (if good a then [] else (if a < m then [Slept (pause a)] else []) @ calls_made good req pause m as)"

text \<open>
  The whole loop: it stops at the first accepted answer or after all attempts, counts what it has
  tried, waits between the attempts, and touches no other registration.
\<close>

lemma deliver_loop_run:
  assumes "quiet (de_table env)" and "no_delay_error env" and "dict_get (cb_registry c) jid = Some cb"
    and "\<And>a. good a \<longleftrightarrow> accepted (answer_to env cb body a)"
  shows "\<exists>c'. deliver_loop env jid body pol xs cb c = (Inr (\<exists>a \<in> set xs. good a), c') \<and>
    dict_get (cb_registry c') = (dict_get (cb_registry c))(jid \<mapsto> tried cb (attempts_made good xs)
      (last_answer good (\<lambda>a. error_of (answer_to env cb body a)) xs (cb_last_error cb))) \<and>
    cb_calls c' = cb_calls c @ calls_made good (request_of cb body) (pause_of env pol) (rt_max_attempts pol) xs"
  using assms(3,4)
proof (induction xs arbitrary: cb c)
  case Nil
  have "tried cb 0 (cb_last_error cb) = cb" by (simp add: tried_def)
  with Nil show ?case by (intro exI [of _ c]) (auto simp: ret_def)
next
  case (Cons a xs)
  let ?err = "\<lambda>a. error_of (answer_to env cb body a)"
  let ?cb = "tried cb 1 (?err a)" and ?req = "request_of cb body" and ?m = "rt_max_attempts pol"
  obtain now where step: "deliver_loop env jid body pol (a # xs) cb c =
      (let c' = noted (de_table env) now jid ?cb (asked ?req c)
       in if good a then (Inr True, c') else seq_py (deliver_pause env pol a) (deliver_loop env jid body pol xs ?cb) c')"
    using deliver_pass [OF assms(1), of jid body pol a xs cb c] Cons.prems(2) by (auto simp: Let_def)
  define c1 where "c1 = noted (de_table env) now jid ?cb (asked ?req c)"
  have c1: "cb_registry c1 = dict_set (cb_registry c) jid ?cb" "cb_calls c1 = cb_calls c @ [?req]"
    unfolding c1_def using quiet_noted(2,3) [OF assms(1)] by simp_all
  show ?case
  proof (cases "good a")
    case True
    with step c1 show ?thesis by (intro exI [of _ c1]) (simp add: c1_def map_of_dict_set)
  next
    case False
    define c2 where "c2 = snd (deliver_pause env pol a c1)"
    have c2: "deliver_pause env pol a c1 = (Inr (), c2)" "cb_registry c2 = cb_registry c1"
      "cb_calls c2 = cb_calls c1 @ (if a < ?m then [Slept (pause_of env pol a)] else [])"
      by (simp_all add: c2_def deliver_pause_run [OF assms(2)])
    have reg: "dict_get (cb_registry c2) jid = Some ?cb" using c1 c2 by simp
    have same: "answer_to env ?cb body = answer_to env cb body" by (rule ext) simp
    obtain c' where
      c': "deliver_loop env jid body pol xs ?cb c2 = (Inr (\<exists>a \<in> set xs. good a), c')"
        "dict_get (cb_registry c') = (dict_get (cb_registry c2))(jid \<mapsto> tried cb (1 + attempts_made good xs)
          (last_answer good ?err xs (?err a)))"
        "cb_calls c' = cb_calls c2 @ calls_made good ?req (pause_of env pol) ?m xs"
      using Cons.IH [OF reg, unfolded same tried_simps request_tried, OF Cons.prems(2)] by (elim exE conjE) (rule that)
    have "deliver_loop env jid body pol (a # xs) cb c = (Inr (\<exists>x \<in> set (a # xs). good x), c')"
      using step False c'(1) by (simp add: Let_def c1_def [symmetric] seq_py_def bind_py_def c2(1))
    moreover have "dict_get (cb_registry c') = (dict_get (cb_registry c))(jid \<mapsto> tried cb (attempts_made good (a # xs))
        (last_answer good ?err (a # xs) (cb_last_error cb)))"
      using c'(2) c2(2) c1(1) False by (auto simp: fun_eq_iff)
    ultimately show ?thesis using c'(3) c2(3) c1(2) False by (intro exI [of _ c']) simp
  qed
qed

text \<open>
  Along the attempts from \<open>i\<close> to \<open>n\<close>: \<open>k\<close> is the first accepted one, or the last. Between two
  attempts there is one sleep, and none after the last.
\<close>

lemma attempts_upto:
  assumes "1 \<le> i" and "i \<le> k" and "k \<le> n" and "n = max 1 m" and "\<forall>a \<in> {i..<k}. \<not> good a" and "good k \<or> k = n"
  shows "attempts_made good [i..n] = k - i + 1 \<and> last_answer good err [i..n] e = err k \<and>
    calls_made good req pause m [i..n] = req # concat (map (\<lambda>a. [Slept (pause a), req]) [i..k - 1])"
  using assms
proof (induction "nat (k - i)" arbitrary: i e)
  case 0
  then have i: "i = k" "[k..n] = k # [k + 1..n]" by (simp_all add: upto_rec1)
  have "n < m \<longleftrightarrow> False" using 0 by simp
  with 0(7) show ?case unfolding i by (cases "good k") auto
next
  case (Suc d)
  then have i: "i < k" "[i..n] = i # [i + 1..n]" "[i..k - 1] = i # [i + 1..k - 1]" by (simp_all add: upto_rec1)
  then have "attempts_made good [i + 1..n] = k - (i + 1) + 1 \<and> last_answer good err [i + 1..n] (err i) = err k \<and>
      calls_made good req pause m [i + 1..n] = req # concat (map (\<lambda>a. [Slept (pause a), req]) [i + 1..k - 1])"
    using Suc.prems Suc.hyps(2) by (intro Suc.hyps(1)) auto
  moreover have "i < m" "\<not> good i" using i Suc.prems by auto
  ultimately show ?case by (simp add: i)
qed

lemma first_good:
  assumes "(1::int) \<le> n"
  shows "\<exists>k. 1 \<le> k \<and> k \<le> n \<and> (\<forall>a \<in> {1..<k}. \<not> good a) \<and> (good k \<or> k = n)"
  using assms
proof (induction n rule: int_ge_induct)
  case base
  then show ?case by (intro exI [of _ 1]) auto
next
  case (step n)
  then obtain k where k: "1 \<le> k" "k \<le> n" "\<forall>a \<in> {1..<k}. \<not> good a" "good k \<or> k = n" by auto
  show ?case
  proof (cases "good k")
    case True
    with k show ?thesis by (intro exI [of _ k]) auto
  next
    case False
    with k have "k = n" "\<forall>a \<in> {1..<n + 1}. \<not> good a" by force+
    with step k show ?thesis by (intro exI [of _ "n + 1"]) auto
  qed
qed

subsection \<open>Durability\<close>

text \<open>What the code relies on: a table with the primary key \<open>job_id\<close> and the usual four statements.\<close>

locale callback_store =
  fixes t :: "'d callback_table"
    and rows :: "'d \<Rightarrow> string \<Rightarrow> callback_row option"
  assumes key_law: "rows d i = Some r \<Longrightarrow> cr_job_id r = i"
    and select_law: "\<exists>rs. ct_select t P d = (Inr rs, d) \<and>
      (\<forall>r. r \<in> set rs \<longleftrightarrow> P r \<and> rows d (cr_job_id r) = Some r)"
    and insert_law: "rows d (cr_job_id r) = None \<Longrightarrow>
      \<exists>d'. ct_insert t r d = (Inr (), d') \<and> rows d' = (rows d)(cr_job_id r \<mapsto> r)"
    and update_law: "(\<And>r. P r \<Longrightarrow> cr_job_id (f r) = cr_job_id r) \<Longrightarrow>
      \<exists>d'. ct_update t P f d = (Inr (), d') \<and> rows d' = (\<lambda>i. map_option (\<lambda>r. if P r then f r else r) (rows d i))"
    and delete_law: "\<exists>d'. ct_delete t P d = (Inr (), d') \<and>
      rows d' = (\<lambda>i. case rows d i of None \<Rightarrow> None | Some r \<Rightarrow> if P r then None else Some r)"

text \<open>Every registration is in the table as it is in the dictionary.\<close>

definition durable :: "('d \<Rightarrow> string \<Rightarrow> callback_row option) \<Rightarrow> 'd callback_manager \<Rightarrow> bool" where
  "durable rows c \<longleftrightarrow> (\<forall>i. map_option registration_of_row (rows (cb_db c) i) = dict_get (cb_registry c) i)"

definition row_attempt :: "time \<Rightarrow> callback_registration \<Rightarrow> callback_row \<Rightarrow> callback_row" where
  "row_attempt now reg r = r\<lparr>cr_attempt_count := cb_attempt_count reg, cr_last_error := cb_last_error reg, cr_updated_at := now\<rparr>"

lemma registration_of_row_of: "registration_of_row (row_of_registration now jid reg) = reg"
  by (simp add: registration_of_row_def row_of_registration_def or_default_def)

lemma registration_created [simp]: "registration_of_row (r\<lparr>cr_created_at := x\<rparr>) = registration_of_row r"
  by (simp add: registration_of_row_def)

lemma registration_row_attempt:
  "registration_of_row r = cb \<Longrightarrow> registration_of_row (row_attempt now (tried cb n e) r) = tried cb n e"
  by (auto simp: registration_of_row_def row_attempt_def tried_def)

context callback_store
begin

lemma select_id: "\<exists>rs. ct_select t (\<lambda>r. cr_job_id r = jid) d = (Inr rs, d) \<and> (rs = [] \<longleftrightarrow> rows d jid = None)"
proof -
  obtain rs where rs: "ct_select t (\<lambda>r. cr_job_id r = jid) d = (Inr rs, d)"
      "\<forall>r. r \<in> set rs \<longleftrightarrow> cr_job_id r = jid \<and> rows d (cr_job_id r) = Some r"
    using select_law by blast
  have none: "rs = []" if "rows d jid = None"
  proof (rule ccontr)
    assume "rs \<noteq> []"
    then have "hd rs \<in> set rs" by simp
    with rs(2) that show False by auto
  qed
  have some: "rs \<noteq> []" if row: "rows d jid = Some r" for r
  proof -
    have "r \<in> set rs" using rs(2) row key_law [OF row] by simp
    then show ?thesis by auto
  qed
  have "rs = [] \<longleftrightarrow> rows d jid = None" using none some by (metis option.exhaust)
  with rs(1) show ?thesis by (intro exI [of _ rs] conjI)
qed

lemma update_id:
  assumes "\<And>r. cr_job_id r = jid \<Longrightarrow> cr_job_id (f r) = jid"
  shows "\<exists>d'. ct_update t (\<lambda>r. cr_job_id r = jid) f d = (Inr (), d') \<and>
    rows d' = (rows d)(jid := map_option f (rows d jid))"
proof -
  obtain d' where d': "ct_update t (\<lambda>r. cr_job_id r = jid) f d = (Inr (), d')"
      "rows d' = (\<lambda>i. map_option (\<lambda>r. if cr_job_id r = jid then f r else r) (rows d i))"
    using update_law [of "\<lambda>r. cr_job_id r = jid" f d] assms by auto
  have "rows d' i = ((rows d)(jid := map_option f (rows d jid))) i" for i
    using d'(2) key_law [of d i] by (cases "rows d i") auto
  with d'(1) show ?thesis by blast
qed

lemma persist_attempt_run:
  "\<exists>d. persist_attempt (Some t) now jid reg c = (Inr (), c\<lparr>cb_db := d\<rparr>) \<and>
     rows d = (rows (cb_db c))(jid := map_option (row_attempt now reg) (rows (cb_db c) jid))"
proof -
  obtain d where "ct_update t (\<lambda>r. cr_job_id r = jid) (row_attempt now reg) (cb_db c) = (Inr (), d)"
      "rows d = (rows (cb_db c))(jid := map_option (row_attempt now reg) (rows (cb_db c) jid))"
    using update_id [of jid "row_attempt now reg"] by (auto simp: row_attempt_def)
  then show ?thesis
    by (intro exI [of _ d]) (simp add: persist_attempt_def cb_sql_def on_field_def row_attempt_def [abs_def])
qed

lemma quiet_table: "quiet (Some t)"
  unfolding quiet_def using persist_attempt_run by blast

lemma persist_run:
  "\<exists>d. cb_persist (Some t) now jid reg c = (Inr (), c\<lparr>cb_db := d\<rparr>) \<and>
     (\<exists>r. rows d = (rows (cb_db c))(jid \<mapsto> r) \<and> registration_of_row r = reg)"
proof -
  obtain rs where rs: "ct_select t (\<lambda>r. cr_job_id r = jid) (cb_db c) = (Inr rs, cb_db c)"
      "rs = [] \<longleftrightarrow> rows (cb_db c) jid = None"
    using select_id by blast
  let ?row = "row_of_registration now jid reg"
  have id: "cr_job_id ?row = jid" by (simp add: row_of_registration_def)
  show ?thesis
  proof (cases "rows (cb_db c) jid")
    case None
    obtain d where "ct_insert t ?row (cb_db c) = (Inr (), d)" "rows d = (rows (cb_db c))(jid \<mapsto> ?row)"
      using insert_law [of "cb_db c" ?row] None id by auto
    with rs None show ?thesis
      by (intro exI [of _ d]) (auto simp: cb_persist_def cb_sql_def on_field_def bind_py_def registration_of_row_of)
  next
    case (Some r)
    let ?f = "\<lambda>r. ?row\<lparr>cr_created_at := cr_created_at r\<rparr>"
    obtain d where "ct_update t (\<lambda>r. cr_job_id r = jid) ?f (cb_db c) = (Inr (), d)"
        "rows d = (rows (cb_db c))(jid \<mapsto> ?f r)"
      using update_id [of jid ?f "cb_db c"] id Some by auto
    with rs Some show ?thesis
      by (intro exI [of _ d]) (auto simp: cb_persist_def cb_sql_def on_field_def bind_py_def registration_of_row_of)
  qed
qed

lemma durable_put:
  assumes "durable rows c" and "rows d = (rows (cb_db c))(jid \<mapsto> r)" and "registration_of_row r = reg"
  shows "durable rows (c\<lparr>cb_registry := dict_set (cb_registry c) jid reg, cb_db := d\<rparr>)"
  using assms by (simp add: durable_def)

lemma durable_noted:
  assumes "durable rows c" and "dict_get (cb_registry c) jid = Some cb"
  shows "durable rows (noted (Some t) now jid (tried cb n e) c)"
proof -
  obtain r where r: "rows (cb_db c) jid = Some r" "registration_of_row r = cb"
    using assms by (metis durable_def map_option_eq_Some)
  let ?c = "c\<lparr>cb_registry := dict_set (cb_registry c) jid (tried cb n e)\<rparr>"
  obtain d where d: "persist_attempt (Some t) now jid (tried cb n e) ?c = (Inr (), ?c\<lparr>cb_db := d\<rparr>)"
      "rows d = (rows (cb_db c))(jid := map_option (row_attempt now (tried cb n e)) (rows (cb_db c) jid))"
    using persist_attempt_run [of now jid "tried cb n e" ?c] by auto
  have "rows d = (rows (cb_db c))(jid \<mapsto> row_attempt now (tried cb n e) r)" using d(2) r(1) by simp
  from durable_put [OF assms(1) this registration_row_attempt [OF r(2)]] d(1)
  show ?thesis by (simp add: noted_def)
qed

lemma deliver_loop_durable:
  assumes "de_table env = Some t"
  shows "durable rows c \<Longrightarrow> dict_get (cb_registry c) jid = Some cb \<Longrightarrow>
    durable rows (snd (deliver_loop env jid body pol xs cb c))"
proof (induction xs arbitrary: cb c)
  case Nil
  then show ?case by (simp add: ret_def)
next
  case (Cons a xs)
  have q: "quiet (de_table env)" using assms quiet_table by simp
  let ?e = "error_of (answer_to env cb body a)" and ?c = "asked (request_of cb body) c"
  obtain now where step: "deliver_loop env jid body pol (a # xs) cb c =
      (let c' = noted (de_table env) now jid (tried cb 1 ?e) ?c
       in if accepted (answer_to env cb body a) then (Inr True, c')
          else seq_py (deliver_pause env pol a) (deliver_loop env jid body pol xs (tried cb 1 ?e)) c')"
    using deliver_pass [OF q, of jid body pol a xs cb c] by (auto simp: Let_def)
  define c1 where "c1 = noted (de_table env) now jid (tried cb 1 ?e) ?c"
  obtain r l where pause: "deliver_pause env pol a c1 = (r, c1\<lparr>cb_calls := l\<rparr>)" using deliver_pause_keeps by blast
  have "durable rows c1" unfolding c1_def using durable_noted [of ?c jid cb] Cons.prems assms by (simp add: durable_def)
  then have dur: "durable rows c1" "durable rows (c1\<lparr>cb_calls := l\<rparr>)" by (simp_all add: durable_def)
  have "dict_get (cb_registry (c1\<lparr>cb_calls := l\<rparr>)) jid = Some (tried cb 1 ?e)"
    unfolding c1_def using quiet_noted(2) [OF q] by simp
  then show ?case
    unfolding step c1_def [symmetric] Let_def using dur pause Cons.IH [OF dur(2)]
    by (cases r) (simp_all add: seq_py_def bind_py_def)
qed

lemma register_durable:
  assumes "durable rows c"
  shows "durable rows (snd (seq_py (\<lambda>c. (validate_callback_url url, c))
    (seq_py (cb_put jid reg) (cb_persist (Some t) now jid reg)) c))"
proof (cases "validate_callback_url url")
  case (Inr u)
  let ?c = "c\<lparr>cb_registry := dict_set (cb_registry c) jid reg\<rparr>"
  obtain d r where d: "cb_persist (Some t) now jid reg ?c = (Inr (), ?c\<lparr>cb_db := d\<rparr>)"
      "rows d = (rows (cb_db ?c))(jid \<mapsto> r)" "registration_of_row r = reg"
    using persist_run by blast
  with durable_put [OF assms _ d(3), of d jid] Inr show ?thesis
    by (simp add: seq_py_def bind_py_def cb_put_run)
qed (simp add: seq_py_def bind_py_def assms)

lemma unregister_durable:
  assumes "durable rows c"
  shows "durable rows (snd (cb_unregister (Some t) jid c))"
proof -
  obtain d where d: "ct_delete t (\<lambda>r. cr_job_id r = jid) (cb_db c) = (Inr (), d)"
      "rows d = (\<lambda>i. case rows (cb_db c) i of None \<Rightarrow> None | Some r \<Rightarrow> if cr_job_id r = jid then None else Some r)"
    using delete_law by blast
  have "rows d i = (if i = jid then None else rows (cb_db c) i)" for i
    using d(2) key_law [of "cb_db c" i] by (cases "rows (cb_db c) i") auto
  then show ?thesis
    using assms d(1) by (simp add: cb_unregister_def durable_def seq_py_def bind_py_def modify_def cb_sql_def on_field_def ret_def)
qed

lemma do_callback_durable: "durable rows c \<Longrightarrow> durable rows (do_callback t call c)"
  by (cases call)
    (auto simp: register_callback_def cb_register_def Let_def register_durable unregister_durable
      cb_trigger_def trigger_job_completion_def cb_deliver_def deliver_loop_durable split: option.splits)

lemma calls_durable: "durable rows c \<Longrightarrow> durable rows (fold (do_callback t) calls c)"
  by (induction calls arbitrary: c) (auto simp: do_callback_durable)

text \<open>Loading the table into a fresh manager gives the dictionary back.\<close>

lemma load_fold:
  "\<exists>c'. fold_py (\<lambda>r _. cb_put (cr_job_id r) (registration_of_row r)) rs () c = (Inr (), c') \<and> cb_db c' = cb_db c \<and>
     dict_get (cb_registry c') = dict_get (cb_registry c) ++ map_of (rev (map (\<lambda>r. (cr_job_id r, registration_of_row r)) rs))"
proof (induction rs arbitrary: c)
  case (Cons r rs)
  let ?c = "c\<lparr>cb_registry := dict_set (cb_registry c) (cr_job_id r) (registration_of_row r)\<rparr>"
  obtain c' where c': "fold_py (\<lambda>r _. cb_put (cr_job_id r) (registration_of_row r)) rs () ?c = (Inr (), c')"
      "cb_db c' = cb_db ?c"
      "dict_get (cb_registry c') = dict_get (cb_registry ?c) ++
         map_of (rev (map (\<lambda>r. (cr_job_id r, registration_of_row r)) rs))"
    using Cons.IH by blast
  have "fold_py (\<lambda>r _. cb_put (cr_job_id r) (registration_of_row r)) (r # rs) () c = (Inr (), c')"
    using c'(1) by (simp add: bind_py_def cb_put_run)
  with c'(2,3) show ?case
    by (intro exI [of _ c']) (auto simp: map_add_def fun_eq_iff split: option.split)
qed (simp add: ret_def)

lemma load_durable:
  assumes "durable rows c"
  shows "\<exists>c'. load_persisted (Some t) (new_callback_manager (cb_db c)) = (Inr (), c') \<and>
    dict_get (cb_registry c') = dict_get (cb_registry c)"
proof -
  obtain rs where rs: "ct_select t (\<lambda>_. True) (cb_db c) = (Inr rs, cb_db c)"
      "\<forall>r. r \<in> set rs \<longleftrightarrow> rows (cb_db c) (cr_job_id r) = Some r"
    using select_law [of "\<lambda>_. True" "cb_db c"] by auto
  let ?m = "\<lambda>r. (cr_job_id r, registration_of_row r)"
  have "map_of (rev (map ?m rs)) i = map_option registration_of_row (rows (cb_db c) i)" for i
  proof (cases "rows (cb_db c) i")
    case None
    then have "i \<notin> fst ` set (rev (map ?m rs))" using rs(2) by auto
    with None show ?thesis by (simp add: map_of_eq_None_iff)
  next
    case (Some r)
    have inj: "v = registration_of_row r" if "(i, v) \<in> set (rev (map ?m rs))" for v
      using that rs(2) Some by auto
    have "i \<in> fst ` set (rev (map ?m rs))" using Some rs(2) key_law [OF Some] by (force simp: image_iff)
    then obtain v where "map_of (rev (map ?m rs)) i = Some v" by (metis map_of_eq_None_iff not_None_eq)
    with inj Some show ?thesis by (metis map_of_SomeD option.simps(9))
  qed
  then have "map_of (rev (map ?m rs)) = dict_get (cb_registry c)" using assms by (auto simp: durable_def)
  with rs(1) load_fold [of rs "new_callback_manager (cb_db c)"] show ?thesis
    by (auto simp: load_persisted_def cb_sql_def on_field_def bind_py_def new_callback_manager_def)
qed

end

subsection \<open>A table of callbacks as a list of rows\<close>

definition find_callback :: "callback_row list \<Rightarrow> string \<Rightarrow> callback_row option" where
  "find_callback d = map_of (map (\<lambda>r. (cr_job_id r, r)) d)"

definition list_callbacks :: "callback_row list callback_table" where
  "list_callbacks =
     \<lparr>ct_select = (\<lambda>P d. (Inr (filter (\<lambda>r. P r \<and> find_callback d (cr_job_id r) = Some r) d), d)),
      ct_insert = (\<lambda>r d. case find_callback d (cr_job_id r) of
         None \<Rightarrow> (Inr (), d @ [r])
       | Some _ \<Rightarrow> (Inl (IntegrityError ''UNIQUE constraint failed: job_callbacks.job_id''), d)),
      ct_update = (\<lambda>P f d. (Inr (), map (\<lambda>r. if P r then f r else r) d)),
      ct_delete = (\<lambda>P d. (Inr (), filter (\<lambda>r. case find_callback d (cr_job_id r) of None \<Rightarrow> True | Some r' \<Rightarrow> \<not> P r') d))\<rparr>"

lemma find_callback_Some: "find_callback d i = Some r \<Longrightarrow> cr_job_id r = i \<and> r \<in> set d"
  unfolding find_callback_def by (drule map_of_SomeD) auto

lemma find_callback_map:
  "(\<And>r. cr_job_id (g r) = cr_job_id r) \<Longrightarrow> find_callback (map g d) i = map_option g (find_callback d i)"
  by (induction d) (auto simp: find_callback_def)

lemma find_callback_filter:
  "find_callback (filter (\<lambda>r. Q (cr_job_id r)) d) i = (if Q i then find_callback d i else None)"
  by (induction d) (auto simp: find_callback_def)

interpretation listcb: callback_store list_callbacks find_callback
proof (unfold_locales, goal_cases)
  case (1 d i r)
  then show ?case using find_callback_Some by blast
next
  case (2 P d)
  then show ?case using find_callback_Some by (auto simp: list_callbacks_def)
next
  case (3 d r)
  then show ?case
    by (auto simp: list_callbacks_def find_callback_def map_add_def fun_eq_iff split: option.split)
next
  case (4 P f d)
  then have "cr_job_id (if P r then f r else r) = cr_job_id r" for r by simp
  then show ?case by (simp add: list_callbacks_def find_callback_map fun_eq_iff)
next
  case (5 P d)
  show ?case
    using find_callback_filter [of "\<lambda>i. case find_callback d i of None \<Rightarrow> True | Some r' \<Rightarrow> \<not> P r'" d]
    by (auto simp: list_callbacks_def fun_eq_iff split: option.splits)
qed

end
