(* ===== verification/Sql_Schema.thy ===== *)
theory Sql_Schema
  imports Sql_Store Callback
begin

section \<open>The SQL schema\<close>

text \<open>
  The four tables of \<open>storage/sqlalchemy/models.py\<close> and the set-up of the repository in
  \<open>storage/sqlalchemy/repo.py\<close>. A table is its name, its columns and its
  indexes. The database itself is outside the package: for the set-up it is the list of the tables and
  the list of the indexes it has.
\<close>

subsection \<open>Tables\<close>

datatype column_type = SqlString nat | SqlJSON | SqlInteger | SqlDateTime

record column =
  col_name :: string
  col_type :: column_type
  col_nullable :: bool
  col_primary :: bool

definition required :: "string \<Rightarrow> column_type \<Rightarrow> column" where
  "required n t = \<lparr>col_name = n, col_type = t, col_nullable = False, col_primary = False\<rparr>"

definition optional :: "string \<Rightarrow> column_type \<Rightarrow> column" where
  "optional n t = \<lparr>col_name = n, col_type = t, col_nullable = True, col_primary = False\<rparr>"

definition primary :: "string \<Rightarrow> column_type \<Rightarrow> column" where
  "primary n t = \<lparr>col_name = n, col_type = t, col_nullable = False, col_primary = True\<rparr>"

record sql_table =
  tab_name :: string
  tab_columns :: "column list"
  tab_indexes :: "(string \<times> string list) list"

text \<open>The index of the claim query; \<open>priority\<close> is descending in it.\<close>

definition jobs_table :: sql_table where
  "jobs_table =
     \<lparr>tab_name = ''jobs'',
      tab_columns =
        [primary ''job_id'' (SqlString 64), required ''job_type'' (SqlString 128),
         required ''queue_name'' (SqlString 128), required ''payload'' SqlJSON, required ''meta'' SqlJSON,
         required ''status'' (SqlString 32), required ''priority'' SqlInteger, optional ''claimed_by'' (SqlString 256),
         required ''created_at'' SqlDateTime, required ''updated_at'' SqlDateTime],
      tab_indexes = [(''ix_jobs_claim_queue'', [''queue_name'', ''status'', ''priority'', ''created_at''])]\<rparr>"

definition job_call_logs_table :: sql_table where
  "job_call_logs_table =
     \<lparr>tab_name = ''job_call_logs'',
      tab_columns =
        [required ''job_id'' (SqlString 64), required ''provider'' (SqlString 64), required ''request_id'' (SqlString 128),
         required ''payload'' SqlJSON, required ''created_at'' SqlDateTime],
      tab_indexes = []\<rparr>"

definition job_deliveries_table :: sql_table where
  "job_deliveries_table =
     \<lparr>tab_name = ''job_deliveries'',
      tab_columns =
        [required ''job_id'' (SqlString 64), required ''target'' (SqlString 512), required ''status'' (SqlString 32),
         required ''response'' SqlJSON, required ''created_at'' SqlDateTime],
      tab_indexes = []\<rparr>"

definition job_callbacks_table :: sql_table where
  "job_callbacks_table =
     \<lparr>tab_name = ''job_callbacks'',
      tab_columns =
        [primary ''job_id'' (SqlString 64), required ''callback_url'' (SqlString 512), required ''method'' (SqlString 16),
         required ''headers'' SqlJSON, required ''retry_policy'' SqlJSON, required ''attempt_count'' SqlInteger,
         optional ''last_error'' (SqlString 512), required ''created_at'' SqlDateTime,
         required ''updated_at'' SqlDateTime],
      tab_indexes = []\<rparr>"

subsection \<open>Setting up the repository\<close>

record database =
  db_tables :: "sql_table list"
  db_indexes :: "(string \<times> string) list"

text \<open>
  \<open>metadata.create_all\<close> creates the tables that are not there, with their indexes; then each index of
  \<open>jobs\<close> is created unless it exists.
\<close>

definition has_table :: "database \<Rightarrow> string \<Rightarrow> bool" where
  "has_table db n \<longleftrightarrow> n \<in> tab_name ` set (db_tables db)"

definition create_table :: "sql_table \<Rightarrow> database \<Rightarrow> database" where
  "create_table t db =
     (if has_table db (tab_name t) then db
      else db\<lparr>db_tables := db_tables db @ [t],
              db_indexes := db_indexes db @ map (\<lambda>(i, _). (tab_name t, i)) (tab_indexes t)\<rparr>)"

definition create_index :: "string \<Rightarrow> string \<Rightarrow> database \<Rightarrow> database" where
  "create_index t i db =
     (if (t, i) \<in> set (db_indexes db) then db else db\<lparr>db_indexes := db_indexes db @ [(t, i)]\<rparr>)"

definition repository_tables :: "sql_table list" where
  "repository_tables = [jobs_table, job_call_logs_table, job_deliveries_table, job_callbacks_table]"

definition repository_init :: "database \<Rightarrow> database" where
  "repository_init db =
     fold (\<lambda>(i, _). create_index ''jobs'' i) (tab_indexes jobs_table) (fold create_table repository_tables db)"

subsection \<open>Lemmas\<close>

text \<open>The set-up adds what is missing, keeps what is there, and a second one changes nothing.\<close>

lemma create_table_keeps:
  "set (db_tables db) \<subseteq> set (db_tables (create_table t db))" "set (db_indexes db) \<subseteq> set (db_indexes (create_table t db))"
  "has_table (create_table t db) (tab_name t)" "has_table db n \<Longrightarrow> has_table (create_table t db) n"
  by (auto simp: create_table_def has_table_def)

lemma create_tables_keep:
  "set (db_tables db) \<subseteq> set (db_tables (fold create_table ts db)) \<and>
   set (db_indexes db) \<subseteq> set (db_indexes (fold create_table ts db)) \<and>
   (\<forall>t \<in> set ts. has_table (fold create_table ts db) (tab_name t)) \<and>
   (\<forall>n. has_table db n \<longrightarrow> has_table (fold create_table ts db) n)"
proof (induction ts arbitrary: db)
  case (Cons t ts)
  have IH: "set (db_tables (create_table t db)) \<subseteq> set (db_tables (fold create_table ts (create_table t db)))"
    "set (db_indexes (create_table t db)) \<subseteq> set (db_indexes (fold create_table ts (create_table t db)))"
    "\<forall>t' \<in> set ts. has_table (fold create_table ts (create_table t db)) (tab_name t')"
    "\<And>n. has_table (create_table t db) n \<Longrightarrow> has_table (fold create_table ts (create_table t db)) n"
    using Cons.IH [of "create_table t db"] by auto
  show ?case
    using IH(1,2,3) create_table_keeps(1,2) [of db t] IH(4) [OF create_table_keeps(3)]
      IH(4) [OF create_table_keeps(4) [of db _ t]] by (simp, blast)
qed simp

lemma create_tables_done: "\<forall>t \<in> set ts. has_table db (tab_name t) \<Longrightarrow> fold create_table ts db = db"
  by (induction ts) (simp_all add: create_table_def)

lemma create_index_facts:
  "db_tables (create_index t i db) = db_tables db" "has_table (create_index t i db) n = has_table db n"
  "set (db_indexes (create_index t i db)) = insert (t, i) (set (db_indexes db))"
  by (auto simp: create_index_def has_table_def)

lemma repository_init_index:
  "repository_init db = create_index ''jobs'' ''ix_jobs_claim_queue'' (fold create_table repository_tables db)"
  by (simp add: repository_init_def jobs_table_def)

lemma repository_init_again: "repository_init (repository_init db) = repository_init db"
proof -
  let ?t = "fold create_table repository_tables db" and ?c = "create_index ''jobs'' ''ix_jobs_claim_queue''"
  have "fold create_table repository_tables (?c ?t) = ?c ?t"
    using create_tables_keep [of db repository_tables] by (intro create_tables_done) (simp add: create_index_facts)
  then show ?thesis unfolding repository_init_index using create_index_facts(3) [of "''jobs''" "''ix_jobs_claim_queue''" ?t]
    by (simp add: create_index_def)
qed

end
