(* ===== verification/Package_Data.thy ===== *)
theory Package_Data
  imports Jobs_Prelude
begin

section \<open>The error classes and the requirement identifiers\<close>

text \<open>
  \<open>domain/errors.py\<close> and \<open>traceability_ids.py\<close>. The classes of the package with their base class; \<open>exn\<close> has a
  constructor for the one that the package raises, \<open>DependencyCycleError\<close>.
\<close>

datatype error_class = ExceptionClass | JobErrorClass | InvalidTransitionErrorClass | PayloadValidationErrorClass
  | DependencyCycleErrorClass

fun base_class :: "error_class \<Rightarrow> error_class option" where
  "base_class ExceptionClass = None"
| "base_class JobErrorClass = Some ExceptionClass"
| "base_class InvalidTransitionErrorClass = Some JobErrorClass"
| "base_class PayloadValidationErrorClass = Some JobErrorClass"
| "base_class DependencyCycleErrorClass = Some JobErrorClass"

text \<open>\<open>issubclass\<close>: the reflexive and transitive closure of the base relation.\<close>

inductive subclass_of :: "error_class \<Rightarrow> error_class \<Rightarrow> bool" where
  subclass_refl [intro]: "subclass_of c c"
| subclass_base [intro]: "base_class c = Some d \<Longrightarrow> subclass_of d e \<Longrightarrow> subclass_of c e"

inductive_cases subclass_ofE: "subclass_of c d"

code_pred subclass_of .

lemma subclass_of_iff:
  "subclass_of c d \<longleftrightarrow> c = d \<or> (case base_class c of None \<Rightarrow> False | Some b \<Rightarrow> subclass_of b d)"
  by (auto elim: subclass_ofE split: option.split)

definition traceability_ids :: "string list" where
  "traceability_ids =
     [''CS1.1'', ''CS1.2'', ''CS1.3'', ''CS1.4'', ''CS1.5'', ''CS1.6'',
      ''FR1.1'', ''FR1.2'', ''FR1.3'', ''FR1.4'', ''FR1.5'', ''FR1.6'', ''FR1.7'', ''FR1.8'', ''FR1.9'', ''FR1.10'',
      ''FR1.11'', ''FR1.12'', ''FR1.13'', ''FR1.14'', ''FR1.15'', ''FR1.16'', ''FR1.17'', ''FR1.18'', ''FR1.19'',
      ''FR1.20'', ''FR1.21'', ''FR1.22'', ''FR1.23'', ''FR1.24'', ''FR1.25'', ''FR1.26'', ''FR1.27'', ''FR1.28'',
      ''FR1.33'', ''FR1.34'', ''FR1.35'', ''FR1.36'', ''FR1.37'', ''TS1.1'', ''TS1.5'']"

lemma traceability_ids_distinct: "distinct traceability_ids"
  by (simp add: traceability_ids_def)

lemma job_error_subclasses:
  "subclass_of c JobErrorClass \<longleftrightarrow> c \<noteq> ExceptionClass"
  by (cases c) (simp_all add: subclass_of_iff [of ExceptionClass] subclass_of_iff [of JobErrorClass]
      subclass_of_iff [of InvalidTransitionErrorClass] subclass_of_iff [of PayloadValidationErrorClass]
      subclass_of_iff [of DependencyCycleErrorClass])

end
