(* ===== verification/Testing_Properties.thy ===== *)
theory Testing_Properties
  imports Run_Properties Conformance_Worker Testing_Backend Sql_Schema Package_Data
begin

section \<open>Properties of the helpers, the schema and the loops\<close>

subsection \<open>Conformance\<close>

text \<open>
  The two conformance checks through a worker pass on the empty in-memory backend, for any fresh
  identifiers and any clock that does not run backwards between the first two submissions: resources
  are given back after a success and after a failure, and a job runs only after the job it depends on.
\<close>

theorem worker_conformance_passes:
  assumes "u1 \<noteq> u2" and "distinct [ua, ub, uc, ud]" and "clk' 0 0 \<le> clk' 1 0"
  shows "(\<exists>s. run_resource_pool_conformance memory_ops u1 u2 clk (resource_bench new_memory_backend) = (Inr (), s)) \<and>
    (\<exists>s. run_dependency_scheduler_conformance memory_ops ua ub uc ud clk' (dep_bench new_memory_backend) = (Inr (), s))"
  using resource_run [OF assms(1)] dependency_run [OF assms(2), of clk'] assms(3) by blast

theorem worker_conformance_passes_witness:
  "(\<exists>s. run_resource_pool_conformance memory_ops ''1'' ''2'' (\<lambda>_ _. 0) (resource_bench new_memory_backend) = (Inr (), s)) \<and>
    (\<exists>s. run_dependency_scheduler_conformance memory_ops ''a'' ''b'' ''c'' ''d'' (\<lambda>_ _. 0) (dep_bench new_memory_backend) =
      (Inr (), s))"
  by (rule worker_conformance_passes) simp_all

text \<open>
  The backend classes of the package define every abstract method of \<open>QueueBackend\<close>; \<open>MockQueueBackend\<close>
  lacks three, so that it cannot be instantiated, and a subclass that adds these three as bookkeeping
  meets the whole contract, with the dispatch order and the complete listing.
\<close>

theorem mock_meets_contract:
  assumes "completed_mock att prog res"
  shows "ordered_backend (mock_ops att prog res) mem_inv mem_view (\<lambda>j. j) \<and>
    listing_backend (mock_ops att prog res) mem_inv mem_view (\<lambda>j. j) \<and>
    (\<forall>c. instantiable c \<longleftrightarrow> c \<noteq> MockQueueBackend) \<and>
    missing_methods MockQueueBackend = [''record_attempt'', ''update_progress'', ''store_result'']"
proof (intro conjI allI)
  show "ordered_backend (mock_ops att prog res) mem_inv mem_view (\<lambda>j. j)"
    "listing_backend (mock_ops att prog res) mem_inv mem_view (\<lambda>j. j)"
    by (rule completed_mock.mock_contract [OF assms])+
  show "instantiable c \<longleftrightarrow> c \<noteq> MockQueueBackend" for c
    by (cases c) (simp_all add: instantiable_def missing_methods_def abstract_methods_def)
  show "missing_methods MockQueueBackend = [''record_attempt'', ''update_progress'', ''store_result'']"
    by (simp add: missing_methods_def abstract_methods_def)
qed

theorem mock_meets_contract_witness:
  "ordered_backend (mock_ops mem_record_attempt mem_update_progress mem_store_result) mem_inv mem_view (\<lambda>j. j) \<and>
    missing_methods MockQueueBackend = [''record_attempt'', ''update_progress'', ''store_result'']"
  using mock_meets_contract [OF memmock.completed_mock_axioms] by blast

subsection \<open>The schema\<close>

text \<open>
  Setting up a repository on any database leaves the tables and indexes it has, adds the four tables
  and the index of the claim query where they are missing, also to a table \<open>jobs\<close> that was there
  before, and doing it again changes nothing.
\<close>

theorem repository_upgrade:
  "set (db_tables db) \<subseteq> set (db_tables (repository_init db)) \<and>
   set (db_indexes db) \<subseteq> set (db_indexes (repository_init db)) \<and>
   (\<forall>t \<in> set repository_tables. has_table (repository_init db) (tab_name t)) \<and>
   (''jobs'', ''ix_jobs_claim_queue'') \<in> set (db_indexes (repository_init db)) \<and>
   repository_init (repository_init db) = repository_init db"
  using create_tables_keep [of db repository_tables] repository_init_again [of db]
  by (auto simp: repository_init_index create_index_facts)

subsection \<open>The loops of the worker\<close>

text \<open>
  C28. \<open>run_forever\<close> makes exactly the passes it should: when a limit is reached within the passes
  watched, or \<open>stop\<close> is called during one of them, it clears the stop flag, makes the passes up to the
  first one at which \<open>stop\<close> was called or the limit is reached, whatever the flag was before, and
  returns their number; a pass that raises ends it with that exception. A limit below one gives one pass.
\<close>

theorem worker_loop_ends:
  assumes "es \<noteq> [] \<and> limit_reached max_loops (int (length es)) \<or> (\<exists>e \<in> set es. pe_stopped e)"
  shows "\<exists>n. 0 < n \<and> n \<le> length es \<and> (pe_stopped (es ! (n - 1)) \<or> limit_reached max_loops (int n)) \<and>
    (\<forall>i. 0 < i \<and> i < n \<longrightarrow> \<not> pe_stopped (es ! (i - 1)) \<and> \<not> limit_reached max_loops (int i)) \<and>
    run_forever ops cfg max_loops es w =
      seq_py (run_passes ops cfg (take n es)) (ret (Some (int n))) (w\<lparr>ws_stopped := False\<rparr>)"
  using assms by (rule run_forever_ends)

text \<open>
  Three passes are watched, \<open>stop\<close> is called during the second: two passes, on a worker that had been
  stopped before.
\<close>

definition stop_env :: "memory_backend pass_env" where
  "stop_env = quiet_env\<lparr>pe_stopped := True\<rparr>"

theorem worker_loop_ends_witness:
  "run_forever memory_ops lone_config (Some 3) [quiet_env, stop_env, quiet_env] (worker_stop (lone_worker demo_backend)) =
     seq_py (run_passes memory_ops lone_config [quiet_env, stop_env]) (ret (Some 2))
       ((worker_stop (lone_worker demo_backend))\<lparr>ws_stopped := False\<rparr>)"
proof -
  let ?es = "[quiet_env, stop_env, quiet_env]" and ?w = "worker_stop (lone_worker demo_backend)"
  have env: "\<not> pe_stopped quiet_env" "pe_stopped stop_env" by (simp_all add: quiet_env_def stop_env_def)
  then have "\<exists>e \<in> set ?es. pe_stopped e" by simp
  then obtain n where n: "0 < n" "n \<le> 3" "pe_stopped (?es ! (n - 1)) \<or> limit_reached (Some 3) (int n)"
      "\<forall>i. 0 < i \<and> i < n \<longrightarrow> \<not> pe_stopped (?es ! (i - 1)) \<and> \<not> limit_reached (Some 3) (int i)"
      "run_forever memory_ops lone_config (Some 3) ?es ?w =
        seq_py (run_passes memory_ops lone_config (take n ?es)) (ret (Some (int n))) (?w\<lparr>ws_stopped := False\<rparr>)"
    using worker_loop_ends [of ?es "Some 3" memory_ops lone_config ?w] by auto
  have "n \<noteq> 1" using n(3) env by (auto simp: limit_reached_def)
  moreover have "n \<noteq> 3" using n(4) [rule_format, of 2] env by auto
  ultimately have "n = 2" using n(1,2) by linarith
  with n(5) show ?thesis by simp
qed

end
