(* ===== verification/Service_Properties.thy ===== *)
theory Service_Properties
  imports Queue_Properties
begin

section \<open>Properties of maintenance, administration and fan-out\<close>

text \<open>The reaper, the admin service and the fan-out manager over the in-memory backend.\<close>

subsection \<open>Maintenance\<close>

text \<open>
  C29. A sweep does to every job exactly what its age and state ask for: a running job without a sign of
  life within the claim timeout becomes failed, a queued or running job past its time to live becomes
  expired, any other job past the retention period becomes cancelled, and all other jobs stay as they
  are; the three counts of the summary are the numbers of these jobs.
\<close>

theorem sweep_exact:
  assumes "mem_inv b"
  shows "\<exists>js b' s. mem_all_jobs b = (Inr js, b) \<and> run_sweep memory_ops clk ct ttl rt now b = (Inr s, b') \<and>
    mem_inv b' \<and> swept (reap_target ct ttl rt now) (mem_view b) (mem_view b') \<and>
    stuck_recovered s = targeted (reap_target ct ttl rt now) FAILED js \<and>
    ttl_expired s = targeted (reap_target ct ttl rt now) TTL_EXPIRED js \<and>
    retention_purged s = targeted (reap_target ct ttl rt now) CANCELLED js"
proof -
  have "be_all_jobs memory_ops = mem_all_jobs" by (simp add: memory_ops_def)
  with memr.run_sweep_outcome [OF assms, of clk ct ttl rt now] show ?thesis by simp
qed

theorem sweep_exact_witness:
  "\<exists>js b' s. mem_all_jobs demo_backend = (Inr js, demo_backend) \<and>
    run_sweep memory_ops (\<lambda>_. 9) 60 1 100 (2 * second) demo_backend = (Inr s, b') \<and>
    mem_inv b' \<and> swept (reap_target 60 1 100 (2 * second)) (mem_view demo_backend) (mem_view b') \<and>
    stuck_recovered s = targeted (reap_target 60 1 100 (2 * second)) FAILED js \<and>
    ttl_expired s = targeted (reap_target 60 1 100 (2 * second)) TTL_EXPIRED js \<and>
    retention_purged s = targeted (reap_target 60 1 100 (2 * second)) CANCELLED js"
  by (rule sweep_exact [OF demo_inv])

text \<open>
  \<open>find_stuck_job_ids\<close> answers with the empty list in every state, since it scans what \<open>dequeue\<close>
  returns and \<open>dequeue\<close> returns queued jobs only.
\<close>

theorem find_stuck_finds_nothing:
  assumes "mem_inv b"
  shows "find_stuck_job_ids memory_ops claim_timeout now b = (Inr [], b)"
  using assms by (rule memr.find_stuck_empty)

definition stuck_backend :: memory_backend where
  "stuck_backend = \<lparr>mb_jobs = [(''a'', (demo_job ''a'' 1)\<lparr>status := RUNNING\<rparr>)]\<rparr>"

theorem find_stuck_finds_nothing_witness:
  "find_stuck_job_ids memory_ops 60 (1000 * second) stuck_backend = (Inr [], stuck_backend) \<and>
   map_option status (mem_view stuck_backend ''a'') = Some RUNNING"
proof
  have "mem_inv stuck_backend" by (simp add: mem_inv_def stuck_backend_def dict_ok_def)
  then show "find_stuck_job_ids memory_ops 60 (1000 * second) stuck_backend = (Inr [], stuck_backend)"
    by (rule find_stuck_finds_nothing)
qed (simp add: mem_view_def stuck_backend_def)

subsection \<open>Administration\<close>

text \<open>
  C30. With a permission checker, an administrative operation whose permission is not granted raises
  \<open>PermissionError\<close> and changes neither the backend nor the audit log, on every backend.
\<close>

theorem admin_needs_permission:
  assumes "\<not> f (admin_permission c)"
  shows "admin_do ops (Some f) c s =
    (Inl (PermissionError (''Missing required permission: '' @ admin_permission c)), s)"
  using assms by (rule admin_do_denied)

theorem admin_needs_permission_witness:
  "admin_do memory_ops (Some (\<lambda>p. p = ''jobs.cancel'')) (AdminDelete 3 ''a'')
     \<lparr>ad_backend = demo_backend, ad_audit = new_audit_emitter\<rparr> =
   (Inl (PermissionError (''Missing required permission: '' @ admin_permission (AdminDelete 3 ''a''))),
    \<lparr>ad_backend = demo_backend, ad_audit = new_audit_emitter\<rparr>)"
  by (rule admin_needs_permission) simp

text \<open>
  The two clean-ups of the admin service cancel exactly the jobs they name, the old unfinished ones
  and the running ones past the timeout (failed instead, when asked for), answer with their number,
  and write one audit event exactly when that number is not zero.
\<close>

theorem admin_cleanups_exact:
  assumes "mem_inv (ad_backend a)" and "case chk of None \<Rightarrow> True | Some f \<Rightarrow> f ''jobs.purge'' \<and> f ''jobs.stuck_recovery''"
  shows "(\<exists>js n a'. mem_all_jobs (ad_backend a) = (Inr js, ad_backend a) \<and>
      n = int (length (filter (\<lambda>j. old_target (option_int pol ''max_age_seconds'' 86400) now j \<noteq> None) js)) \<and>
      admin_clear_old memory_ops chk clk now later pol a = (Inr n, a') \<and> mem_inv (ad_backend a') \<and>
      swept (old_target (option_int pol ''max_age_seconds'' 86400) now) (mem_view (ad_backend a)) (mem_view (ad_backend a')) \<and>
      audit_log (ad_audit a') = audit_log (ad_audit a) @
        (if n = 0 then [] else [(Some (PStr ''job.admin.purge''), Some (PStr ''success''))])) \<and>
    (\<exists>js n a'. mem_all_jobs (ad_backend a) = (Inr js, ad_backend a) \<and>
      n = int (length (filter (\<lambda>j. stuck_target (option_int flt ''claim_timeout_seconds'' 60) act now j \<noteq> None) js)) \<and>
      admin_clear_stuck memory_ops chk clk now later flt act a = (Inr n, a') \<and> mem_inv (ad_backend a') \<and>
      swept (stuck_target (option_int flt ''claim_timeout_seconds'' 60) act now) (mem_view (ad_backend a)) (mem_view (ad_backend a')) \<and>
      audit_log (ad_audit a') = audit_log (ad_audit a) @
        (if n = 0 then [] else [(Some (PStr ''job.admin.stuck_recovery''), Some (PStr ''success''))]))"
proof -
  have all: "mem_all_jobs = be_all_jobs memory_ops" by (simp add: memory_ops_def)
  have p1: "case chk of None \<Rightarrow> True | Some f \<Rightarrow> f ''jobs.purge''"
    and p2: "case chk of None \<Rightarrow> True | Some f \<Rightarrow> f ''jobs.stuck_recovery''"
    using assms(2) by (auto split: option.splits)
  show ?thesis
    unfolding all admin_clear_old_def admin_clear_stuck_def ad_require_granted [OF p1] ad_require_granted [OF p2]
      Let_def clear_old_job_sweep clear_stuck_job_sweep
    using mema.admin_sweep [OF assms(1)] by blast
qed

theorem admin_cleanups_exact_witness:
  "\<exists>js n a'. mem_all_jobs demo_backend = (Inr js, demo_backend) \<and>
      n = int (length (filter (\<lambda>j. old_target (option_int None ''max_age_seconds'' 86400) (100000 * second) j \<noteq> None) js)) \<and>
      admin_clear_old memory_ops None (\<lambda>_. 3) (100000 * second) 4 None \<lparr>ad_backend = demo_backend, ad_audit = new_audit_emitter\<rparr> =
        (Inr n, a') \<and> mem_inv (ad_backend a')"
proof -
  let ?a = "\<lparr>ad_backend = demo_backend, ad_audit = new_audit_emitter\<rparr>"
  have inv: "mem_inv (ad_backend ?a)" by (simp add: demo_inv)
  have free: "case None of None \<Rightarrow> True | Some f \<Rightarrow> f ''jobs.purge'' \<and> f ''jobs.stuck_recovery''" by simp
  from admin_cleanups_exact [OF inv free, where pol = None and now = "100000 * second" and clk = "\<lambda>_. 3" and later = 4]
  show ?thesis unfolding admin_service.select_convs by blast
qed

text \<open>
  Resubmitting a stored job enqueues one new queued job with its type, queue, payload and priority
  under the fresh identifier, answers with that identifier and leaves every other job alone.
\<close>

theorem resubmit_clones:
  assumes "mem_inv (ad_backend a)" and "case chk of None \<Rightarrow> True | Some f \<Rightarrow> f ''jobs.resubmit''"
    and "mem_view (ad_backend a) jid = Some j" and "mem_view (ad_backend a) uuid = None"
  shows "\<exists>a' k. admin_resubmit memory_ops chk uuid now jid a = (Inr (Some uuid), a') \<and> mem_inv (ad_backend a') \<and>
    mem_view (ad_backend a') = (mem_view (ad_backend a))(uuid \<mapsto> k) \<and> job_id k = uuid \<and> status k = QUEUED \<and>
    job_type k = job_type j \<and> queue_name k = queue_name j \<and> payload k = payload j \<and> priority k = priority j"
  using assms by (rule mema.admin_resubmit_run)

theorem resubmit_clones_witness:
  "\<exists>a' k. admin_resubmit memory_ops None ''u'' 3 ''a'' \<lparr>ad_backend = demo_backend, ad_audit = new_audit_emitter\<rparr> =
      (Inr (Some ''u''), a') \<and> mem_inv (ad_backend a') \<and>
    mem_view (ad_backend a') = (mem_view (ad_backend \<lparr>ad_backend = demo_backend, ad_audit = new_audit_emitter\<rparr>))(''u'' \<mapsto> k) \<and>
    job_id k = ''u'' \<and> status k = QUEUED \<and> job_type k = job_type (demo_job ''a'' 1) \<and>
    queue_name k = queue_name (demo_job ''a'' 1) \<and> payload k = payload (demo_job ''a'' 1) \<and>
    priority k = priority (demo_job ''a'' 1)"
  by (rule resubmit_clones) (simp_all add: demo_inv, simp_all add: mem_view_def demo_backend_def)

subsection \<open>Fan-out\<close>

text \<open>
  C33. Creating a fan-out with fresh identifiers and acceptable payloads submits one queued child for each
  specification, with the type, queue, priority and payload of the specification and the parent's
  identifier added to the payload, returns their identifiers in order, remembers them as the children of the parent, and leaves every other job alone.
\<close>

theorem fan_out_creates:
  assumes "mem_inv (jq_backend (fo_queue f))" and "distinct (map (fst \<circ> fst) specs)"
    and "\<forall>e \<in> set specs. mem_view (jq_backend (fo_queue f)) (fst (fst e)) = None"
    and "\<forall>e \<in> set specs. child_ready (jq_payload_max (fo_queue f)) parent (snd e)"
  shows "\<exists>f'. create_fan_out memory_ops parent specs f = (Inr (map (fst \<circ> fst) specs), f') \<and>
    get_children f' parent = map (fst \<circ> fst) specs \<and> mem_inv (jq_backend (fo_queue f')) \<and>
    (\<forall>i. i \<notin> set (map (fst \<circ> fst) specs) \<longrightarrow>
       mem_view (jq_backend (fo_queue f')) i = mem_view (jq_backend (fo_queue f)) i) \<and>
    (\<forall>e \<in> set specs. \<exists>k. mem_view (jq_backend (fo_queue f')) (fst (fst e)) = Some k \<and>
       child_of parent (snd e) k \<and> is_child parent k \<and> status k = QUEUED)"
proof -
  obtain q' where q': "fold_py (fan_child memory_ops parent) specs [] (fo_queue f) = (Inr ([] @ map (fst \<circ> fst) specs), q')"
      "mem_inv (jq_backend q')"
      "\<forall>i. i \<notin> set (map (fst \<circ> fst) specs) \<longrightarrow> mem_view (jq_backend q') i = mem_view (jq_backend (fo_queue f)) i"
      "\<forall>e \<in> set specs. \<exists>k. mem_view (jq_backend q') (fst (fst e)) = Some k \<and> child_of parent (snd e) k \<and> status k = QUEUED"
    using memq.fan_children_ok [OF assms, of "[]"] by blast
  let ?f = "f\<lparr>fo_queue := q', fo_children := dict_set (fo_children f) parent (map (fst \<circ> fst) specs)\<rparr>"
  have "create_fan_out memory_ops parent specs f = (Inr (map (fst \<circ> fst) specs), ?f)"
    using q'(1) by (simp add: create_fan_out_def fo_on_queue_def py_defs)
  moreover have "\<forall>e \<in> set specs. \<exists>k. mem_view (jq_backend q') (fst (fst e)) = Some k \<and>
      child_of parent (snd e) k \<and> is_child parent k \<and> status k = QUEUED"
    using q'(4) child_of_is_child by blast
  ultimately show ?thesis using q'(2,3) by (intro exI [of _ ?f]) (simp add: get_children_def)
qed

definition demo_fan :: "memory_backend fan_out_manager" where
  "demo_fan = \<lparr>fo_queue = demo_queue, fo_children = []\<rparr>"

definition demo_specs :: "(submit_env \<times> fan_spec) list" where
  "demo_specs =
     [((''c1'', \<lambda>_. 3), SpecObject \<lparr>cs_job_type = ''mail'', cs_payload = [], cs_queue_name = ''default'', cs_priority = 0\<rparr>),
      ((''c2'', \<lambda>_. 4), SpecDict \<lparr>sd_job_type = Some (PStr ''mail''), sd_payload = None, sd_queue_name = None, sd_priority = None\<rparr>)]"

lemma demo_specs_ready: "\<forall>e \<in> set demo_specs. child_ready (jq_payload_max (fo_queue demo_fan)) ''a'' (snd e)"
proof -
  have "payload_accepted 16384 (child_request ''a'' \<lparr>cs_job_type = ''mail'', cs_payload = [], cs_queue_name = ''default'', cs_priority = 0\<rparr>)"
    by code_simp
  then show ?thesis
    by (simp add: demo_specs_def child_ready_def demo_fan_def demo_queue_def new_job_queue_def py_str_def)
qed

theorem fan_out_creates_witness:
  "\<exists>f'. create_fan_out memory_ops ''a'' demo_specs demo_fan = (Inr (map (fst \<circ> fst) demo_specs), f') \<and>
    get_children f' ''a'' = map (fst \<circ> fst) demo_specs \<and> mem_inv (jq_backend (fo_queue f')) \<and>
    (\<forall>i. i \<notin> set (map (fst \<circ> fst) demo_specs) \<longrightarrow>
       mem_view (jq_backend (fo_queue f')) i = mem_view (jq_backend (fo_queue demo_fan)) i) \<and>
    (\<forall>e \<in> set demo_specs. \<exists>k. mem_view (jq_backend (fo_queue f')) (fst (fst e)) = Some k \<and>
       child_of ''a'' (snd e) k \<and> is_child ''a'' k \<and> status k = QUEUED)"
  by (rule fan_out_creates [OF _ _ _ demo_specs_ready])
    (simp_all add: demo_fan_def demo_queue_def new_job_queue_def demo_inv demo_specs_def,
      simp add: mem_view_def demo_backend_def)

text \<open>
  The strict aggregate of a non-empty list of child states: failed when any child failed, else
  succeeded when all succeeded, else running when any child is active, else queued.
\<close>

theorem aggregate_strict_exact:
  assumes "statuses \<noteq> []"
  shows "aggregate_child_statuses statuses None =
    (if status_value FAILED \<in> set statuses then status_value FAILED
     else if set statuses = {status_value SUCCEEDED} then status_value SUCCEEDED
     else if set statuses \<inter> set active_states \<noteq> {} then status_value RUNNING
     else status_value QUEUED)"
  using assms by (rule aggregate_strict)

theorem aggregate_strict_exact_witness:
  "aggregate_child_statuses [''succeeded'', ''cancelled''] None = ''queued''"
  using aggregate_strict_exact [of "[''succeeded'', ''cancelled'']"] by (simp add: active_states_def)

text \<open>
  With a threshold of at least one and no active child, the parent succeeds exactly when every child
  did, in spite of the rounding of the ratio (for fewer than \<open>2 ^ 53\<close> children).
\<close>

theorem aggregate_full_exact:
  assumes "statuses \<noteq> []" and "set statuses \<inter> set active_states = {}" and "1 \<le> t" and "length statuses < 2 ^ 53"
  shows "aggregate_child_statuses statuses (Some t) = status_value SUCCEEDED \<longleftrightarrow>
    set statuses = {status_value SUCCEEDED}"
  using assms by (rule aggregate_full_threshold)

theorem aggregate_full_exact_witness:
  "aggregate_child_statuses [''succeeded'', ''failed'', ''succeeded''] (Some 1) \<noteq> ''succeeded''"
  using aggregate_full_exact [of "[''succeeded'', ''failed'', ''succeeded'']" 1] by (simp add: active_states_def)

text \<open>
  Cancelling a parent cancels it and every known child that exists, counts each of them, and leaves
  all other jobs alone.
\<close>

theorem cancel_tree:
  assumes "mem_inv (jq_backend (fo_queue f))"
  shows "\<exists>f'. cancel_parent_and_children memory_ops clks parent f =
      (Inr (int (length (filter (\<lambda>i. mem_view (jq_backend (fo_queue f)) i \<noteq> None) (parent # get_children f parent)))), f') \<and>
    mem_inv (jq_backend (fo_queue f')) \<and>
    (\<forall>i. i \<notin> set (parent # get_children f parent) \<longrightarrow>
       mem_view (jq_backend (fo_queue f')) i = mem_view (jq_backend (fo_queue f)) i) \<and>
    (\<forall>i \<in> set (parent # get_children f parent). \<forall>j.
       mem_view (jq_backend (fo_queue f')) i = Some j \<longrightarrow> status j = CANCELLED)"
proof -
  let ?ids = "parent # get_children f parent"
  obtain q' where q': "fold_py (cancel_one memory_ops clks) ?ids 0 (fo_queue f) =
        (Inr (0 + int (length (filter (\<lambda>i. mem_view (jq_backend (fo_queue f)) i \<noteq> None) ?ids))), q')"
      "mem_inv (jq_backend q')"
      "\<forall>i. i \<notin> set ?ids \<longrightarrow> mem_view (jq_backend q') i = mem_view (jq_backend (fo_queue f)) i"
      "\<forall>i \<in> set ?ids. \<forall>j. mem_view (jq_backend q') i = Some j \<longrightarrow> status j = CANCELLED"
    using memq.cancel_fold [OF assms, of clks ?ids 0] by blast
  have "cancel_parent_and_children memory_ops clks parent f =
      (Inr (int (length (filter (\<lambda>i. mem_view (jq_backend (fo_queue f)) i \<noteq> None) ?ids))), f\<lparr>fo_queue := q'\<rparr>)"
    using q'(1) by (simp add: cancel_parent_and_children_def fo_on_queue_def on_field_def)
  with q' show ?thesis by (intro exI [of _ "f\<lparr>fo_queue := q'\<rparr>"]) simp
qed

theorem cancel_tree_witness:
  "\<exists>f'. cancel_parent_and_children memory_ops (\<lambda>_ _. 3) ''a'' (demo_fan\<lparr>fo_children := [(''a'', [''b'', ''gone''])]\<rparr>) =
      (Inr 2, f') \<and> (\<forall>j. mem_view (jq_backend (fo_queue f')) ''b'' = Some j \<longrightarrow> status j = CANCELLED)"
  using cancel_tree [of "demo_fan\<lparr>fo_children := [(''a'', [''b'', ''gone''])]\<rparr>" "\<lambda>_ _. 3" "''a''"] demo_inv
  by (simp add: demo_fan_def demo_queue_def new_job_queue_def get_children_def dict_get_or_def)
    (auto simp: mem_view_def demo_backend_def)

end
