(* ===== verification/State_Machine.thy ===== *)
theory State_Machine
  imports Domain_Models
begin

section \<open>The lifecycle state machine and its extensions\<close>

text \<open>
  \<open>domain/state_machine.py\<close> and \<open>extensions/state_extensions.py\<close>. The module-level
  \<open>REGISTRY\<close> is the argument \<open>reg\<close>, a dictionary from job types to extensions; a Python set
  of state names is a HOL set. The merged table of \<open>_merged_transitions_for\<close> is a partial map,
  since only lookups read it. \<open>sm_step\<close> is the step relation a caller of \<open>transition\<close> sees.
\<close>

subsection \<open>The extension registry\<close>

type_synonym state_name = string

record state_extension =
  ext_job_type :: string
  custom_states :: "state_name set"
  custom_transitions :: "(state_name, state_name set) dict"

type_synonym registry = "(string, state_extension) dict"

text \<open>The validation loop over \<open>transitions.items()\<close>: the first offending entry raises.\<close>

fun check_extension :: "state_name set \<Rightarrow> (state_name, state_name set) dict \<Rightarrow> exn option" where
  "check_extension states [] = None"
| "check_extension states ((st, targets) # rest) =
     (if st \<notin> states
      then Some (ValueError (''Custom transition source not in custom states: '' @ st))
      else if '''' \<in> targets
      then Some (ValueError (''Custom transition target is invalid for '' @ st))
      else check_extension states rest)"

definition register_state_extension ::
  "string \<Rightarrow> state_name set \<Rightarrow> (state_name, state_name set) dict \<Rightarrow> (registry, unit) py" where
  "register_state_extension jt states table =
     (\<lambda>reg. case check_extension states table of
        Some e \<Rightarrow> (Inl e, reg)
      | None \<Rightarrow>
          (Inr (), dict_set reg jt
             \<lparr>ext_job_type = jt, custom_states = states, custom_transitions = table\<rparr>))"

text \<open>The module-level function, which works on \<open>REGISTRY\<close>, the lookup, and the method of the state machine.\<close>

definition register_extension ::
  "string \<Rightarrow> state_name set \<Rightarrow> (state_name, state_name set) dict \<Rightarrow> (registry, unit) py" where
  "register_extension jt states table = register_state_extension jt states table"

definition extension_get :: "registry \<Rightarrow> string \<Rightarrow> state_extension option" where
  "extension_get reg jt = dict_get reg jt"

definition registry_clear :: "(registry, unit) py" where
  "registry_clear = modify (\<lambda>_. [])"

subsection \<open>The state machine\<close>

definition default_transitions :: "(state_name, state_name set) dict" where
  "default_transitions =
     [(''queued'', {''scheduled'', ''running'', ''dispatched'', ''cancelled'', ''timeout''}),
      (''scheduled'', {''queued'', ''running'', ''dispatched'', ''cancelled'', ''timeout''}),
      (''running'', {''succeeded'', ''failed'', ''retry_wait'', ''cancelled'', ''paused'',
                     ''blocked'', ''timeout'', ''ttl_expired''}),
      (''retry_wait'', {''queued'', ''running'', ''failed'', ''cancelled'', ''timeout'',
                        ''dead_lettered''}),
      (''paused'', {''running'', ''cancelled'', ''timeout'', ''ttl_expired''}),
      (''succeeded'', {''archived''}),
      (''failed'', {''dead_lettered'', ''archived''}),
      (''cancelled'', {''archived''}),
      (''timeout'', {''retry_wait'', ''failed'', ''dead_lettered'', ''archived''}),
      (''ttl_expired'', {''archived''}),
      (''created'', {''validated'', ''cancelled''}),
      (''validated'', {''queued'', ''failed''}),
      (''dispatched'', {''running'', ''cancelled'', ''timeout''}),
      (''blocked'', {''running'', ''cancelled'', ''timeout'', ''failed''}),
      (''dead_lettered'', {''archived''}),
      (''archived'', {})]"

record job_state_machine =
  sm_transitions :: "(state_name, state_name set) dict"

text \<open>\<open>transitions or DEFAULT_TRANSITIONS\<close>: an empty table is replaced as well as a missing one.\<close>

definition new_state_machine :: "(state_name, state_name set) dict option \<Rightarrow> job_state_machine" where
  "new_state_machine table =
     (case table of
        None \<Rightarrow> \<lparr>sm_transitions = default_transitions\<rparr>
      | Some t \<Rightarrow> \<lparr>sm_transitions = (if t = [] then default_transitions else t)\<rparr>)"

definition sm_register_state_extension ::
  "job_state_machine \<Rightarrow> string \<Rightarrow> state_name set \<Rightarrow> (state_name, state_name set) dict \<Rightarrow> (registry, unit) py" where
  "sm_register_state_extension sm jt states table = register_extension jt states table"

definition setdefault_states ::
  "state_name set \<Rightarrow> (state_name \<rightharpoonup> state_name set) \<Rightarrow> (state_name \<rightharpoonup> state_name set)" where
  "setdefault_states states m = (\<lambda>s. if s \<in> states \<and> m s = None then Some {} else m s)"

fun update_targets ::
  "(state_name, state_name set) dict \<Rightarrow> (state_name \<rightharpoonup> state_name set) \<Rightarrow> (state_name \<rightharpoonup> state_name set)"
where
  "update_targets [] m = m"
| "update_targets ((s, targets) # rest) m =
     update_targets rest (m(s \<mapsto> (case m s of None \<Rightarrow> targets | Some ts \<Rightarrow> ts \<union> targets)))"

definition merged_transitions_for ::
  "registry \<Rightarrow> job_state_machine \<Rightarrow> string option \<Rightarrow> (state_name \<rightharpoonup> state_name set)" where
  "merged_transitions_for reg sm jt =
     (let merged = map_of (sm_transitions sm) in
      case jt of
        None \<Rightarrow> merged
      | Some t \<Rightarrow>
          if t = [] then merged
          else (case dict_get reg t of
                  None \<Rightarrow> merged
                | Some ext \<Rightarrow>
                    update_targets (custom_transitions ext)
                      (setdefault_states (custom_states ext) merged)))"

definition targets_of :: "(state_name \<rightharpoonup> state_name set) \<Rightarrow> state_name \<Rightarrow> state_name set" where
  "targets_of m s = (case m s of None \<Rightarrow> {} | Some ts \<Rightarrow> ts)"

definition can_transition ::
  "registry \<Rightarrow> job_state_machine \<Rightarrow> string option \<Rightarrow> state_name \<Rightarrow> state_name \<Rightarrow> bool" where
  "can_transition reg sm jt from_state to_state \<longleftrightarrow>
     to_state \<in> targets_of (merged_transitions_for reg sm jt) from_state"

definition transition ::
  "registry \<Rightarrow> job_state_machine \<Rightarrow> string option \<Rightarrow> state_name \<Rightarrow> state_name \<Rightarrow> exn + state_name" where
  "transition reg sm jt from_state to_state =
     (if \<not> can_transition reg sm jt from_state to_state
      then Inl (ValueError (''Invalid transition: '' @ from_state @ '' -> '' @ to_state))
      else Inr to_state)"

definition is_terminal :: "registry \<Rightarrow> job_state_machine \<Rightarrow> string option \<Rightarrow> state_name \<Rightarrow> bool" where
  "is_terminal reg sm jt s \<longleftrightarrow> targets_of (merged_transitions_for reg sm jt) s = {}"

definition is_retryable :: "state_name \<Rightarrow> bool" where
  "is_retryable s \<longleftrightarrow> s \<in> {''failed'', ''retry_wait'', ''timeout''}"

text \<open>One accepted call of \<open>transition\<close>, and the states a run of them reaches.\<close>

inductive sm_step ::
  "registry \<Rightarrow> job_state_machine \<Rightarrow> string option \<Rightarrow> state_name \<Rightarrow> state_name \<Rightarrow> bool"
  for reg sm jt where
  accepted: "transition reg sm jt a b = Inr c \<Longrightarrow> sm_step reg sm jt a c"

inductive_cases sm_stepE: "sm_step reg sm jt a b"

inductive_simps sm_step_iff: "sm_step reg sm jt a b"

subsection \<open>Lemmas\<close>

lemma transition_Inr_iff:
  "transition reg sm jt a b = Inr c \<longleftrightarrow> c = b \<and> can_transition reg sm jt a b"
  by (auto simp: transition_def)

lemma sm_step_can: "sm_step reg sm jt a b \<longleftrightarrow> can_transition reg sm jt a b"
  by (auto simp: sm_step_iff transition_Inr_iff)

lemma targets_setdefault [simp]: "targets_of (setdefault_states S m) s = targets_of m s"
  by (simp add: targets_of_def setdefault_states_def split: option.splits)

lemma targets_of_upd:
  "targets_of (m(s \<mapsto> (case m s of None \<Rightarrow> ts | Some us \<Rightarrow> us \<union> ts))) x =
     (if x = s then targets_of m s \<union> ts else targets_of m x)"
  by (simp add: targets_of_def split: option.splits)

lemma targets_update:
  "b \<in> targets_of (update_targets d m) s \<longleftrightarrow> b \<in> targets_of m s \<or> (\<exists>ts. (s, ts) \<in> set d \<and> b \<in> ts)"
proof (induction d m rule: update_targets.induct)
  case 1
  then show ?case by simp
next
  case (2 s' targets rest m)
  show ?case
    unfolding update_targets.simps 2 targets_of_upd by auto
qed

lemma check_extension_None:
  "check_extension states d = None \<longleftrightarrow> (\<forall>(s, ts) \<in> set d. s \<in> states \<and> [] \<notin> ts)"
  by (induction states d rule: check_extension.induct) auto

lemma can_transition_base:
  "can_transition reg sm None a b \<longleftrightarrow> b \<in> targets_of (map_of (sm_transitions sm)) a"
  by (simp add: can_transition_def merged_transitions_for_def)

text \<open>With an extension registered, exactly its edges are added for its job type.\<close>

lemma can_transition_ext:
  assumes "t \<noteq> []" and "dict_get reg t = Some ext"
  shows "can_transition reg sm (Some t) a b \<longleftrightarrow>
    can_transition reg sm None a b \<or> (\<exists>ts. (a, ts) \<in> set (custom_transitions ext) \<and> b \<in> ts)"
  using assms by (auto simp: can_transition_def merged_transitions_for_def targets_update)

lemma can_transition_no_ext:
  "dict_get reg t = None \<Longrightarrow> can_transition reg sm (Some t) a b \<longleftrightarrow> can_transition reg sm None a b"
  by (simp add: can_transition_def merged_transitions_for_def Let_def)

abbreviation default_machine :: job_state_machine where
  "default_machine \<equiv> new_state_machine None"

lemma default_machine_transitions [simp]: "sm_transitions default_machine = default_transitions"
  by (simp add: new_state_machine_def)

lemma default_can:
  "can_transition reg default_machine None a b \<longleftrightarrow> b \<in> targets_of (map_of default_transitions) a"
  by (simp add: can_transition_base)

text \<open>The default table is closed: its sources and its targets are the job states.\<close>

lemma default_sources: "dict_keys default_transitions = map status_value
    [QUEUED, SCHEDULED, RUNNING, RETRY_WAIT, PAUSED, SUCCEEDED, FAILED, CANCELLED, TIMEOUT,
     TTL_EXPIRED, CREATED, VALIDATED, DISPATCHED, BLOCKED, DEAD_LETTERED, ARCHIVED]"
  by (simp add: default_transitions_def)

text \<open>The default table read over the states themselves.\<close>

primrec default_next :: "job_status \<Rightarrow> job_status set" where
  "default_next QUEUED = {SCHEDULED, RUNNING, DISPATCHED, CANCELLED, TIMEOUT}"
| "default_next SCHEDULED = {QUEUED, RUNNING, DISPATCHED, CANCELLED, TIMEOUT}"
| "default_next RUNNING =
     {SUCCEEDED, FAILED, RETRY_WAIT, CANCELLED, PAUSED, BLOCKED, TIMEOUT, TTL_EXPIRED}"
| "default_next RETRY_WAIT = {QUEUED, RUNNING, FAILED, CANCELLED, TIMEOUT, DEAD_LETTERED}"
| "default_next PAUSED = {RUNNING, CANCELLED, TIMEOUT, TTL_EXPIRED}"
| "default_next TIMEOUT = {RETRY_WAIT, FAILED, DEAD_LETTERED, ARCHIVED}"
| "default_next TTL_EXPIRED = {ARCHIVED}"
| "default_next SUCCEEDED = {ARCHIVED}"
| "default_next FAILED = {DEAD_LETTERED, ARCHIVED}"
| "default_next CANCELLED = {ARCHIVED}"
| "default_next CREATED = {VALIDATED, CANCELLED}"
| "default_next VALIDATED = {QUEUED, FAILED}"
| "default_next DISPATCHED = {RUNNING, CANCELLED, TIMEOUT}"
| "default_next BLOCKED = {RUNNING, CANCELLED, TIMEOUT, FAILED}"
| "default_next DEAD_LETTERED = {ARCHIVED}"
| "default_next ARCHIVED = {}"

lemma default_edge:
  "targets_of (map_of default_transitions) (status_value s) = status_value ` default_next s"
  by (cases s) (simp_all add: targets_of_def default_transitions_def)

lemma default_step_iff:
  "sm_step reg default_machine None (status_value s) (status_value t) \<longleftrightarrow> t \<in> default_next s"
  by (auto simp: sm_step_can default_can default_edge image_iff)

lemma default_step_source:
  assumes "sm_step reg default_machine None a b"
  shows "\<exists>s. a = status_value s"
proof -
  from assms have "b \<in> targets_of (map_of default_transitions) a"
    by (simp add: sm_step_can default_can)
  then have "a \<in> set (dict_keys default_transitions)"
    by (auto simp: targets_of_def split: option.splits dest: dict_get_Some_fst)
  then show ?thesis
    unfolding default_sources set_map by blast
qed

lemma default_stepE:
  assumes "sm_step reg default_machine None a b"
  obtains s t where "a = status_value s" "b = status_value t" "t \<in> default_next s"
proof -
  obtain s where s: "a = status_value s"
    using default_step_source [OF assms] by blast
  with assms have "b \<in> status_value ` default_next s"
    by (simp add: sm_step_can default_can default_edge)
  with s that show thesis by blast
qed

text \<open>The states from which the default machine never returns to work.\<close>

definition finished_statuses :: "job_status set" where
  "finished_statuses = {SUCCEEDED, FAILED, CANCELLED, TTL_EXPIRED, DEAD_LETTERED, ARCHIVED}"

lemma default_next_finished: "s \<in> finished_statuses \<Longrightarrow> default_next s \<subseteq> finished_statuses"
  by (auto simp: finished_statuses_def)

lemma default_finished_closed:
  assumes "(sm_step reg default_machine None)\<^sup>*\<^sup>* a b" and "a \<in> status_value ` finished_statuses"
  shows "b \<in> status_value ` finished_statuses"
  using assms
proof (induction rule: rtranclp_induct)
  case base
  then show ?case .
next
  case (step b c)
  then obtain s where s: "b = status_value s" "s \<in> finished_statuses" by blast
  from step.hyps(2) show ?case
    using s default_next_finished [OF s(2)] by (auto elim!: default_stepE)
qed

lemma default_steps_lift:
  "(\<lambda>s t. t \<in> default_next s)\<^sup>*\<^sup>* s t \<Longrightarrow>
     (sm_step reg default_machine None)\<^sup>*\<^sup>* (status_value s) (status_value t)"
  by (induction rule: rtranclp_induct) (auto simp: default_step_iff intro: rtranclp.rtrancl_into_rtrancl)

text \<open>From every state at most three steps lead to the archive.\<close>

lemma default_next_archived: "(\<lambda>s t. t \<in> default_next s)\<^sup>*\<^sup>* s ARCHIVED"
proof -
  let ?R = "\<lambda>s t. t \<in> default_next s"
  have one: "?R\<^sup>*\<^sup>* x ARCHIVED" if "ARCHIVED \<in> default_next x" for x
    using that by (auto intro: r_into_rtranclp)
  have two: "?R\<^sup>*\<^sup>* x ARCHIVED" if "CANCELLED \<in> default_next x \<or> FAILED \<in> default_next x" for x
    using that one [of CANCELLED] one [of FAILED]
    by (auto intro: converse_rtranclp_into_rtranclp [where r = ?R])
  show ?thesis
    using one two by (cases s) auto
qed

end
