(* ===== verification/Broker_Capacity.thy ===== *)
theory Broker_Capacity
  imports Resource_Pool Cycle_Search
begin

section \<open>Broker: capacity and deadlock avoidance\<close>

text \<open>
  \<open>broker/capacity.py\<close> and \<open>broker/deadlock.py\<close>. Every method of the source runs under the object's
  lock, so a method is one step here. The Python sets of the wait-for graph are lists without
  repetition; the order in which a set is iterated does not matter for the search, which only
  answers whether a node is reachable.
\<close>

subsection \<open>Capacity\<close>

record resource_slot =
  sl_name :: string
  sl_total :: int
  sl_used :: int

definition slot_available :: "resource_slot \<Rightarrow> int" where
  "slot_available s = max 0 (sl_total s - sl_used s)"

definition slot_acquire :: "int \<Rightarrow> resource_slot \<Rightarrow> bool \<times> resource_slot" where
  "slot_acquire n s = (if sl_used s + n > sl_total s then (False, s) else (True, s\<lparr>sl_used := sl_used s + n\<rparr>))"

definition slot_release :: "int \<Rightarrow> resource_slot \<Rightarrow> resource_slot" where
  "slot_release n s = s\<lparr>sl_used := max 0 (sl_used s - n)\<rparr>"

type_synonym capacity_enforcer = "(string, resource_slot) dict"

definition register_resource :: "string \<Rightarrow> int \<Rightarrow> capacity_enforcer \<Rightarrow> capacity_enforcer" where
  "register_resource name cap c = dict_set c name \<lparr>sl_name = name, sl_total = cap, sl_used = 0\<rparr>"

definition enough :: "capacity_enforcer \<Rightarrow> string \<times> int \<Rightarrow> bool" where
  "enough c req \<longleftrightarrow>
     (case dict_get c (fst req) of None \<Rightarrow> False | Some s \<Rightarrow> \<not> slot_available s < snd req)"

text \<open>\<open>self._slots[name].acquire(count)\<close>, where the check before it has found the name.\<close>

definition acquire_entry :: "string \<times> int \<Rightarrow> capacity_enforcer \<Rightarrow> capacity_enforcer" where
  "acquire_entry req c =
     (case dict_get c (fst req) of None \<Rightarrow> c | Some s \<Rightarrow> dict_set c (fst req) (snd (slot_acquire (snd req) s)))"

definition release_entry :: "string \<times> int \<Rightarrow> capacity_enforcer \<Rightarrow> capacity_enforcer" where
  "release_entry req c =
     (case dict_get c (fst req) of None \<Rightarrow> c | Some s \<Rightarrow> dict_set c (fst req) (slot_release (snd req) s))"

definition try_acquire :: "(string, int) dict \<Rightarrow> capacity_enforcer \<Rightarrow> bool \<times> capacity_enforcer" where
  "try_acquire reqs c = (if list_all (enough c) reqs then (True, fold acquire_entry reqs c) else (False, c))"

definition capacity_release :: "(string, int) dict \<Rightarrow> capacity_enforcer \<Rightarrow> capacity_enforcer" where
  "capacity_release reqs c = fold release_entry reqs c"

definition capacity_available :: "capacity_enforcer \<Rightarrow> string \<Rightarrow> int" where
  "capacity_available c name = (case dict_get c name of None \<Rightarrow> 0 | Some s \<Rightarrow> slot_available s)"

definition capacity_stats :: "capacity_enforcer \<Rightarrow> (string, int \<times> int \<times> int) dict" where
  "capacity_stats c = map (\<lambda>(name, s). (name, (sl_total s, sl_used s, slot_available s))) c"

text \<open>The invariant, and the use of one resource.\<close>

definition slot_ok :: "resource_slot \<Rightarrow> bool" where
  "slot_ok s \<longleftrightarrow> 0 \<le> sl_used s \<and> sl_used s \<le> max 0 (sl_total s)"

definition capacity_ok :: "capacity_enforcer \<Rightarrow> bool" where
  "capacity_ok c \<longleftrightarrow> (\<forall>name s. dict_get c name = Some s \<longrightarrow> slot_ok s)"

lemma slot_ok_acquire:
  "slot_ok s \<Longrightarrow> 0 \<le> n \<Longrightarrow> n \<le> max 0 (sl_total s - sl_used s) \<Longrightarrow> slot_ok (s\<lparr>sl_used := sl_used s + n\<rparr>)"
  by (auto simp: slot_ok_def max_def split: if_splits)

lemma slot_ok_release: "slot_ok s \<Longrightarrow> 0 \<le> n \<Longrightarrow> slot_ok (slot_release n s)"
  by (auto simp: slot_ok_def slot_release_def max_def split: if_splits)

lemma slot_release_acquire: "slot_ok s \<Longrightarrow> slot_release n (s\<lparr>sl_used := sl_used s + n\<rparr>) = s"
  by (simp add: slot_ok_def slot_release_def)

definition capacity_used :: "capacity_enforcer \<Rightarrow> string \<Rightarrow> int option" where
  "capacity_used c name = map_option sl_used (dict_get c name)"

definition capacity_total :: "capacity_enforcer \<Rightarrow> string \<Rightarrow> int option" where
  "capacity_total c name = map_option sl_total (dict_get c name)"

lemma enough_iff:
  "enough c (name, n) \<longleftrightarrow> (\<exists>s. dict_get c name = Some s \<and> n \<le> max 0 (sl_total s - sl_used s))"
  by (auto simp: enough_def slot_available_def split: option.splits)

lemma acquire_entry_get:
  assumes "enough c (name, n)" and "0 \<le> n" and "capacity_ok c"
  shows "dict_get (acquire_entry (name, n) c) k =
    (if k = name then map_option (\<lambda>s. s\<lparr>sl_used := sl_used s + n\<rparr>) (dict_get c k) else dict_get c k)"
proof -
  obtain s where s: "dict_get c name = Some s" "n \<le> max 0 (sl_total s - sl_used s)"
    using assms(1) by (auto simp: enough_iff)
  have fit: "sl_used s + n \<le> sl_total s \<or> n = 0" using s(2) assms(2) by (auto simp: max_def split: if_splits)
  show ?thesis
    using s fit by (auto simp: acquire_entry_def slot_acquire_def)
qed

lemma acquire_all_get:
  assumes "request_ok reqs" and "list_all (enough c) reqs" and "capacity_ok c"
  shows "dict_get (fold acquire_entry reqs c) k =
    map_option (\<lambda>s. s\<lparr>sl_used := sl_used s + slots_of reqs k\<rparr>) (dict_get c k)"
  using assms
proof (induction reqs arbitrary: c)
  case Nil
  then show ?case by (cases "dict_get c k") simp_all
next
  case (Cons r reqs)
  obtain name n where r: "r = (name, n)" by (cases r)
  have ok: "request_ok reqs" "0 \<le> n" "name \<notin> set (dict_keys reqs)"
    using request_ok_Cons [of name n reqs] Cons.prems(1) r by auto
  have e: "enough c (name, n)" using Cons.prems(2) r by simp
  note get = acquire_entry_get [OF e ok(2) Cons.prems(3)]
  have keep: "enough (acquire_entry r c) q" if "q \<in> set reqs" for q
  proof -
    have "fst q \<noteq> name" using that ok(3) by force
    then have "enough (acquire_entry r c) q = enough c q" by (simp add: enough_def get r)
    with that Cons.prems(2) show ?thesis by (auto simp: list_all_iff)
  qed
  have "capacity_ok (acquire_entry r c)"
    using Cons.prems(3) e ok(2) slot_ok_acquire unfolding capacity_ok_def r
    by (auto simp: get enough_iff split: if_splits)
  then have "dict_get (fold acquire_entry reqs (acquire_entry r c)) k =
      map_option (\<lambda>s. s\<lparr>sl_used := sl_used s + slots_of reqs k\<rparr>) (dict_get (acquire_entry r c) k)"
    using keep by (intro Cons.IH [OF ok(1)]) (auto simp: list_all_iff)
  then show ?case
    using slots_of_not_key [OF ok(3)]
    by (cases "dict_get c k") (auto simp: get r slots_of_Cons)
qed

lemma release_all_get:
  assumes "dict_ok reqs"
  shows "dict_get (capacity_release reqs c) k =
    (if k \<in> set (dict_keys reqs)
     then map_option (slot_release (slots_of reqs k)) (dict_get c k) else dict_get c k)"
  using assms
proof (induction reqs arbitrary: c)
  case Nil
  then show ?case by (simp add: capacity_release_def)
next
  case (Cons r reqs)
  obtain name n where r: "r = (name, n)" by (cases r)
  have ok: "dict_ok reqs" "name \<notin> set (dict_keys reqs)"
    using Cons.prems r by (auto simp: dict_ok_def simp del: set_map)
  have get: "dict_get (release_entry r c) k =
      (if k = name then map_option (slot_release n) (dict_get c k) else dict_get c k)"
    by (auto simp: release_entry_def r split: option.splits)
  have "capacity_release (r # reqs) c = capacity_release reqs (release_entry r c)"
    by (simp add: capacity_release_def)
  then show ?case
    using Cons.IH [OF ok(1)] ok(2) get by (auto simp: r slots_of_Cons simp del: set_map)
qed

text \<open>Acquiring keeps the invariant; a release after it restores every count.\<close>

lemma try_acquire_ok:
  assumes "capacity_ok c" and "request_ok reqs" and "try_acquire reqs c = (b, c')"
  shows "capacity_ok c'"
proof (cases "list_all (enough c) reqs")
  case False
  then show ?thesis using assms by (auto simp: try_acquire_def)
next
  case True
  have c': "c' = fold acquire_entry reqs c" using assms(3) True by (simp add: try_acquire_def)
  have fit: "slots_of reqs k \<le> max 0 (sl_total s - sl_used s)" if s: "dict_get c k = Some s" for k s
  proof (cases "k \<in> set (dict_keys reqs)")
    case True
    then obtain n where n: "(k, n) \<in> set reqs" by auto
    then have "slots_of reqs k = n"
      using assms(2) by (simp add: request_ok_def dict_get_or_def dict_mem_iff)
    moreover have "enough c (k, n)" using n \<open>list_all (enough c) reqs\<close> by (auto simp: list_all_iff)
    ultimately show ?thesis using s by (simp add: enough_iff)
  next
    case False
    then show ?thesis using slots_of_not_key [OF False] by simp
  qed
  show ?thesis
    unfolding capacity_ok_def c'
  proof (intro allI impI)
    fix k s assume "dict_get (fold acquire_entry reqs c) k = Some s"
    then obtain s0 where s0: "dict_get c k = Some s0" "s = s0\<lparr>sl_used := sl_used s0 + slots_of reqs k\<rparr>"
      by (auto simp: acquire_all_get [OF assms(2) True assms(1)])
    have "slot_ok s0" using assms(1) s0(1) by (simp add: capacity_ok_def)
    then show "slot_ok s"
      using slot_ok_acquire [OF _ request_ok_nonneg [OF assms(2)] fit [OF s0(1)]] s0(2) by simp
  qed
qed

lemma capacity_release_ok:
  assumes "capacity_ok c" and "request_ok reqs"
  shows "capacity_ok (capacity_release reqs c)"
  unfolding capacity_ok_def
proof (intro allI impI)
  fix k s assume "dict_get (capacity_release reqs c) k = Some s"
  then obtain s0 where "dict_get c k = Some s0" "s = s0 \<or> s = slot_release (slots_of reqs k) s0"
    using assms(2) by (auto simp: release_all_get request_ok_def split: if_splits)
  then show "slot_ok s"
    using assms slot_ok_release [OF _ request_ok_nonneg [OF assms(2)]] by (auto simp: capacity_ok_def)
qed

lemma acquire_release_get:
  assumes "capacity_ok c" and "request_ok reqs" and "try_acquire reqs c = (True, c')"
  shows "dict_get (capacity_release reqs c') k = dict_get c k"
proof -
  have all: "list_all (enough c) reqs" and c': "c' = fold acquire_entry reqs c"
    using assms(3) by (auto simp: try_acquire_def split: if_splits)
  have ok: "slot_ok s" if "dict_get c k = Some s" for s using assms(1) that by (auto simp: capacity_ok_def)
  have d: "dict_ok reqs" using assms(2) by (simp add: request_ok_def)
  show ?thesis
    using slots_of_not_key [of k reqs] ok slot_release_acquire
    by (cases "dict_get c k")
      (simp_all add: release_all_get [OF d] c' acquire_all_get [OF assms(2) all assms(1)] del: set_map)
qed

subsection \<open>Deadlock avoidance\<close>

type_synonym deadlock_guard = adjacency

definition would_cycle :: "deadlock_guard \<Rightarrow> string \<Rightarrow> string \<Rightarrow> bool" where
  "would_cycle g from_id to_id \<longleftrightarrow> (if from_id = to_id then True else search_loop g from_id [to_id] {})"

definition add_dependency :: "string \<Rightarrow> string \<Rightarrow> deadlock_guard \<Rightarrow> bool \<times> deadlock_guard" where
  "add_dependency jid dep g =
     (if would_cycle g jid dep then (False, g)
      else (True, dict_set g jid (List.insert dep (successors g jid))))"

definition remove_job :: "string \<Rightarrow> deadlock_guard \<Rightarrow> deadlock_guard" where
  "remove_job jid g = map (\<lambda>(k, deps). (k, filter (\<lambda>d. d \<noteq> jid) deps)) (dict_pop g jid)"

definition get_blocked_jobs :: "deadlock_guard \<Rightarrow> string list" where
  "get_blocked_jobs g = map fst (filter (\<lambda>(_, deps). deps \<noteq> []) g)"

definition guard_dependencies :: "deadlock_guard \<Rightarrow> string \<Rightarrow> string set" where
  "guard_dependencies g jid = set (successors g jid)"

definition yield_to :: "string \<Rightarrow> string \<Rightarrow> deadlock_guard \<Rightarrow> bool \<times> deadlock_guard" where
  "yield_to holder waiter g = add_dependency waiter holder g"

text \<open>The guard's histories, and the invariant that the wait-for graph stays acyclic.\<close>

inductive guard_reachable :: "deadlock_guard \<Rightarrow> bool" where
  empty: "guard_reachable []"
| add: "guard_reachable g \<Longrightarrow> add_dependency j d g = (r, g') \<Longrightarrow> guard_reachable g'"
| remove: "guard_reachable g \<Longrightarrow> guard_reachable (remove_job j g)"

lemma would_cycle_iff: "would_cycle g j d \<longleftrightarrow> (d, j) \<in> (edge_rel g)\<^sup>*"
  by (auto simp: would_cycle_def search_loop_correct)

lemma edge_rel_insert:
  "edge_rel (dict_set g j (List.insert d (successors g j))) = insert (j, d) (edge_rel g)"
  by (auto simp: edge_rel_def split: if_splits)

lemma remove_job_get: "dict_get (remove_job j g) k =
    (if k = j then None else map_option (filter (\<lambda>d. d \<noteq> j)) (dict_get g k))"
proof -
  have "map_of (map (\<lambda>(k, deps). (k, filter (\<lambda>d. d \<noteq> j) deps)) xs) k =
      map_option (filter (\<lambda>d. d \<noteq> j)) (map_of xs k)" for xs :: deadlock_guard
    by (induction xs) auto
  then show ?thesis by (simp add: remove_job_def)
qed

lemma edge_rel_remove: "edge_rel (remove_job j g) = {(x, y) \<in> edge_rel g. x \<noteq> j \<and> y \<noteq> j}"
proof -
  have "successors (remove_job j g) x = (if x = j then [] else filter (\<lambda>d. d \<noteq> j) (successors g x))" for x
    by (cases "dict_get g x") (simp_all add: dict_get_or_def remove_job_get)
  then show ?thesis by (auto simp: edge_rel_def split: if_splits)
qed

lemma guard_reachable_acyclic: "guard_reachable g \<Longrightarrow> acyclic (edge_rel g)"
proof (induction rule: guard_reachable.induct)
  case empty
  then show ?case by (simp add: edge_rel_def acyclic_def)
next
  case (add g j d r g')
  then show ?case
    by (auto simp: add_dependency_def would_cycle_iff edge_rel_insert acyclic_insert split: if_splits)
next
  case (remove g j)
  show ?case by (rule acyclic_subset [OF remove.IH]) (auto simp: edge_rel_remove)
qed

end
