(* ===== verification/Broker_Queue.thy ===== *)
theory Broker_Queue
  imports Jobs_Prelude
begin

section \<open>Broker: the priority queue\<close>

text \<open>
  \<open>broker/priority.py\<close>. \<open>heapq\<close> is used through what its documentation promises: \<open>heap[0]\<close> is the
  smallest entry and \<open>heappop\<close> removes it. The layout of the array behind it is not observable
  through the methods of the class, so the heap is the list of its entries in ascending order:
  \<open>heappush\<close> inserts, \<open>heappop\<close> takes the head, \<open>heapify\<close> sorts. An entry is compared by
  priority, then timestamp, then sequence number, as the dataclass does. The clock is
  \<open>time.monotonic\<close>; the lemmas ask that its readings do not decrease.

  The specification is four queues, one for each level: \<open>put\<close> appends to the queue of its level,
  \<open>get\<close> takes the head of the first queue that is not empty.
\<close>

datatype broker_priority = CRITICAL | HIGH | NORMAL | BULK

primrec priority_value :: "broker_priority \<Rightarrow> int" where
  "priority_value CRITICAL = 0"
| "priority_value HIGH = 1"
| "priority_value NORMAL = 2"
| "priority_value BULK = 3"

text \<open>An \<open>IntEnum\<close> compares by its value.\<close>

instantiation broker_priority :: linorder
begin

definition less_eq_broker_priority :: "broker_priority \<Rightarrow> broker_priority \<Rightarrow> bool" where
  "less_eq_broker_priority p q \<longleftrightarrow> priority_value p \<le> priority_value q"

definition less_broker_priority :: "broker_priority \<Rightarrow> broker_priority \<Rightarrow> bool" where
  "less_broker_priority p q \<longleftrightarrow> priority_value p < priority_value q"

instance
proof
  fix p q :: broker_priority
  show "p \<le> q \<Longrightarrow> q \<le> p \<Longrightarrow> p = q"
    by (cases p; cases q) (simp_all add: less_eq_broker_priority_def)
qed (auto simp: less_eq_broker_priority_def less_broker_priority_def)

end

definition all_priorities :: "broker_priority list" where
  "all_priorities = [CRITICAL, HIGH, NORMAL, BULK]"

definition priority_of :: "int \<Rightarrow> exn + broker_priority" where
  "priority_of n =
     (case find (\<lambda>p. priority_value p = n) all_priorities of
        Some p \<Rightarrow> Inr p
      | None \<Rightarrow> Inl (ValueError ''not a valid Priority''))"

record 'a priority_item =
  pi_priority :: int
  pi_timestamp :: time
  pi_sequence :: int
  pi_item :: 'a

definition item_key :: "'a priority_item \<Rightarrow> int \<times> time \<times> int" where
  "item_key e = (pi_priority e, pi_timestamp e, pi_sequence e)"

record 'a priority_queue =
  pq_heap :: "'a priority_item list"
  pq_seq :: int

definition new_priority_queue :: "'a priority_queue" where
  "new_priority_queue = \<lparr>pq_heap = [], pq_seq = 0\<rparr>"

definition pq_put :: "time \<Rightarrow> 'a \<Rightarrow> broker_priority \<Rightarrow> 'a priority_queue \<Rightarrow> 'a priority_queue" where
  "pq_put now x p q =
     (let s = pq_seq q + 1;
          entry = \<lparr>pi_priority = priority_value p, pi_timestamp = now, pi_sequence = s, pi_item = x\<rparr>
      in q\<lparr>pq_seq := s, pq_heap := insort_key item_key entry (pq_heap q)\<rparr>)"

definition pq_get :: "'a priority_queue \<Rightarrow> 'a option \<times> 'a priority_queue" where
  "pq_get q =
     (case pq_heap q of
        [] \<Rightarrow> (None, q)
      | e # rest \<Rightarrow> (Some (pi_item e), q\<lparr>pq_heap := rest\<rparr>))"

definition pq_peek :: "'a priority_queue \<Rightarrow> exn + ('a \<times> broker_priority) option" where
  "pq_peek q =
     (case pq_heap q of
        [] \<Rightarrow> Inr None
      | e # _ \<Rightarrow> (case priority_of (pi_priority e) of Inl err \<Rightarrow> Inl err | Inr p \<Rightarrow> Inr (Some (pi_item e, p))))"

definition adjust_entry :: "('a \<Rightarrow> bool) \<Rightarrow> broker_priority \<Rightarrow> 'a priority_item \<Rightarrow> 'a priority_item" where
  "adjust_entry matches p e = (if matches (pi_item e) then e\<lparr>pi_priority := priority_value p\<rparr> else e)"

definition pq_adjust :: "('a \<Rightarrow> bool) \<Rightarrow> broker_priority \<Rightarrow> 'a priority_queue \<Rightarrow> int \<times> 'a priority_queue" where
  "pq_adjust matches p q =
     (int (length (filter (\<lambda>e. matches (pi_item e)) (pq_heap q))),
      q\<lparr>pq_heap := sort_key item_key (map (adjust_entry matches p) (pq_heap q))\<rparr>)"

definition pq_len :: "'a priority_queue \<Rightarrow> int" where
  "pq_len q = int (length (pq_heap q))"

definition count_by_priority :: "'a priority_queue \<Rightarrow> (broker_priority, int) dict" where
  "count_by_priority q =
     map (\<lambda>p. (p, int (length (filter (\<lambda>e. pi_priority e = priority_value p) (pq_heap q))))) all_priorities"

subsection \<open>Four queues\<close>

type_synonym 'a lanes = "broker_priority \<Rightarrow> 'a list"

definition lane :: "'a priority_queue \<Rightarrow> 'a lanes" where
  "lane q p = map pi_item (filter (\<lambda>e. pi_priority e = priority_value p) (pq_heap q))"

definition lanes_get :: "'a lanes \<Rightarrow> 'a option \<times> 'a lanes" where
  "lanes_get l =
     (case find (\<lambda>p. l p \<noteq> []) all_priorities of
        None \<Rightarrow> (None, l)
      | Some p \<Rightarrow> (Some (hd (l p)), l(p := tl (l p))))"

definition pq_inv :: "time \<Rightarrow> 'a priority_queue \<Rightarrow> bool" where
  "pq_inv now q \<longleftrightarrow>
     sorted (map item_key (pq_heap q)) \<and>
     (\<forall>e \<in> set (pq_heap q). pi_priority e \<in> range priority_value \<and>
        pi_timestamp e \<le> now \<and> pi_sequence e \<le> pq_seq q)"

lemma priority_value_inject [simp]: "priority_value p = priority_value p' \<longleftrightarrow> p = p'"
  by (cases p; cases p'; simp)

lemma priority_of_value [simp]: "priority_of (priority_value p) = Inr p"
  by (cases p) (simp_all add: priority_of_def all_priorities_def)

lemma pq_inv_new: "pq_inv now new_priority_queue"
  by (simp add: pq_inv_def new_priority_queue_def)

lemma insort_last: "\<forall>y \<in> set ys. f y < f x \<Longrightarrow> insort_key f x ys = ys @ [x]"
  by (induction ys) auto

lemma set_insort_entry: "set (insort_key f x ys) = insert x (set ys)"
  by (rule set_insort_key)

lemma pq_put_refines:
  assumes inv: "pq_inv now q" and le: "now \<le> now'"
  shows "pq_inv now' (pq_put now' x p q) \<and> lane (pq_put now' x p q) = (lane q)(p := lane q p @ [x])"
proof -
  define e where "e = \<lparr>pi_priority = priority_value p, pi_timestamp = now', pi_sequence = pq_seq q + 1, pi_item = x\<rparr>"
  have heap: "pq_heap (pq_put now' x p q) = insort_key item_key e (pq_heap q)"
    and seq: "pq_seq (pq_put now' x p q) = pq_seq q + 1"
    by (simp_all add: pq_put_def Let_def e_def)
  have sorted: "sorted (map item_key (pq_heap q))" using inv by (simp add: pq_inv_def)
  have "\<forall>y \<in> insert e (set (pq_heap q)). pi_priority y \<in> range priority_value \<and>
      pi_timestamp y \<le> now' \<and> pi_sequence y \<le> pq_seq q + 1"
    using inv le by (force simp: pq_inv_def e_def)
  then have "pq_inv now' (pq_put now' x p q)"
    using sorted by (simp add: pq_inv_def heap seq set_insort_entry sorted_insort_key)
  moreover have "lane (pq_put now' x p q) p = lane q p @ [x]"
  proof -
    let ?P = "\<lambda>e. pi_priority e = priority_value p"
    have "filter ?P (insort_key item_key e (pq_heap q)) = insort_key item_key e (filter ?P (pq_heap q))"
      using sorted by (intro filter_insort) (simp_all add: e_def)
    moreover have "\<forall>y \<in> set (filter ?P (pq_heap q)). item_key y < item_key e"
      using inv le by (fastforce simp: pq_inv_def item_key_def e_def)
    ultimately show ?thesis by (simp add: lane_def heap insort_last) (simp add: e_def)
  qed
  moreover have "lane (pq_put now' x p q) p' = lane q p'" if "p' \<noteq> p" for p'
    using that by (simp add: lane_def heap e_def filter_insort_triv)
  ultimately show ?thesis by auto
qed

lemma lane_head:
  assumes "pq_inv now q" and "pq_heap q = e # rest" and "pi_priority e = priority_value p"
  shows "lane q p = pi_item e # map pi_item (filter (\<lambda>e. pi_priority e = priority_value p) rest)"
    and "\<And>p'. p' < p \<Longrightarrow> lane q p' = []"
proof -
  show "lane q p = pi_item e # map pi_item (filter (\<lambda>e. pi_priority e = priority_value p) rest)"
    using assms by (simp add: lane_def)
next
  fix p' assume "p' < p"
  then have less: "priority_value p' < priority_value p" by (simp add: less_broker_priority_def)
  have "pi_priority e \<le> pi_priority x" if "x \<in> set (pq_heap q)" for x
    using assms(1,2) that by (auto simp: pq_inv_def item_key_def less_eq_prod_def)
  then have "pi_priority x \<noteq> priority_value p'" if "x \<in> set (pq_heap q)" for x
    using that less assms(3) by fastforce
  then show "lane q p' = []" by (simp add: lane_def filter_empty_conv)
qed

lemma find_first_lane:
  assumes "l p \<noteq> []" and "\<And>p'. p' < p \<Longrightarrow> l p' = []"
  shows "find (\<lambda>p. l p \<noteq> []) all_priorities = Some p"
  using assms(1) assms(2) [of CRITICAL] assms(2) [of HIGH] assms(2) [of NORMAL]
  by (cases p) (simp_all add: all_priorities_def less_broker_priority_def)

lemma pq_get_refines:
  assumes inv: "pq_inv now q"
  shows "pq_inv now (snd (pq_get q)) \<and> lanes_get (lane q) = (fst (pq_get q), lane (snd (pq_get q)))"
proof (cases "pq_heap q")
  case Nil
  then show ?thesis using inv by (simp add: pq_get_def lanes_get_def lane_def all_priorities_def)
next
  case (Cons e rest)
  have "pi_priority e \<in> range priority_value" using inv Cons by (simp add: pq_inv_def)
  then obtain p where p: "pi_priority e = priority_value p" by auto
  have head: "lane q p = pi_item e # map pi_item (filter (\<lambda>e. pi_priority e = priority_value p) rest)"
    using lane_head(1) [OF inv Cons p] .
  have "find (\<lambda>p. lane q p \<noteq> []) all_priorities = Some p"
    using head lane_head(2) [OF inv Cons p] by (intro find_first_lane) auto
  moreover have "lane (q\<lparr>pq_heap := rest\<rparr>) = (lane q)(p := tl (lane q p))"
    using p by (auto simp: lane_def Cons fun_eq_iff)
  moreover have "pq_inv now (q\<lparr>pq_heap := rest\<rparr>)" using inv Cons by (simp add: pq_inv_def)
  ultimately show ?thesis using head by (simp add: pq_get_def lanes_get_def Cons)
qed

lemma lane_mem: "x \<in> set (lane q p) \<longleftrightarrow> (\<exists>e \<in> set (pq_heap q). x = pi_item e \<and> pi_priority e = priority_value p)"
  by (auto simp: lane_def)

lemma pq_adjust_inv: "pq_inv now q \<Longrightarrow> pq_inv now (snd (pq_adjust m p q))"
  by (auto simp: pq_inv_def pq_adjust_def adjust_entry_def)

lemma filter_adjusted:
  "p' \<noteq> p \<Longrightarrow> filter (\<lambda>e. pi_priority e = priority_value p') (map (adjust_entry m p) es) =
     filter (\<lambda>e. pi_priority e = priority_value p' \<and> \<not> m (pi_item e)) es"
  by (induction es) (simp_all add: adjust_entry_def)

lemma pq_adjust_lane:
  assumes "pq_inv now q"
  shows "p' \<noteq> p \<Longrightarrow> lane (snd (pq_adjust m p q)) p' = filter (\<lambda>x. \<not> m x) (lane q p')"
    and "set (lane (snd (pq_adjust m p q)) p) = set (lane q p) \<union> {x. m x \<and> (\<exists>p'. x \<in> set (lane q p'))}"
proof -
  assume p: "p' \<noteq> p"
  have "sorted (map item_key (filter P (pq_heap q)))" for P
    using assms by (auto simp: pq_inv_def intro: sorted_filter)
  then have "filter (\<lambda>e. pi_priority e = priority_value p') (sort_key item_key (map (adjust_entry m p) (pq_heap q))) =
      filter (\<lambda>e. pi_priority e = priority_value p' \<and> \<not> m (pi_item e)) (pq_heap q)"
    by (simp add: filter_sort filter_adjusted [OF p] sort_key_id_if_sorted)
  then show "lane (snd (pq_adjust m p q)) p' = filter (\<lambda>x. \<not> m x) (lane q p')"
    by (simp add: lane_def pq_adjust_def filter_map o_def conj_commute)
next
  have lev: "\<exists>p'. pi_priority e = priority_value p'" if "e \<in> set (pq_heap q)" for e
    using assms that by (auto simp: pq_inv_def)
  have "pi_priority (adjust_entry m p e) = priority_value p \<longleftrightarrow> m (pi_item e) \<or> pi_priority e = priority_value p"
    "pi_item (adjust_entry m p e) = pi_item e" for e
    by (simp_all add: adjust_entry_def)
  then have "x \<in> set (lane (snd (pq_adjust m p q)) p) \<longleftrightarrow>
      (\<exists>e \<in> set (pq_heap q). x = pi_item e \<and> (m x \<or> pi_priority e = priority_value p))" for x
    by (auto simp: lane_mem pq_adjust_def)
  moreover have "(\<exists>p'. x \<in> set (lane q p')) \<longleftrightarrow> (\<exists>e \<in> set (pq_heap q). x = pi_item e)" for x
    unfolding lane_mem using lev by blast
  ultimately show "set (lane (snd (pq_adjust m p q)) p) = set (lane q p) \<union> {x. m x \<and> (\<exists>p'. x \<in> set (lane q p'))}"
    by (auto simp: lane_mem)
qed

end
