(* ===== verification/Fair_Share.thy ===== *)
theory Fair_Share
  imports Complex_Main Jobs_Prelude
begin

section \<open>Broker: tenant fair share\<close>

text \<open>
  \<open>broker/fairshare.py\<close>. A weight is a finite float and is the rational number it denotes; \<open>0.01\<close> is
  the float the literal stands for. The ratio \<open>active_count / weight\<close> is a float division, and
  the scheduler only compares such ratios: \<open>fdiv\<close>, the division of the platform's floats, is a
  parameter of the functions that use it, and what is proved holds for every division. The
  comparison with the initial \<open>inf\<close> is the case of no best tenant yet. Clock readings come with
  the call, one per \<open>time.monotonic()\<close>.
\<close>

record tenant_quota =
  tq_tenant_id :: string
  tq_max_concurrent :: int
  tq_max_per_minute :: int
  tq_weight :: rat
  tq_active_count :: int
  tq_window_start :: time
  tq_minute_count :: int

definition quota_can_submit :: "time \<Rightarrow> tenant_quota \<Rightarrow> bool \<times> tenant_quota" where
  "quota_can_submit now q =
     (if tq_active_count q \<ge> tq_max_concurrent q then (False, q)
      else
        let q' = (if now - tq_window_start q \<ge> 60 * second
                  then q\<lparr>tq_window_start := now, tq_minute_count := 0\<rparr> else q)
        in (tq_minute_count q' < tq_max_per_minute q', q'))"

definition quota_record_submit :: "tenant_quota \<Rightarrow> tenant_quota" where
  "quota_record_submit q = q\<lparr>tq_active_count := tq_active_count q + 1, tq_minute_count := tq_minute_count q + 1\<rparr>"

definition quota_record_complete :: "tenant_quota \<Rightarrow> tenant_quota" where
  "quota_record_complete q = q\<lparr>tq_active_count := max 0 (tq_active_count q - 1)\<rparr>"

record fair_share_scheduler =
  fs_tenants :: "(string, tenant_quota) dict"
  fs_default_max_concurrent :: int
  fs_default_max_per_minute :: int

definition register_tenant :: "tenant_quota \<Rightarrow> fair_share_scheduler \<Rightarrow> fair_share_scheduler" where
  "register_tenant quota s = s\<lparr>fs_tenants := dict_set (fs_tenants s) (tq_tenant_id quota) quota\<rparr>"

definition default_quota :: "fair_share_scheduler \<Rightarrow> time \<Rightarrow> string \<Rightarrow> tenant_quota" where
  "default_quota s now tid =
     \<lparr>tq_tenant_id = tid, tq_max_concurrent = fs_default_max_concurrent s,
      tq_max_per_minute = fs_default_max_per_minute s, tq_weight = 1,
      tq_active_count = 0, tq_window_start = now, tq_minute_count = 0\<rparr>"

definition get_quota :: "time \<Rightarrow> string \<Rightarrow> fair_share_scheduler \<Rightarrow> tenant_quota \<times> fair_share_scheduler" where
  "get_quota now tid s =
     (case dict_get (fs_tenants s) tid of
        Some q \<Rightarrow> (q, s)
      | None \<Rightarrow>
          (default_quota s now tid, s\<lparr>fs_tenants := dict_set (fs_tenants s) tid (default_quota s now tid)\<rparr>))"

text \<open>A change of the quota object that \<open>get_quota\<close> returned is a change of the stored one.\<close>

definition store_quota :: "string \<Rightarrow> tenant_quota \<Rightarrow> fair_share_scheduler \<Rightarrow> fair_share_scheduler" where
  "store_quota tid q s = s\<lparr>fs_tenants := dict_set (fs_tenants s) tid q\<rparr>"

definition fs_can_submit :: "time \<Rightarrow> time \<Rightarrow> string \<Rightarrow> fair_share_scheduler \<Rightarrow> bool \<times> fair_share_scheduler" where
  "fs_can_submit now now' tid s =
     (case get_quota now tid s of (q, s1) \<Rightarrow>
        (case quota_can_submit now' q of (ok, q') \<Rightarrow> (ok, store_quota tid q' s1)))"

definition fs_record_submit :: "time \<Rightarrow> string \<Rightarrow> fair_share_scheduler \<Rightarrow> fair_share_scheduler" where
  "fs_record_submit now tid s =
     (case get_quota now tid s of (q, s1) \<Rightarrow> store_quota tid (quota_record_submit q) s1)"

definition fs_record_complete :: "time \<Rightarrow> string \<Rightarrow> fair_share_scheduler \<Rightarrow> fair_share_scheduler" where
  "fs_record_complete now tid s =
     (case get_quota now tid s of (q, s1) \<Rightarrow> store_quota tid (quota_record_complete q) s1)"

definition min_weight :: rat where
  "min_weight = 5764607523034235 / 576460752303423488"

definition share_ratio :: "(int \<Rightarrow> rat \<Rightarrow> rat) \<Rightarrow> tenant_quota \<Rightarrow> rat" where
  "share_ratio fdiv q = fdiv (tq_active_count q) (max (tq_weight q) min_weight)"

text \<open>The loop of \<open>next_eligible_tenant\<close>; \<open>now\<close> gives the clock reading made for a candidate.\<close>

fun next_loop ::
  "(int \<Rightarrow> rat \<Rightarrow> rat) \<Rightarrow> (string \<Rightarrow> time) \<Rightarrow> string list \<Rightarrow> (string \<times> rat) option \<Rightarrow> fair_share_scheduler \<Rightarrow>
   string option \<times> fair_share_scheduler" where
  "next_loop fdiv now [] best s = (map_option fst best, s)"
| "next_loop fdiv now (tid # rest) best s =
     (case dict_get (fs_tenants s) tid of
        None \<Rightarrow> (Some tid, s)
      | Some q \<Rightarrow>
          (case quota_can_submit (now tid) q of (ok, q') \<Rightarrow>
             let s' = store_quota tid q' s in
             if \<not> ok then next_loop fdiv now rest best s'
             else
               let ratio = share_ratio fdiv q' in
               if (case best of None \<Rightarrow> True | Some (_, r) \<Rightarrow> ratio < r)
               then next_loop fdiv now rest (Some (tid, ratio)) s'
               else next_loop fdiv now rest best s'))"

definition next_eligible_tenant ::
  "(int \<Rightarrow> rat \<Rightarrow> rat) \<Rightarrow> (string \<Rightarrow> time) \<Rightarrow> string list \<Rightarrow> fair_share_scheduler \<Rightarrow>
   string option \<times> fair_share_scheduler" where
  "next_eligible_tenant fdiv now candidates s = next_loop fdiv now candidates None s"

definition fs_stats :: "fair_share_scheduler \<Rightarrow> (string, int \<times> int \<times> rat) dict" where
  "fs_stats s = map (\<lambda>(tid, q). (tid, (tq_active_count q, tq_max_concurrent q, tq_weight q))) (fs_tenants s)"

subsection \<open>Quotas\<close>

text \<open>The limits of one tenant: never more active jobs than allowed, never more in a window.\<close>

definition quota_ok :: "tenant_quota \<Rightarrow> bool" where
  "quota_ok q \<longleftrightarrow>
     0 \<le> tq_active_count q \<and> tq_active_count q \<le> max 0 (tq_max_concurrent q) \<and>
     0 \<le> tq_minute_count q \<and> tq_minute_count q \<le> max 0 (tq_max_per_minute q)"

definition can_submit_now :: "time \<Rightarrow> tenant_quota \<Rightarrow> bool" where
  "can_submit_now now q \<longleftrightarrow>
     tq_active_count q < tq_max_concurrent q \<and>
     (if now - tq_window_start q \<ge> 60 * second then 0 else tq_minute_count q) < tq_max_per_minute q"

lemma quota_can_submit_result: "fst (quota_can_submit now q) = can_submit_now now q"
  by (auto simp: quota_can_submit_def can_submit_now_def Let_def)

lemma quota_can_submit_ok: "quota_ok q \<Longrightarrow> quota_ok (snd (quota_can_submit now q))"
  by (auto simp: quota_can_submit_def quota_ok_def Let_def)

lemma quota_submit_ok:
  "quota_ok q \<Longrightarrow> quota_can_submit now q = (True, q') \<Longrightarrow> quota_ok (quota_record_submit q')"
  by (auto simp: quota_can_submit_def quota_ok_def quota_record_submit_def Let_def split: if_splits)

lemma quota_complete_ok: "quota_ok q \<Longrightarrow> quota_ok (quota_record_complete q)"
  by (auto simp: quota_ok_def quota_record_complete_def)

lemma quota_submit_complete:
  "quota_ok q \<Longrightarrow> tq_active_count (quota_record_complete (quota_record_submit q)) = tq_active_count q"
  by (simp add: quota_ok_def quota_record_complete_def quota_record_submit_def)

text \<open>Asking changes neither the number of active jobs nor the configuration, so the ratio is stable.\<close>

lemma quota_can_submit_fields:
  "tq_active_count (snd (quota_can_submit now q)) = tq_active_count q"
  "tq_weight (snd (quota_can_submit now q)) = tq_weight q"
  "tq_max_concurrent (snd (quota_can_submit now q)) = tq_max_concurrent q"
  "tq_max_per_minute (snd (quota_can_submit now q)) = tq_max_per_minute q"
  by (simp_all add: quota_can_submit_def Let_def)

lemma share_ratio_can_submit: "share_ratio fdiv (snd (quota_can_submit now q)) = share_ratio fdiv q"
  by (simp add: share_ratio_def quota_can_submit_fields)

lemma can_submit_now_again: "can_submit_now now (snd (quota_can_submit now q)) = can_submit_now now q"
  by (auto simp: quota_can_submit_def can_submit_now_def Let_def)

subsection \<open>The choice of a tenant\<close>

definition tenant_ratio :: "(int \<Rightarrow> rat \<Rightarrow> rat) \<Rightarrow> fair_share_scheduler \<Rightarrow> string \<Rightarrow> rat option" where
  "tenant_ratio fdiv s tid = map_option (share_ratio fdiv) (dict_get (fs_tenants s) tid)"

definition tenant_may :: "(string \<Rightarrow> time) \<Rightarrow> fair_share_scheduler \<Rightarrow> string \<Rightarrow> bool" where
  "tenant_may now s tid \<longleftrightarrow> (\<exists>q. dict_get (fs_tenants s) tid = Some q \<and> can_submit_now (now tid) q)"

text \<open>The state during the loop answers every question as the state before it.\<close>

definition same_shares :: "(int \<Rightarrow> rat \<Rightarrow> rat) \<Rightarrow> (string \<Rightarrow> time) \<Rightarrow> fair_share_scheduler \<Rightarrow> fair_share_scheduler \<Rightarrow> bool" where
  "same_shares fdiv now s s' \<longleftrightarrow>
     (\<forall>tid. tenant_ratio fdiv s' tid = tenant_ratio fdiv s tid \<and> (tenant_may now s' tid \<longleftrightarrow> tenant_may now s tid))"

lemma same_shares_asked:
  assumes "dict_get (fs_tenants s) tid = Some q" and "quota_can_submit (now tid) q = (ok, q')"
  shows "same_shares fdiv now s (store_quota tid q' s)"
proof -
  have q': "q' = snd (quota_can_submit (now tid) q)" using assms(2) by simp
  show ?thesis
    unfolding q' using assms(1)
    by (auto simp: same_shares_def tenant_ratio_def tenant_may_def store_quota_def share_ratio_can_submit
        can_submit_now_again)
qed

lemma next_loop_best:
  assumes "\<forall>tid \<in> set cands. tenant_ratio fdiv s tid \<noteq> None"
    and "case best of None \<Rightarrow> True | Some (b, r) \<Rightarrow> tenant_may now s b \<and> tenant_ratio fdiv s b = Some r"
  shows "case fst (next_loop fdiv now cands best s) of
      None \<Rightarrow> best = None \<and> (\<forall>tid \<in> set cands. \<not> tenant_may now s tid)
    | Some b \<Rightarrow> (b \<in> set cands \<or> Some b = map_option fst best) \<and> tenant_may now s b \<and>
        (\<exists>r. tenant_ratio fdiv s b = Some r \<and>
           (\<forall>tid \<in> set cands. \<forall>r'. tenant_may now s tid \<longrightarrow> tenant_ratio fdiv s tid = Some r' \<longrightarrow> r \<le> r') \<and>
           (\<forall>t r'. best = Some (t, r') \<longrightarrow> r \<le> r'))"
  using assms
proof (induction cands arbitrary: best s)
  case Nil
  then show ?case by (auto split: option.splits prod.splits)
next
  case (Cons tid cands)
  obtain q where q: "dict_get (fs_tenants s) tid = Some q"
    using Cons.prems(1) by (auto simp: tenant_ratio_def)
  obtain ok q' where ask: "quota_can_submit (now tid) q = (ok, q')" by fastforce
  define s' where "s' = store_quota tid q' s"
  have same: "tenant_ratio fdiv s' t = tenant_ratio fdiv s t" "tenant_may now s' t \<longleftrightarrow> tenant_may now s t" for t
    using same_shares_asked [of s tid q now ok q' fdiv, OF q ask] by (auto simp: same_shares_def s'_def)
  have ok: "ok \<longleftrightarrow> tenant_may now s tid"
    using quota_can_submit_result [of "now tid" q] q ask by (simp add: tenant_may_def)
  have ratio: "tenant_ratio fdiv s tid = Some (share_ratio fdiv q')"
    using share_ratio_can_submit [of fdiv "now tid" q] q ask by (simp add: tenant_ratio_def)
  define best' where "best' = (if ok \<and> (case best of None \<Rightarrow> True | Some (_, r) \<Rightarrow> share_ratio fdiv q' < r)
    then Some (tid, share_ratio fdiv q') else best)"
  have step: "next_loop fdiv now (tid # cands) best s = next_loop fdiv now cands best' s'"
    by (simp add: q ask s'_def best'_def Let_def)
  have good: "case best' of None \<Rightarrow> True | Some (b, r) \<Rightarrow> tenant_may now s' b \<and> tenant_ratio fdiv s' b = Some r"
    using Cons.prems(2) ok ratio by (auto simp: best'_def same split: option.splits)
  have "\<forall>t \<in> set cands. tenant_ratio fdiv s' t \<noteq> None" using Cons.prems(1) by (simp add: same)
  note IH = Cons.IH [OF this good, unfolded same]
  show ?case
  proof (cases "fst (next_loop fdiv now cands best' s')")
    case None
    then have "best' = None" "\<forall>t \<in> set cands. \<not> tenant_may now s t" using IH by auto
    then show ?thesis using None step ok by (auto simp: best'_def split: if_splits option.splits)
  next
    case (Some b)
    with IH obtain r where r: "b \<in> set cands \<or> Some b = map_option fst best'" "tenant_may now s b"
        "tenant_ratio fdiv s b = Some r"
        "\<forall>t \<in> set cands. \<forall>r'. tenant_may now s t \<longrightarrow> tenant_ratio fdiv s t = Some r' \<longrightarrow> r \<le> r'"
        "\<forall>t r'. best' = Some (t, r') \<longrightarrow> r \<le> r'" by auto
    have "b \<in> set (tid # cands) \<or> Some b = map_option fst best"
      using r(1) by (auto simp: best'_def split: if_splits)
    moreover have "r \<le> r'" if "tenant_may now s tid" "tenant_ratio fdiv s tid = Some r'" for r'
      using r(5) that ok ratio by (auto simp: best'_def split: if_splits option.splits)
    moreover have "r \<le> r'" if "best = Some (t, r')" for t r'
      using r(5) that by (fastforce simp: best'_def split: if_splits)
    ultimately show ?thesis using Some step r by auto
  qed
qed

end
