(* ===== verification/Domain_Properties.thy ===== *)
theory Domain_Properties
  imports State_Machine Security Observability Broker_Capacity Broker_Queue Fair_Share Callback
begin

section \<open>Properties of the domain, the payload checks and the broker\<close>

text \<open>
  The lifecycle state machine with its extensions, the secret scan, and the broker's priority queue,
  fair-share scheduler, capacity enforcer and deadlock guard.
\<close>

subsection \<open>Lifecycle\<close>

text \<open>
  C34. No run of accepted transitions of the default machine leads from a finished state (succeeded,
  failed, cancelled, expired, dead-lettered or archived) back to work.
\<close>

theorem finished_stays_finished:
  assumes "(sm_step reg default_machine None)\<^sup>*\<^sup>* a b" and "a \<in> status_value ` finished_statuses"
  shows "b \<in> status_value ` finished_statuses"
  using assms by (rule default_finished_closed)

theorem finished_stays_finished_witness: "''archived'' \<in> status_value ` finished_statuses"
proof (rule finished_stays_finished [of "[]" "''failed''"])
  have "sm_step [] default_machine None (status_value FAILED) (status_value ARCHIVED)"
    by (simp only: default_step_iff default_next.simps) simp
  then show "(sm_step [] default_machine None)\<^sup>*\<^sup>* ''failed'' ''archived''" by auto
  show "''failed'' \<in> status_value ` finished_statuses"
    by (rule image_eqI [of _ _ FAILED]) (simp_all add: finished_statuses_def)
qed

text \<open>From every job state some run of accepted transitions reaches the archive: no state is a trap.\<close>

lemma archive_reachable: "(sm_step reg default_machine None)\<^sup>*\<^sup>* (status_value s) ''archived''"
  using default_steps_lift [OF default_next_archived, of reg s] by simp

text \<open>
  Extensions are exact: a registration that passes the check adds precisely its own transitions for
  its own job type, and every other job type keeps the transitions it had; one that fails the check
  raises \<open>ValueError\<close> and changes nothing.
\<close>

theorem extension_exact:
  assumes "jt \<noteq> []"
  shows "if \<forall>(s, ts) \<in> set table. s \<in> states \<and> [] \<notin> ts
    then \<exists>reg'. register_state_extension jt states table reg = (Inr (), reg') \<and>
      (\<forall>a b. can_transition reg' sm (Some jt) a b \<longleftrightarrow>
         can_transition reg sm None a b \<or> (\<exists>ts. (a, ts) \<in> set table \<and> b \<in> ts)) \<and>
      (\<forall>other a b. other \<noteq> jt \<longrightarrow> can_transition reg' sm (Some other) a b = can_transition reg sm (Some other) a b)
    else \<exists>m. register_state_extension jt states table reg = (Inl (ValueError m), reg)"
proof (cases "check_extension states table")
  case None
  let ?reg = "dict_set reg jt \<lparr>ext_job_type = jt, custom_states = states, custom_transitions = table\<rparr>"
  have "register_state_extension jt states table reg = (Inr (), ?reg)"
    using None by (simp add: register_state_extension_def)
  moreover have "can_transition ?reg sm (Some jt) a b \<longleftrightarrow>
      can_transition reg sm None a b \<or> (\<exists>ts. (a, ts) \<in> set table \<and> b \<in> ts)" for a b
    using can_transition_ext [OF assms, of ?reg _ sm a b] by (simp add: can_transition_base)
  moreover have "can_transition ?reg sm (Some other) a b = can_transition reg sm (Some other) a b"
    if "other \<noteq> jt" for other a b
    using that by (simp add: can_transition_def merged_transitions_for_def Let_def)
  ultimately show ?thesis using None check_extension_None [of states table] by auto
next
  case (Some e)
  have "\<exists>m. e = ValueError m"
    using Some by (induction states table rule: check_extension.induct) (auto split: if_splits)
  with Some check_extension_None [of states table] show ?thesis
    by (auto simp: register_state_extension_def)
qed

theorem extension_exact_witness:
  "\<exists>reg'. register_state_extension ''etl'' {''loading''} [(''loading'', {''failed''})] [] = (Inr (), reg') \<and>
     (\<forall>a b. can_transition reg' default_machine (Some ''etl'') a b \<longleftrightarrow>
        can_transition [] default_machine None a b \<or> (\<exists>ts. (a, ts) \<in> set [(''loading'', {''failed''})] \<and> b \<in> ts)) \<and>
     (\<forall>other a b. other \<noteq> ''etl'' \<longrightarrow>
        can_transition reg' default_machine (Some other) a b = can_transition [] default_machine (Some other) a b)"
  using extension_exact [of "''etl''" "[(''loading'', {''failed''})]" "{''loading''}" "[]" default_machine] by simp

subsection \<open>Callbacks\<close>

text \<open>
  C31. Delivery of a completion callback makes the attempts of the registration's policy, at least one:
  it succeeds exactly when one of them is answered with a 2xx code and stops at the first such answer.
  Between two attempts it sleeps once, for the delay the policy gives for the attempt just made, and it
  does not sleep after the last one: \<open>cb_calls\<close> grows by exactly these requests and sleeps, in this
  order. The registration keeps the number of attempts made and the error of the last one (none when
  it was accepted, the status code, or the text of the exception), and no other registration changes.
  The sleeper, the arithmetic of the delays and the table are assumed not to raise.
\<close>

theorem callback_delivery:
  assumes "quiet (de_table env)" and "no_delay_error env" and "dict_get (cb_registry c) jid = Some cb"
  shows "let n = max 1 (rt_max_attempts (cb_retry cb));
      body = completion_payload jid st summary dur;
      answer = answer_to env cb body;
      request = Requested (cb_method cb) (cb_url cb) body (cb_headers cb)
    in \<exists>k delays c'. trigger_job_completion env jid st summary dur c = (Inr (\<exists>a \<in> {1..n}. accepted (answer a)), c') \<and>
      1 \<le> k \<and> k \<le> n \<and> (\<forall>a \<in> {1..<k}. \<not> accepted (answer a)) \<and> (accepted (answer k) \<or> k = n) \<and>
      dict_get (cb_registry c') = (dict_get (cb_registry c))(jid \<mapsto> tried cb k (error_of (answer k))) \<and>
      map (delay_for_attempt (de_float env) (cb_retry cb)) [1..k - 1] = map Inr delays \<and>
      cb_calls c' = cb_calls c @ request # concat (map (\<lambda>d. [Slept d, request]) delays)"
proof -
  let ?n = "max 1 (rt_max_attempts (cb_retry cb))" and ?body = "completion_payload jid st summary dur"
  let ?answer = "answer_to env cb ?body" and ?pause = "pause_of env (cb_retry cb)"
  let ?good = "\<lambda>a. accepted (?answer a)"
  obtain k where k: "1 \<le> k" "k \<le> ?n" "\<forall>a \<in> {1..<k}. \<not> ?good a" "?good k \<or> k = ?n"
    using first_good [of ?n ?good] by auto
  note upto = attempts_upto [OF order_refl k(1,2) refl k(3,4)]
  obtain c' where "deliver_loop env jid ?body (cb_retry cb) [1..?n] cb c = (Inr (\<exists>a \<in> {1..?n}. ?good a), c')"
      "dict_get (cb_registry c') = (dict_get (cb_registry c))(jid \<mapsto> tried cb k (error_of (?answer k)))"
      "cb_calls c' = cb_calls c @ request_of cb ?body # concat (map (\<lambda>a. [Slept (?pause a), request_of cb ?body]) [1..k - 1])"
    using deliver_loop_run [OF assms, of ?good ?body "cb_retry cb" "[1..?n]"] upto by auto
  moreover have "map (delay_for_attempt (de_float env) (cb_retry cb)) [1..k - 1] = map Inr (map ?pause [1..k - 1])"
    using pause_of_delay [OF assms(2)] by simp
  ultimately show ?thesis
    using assms(3) k unfolding Let_def
    by (intro exI [of _ k] exI [of _ "map ?pause [1..k - 1]"] exI [of _ c'])
      (simp add: trigger_job_completion_def cb_deliver_def request_of_def comp_def)
qed

definition demo_delivery :: "callback_row list delivery_env" where
  "demo_delivery =
     \<lparr>de_table = None, de_request = (\<lambda>a _ _ _ _. if a = 1 then Inr 503 else Inr 204),
      de_sleep = (\<lambda>_ _. Inr ()), de_float = \<lparr>fl_pow = (\<lambda>x _. Inr x), fl_mul = (\<lambda>x _. x), fl_min = (\<lambda>_ x. x)\<rparr>,
      de_clk = (\<lambda>_ _. 0)\<rparr>"

definition demo_callbacks :: "callback_row list callback_manager" where
  "demo_callbacks = (new_callback_manager [])\<lparr>cb_registry := [(''j'', new_registration ''http://h'')]\<rparr>"

text \<open>The first attempt is answered with 503, the second with 204: one sleep of 0.1 between them.\<close>

theorem callback_delivery_witness:
  "\<exists>c'. trigger_job_completion demo_delivery ''j'' ''succeeded'' None 5 demo_callbacks = (Inr True, c') \<and>
     dict_get (cb_registry c') ''j'' = Some (tried (new_registration ''http://h'') 2 None) \<and>
     cb_calls c' =
       (let request = Requested ''POST'' ''http://h'' (completion_payload ''j'' ''succeeded'' None 5) []
        in [request, Slept ''0.1'', request])"
proof -
  let ?cb = "new_registration ''http://h''" and ?body = "completion_payload ''j'' ''succeeded'' None 5"
  have "quiet (de_table demo_delivery)" "no_delay_error demo_delivery"
    "dict_get (cb_registry demo_callbacks) ''j'' = Some ?cb"
    by (simp_all add: demo_delivery_def no_delay_error_def demo_callbacks_def)
  from callback_delivery [OF this, of "''succeeded''" None 5, unfolded Let_def]
  obtain k delays c' where k: "trigger_job_completion demo_delivery ''j'' ''succeeded'' None 5 demo_callbacks =
        (Inr (\<exists>a \<in> {1..3}. accepted (answer_to demo_delivery ?cb ?body a)), c')" "1 \<le> k" "k \<le> 3"
      "\<forall>a \<in> {1..<k}. \<not> accepted (answer_to demo_delivery ?cb ?body a)"
      "accepted (answer_to demo_delivery ?cb ?body k) \<or> k = 3"
      "dict_get (cb_registry c') = (dict_get (cb_registry demo_callbacks))(''j'' \<mapsto> tried ?cb k (error_of (answer_to demo_delivery ?cb ?body k)))"
      "map (delay_for_attempt (de_float demo_delivery) (cb_retry ?cb)) [1..k - 1] = map Inr delays"
      "cb_calls c' = cb_calls demo_callbacks @ Requested (cb_method ?cb) (cb_url ?cb) ?body (cb_headers ?cb) #
        concat (map (\<lambda>d. [Slept d, Requested (cb_method ?cb) (cb_url ?cb) ?body (cb_headers ?cb)]) delays)"
    by (auto simp: new_registration_def default_retry_def)
  have answers: "answer_to demo_delivery cb body a = (if a = 1 then Inr 503 else Inr 204)" for cb body a
    by (simp add: answer_to_def demo_delivery_def)
  have "k = 2" using k(2,3,5) bspec [OF k(4), of 2] by (cases "2 < k") (auto simp: answers accepted_def split: if_splits)
  moreover have "delays = [''0.1'']"
    using k(7) \<open>k = 2\<close>
    by (auto simp: delay_for_attempt_def demo_delivery_def new_registration_def default_retry_def Cons_eq_map_conv)
  ultimately show ?thesis
    using k(1,6,8) by (auto simp: answers accepted_def error_of_def Let_def demo_callbacks_def new_callback_manager_def
        new_registration_def intro!: bexI [of _ 2])
qed

text \<open>
  C32. Callbacks are durable: after any sequence of registrations, removals and deliveries, failed ones
  and those cut short by an exception included, a manager that loads the table has exactly the
  registrations of the old one, with their attempt counts and last errors.
\<close>

theorem callbacks_durable:
  assumes "callback_store t rows" and "\<forall>i. rows d i = None"
  shows "\<exists>c'. load_persisted (Some t)
      (new_callback_manager (cb_db (fold (do_callback t) calls (new_callback_manager d)))) = (Inr (), c') \<and>
    dict_get (cb_registry c') = dict_get (cb_registry (fold (do_callback t) calls (new_callback_manager d)))"
proof -
  have "durable rows (new_callback_manager d)" using assms(2) by (simp add: durable_def new_callback_manager_def)
  from callback_store.load_durable [OF assms(1) callback_store.calls_durable [OF assms(1) this]] show ?thesis .
qed

theorem callbacks_durable_witness:
  "\<exists>c'. load_persisted (Some list_callbacks)
      (new_callback_manager (cb_db (fold (do_callback list_callbacks)
         [CallRegister 1 ''j'' ''https://h/x'' None NoPolicy, CallTrigger demo_delivery ''j'' [] 2] (new_callback_manager [])))) =
      (Inr (), c') \<and>
    dict_get (cb_registry c') = dict_get (cb_registry (fold (do_callback list_callbacks)
         [CallRegister 1 ''j'' ''https://h/x'' None NoPolicy, CallTrigger demo_delivery ''j'' [] 2] (new_callback_manager [])))"
  by (rule callbacks_durable [OF listcb.callback_store_axioms]) (simp add: find_callback_def)

subsection \<open>Payload checks\<close>

text \<open>
  C40. The secret scan is exact over the whole nesting of a payload: it rejects exactly the values in which
  some nested dictionary has a secret-like key or some nested text has a secret marker.
\<close>

theorem secret_scan_exact: "payload_contains_secret v \<longleftrightarrow> (\<exists>w. inside w v \<and> secret_here w)"
  using secret_scan_sound secret_scan_complete by blast

subsection \<open>Broker\<close>

text \<open>
  C37. The heap-ordered priority queue refines four first-in-first-out queues: \<open>put\<close> appends to the queue
  of its level, \<open>get\<close> takes the oldest item of the highest non-empty level, and the invariant is
  kept, for clock readings that do not decrease.
\<close>

theorem priority_queue_refines:
  assumes "pq_inv now q" and "now \<le> now'"
  shows "pq_inv now' (pq_put now' x p q) \<and> lane (pq_put now' x p q) = (lane q)(p := lane q p @ [x]) \<and>
    pq_inv now (snd (pq_get q)) \<and> lanes_get (lane q) = (fst (pq_get q), lane (snd (pq_get q)))"
  using pq_put_refines [OF assms] pq_get_refines [OF assms(1)] by blast

theorem priority_queue_refines_witness:
  "fst (pq_get (pq_put 2 ''y'' CRITICAL (pq_put 1 ''x'' BULK new_priority_queue))) = Some ''y''"
proof -
  have one: "pq_inv 1 (pq_put 1 ''x'' BULK new_priority_queue)"
    using priority_queue_refines [OF pq_inv_new, of 1 1 "''x''" BULK] by simp
  have "pq_inv 2 (pq_put 2 ''y'' CRITICAL (pq_put 1 ''x'' BULK new_priority_queue))"
    using priority_queue_refines [OF one, of 2 "''y''" CRITICAL] by simp
  from priority_queue_refines [OF this, of 2] show ?thesis
    by (simp add: pq_get_def pq_put_def new_priority_queue_def item_key_def)
qed

text \<open>
  Adjusting priorities counts the matching items, moves exactly them to the new level, keeps the order
  of what stays in the other levels, and keeps the invariant.
\<close>

theorem adjust_priority_moves:
  assumes "pq_inv now q"
  shows "fst (pq_adjust m p q) = int (length (filter (\<lambda>e. m (pi_item e)) (pq_heap q))) \<and>
    pq_inv now (snd (pq_adjust m p q)) \<and>
    (\<forall>p'. p' \<noteq> p \<longrightarrow> lane (snd (pq_adjust m p q)) p' = filter (\<lambda>x. \<not> m x) (lane q p')) \<and>
    set (lane (snd (pq_adjust m p q)) p) = set (lane q p) \<union> {x. m x \<and> (\<exists>p'. x \<in> set (lane q p'))}"
  using pq_adjust_inv [OF assms] pq_adjust_lane [OF assms] by (simp add: pq_adjust_def)

theorem adjust_priority_moves_witness:
  "fst (pq_adjust (\<lambda>x. x = ''x'') HIGH (pq_put 1 ''x'' BULK new_priority_queue)) = 1"
proof -
  have "pq_inv 1 (pq_put 1 ''x'' BULK new_priority_queue)"
    using pq_put_refines [OF pq_inv_new, of 1 1 "''x''" BULK] by simp
  from adjust_priority_moves [OF this, of "\<lambda>x. x = ''x''" HIGH] show ?thesis
    by (simp add: pq_put_def new_priority_queue_def)
qed

text \<open>
  Among registered candidates the fair-share scheduler picks a tenant that may submit now and whose
  share ratio is lowest among all that may, and picks none exactly when none may; this holds for any
  float division.
\<close>

theorem fair_share_choice:
  assumes "\<forall>tid \<in> set candidates. dict_get (fs_tenants s) tid \<noteq> None"
  shows "case fst (next_eligible_tenant fdiv now candidates s) of
      None \<Rightarrow> \<forall>tid \<in> set candidates. \<not> tenant_may now s tid
    | Some b \<Rightarrow> b \<in> set candidates \<and> tenant_may now s b \<and>
        (\<forall>tid \<in> set candidates. tenant_may now s tid \<longrightarrow>
           the (tenant_ratio fdiv s b) \<le> the (tenant_ratio fdiv s tid))"
proof -
  have "\<forall>tid \<in> set candidates. tenant_ratio fdiv s tid \<noteq> None" using assms by (simp add: tenant_ratio_def)
  from next_loop_best [OF this, where best = None and now = now] show ?thesis
    unfolding next_eligible_tenant_def
    by (auto simp: tenant_may_def tenant_ratio_def split: option.splits)
qed

theorem fair_share_choice_witness:
  "case fst (next_eligible_tenant (\<lambda>a w. of_int a / w) (\<lambda>_. 0) [''t'']
      (register_tenant \<lparr>tq_tenant_id = ''t'', tq_max_concurrent = 1, tq_max_per_minute = 1, tq_weight = 1,
         tq_active_count = 0, tq_window_start = 0, tq_minute_count = 0\<rparr>
       \<lparr>fs_tenants = [], fs_default_max_concurrent = 10, fs_default_max_per_minute = 60\<rparr>)) of
      None \<Rightarrow> False | Some b \<Rightarrow> b = ''t''"
  using fair_share_choice [where candidates = "[''t'']" and s = "register_tenant \<lparr>tq_tenant_id = ''t'', tq_max_concurrent = 1,
      tq_max_per_minute = 1, tq_weight = 1, tq_active_count = 0, tq_window_start = 0, tq_minute_count = 0\<rparr>
      \<lparr>fs_tenants = [], fs_default_max_concurrent = 10, fs_default_max_per_minute = 60\<rparr>"
      and fdiv = "\<lambda>a w. of_int a / w" and now = "\<lambda>_. 0"]
  by (auto simp: register_tenant_def tenant_may_def can_submit_now_def split: option.splits)

text \<open>
  C38. The capacity enforcer is atomic and balanced: it acquires all the required resources or changes
  nothing, it succeeds exactly when every named resource exists and has enough left, no resource is
  ever oversubscribed, and releasing what was acquired restores every resource.
\<close>

theorem capacity_atomic:
  assumes "capacity_ok c" and "request_ok reqs"
  shows "\<exists>c'. try_acquire reqs c = (list_all (enough c) reqs, c') \<and> capacity_ok c' \<and>
    capacity_ok (capacity_release reqs c') \<and>
    (if list_all (enough c) reqs
     then \<forall>name. capacity_used c' name = map_option (\<lambda>u. u + dict_get_or reqs name 0) (capacity_used c name) \<and>
       dict_get (capacity_release reqs c') name = dict_get c name
     else c' = c)"
proof -
  obtain b c' where run: "try_acquire reqs c = (b, c')" by (cases "try_acquire reqs c")
  then have b: "b = list_all (enough c) reqs" by (auto simp: try_acquire_def split: if_splits)
  have ok: "capacity_ok c'" using try_acquire_ok [OF assms run] .
  have used: "capacity_used c' name = map_option (\<lambda>u. u + slots_of reqs name) (capacity_used c name)"
    if "list_all (enough c) reqs" for name
    using acquire_all_get [OF assms(2) that assms(1), of name] that run
    by (cases "dict_get c name") (auto simp: capacity_used_def try_acquire_def)
  have restored: "dict_get (capacity_release reqs c') name = dict_get c name" if "list_all (enough c) reqs" for name
    using acquire_release_get [OF assms, of c' name] that run b by simp
  have same: "c' = c" if "\<not> list_all (enough c) reqs" using that run by (auto simp: try_acquire_def)
  show ?thesis
    using run b ok capacity_release_ok [OF ok assms(2)] used restored same by (intro exI [of _ c']) simp
qed

theorem capacity_atomic_witness:
  "\<exists>c'. try_acquire [(''gpu'', 2)] (register_resource ''gpu'' 3 []) = (True, c') \<and>
     capacity_used c' ''gpu'' = Some 2"
proof -
  have ok: "capacity_ok (register_resource ''gpu'' 3 [])"
    by (auto simp: capacity_ok_def register_resource_def slot_ok_def split: if_splits)
  have fits: "list_all (enough (register_resource ''gpu'' 3 [])) [(''gpu'', 2)]"
    by (simp add: enough_iff register_resource_def)
  have req: "request_ok [(''gpu'', 2)]" by (simp add: request_ok_def dict_ok_def)
  obtain c' where c': "try_acquire [(''gpu'', 2)] (register_resource ''gpu'' 3 []) = (True, c')"
      "capacity_used c' ''gpu'' = map_option (\<lambda>u. u + dict_get_or [(''gpu'', 2)] ''gpu'' 0)
         (capacity_used (register_resource ''gpu'' 3 []) ''gpu'')"
    using capacity_atomic [OF ok req] fits by (simp only: if_True) metis
  then show ?thesis by (simp add: capacity_used_def register_resource_def dict_get_or_def)
qed

text \<open>
  C39. The wait-for graph of the deadlock guard is acyclic in every reachable state, and an edge is refused
  exactly when it would close a cycle; so among jobs that wait there is always one that waits for none
  of them.
\<close>

theorem deadlock_guard_sound:
  assumes "guard_reachable g"
  shows "acyclic (edge_rel g) \<and>
    (fst (add_dependency j d g) \<longleftrightarrow> (d, j) \<notin> (edge_rel g)\<^sup>*) \<and>
    (\<forall>x waiting. x \<in> waiting \<longrightarrow> (\<exists>y \<in> waiting. guard_dependencies g y \<inter> waiting = {}))"
  using guard_reachable_acyclic [OF assms] acyclic_has_sink [of g]
  by (auto simp: add_dependency_def would_cycle_iff guard_dependencies_def)

theorem deadlock_guard_sound_witness: "\<not> fst (add_dependency ''b'' ''a'' [(''a'', [''b''])])"
proof -
  have "guard_reachable [(''a'', [''b''])]"
    by (rule guard_reachable.add [OF guard_reachable.empty, of "''a''" "''b''" True])
      (simp add: add_dependency_def would_cycle_def)
  moreover have "(''a'', ''b'') \<in> (edge_rel [(''a'', [''b''])])\<^sup>*"
    by (rule r_into_rtrancl) (simp add: edge_rel_def dict_get_or_def)
  ultimately show ?thesis using deadlock_guard_sound [of "[(''a'', [''b''])]" "''b''" "''a''"] by blast
qed

end
