(* ===== verification/Redis_Store.thy ===== *)
theory Redis_Store
  imports Sql_Store Py_Text
begin

section \<open>The Redis backend: encoding and methods\<close>

text \<open>
  \<open>backends/redis_backend.py\<close>. A job is a Redis hash of texts. A text is represented together with the
  encoder that wrote it: as such (\<open>HText\<close>), by \<open>str\<close> of a number (\<open>HNum\<close>), by \<open>isoformat\<close> of a time
  (\<open>HIso\<close>) or by \<open>json.dumps\<close> of a value (\<open>HJson\<close>); \<open>hval_text\<close> is the text itself, and \<open>int\<close>,
  \<open>fromisoformat\<close> and \<open>json.loads\<close> undo the encoder that wrote the text and raise \<open>ValueError\<close> on any
  other: that the standard library's decoders invert its encoders is built into the representation, and
  what is modelled and proved is which field is written and read with which of them. The server is the parameter \<open>redis_ops\<close>, the commands that the code sends; the two Lua
  scripts, which the server runs as one step, are compositions of those commands. \<open>rd_clock\<close> is
  the clock of the machine, which the scores of the queue read.
\<close>

subsection \<open>JSON text\<close>

text \<open>\<open>json.dumps\<close> with its default settings.\<close>

definition json_char :: "char \<Rightarrow> string" where
  "json_char c =
     (let n = (of_char c :: nat) in
      if n = 34 \<or> n = 92 then [CHR 0x5C, c]
      else if n = 8 then [CHR 0x5C, CHR ''b'']
      else if n = 9 then [CHR 0x5C, CHR ''t'']
      else if n = 10 then [CHR 0x5C, CHR ''n'']
      else if n = 12 then [CHR 0x5C, CHR ''f'']
      else if n = 13 then [CHR 0x5C, CHR ''r'']
      else if n < 32 \<or> n > 126 then CHR 0x5C # ''u00'' @ [hex_digit (n div 16), hex_digit (n mod 16)]
      else [c])"

definition json_str :: "string \<Rightarrow> string" where
  "json_str s = CHR 0x22 # concat (map json_char s) @ [CHR 0x22]"

fun json_dumps :: "pyval \<Rightarrow> string" where
  "json_dumps PNone = ''null''"
| "json_dumps (PBool b) = (if b then ''true'' else ''false'')"
| "json_dumps (PInt i) = int_str i"
| "json_dumps (PFloat f) = f"
| "json_dumps (PStr s) = json_str s"
| "json_dumps (PList vs) = ''['' @ comma_join (map json_dumps vs) @ '']''"
| "json_dumps (PDict kvs) =
     CHR 0x7B # comma_join (map (\<lambda>(k, v). json_str k @ '': '' @ json_dumps v) kvs) @ [CHR 0x7D]"

subsection \<open>Texts in a hash\<close>

datatype hval = HText string | HNum int | HIso time | HJson pyval

type_synonym hash = "(string, hval) dict"
type_synonym hash_map = "string \<rightharpoonup> hval"

primrec hval_text :: "hval \<Rightarrow> string" where
  "hval_text (HText s) = s"
| "hval_text (HNum n) = int_str n"
| "hval_text (HIso t) = isoformat t"
| "hval_text (HJson v) = json_dumps v"

definition json_loads :: "hval \<Rightarrow> exn + pyval" where
  "json_loads h = (case h of HJson v \<Rightarrow> Inr v | _ \<Rightarrow> Inl (ValueError ''Expecting value''))"

definition int_of_text :: "hval \<Rightarrow> exn + int" where
  "int_of_text h = (case h of HNum n \<Rightarrow> Inr n | _ \<Rightarrow> Inl (ValueError ''invalid literal for int() with base 10''))"

definition fromisoformat :: "hval \<Rightarrow> exn + time" where
  "fromisoformat h = (case h of HIso t \<Rightarrow> Inr t | _ \<Rightarrow> Inl (ValueError ''Invalid isoformat string''))"

text \<open>\<open>data[key]\<close>, and \<open>data.get(key)\<close> where the empty text and a missing key count the same.\<close>

definition hash_field :: "hash_map \<Rightarrow> string \<Rightarrow> exn + hval" where
  "hash_field d k = (case d k of None \<Rightarrow> Inl (KeyError k) | Some h \<Rightarrow> Inr h)"

definition hash_get :: "hash_map \<Rightarrow> string \<Rightarrow> hval option" where
  "hash_get d k = (case d k of None \<Rightarrow> None | Some h \<Rightarrow> if h = HText [] then None else Some h)"

definition opt_field :: "(hval \<Rightarrow> exn + 'a) \<Rightarrow> hash_map \<Rightarrow> string \<Rightarrow> exn + 'a option" where
  "opt_field dec d k = (case hash_get d k of None \<Rightarrow> Inr None | Some h \<Rightarrow> and_then (dec h) (\<lambda>x. Inr (Some x)))"

definition field_or :: "(hval \<Rightarrow> exn + 'a) \<Rightarrow> hash_map \<Rightarrow> string \<Rightarrow> 'a \<Rightarrow> exn + 'a" where
  "field_or dec d k dflt = (case hash_get d k of None \<Rightarrow> Inr dflt | Some h \<Rightarrow> dec h)"

text \<open>JSON objects with values of one type, as the fields of \<open>Job\<close> declare them.\<close>

definition type_error :: "exn + 'a" where
  "type_error = Inl (OtherException ''unexpected JSON value'')"

definition loads_dict :: "hval \<Rightarrow> exn + (string, pyval) dict" where
  "loads_dict h = and_then (json_loads h) (\<lambda>v. case v of PDict d \<Rightarrow> Inr d | _ \<Rightarrow> type_error)"

definition ints_json :: "(string, int) dict \<Rightarrow> pyval" where
  "ints_json d = PDict (map (\<lambda>(k, n). (k, PInt n)) d)"

fun json_ints :: "(string, pyval) dict \<Rightarrow> exn + (string, int) dict" where
  "json_ints [] = Inr []"
| "json_ints ((k, PInt n) # kvs) = and_then (json_ints kvs) (\<lambda>d. Inr ((k, n) # d))"
| "json_ints (_ # kvs) = type_error"

fun json_strs :: "pyval list \<Rightarrow> exn + string list" where
  "json_strs [] = Inr []"
| "json_strs (PStr s # vs) = and_then (json_strs vs) (\<lambda>xs. Inr (s # xs))"
| "json_strs (_ # vs) = type_error"

definition loads_ints :: "hval \<Rightarrow> exn + (string, int) dict" where
  "loads_ints h = and_then (loads_dict h) json_ints"

definition loads_strs :: "hval \<Rightarrow> exn + string list" where
  "loads_strs h = and_then (json_loads h) (\<lambda>v. case v of PList vs \<Rightarrow> json_strs vs | _ \<Rightarrow> type_error)"

subsection \<open>A job as a hash\<close>

definition opt_text :: "string option \<Rightarrow> hval" where
  "opt_text v = HText (case v of None \<Rightarrow> [] | Some s \<Rightarrow> s)"

definition opt_iso :: "time option \<Rightarrow> hval" where
  "opt_iso v = (case v of None \<Rightarrow> HText [] | Some t \<Rightarrow> HIso t)"

definition opt_num :: "int option \<Rightarrow> hval" where
  "opt_num v = (case v of None \<Rightarrow> HText [] | Some n \<Rightarrow> HNum n)"

definition opt_json :: "pyval option \<Rightarrow> hval" where
  "opt_json v = (case v of None \<Rightarrow> HText [] | Some x \<Rightarrow> if py_truthy x then HJson x else HText [])"

text \<open>
  \<open>job.result_ref or ""\<close>. The client sends a text or a number as it is and refuses any other value
  with \<open>DataError\<close>, a \<open>RedisError\<close>.
\<close>

definition result_text :: "pyval option \<Rightarrow> exn + hval" where
  "result_text v =
     (case v of
        None \<Rightarrow> Inr (HText [])
      | Some x \<Rightarrow>
          if \<not> py_truthy x then Inr (HText [])
          else (case x of
             PStr s \<Rightarrow> Inr (HText s)
           | PInt n \<Rightarrow> Inr (HNum n)
           | PFloat f \<Rightarrow> Inr (HText f)
           | _ \<Rightarrow> Inl (RedisError ''Invalid input of type'')))"

definition job_to_hash :: "job \<Rightarrow> exn + hash" where
  "job_to_hash j =
     and_then (result_text (result_ref j))
       (\<lambda>res. Inr
         [(''job_id'', HText (job_id j)),
          (''job_type'', HText (job_type j)),
          (''queue_name'', HText (queue_name j)),
          (''payload'', HJson (PDict (payload j))),
          (''meta'', HJson (PDict (to_meta_dict j))),
          (''status'', HText (status_value (status j))),
          (''priority'', HNum (priority j)),
          (''claimed_by'', opt_text (claimed_by j)),
          (''created_at'', HIso (created_at j)),
          (''updated_at'', HIso (updated_at j)),
          (''resources'', HJson (ints_json (resources j))),
          (''depends_on'', HJson (PList (map PStr (depends_on j)))),
          (''attempt'', HNum (attempt j)),
          (''max_attempts'', HNum (max_attempts j)),
          (''started_at'', opt_iso (started_at j)),
          (''finished_at'', opt_iso (finished_at j)),
          (''last_heartbeat_at'', opt_iso (last_heartbeat_at j)),
          (''last_error'', opt_json (last_error j)),
          (''result_ref'', res),
          (''progress'', opt_json (progress j)),
          (''run_timeout_ms'', opt_num (run_timeout_ms j)),
          (''claim_timeout_ms'', opt_num (claim_timeout_ms j)),
          (''trace_id'', opt_text (trace_id j)),
          (''version'', HNum (version j))])"

definition get_text :: "hash_map \<Rightarrow> string \<Rightarrow> string option" where
  "get_text d k = map_option hval_text (hash_get d k)"

text \<open>The fields that come from \<open>meta\<close>.\<close>

definition job_meta :: "(string, pyval) dict \<Rightarrow> job \<Rightarrow> job" where
  "job_meta meta j =
     j\<lparr>app_id := meta_str meta ''app_id'',
       tenant_id := meta_str meta ''tenant_id'',
       host_id := meta_str meta ''host_id'',
       worker_id := meta_str meta ''worker_id'',
       idempotency_key := meta_str meta ''idempotency_key'',
       correlation_id := meta_str meta ''correlation_id'',
       user_id := meta_str meta ''user_id'',
       session_id := meta_str meta ''session_id'',
       channel_id := meta_str meta ''channel_id'',
       callback_url := meta_str meta ''callback_url'',
       callback_method := (case meta_str meta ''callback_method'' of None \<Rightarrow> ''POST'' | Some m \<Rightarrow> m),
       callback_headers := meta_headers meta,
       request_source := meta_str meta ''request_source'',
       request_ip := meta_str meta ''request_ip'',
       request_auth_method := meta_str meta ''request_auth_method'',
       request_auth_identity := meta_str meta ''request_auth_identity'',
       request_user_agent := meta_str meta ''request_user_agent''\<rparr>"

definition hash_core :: "hash_map \<Rightarrow> exn + job" where
  "hash_core d =
     and_then (hash_field d ''job_id'') (\<lambda>jid.
     and_then (hash_field d ''job_type'') (\<lambda>jt.
     and_then (hash_field d ''queue_name'') (\<lambda>qn.
     and_then (and_then (hash_field d ''payload'') loads_dict) (\<lambda>pl.
     and_then (and_then (hash_field d ''status'') (\<lambda>h. job_status_of (hval_text h))) (\<lambda>st.
     and_then (and_then (hash_field d ''priority'') int_of_text) (\<lambda>prio.
     and_then (and_then (hash_field d ''created_at'') fromisoformat) (\<lambda>cr.
     and_then (and_then (hash_field d ''updated_at'') fromisoformat) (\<lambda>up.
       Inr (new_job (hval_text jid) (hval_text jt) (hval_text qn) pl st prio cr up)))))))))"

text \<open>The job of the decoded fields.\<close>

definition assemble_job ::
  "hash_map \<Rightarrow> (string, pyval) dict \<Rightarrow> job \<Rightarrow> (string, int) dict \<Rightarrow> string list \<Rightarrow> int \<Rightarrow> int \<Rightarrow>
   time option \<Rightarrow> time option \<Rightarrow> time option \<Rightarrow> pyval option \<Rightarrow> pyval option \<Rightarrow> int option \<Rightarrow> int option \<Rightarrow> int \<Rightarrow> job" where
  "assemble_job d meta j res deps att maxa sta fin hb err prog rt ct ver =
     (job_meta meta j)
       \<lparr>claimed_by := get_text d ''claimed_by'', resources := res, depends_on := deps, attempt := att,
        max_attempts := maxa, started_at := sta, finished_at := fin, last_heartbeat_at := hb,
        last_error := err, result_ref := map_option PStr (get_text d ''result_ref''), progress := prog,
        run_timeout_ms := rt, claim_timeout_ms := ct, trace_id := get_text d ''trace_id'',
        version := ver\<rparr>"

definition hash_to_job :: "hash_map \<Rightarrow> exn + job" where
  "hash_to_job d =
     and_then (field_or loads_dict d ''meta'' []) (\<lambda>meta.
     and_then (hash_core d) (\<lambda>j.
     and_then (field_or loads_ints d ''resources'' []) (\<lambda>res.
     and_then (field_or loads_strs d ''depends_on'' []) (\<lambda>deps.
     and_then (field_or int_of_text d ''attempt'' 0) (\<lambda>att.
     and_then (field_or int_of_text d ''max_attempts'' 3) (\<lambda>maxa.
     and_then (opt_field fromisoformat d ''started_at'') (\<lambda>sta.
     and_then (opt_field fromisoformat d ''finished_at'') (\<lambda>fin.
     and_then (opt_field fromisoformat d ''last_heartbeat_at'') (\<lambda>hb.
     and_then (opt_field json_loads d ''last_error'') (\<lambda>err.
     and_then (opt_field json_loads d ''progress'') (\<lambda>prog.
     and_then (opt_field int_of_text d ''run_timeout_ms'') (\<lambda>rt.
     and_then (opt_field int_of_text d ''claim_timeout_ms'') (\<lambda>ct.
     and_then (field_or int_of_text d ''version'' 0) (\<lambda>ver.
       Inr (assemble_job d meta j res deps att maxa sta fin hb err prog rt ct ver)))))))))))))))"

subsection \<open>The commands and the two scripts\<close>

record 'r redis_ops =
  rd_hset :: "string \<Rightarrow> hash \<Rightarrow> ('r, unit) py"
  rd_hget :: "string \<Rightarrow> string \<Rightarrow> ('r, hval option) py"
  rd_hgetall :: "string \<Rightarrow> ('r, hash) py"
  rd_hincrby :: "string \<Rightarrow> string \<Rightarrow> int \<Rightarrow> ('r, unit) py"
  rd_exists :: "string \<Rightarrow> ('r, bool) py"
  rd_delete :: "string list \<Rightarrow> ('r, unit) py"
  rd_zadd :: "string \<Rightarrow> string \<Rightarrow> int \<Rightarrow> ('r, unit) py"
  rd_zrem :: "string \<Rightarrow> string \<Rightarrow> ('r, unit) py"
  rd_zrevrange :: "string \<Rightarrow> int \<Rightarrow> int \<Rightarrow> ('r, string list) py"
  rd_set_ex :: "string \<Rightarrow> string \<Rightarrow> int \<Rightarrow> ('r, unit) py"
  rd_expire :: "string \<Rightarrow> int \<Rightarrow> ('r, unit) py"
  rd_ttl :: "string \<Rightarrow> ('r, int) py"
  rd_scan :: "string \<Rightarrow> ('r, string list) py"
  rd_ping :: "('r, bool) py"
  rd_clock :: "'r \<Rightarrow> time"

record redis_config =
  rc_prefix :: string
  rc_lease_timeout :: int

definition new_redis_config :: "string \<Rightarrow> int \<Rightarrow> redis_config" where
  "new_redis_config prefix timeout = \<lparr>rc_prefix = prefix, rc_lease_timeout = timeout\<rparr>"

definition queue_key :: "redis_config \<Rightarrow> string" where
  "queue_key cfg = rc_prefix cfg @ '':queue''"

definition job_key :: "redis_config \<Rightarrow> string \<Rightarrow> string" where
  "job_key cfg jid = rc_prefix cfg @ '':job:'' @ jid"

definition lease_key :: "redis_config \<Rightarrow> string \<Rightarrow> string" where
  "lease_key cfg jid = rc_prefix cfg @ '':lease:'' @ jid"

definition is_text :: "hval option \<Rightarrow> string \<Rightarrow> bool" where
  "is_text h s \<longleftrightarrow> map_option hval_text h = Some s"

definition claim_script ::
  "'r redis_ops \<Rightarrow> string \<Rightarrow> string \<Rightarrow> string \<Rightarrow> string \<Rightarrow> string \<Rightarrow> string \<Rightarrow> hval \<Rightarrow> time \<Rightarrow> string \<Rightarrow> int \<Rightarrow>
   ('r, int) py" where
  "claim_script rd jkey qkey lkey queued running claimant meta now jid timeout =
     bind_py (rd_hget rd jkey ''status'') (\<lambda>cur.
       if \<not> is_text cur queued then ret 0
       else seq_py (rd_hset rd jkey
              [(''status'', HText running), (''claimed_by'', HText claimant), (''meta'', meta),
               (''updated_at'', HIso now), (''started_at'', HIso now), (''last_heartbeat_at'', HIso now)])
            (seq_py (rd_zrem rd qkey jid)
              (seq_py (rd_set_ex rd lkey claimant timeout) (ret 1))))"

definition heartbeat_script ::
  "'r redis_ops \<Rightarrow> string \<Rightarrow> string \<Rightarrow> string \<Rightarrow> time \<Rightarrow> int \<Rightarrow> ('r, int) py" where
  "heartbeat_script rd jkey lkey running now timeout =
     bind_py (rd_hget rd jkey ''status'') (\<lambda>cur.
       if \<not> is_text cur running then ret 0
       else seq_py (rd_hset rd jkey [(''updated_at'', HIso now), (''last_heartbeat_at'', HIso now)])
              (seq_py (rd_expire rd lkey timeout) (ret 1)))"

subsection \<open>The methods\<close>

text \<open>\<open>except RedisError: return False\<close>\<close>

definition except_redis :: "('r, bool) py \<Rightarrow> ('r, bool) py" where
  "except_redis m = try_except m (\<lambda>e. case e of RedisError _ \<Rightarrow> ret False | _ \<Rightarrow> raise_exn e)"

text \<open>
  The score of a queued job. A Redis score is an IEEE double, which holds every integer below \<open>2 ^ 53\<close>
  exactly: for the times of this century, with every priority between -900000 and 900000. The model is exact there.
\<close>

definition redis_score :: "int \<Rightarrow> time \<Rightarrow> int" where
  "redis_score prio now = prio * 10000000000 - now div 1000"

definition redis_add :: "'r redis_ops \<Rightarrow> redis_config \<Rightarrow> string \<Rightarrow> int \<Rightarrow> ('r, unit) py" where
  "redis_add rd cfg jid prio = (\<lambda>r. rd_zadd rd (queue_key cfg) jid (redis_score prio (rd_clock rd r)) r)"

definition redis_enqueue :: "'r redis_ops \<Rightarrow> redis_config \<Rightarrow> job \<Rightarrow> ('r, string) py" where
  "redis_enqueue rd cfg j =
     bind_py (lift_res (job_to_hash j)) (\<lambda>h.
       seq_py (rd_hset rd (job_key cfg (job_id j)) h)
         (seq_py (redis_add rd cfg (job_id j) (priority j)) (ret (job_id j))))"

definition redis_get :: "'r redis_ops \<Rightarrow> redis_config \<Rightarrow> string \<Rightarrow> ('r, job option) py" where
  "redis_get rd cfg jid =
     bind_py (rd_hgetall rd (job_key cfg jid)) (\<lambda>d.
       if d = [] then ret None else bind_py (lift_res (hash_to_job (map_of d))) (\<lambda>j. ret (Some j)))"

fun redis_pick ::
  "'r redis_ops \<Rightarrow> redis_config \<Rightarrow> int \<Rightarrow> string option \<Rightarrow> string option \<Rightarrow> string list \<Rightarrow> job list \<Rightarrow> ('r, job list) py" where
  "redis_pick rd cfg limit jt qn [] jobs = ret jobs"
| "redis_pick rd cfg limit jt qn (jid # ids) jobs =
     (if int (length jobs) \<ge> limit then ret jobs
      else bind_py (redis_get rd cfg jid) (\<lambda>job.
        redis_pick rd cfg limit jt qn ids
          (case job of
             None \<Rightarrow> jobs
           | Some j \<Rightarrow>
               if status j = QUEUED \<and> (jt = None \<or> Some (job_type j) = jt) \<and> (qn = None \<or> Some (queue_name j) = qn)
               then jobs @ [j] else jobs)))"

definition redis_dequeue ::
  "'r redis_ops \<Rightarrow> redis_config \<Rightarrow> int \<Rightarrow> string option \<Rightarrow> string option \<Rightarrow> ('r, job list) py" where
  "redis_dequeue rd cfg limit jt qn =
     bind_py (rd_zrevrange rd (queue_key cfg) 0 (max 0 (limit * 3 - 1))) (\<lambda>ids.
       redis_pick rd cfg limit jt qn ids [])"

definition loads_meta :: "hval option \<Rightarrow> exn + (string, pyval) dict" where
  "loads_meta raw =
     (case raw of None \<Rightarrow> Inr [] | Some h \<Rightarrow> if h = HText [] then Inr [] else loads_dict h)"

definition redis_claim ::
  "'r redis_ops \<Rightarrow> redis_config \<Rightarrow> time \<Rightarrow> string \<Rightarrow> string \<Rightarrow> string \<Rightarrow> ('r, bool) py" where
  "redis_claim rd cfg now jid host worker =
     bind_py (rd_hget rd (job_key cfg jid) ''meta'') (\<lambda>raw.
     bind_py (lift_res (loads_meta raw)) (\<lambda>meta.
       let meta' = dict_set (dict_set meta ''host_id'' (PStr host)) ''worker_id'' (PStr worker) in
       except_redis
         (bind_py (claim_script rd (job_key cfg jid) (queue_key cfg) (lease_key cfg jid) (status_value QUEUED)
              (status_value RUNNING) (host @ '':'' @ worker) (HJson (PDict meta')) now jid (rc_lease_timeout cfg))
            (\<lambda>n. ret (n = 1)))))"

definition redis_release :: "'r redis_ops \<Rightarrow> redis_config \<Rightarrow> time \<Rightarrow> string \<Rightarrow> ('r, bool) py" where
  "redis_release rd cfg now jid =
     bind_py (redis_get rd cfg jid) (\<lambda>job.
       case job of
         None \<Rightarrow> ret False
       | Some j \<Rightarrow>
           seq_py (rd_hset rd (job_key cfg jid)
               [(''status'', HText (status_value QUEUED)), (''claimed_by'', HText []), (''updated_at'', HIso now)])
             (seq_py (redis_add rd cfg jid (priority j))
               (seq_py (rd_delete rd [lease_key cfg jid]) (ret True))))"

definition redis_heartbeat :: "'r redis_ops \<Rightarrow> redis_config \<Rightarrow> time \<Rightarrow> string \<Rightarrow> ('r, bool) py" where
  "redis_heartbeat rd cfg now jid =
     except_redis
       (bind_py (heartbeat_script rd (job_key cfg jid) (lease_key cfg jid) (status_value RUNNING) now (rc_lease_timeout cfg))
          (\<lambda>n. ret (n = 1)))"

definition redis_terminal :: "string list" where
  "redis_terminal =
     [status_value SUCCEEDED, status_value FAILED, status_value CANCELLED, status_value TTL_EXPIRED,
      status_value DEAD_LETTERED]"

definition redis_update_status ::
  "'r redis_ops \<Rightarrow> redis_config \<Rightarrow> time \<Rightarrow> string \<Rightarrow> string \<Rightarrow> ('r, bool) py" where
  "redis_update_status rd cfg now jid st =
     bind_py (rd_exists rd (job_key cfg jid)) (\<lambda>there.
       if \<not> there then ret False
       else seq_py (rd_hset rd (job_key cfg jid)
              ([(''status'', HText st), (''updated_at'', HIso now)] @
               (if st \<in> set redis_terminal then [(''finished_at'', HIso now)] else [])))
            (seq_py (if st \<noteq> status_value QUEUED then rd_zrem rd (queue_key cfg) jid else ret ())
              (seq_py (if st \<in> set redis_terminal then rd_delete rd [lease_key cfg jid] else ret ())
                (ret True))))"

definition count_status :: "'r redis_ops \<Rightarrow> string \<Rightarrow> (string, int) dict \<Rightarrow> ('r, (string, int) dict) py" where
  "count_status rd key counts =
     bind_py (rd_hget rd key ''status'') (\<lambda>st.
       ret (case st of
              None \<Rightarrow> counts
            | Some h \<Rightarrow> if hval_text h = [] then counts
                else dict_set counts (hval_text h) (dict_get_or counts (hval_text h) 0 + 1)))"

definition redis_queue_status :: "'r redis_ops \<Rightarrow> redis_config \<Rightarrow> ('r, (string, int) dict) py" where
  "redis_queue_status rd cfg =
     bind_py (rd_scan rd (rc_prefix cfg @ '':job:'')) (\<lambda>keys. fold_py (count_status rd) keys [])"

definition redis_health_check :: "'r redis_ops \<Rightarrow> ('r, bool) py" where
  "redis_health_check rd = except_redis (rd_ping rd)"

text \<open>\<open>str(key).rsplit(":", 1)[-1]\<close>\<close>

definition last_part :: "string \<Rightarrow> string" where
  "last_part key = rev (takeWhile (\<lambda>c. c \<noteq> CHR '':'') (rev key))"

definition collect_job :: "'r redis_ops \<Rightarrow> redis_config \<Rightarrow> string \<Rightarrow> job list \<Rightarrow> ('r, job list) py" where
  "collect_job rd cfg key jobs =
     bind_py (redis_get rd cfg (last_part key)) (\<lambda>job.
       ret (case job of None \<Rightarrow> jobs | Some j \<Rightarrow> jobs @ [j]))"

definition redis_all_jobs :: "'r redis_ops \<Rightarrow> redis_config \<Rightarrow> ('r, job list) py" where
  "redis_all_jobs rd cfg =
     bind_py (rd_scan rd (rc_prefix cfg @ '':job:'')) (\<lambda>keys. fold_py (collect_job rd cfg) keys [])"

definition redis_record_attempt ::
  "'r redis_ops \<Rightarrow> redis_config \<Rightarrow> time \<Rightarrow> string \<Rightarrow> string option \<Rightarrow> ('r, bool) py" where
  "redis_record_attempt rd cfg now jid err =
     bind_py (rd_exists rd (job_key cfg jid)) (\<lambda>there.
       if \<not> there then ret False
       else seq_py (rd_hincrby rd (job_key cfg jid) ''attempt'' 1)
              (seq_py (rd_hset rd (job_key cfg jid)
                  ((''updated_at'', HIso now) #
                   (case err of None \<Rightarrow> [] | Some e \<Rightarrow> [(''last_error'', HJson (PDict [(''message'', PStr e)]))])))
                (ret True)))"

definition redis_update_progress ::
  "'r redis_ops \<Rightarrow> redis_config \<Rightarrow> time \<Rightarrow> string \<Rightarrow> (string, pyval) dict \<Rightarrow> ('r, bool) py" where
  "redis_update_progress rd cfg now jid p =
     bind_py (rd_exists rd (job_key cfg jid)) (\<lambda>there.
       if \<not> there then ret False
       else seq_py (rd_hset rd (job_key cfg jid) [(''progress'', HJson (PDict p)), (''updated_at'', HIso now)]) (ret True))"

text \<open>The result is a text or a dictionary; the client refuses other values that are not numbers.\<close>

definition stored_result :: "pyval \<Rightarrow> exn + hval" where
  "stored_result res =
     (case res of
        PDict d \<Rightarrow> Inr (HJson (PDict d))
      | PStr s \<Rightarrow> Inr (HText s)
      | PInt n \<Rightarrow> Inr (HNum n)
      | PFloat f \<Rightarrow> Inr (HText f)
      | _ \<Rightarrow> Inl (RedisError ''Invalid input of type''))"

definition redis_store_result :: "'r redis_ops \<Rightarrow> redis_config \<Rightarrow> time \<Rightarrow> string \<Rightarrow> pyval \<Rightarrow> ('r, bool) py" where
  "redis_store_result rd cfg now jid res =
     bind_py (rd_exists rd (job_key cfg jid)) (\<lambda>there.
       if \<not> there then ret False
       else bind_py (lift_res (stored_result res)) (\<lambda>h.
         seq_py (rd_hset rd (job_key cfg jid) [(''result_ref'', h), (''updated_at'', HIso now)]) (ret True)))"

subsection \<open>Leases\<close>

definition reap_key ::
  "'r redis_ops \<Rightarrow> redis_config \<Rightarrow> (string \<Rightarrow> time) \<Rightarrow> string \<Rightarrow> string list \<Rightarrow> ('r, string list) py" where
  "reap_key rd cfg clk key reaped =
     (let jid = last_part key in
      bind_py (rd_hget rd key ''status'') (\<lambda>st.
        if \<not> is_text st (status_value RUNNING) then ret reaped
        else bind_py (rd_exists rd (lease_key cfg jid)) (\<lambda>held.
          if held then ret reaped
          else bind_py (redis_release rd cfg (clk jid) jid) (\<lambda>ok. ret (if ok then reaped @ [jid] else reaped)))))"

definition reap_expired_leases :: "'r redis_ops \<Rightarrow> redis_config \<Rightarrow> (string \<Rightarrow> time) \<Rightarrow> ('r, string list) py" where
  "reap_expired_leases rd cfg clk =
     bind_py (rd_scan rd (rc_prefix cfg @ '':job:'')) (\<lambda>keys. fold_py (reap_key rd cfg clk) keys [])"

definition lease_ttl :: "'r redis_ops \<Rightarrow> redis_config \<Rightarrow> string \<Rightarrow> ('r, int) py" where
  "lease_ttl rd cfg jid = rd_ttl rd (lease_key cfg jid)"

definition clear_prefix :: "'r redis_ops \<Rightarrow> redis_config \<Rightarrow> ('r, unit) py" where
  "clear_prefix rd cfg =
     bind_py (rd_scan rd (rc_prefix cfg @ '':''))
       (\<lambda>keys. if keys = [] then ret () else rd_delete rd keys)"

definition redis_backend :: "'r redis_ops \<Rightarrow> redis_config \<Rightarrow> 'r backend_ops" where
  "redis_backend rd cfg =
     \<lparr>be_enqueue = redis_enqueue rd cfg,
      be_dequeue = redis_dequeue rd cfg,
      be_claim = redis_claim rd cfg,
      be_release = redis_release rd cfg,
      be_heartbeat = redis_heartbeat rd cfg,
      be_get = redis_get rd cfg,
      be_update_status = redis_update_status rd cfg,
      be_get_queue_status = redis_queue_status rd cfg,
      be_health_check = redis_health_check rd,
      be_all_jobs = redis_all_jobs rd cfg,
      be_record_attempt = redis_record_attempt rd cfg,
      be_update_progress = redis_update_progress rd cfg,
      be_store_result = redis_store_result rd cfg,
      be_live = (\<lambda>_ j. j),
      be_poke = (\<lambda>_ _ b. b)\<rparr>"

end
