(* ===== verification/Redis_Codec.thy ===== *)
theory Redis_Codec
  imports Redis_Store
begin

section \<open>The Redis backend: what a hash says about a job\<close>

text \<open>
  Decoding undoes encoding up to the fields that a hash does not hold, and each partial write of a
  method changes exactly the fields of the job it names.
\<close>

lemma hash_field_upd [simp]:
  "hash_field (h(k \<mapsto> v)) k' = (if k' = k then Inr v else hash_field h k')"
  by (simp add: hash_field_def)

lemma hash_get_upd [simp]:
  "hash_get (h(k \<mapsto> v)) k' = (if k' = k then (if v = HText [] then None else Some v) else hash_get h k')"
  by (simp add: hash_get_def)

lemma field_or_upd [simp]:
  "field_or dec (h(k \<mapsto> v)) k' d =
     (if k' = k then (if v = HText [] then Inr d else dec v) else field_or dec h k' d)"
  by (simp add: field_or_def)

lemma opt_field_upd [simp]:
  "opt_field dec (h(k \<mapsto> v)) k' =
     (if k' = k then (if v = HText [] then Inr None else and_then (dec v) (\<lambda>x. Inr (Some x))) else opt_field dec h k')"
  by (simp add: opt_field_def)

lemma get_text_upd [simp]:
  "get_text (h(k \<mapsto> v)) k' =
     (if k' = k then (if v = HText [] then None else Some (hval_text v)) else get_text h k')"
  by (simp add: get_text_def)

lemma decoders [simp]:
  "json_loads (HJson v) = Inr v" "int_of_text (HNum n) = Inr n" "fromisoformat (HIso t) = Inr t"
  "loads_dict (HJson (PDict d)) = Inr d"
  by (simp_all add: json_loads_def int_of_text_def fromisoformat_def loads_dict_def)

lemma json_ints_back: "json_ints (map (\<lambda>(k, n). (k, PInt n)) d) = Inr d"
  by (induction d) auto

lemma json_strs_back: "json_strs (map PStr xs) = Inr xs"
  by (induction xs) simp_all

lemma loads_ints_back [simp]: "loads_ints (HJson (ints_json d)) = Inr d"
  by (simp add: loads_ints_def ints_json_def json_ints_back)

lemma loads_strs_back [simp]: "loads_strs (HJson (PList (map PStr xs))) = Inr xs"
  by (simp add: loads_strs_def json_strs_back)

lemma ints_json_not_text [simp]: "HJson v \<noteq> HText s"
  by simp

subsection \<open>When a hash is a job\<close>

definition readable :: "exn + 'a \<Rightarrow> bool" where
  "readable r \<longleftrightarrow> (\<exists>x. r = Inr x)"

definition reads_ok :: "hash_map \<Rightarrow> bool" where
  "reads_ok h \<longleftrightarrow>
     readable (field_or loads_dict h ''meta'' []) \<and> readable (hash_core h) \<and>
     readable (field_or loads_ints h ''resources'' []) \<and> readable (field_or loads_strs h ''depends_on'' []) \<and>
     readable (field_or int_of_text h ''attempt'' 0) \<and> readable (field_or int_of_text h ''max_attempts'' 3) \<and>
     readable (opt_field fromisoformat h ''started_at'') \<and> readable (opt_field fromisoformat h ''finished_at'') \<and>
     readable (opt_field fromisoformat h ''last_heartbeat_at'') \<and> readable (opt_field json_loads h ''last_error'') \<and>
     readable (opt_field json_loads h ''progress'') \<and> readable (opt_field int_of_text h ''run_timeout_ms'') \<and>
     readable (opt_field int_of_text h ''claim_timeout_ms'') \<and> readable (field_or int_of_text h ''version'' 0)"

lemma readable_Inr [simp]: "readable (Inr x)" "\<not> readable (Inl e)"
  by (simp_all add: readable_def)

lemma readable_and_then: "readable (and_then r k) \<longleftrightarrow> (\<exists>x. r = Inr x \<and> readable (k x))"
  by (cases r) (simp_all add: and_then_def)

lemma readable_job: "readable (hash_to_job h) \<longleftrightarrow> reads_ok h"
  unfolding hash_to_job_def reads_ok_def
  by (simp only: readable_and_then readable_Inr simp_thms ex_simps) (simp only: readable_def [symmetric])

lemma readable_core:
  "readable (hash_core h) \<longleftrightarrow>
     readable (hash_field h ''job_id'') \<and> readable (hash_field h ''job_type'') \<and> readable (hash_field h ''queue_name'') \<and>
     readable (and_then (hash_field h ''payload'') loads_dict) \<and>
     readable (and_then (hash_field h ''status'') (\<lambda>v. job_status_of (hval_text v))) \<and>
     readable (and_then (hash_field h ''priority'') int_of_text) \<and>
     readable (and_then (hash_field h ''created_at'') fromisoformat) \<and>
     readable (and_then (hash_field h ''updated_at'') fromisoformat)"
  unfolding hash_core_def
  by (simp only: readable_and_then readable_Inr simp_thms ex_simps)
    (simp only: readable_def [symmetric] readable_and_then [symmetric])

lemma hash_core_fields:
  assumes "hash_core h = Inr j"
  shows "hash_field h ''job_id'' = Inr v \<Longrightarrow> job_id j = hval_text v"
    and "hash_field h ''job_type'' = Inr v \<Longrightarrow> job_type j = hval_text v"
    and "hash_field h ''queue_name'' = Inr v \<Longrightarrow> queue_name j = hval_text v"
    and "and_then (hash_field h ''payload'') loads_dict = Inr (payload j)"
    and "and_then (hash_field h ''status'') (\<lambda>v. job_status_of (hval_text v)) = Inr (status j)"
    and "and_then (hash_field h ''priority'') int_of_text = Inr (priority j)"
    and "and_then (hash_field h ''created_at'') fromisoformat = Inr (created_at j)"
  using assms unfolding hash_core_def
  by (simp_all only: and_then_eq_Inr) (auto simp: and_then_eq_Inr)

lemma hash_job_parts:
  assumes "hash_to_job h = Inr j"
  shows "\<exists>c. hash_core h = Inr c \<and> job_id j = job_id c \<and> job_type j = job_type c \<and> queue_name j = queue_name c \<and>
      payload j = payload c \<and> status j = status c \<and> priority j = priority c \<and> created_at j = created_at c"
    and "field_or loads_ints h ''resources'' [] = Inr (resources j)"
    and "field_or loads_strs h ''depends_on'' [] = Inr (depends_on j)"
    and "claimed_by j = get_text h ''claimed_by''"
  using assms unfolding hash_to_job_def
  by (simp_all only: and_then_eq_Inr) (auto simp: assemble_job_def job_meta_def)

subsection \<open>Partial writes\<close>

definition submission_keys :: "string list" where
  "submission_keys =
     [''job_id'', ''job_type'', ''queue_name'', ''payload'', ''priority'', ''created_at'', ''resources'', ''depends_on'']"

lemma reads_cong:
  assumes "h' k = h k"
  shows "hash_field h' k = hash_field h k" "field_or dec h' k d = field_or dec h k d"
  using assms by (simp_all add: hash_field_def field_or_def hash_get_def)

text \<open>A write that leaves the submitted fields alone gives the same submission in the written status.\<close>

lemma hash_write:
  assumes j: "hash_to_job h = Inr j" and ok: "reads_ok h'" and same: "\<forall>k \<in> set submission_keys. h' k = h k"
  shows "\<exists>j'. hash_to_job h' = Inr j' \<and> same_submission j j' \<and> claimed_by j' = get_text h' ''claimed_by'' \<and>
    and_then (hash_field h' ''status'') (\<lambda>v. job_status_of (hval_text v)) = Inr (status j')"
proof -
  obtain j' where j': "hash_to_job h' = Inr j'" using ok readable_job [of h'] by (auto simp: readable_def)
  obtain c where c: "hash_core h = Inr c" "job_id j = job_id c" "job_type j = job_type c" "queue_name j = queue_name c"
      "payload j = payload c" "priority j = priority c" "created_at j = created_at c"
    using hash_job_parts(1) [OF j] by blast
  obtain c' where c': "hash_core h' = Inr c'" "job_id j' = job_id c'" "job_type j' = job_type c'" "queue_name j' = queue_name c'"
      "payload j' = payload c'" "status j' = status c'" "priority j' = priority c'" "created_at j' = created_at c'"
    using hash_job_parts(1) [OF j'] by blast
  have eq: "hash_field h' k = hash_field h k" if "k \<in> set submission_keys" for k
    using that same by (simp add: hash_field_def)
  have rd: "\<exists>v. hash_field h ''job_id'' = Inr v" "\<exists>v. hash_field h ''job_type'' = Inr v" "\<exists>v. hash_field h ''queue_name'' = Inr v"
    using c(1) readable_core [of h] by (simp_all add: readable_def)
  have "job_id c' = job_id c" "job_type c' = job_type c" "queue_name c' = queue_name c"
    using rd hash_core_fields(1-3) [OF c(1)] hash_core_fields(1-3) [OF c'(1)] eq by (auto simp: submission_keys_def)
  moreover have "payload c' = payload c" "priority c' = priority c" "created_at c' = created_at c"
    using hash_core_fields(4,6,7) [OF c(1)] hash_core_fields(4,6,7) [OF c'(1)] eq by (simp_all add: submission_keys_def)
  moreover have "resources j' = resources j" "depends_on j' = depends_on j"
    using hash_job_parts(2,3) [OF j] hash_job_parts(2,3) [OF j'] same
    by (simp_all add: reads_cong(2) [of h' _ h] submission_keys_def)
  ultimately have "same_submission j j'" using c c' by (simp add: same_submission_def)
  with j' hash_job_parts(4) [OF j'] hash_core_fields(5) [OF c'(1)] c'(6) show ?thesis by auto
qed

lemma hash_status:
  assumes "hash_to_job h = Inr j"
  shows "\<exists>v. h ''status'' = Some v \<and> hval_text v = status_value (status j)"
proof -
  obtain c where "hash_core h = Inr c" "status j = status c" using hash_job_parts(1) [OF assms] by blast
  with hash_core_fields(5) [of h c] obtain v where "hash_field h ''status'' = Inr v" "job_status_of (hval_text v) = Inr (status j)"
    by (auto simp: and_then_eq_Inr)
  then show ?thesis using job_status_of_Inr by (auto simp: hash_field_def split: option.splits)
qed

lemma hash_id:
  assumes "hash_to_job h = Inr j"
  shows "\<exists>v. h ''job_id'' = Some v \<and> job_id j = hval_text v"
proof -
  obtain c where c: "hash_core h = Inr c" "job_id j = job_id c" using hash_job_parts(1) [OF assms] by blast
  then obtain v where "hash_field h ''job_id'' = Inr v" using readable_core [of h] by (auto simp: readable_def)
  with hash_core_fields(1) [OF c(1)] c(2) show ?thesis by (auto simp: hash_field_def split: option.splits)
qed

subsection \<open>Round trip\<close>

text \<open>What a job reads as after it was stored: empty texts and false values read as missing.\<close>

definition truthy_text :: "string option \<Rightarrow> string option" where
  "truthy_text v = (case v of None \<Rightarrow> None | Some s \<Rightarrow> if s = [] then None else Some s)"

definition truthy_val :: "pyval option \<Rightarrow> pyval option" where
  "truthy_val v = (case v of None \<Rightarrow> None | Some x \<Rightarrow> if py_truthy x then Some x else None)"

lemma meta_back:
  "meta_str (to_meta_dict j) ''app_id'' = app_id j" "meta_str (to_meta_dict j) ''tenant_id'' = tenant_id j"
  "meta_str (to_meta_dict j) ''host_id'' = host_id j" "meta_str (to_meta_dict j) ''worker_id'' = worker_id j"
  "meta_str (to_meta_dict j) ''idempotency_key'' = idempotency_key j"
  "meta_str (to_meta_dict j) ''correlation_id'' = correlation_id j"
  "meta_str (to_meta_dict j) ''user_id'' = user_id j" "meta_str (to_meta_dict j) ''session_id'' = session_id j"
  "meta_str (to_meta_dict j) ''channel_id'' = channel_id j" "meta_str (to_meta_dict j) ''callback_url'' = callback_url j"
  "meta_str (to_meta_dict j) ''callback_method'' = Some (callback_method j)"
  "meta_headers (to_meta_dict j) = callback_headers j"
  "meta_str (to_meta_dict j) ''request_source'' = request_source j" "meta_str (to_meta_dict j) ''request_ip'' = request_ip j"
  "meta_str (to_meta_dict j) ''request_auth_method'' = request_auth_method j"
  "meta_str (to_meta_dict j) ''request_auth_identity'' = request_auth_identity j"
  "meta_str (to_meta_dict j) ''request_user_agent'' = request_user_agent j"
  by (simp_all add: meta_str_def meta_headers_def to_meta_dict_def opt_str_def comp_def case_prod_unfold split: option.splits)

lemma opt_field_enc [simp]:
  "(if opt_text v = HText [] then None else Some (hval_text (opt_text v))) = truthy_text v"
  "(if opt_iso t = HText [] then Inr None else and_then (fromisoformat (opt_iso t)) (\<lambda>x. Inr (Some x))) = Inr t"
  "(if opt_num n = HText [] then Inr None else and_then (int_of_text (opt_num n)) (\<lambda>x. Inr (Some x))) = Inr n"
  "(if opt_json x = HText [] then Inr None else and_then (json_loads (opt_json x)) (\<lambda>x. Inr (Some x))) = Inr (truthy_val x)"
  by (auto simp: opt_text_def opt_iso_def opt_num_def opt_json_def truthy_text_def truthy_val_def split: option.splits)

definition result_read :: "pyval option \<Rightarrow> pyval option" where
  "result_read v = (case result_text v of Inl _ \<Rightarrow> None | Inr h \<Rightarrow> if h = HText [] then None else Some (PStr (hval_text h)))"

lemma hash_core_back:
  assumes "job_to_hash j = Inr h"
  shows "hash_core (map_of h) =
    Inr (new_job (job_id j) (job_type j) (queue_name j) (payload j) (status j) (priority j) (created_at j) (updated_at j))"
  using assms unfolding job_to_hash_def hash_core_def
  by (auto simp: and_then_eq_Inr)

lemma hash_roundtrip:
  assumes "job_to_hash j = Inr h"
  shows "hash_to_job (map_of h) =
    Inr (j\<lparr>claimed_by := truthy_text (claimed_by j), next_run_at := None, last_error := truthy_val (last_error j),
          result_ref := result_read (result_ref j), progress := truthy_val (progress j), trace_id := truthy_text (trace_id j)\<rparr>)"
proof -
  obtain res where res: "result_text (result_ref j) = Inr res"
    using assms by (auto simp: job_to_hash_def and_then_eq_Inr)
  have r: "map_option PStr (if res = HText [] then None else Some (hval_text res)) = result_read (result_ref j)"
    by (simp add: result_read_def res)
  have reads: "field_or loads_dict (map_of h) ''meta'' [] = Inr (to_meta_dict j)"
      "field_or loads_ints (map_of h) ''resources'' [] = Inr (resources j)"
      "field_or loads_strs (map_of h) ''depends_on'' [] = Inr (depends_on j)"
      "field_or int_of_text (map_of h) ''attempt'' 0 = Inr (attempt j)"
      "field_or int_of_text (map_of h) ''max_attempts'' 3 = Inr (max_attempts j)"
      "opt_field fromisoformat (map_of h) ''started_at'' = Inr (started_at j)"
      "opt_field fromisoformat (map_of h) ''finished_at'' = Inr (finished_at j)"
      "opt_field fromisoformat (map_of h) ''last_heartbeat_at'' = Inr (last_heartbeat_at j)"
      "opt_field json_loads (map_of h) ''last_error'' = Inr (truthy_val (last_error j))"
      "opt_field json_loads (map_of h) ''progress'' = Inr (truthy_val (progress j))"
      "opt_field int_of_text (map_of h) ''run_timeout_ms'' = Inr (run_timeout_ms j)"
      "opt_field int_of_text (map_of h) ''claim_timeout_ms'' = Inr (claim_timeout_ms j)"
      "field_or int_of_text (map_of h) ''version'' 0 = Inr (version j)"
    using assms unfolding job_to_hash_def res by auto
  have "hash_to_job (map_of h) = Inr (assemble_job (map_of h) (to_meta_dict j)
      (new_job (job_id j) (job_type j) (queue_name j) (payload j) (status j) (priority j) (created_at j) (updated_at j))
      (resources j) (depends_on j) (attempt j) (max_attempts j) (started_at j) (finished_at j) (last_heartbeat_at j)
      (truthy_val (last_error j)) (truthy_val (progress j)) (run_timeout_ms j) (claim_timeout_ms j) (version j))"
    by (simp only: hash_to_job_def hash_core_back [OF assms] reads and_then_Inr)
  moreover have "get_text (map_of h) ''claimed_by'' = truthy_text (claimed_by j)"
      "get_text (map_of h) ''trace_id'' = truthy_text (trace_id j)"
      "map_option PStr (get_text (map_of h) ''result_ref'') = result_read (result_ref j)"
    using assms r unfolding job_to_hash_def res by auto
  ultimately show ?thesis
    by (simp add: assemble_job_def job_meta_def meta_back new_job_def)
qed

text \<open>Decoding reads no other fields than the encoder writes.\<close>

definition hash_keys :: "string list" where
  "hash_keys =
     submission_keys @ [''meta'', ''status'', ''claimed_by'', ''updated_at'', ''attempt'', ''max_attempts'', ''started_at'',
       ''finished_at'', ''last_heartbeat_at'', ''last_error'', ''result_ref'', ''progress'', ''run_timeout_ms'',
       ''claim_timeout_ms'', ''trace_id'', ''version'']"

lemma hash_to_job_cong:
  assumes "\<forall>k \<in> set hash_keys. h' k = h k"
  shows "hash_to_job h' = hash_to_job h"
  using assms
  unfolding hash_to_job_def hash_core_def assemble_job_def hash_field_def field_or_def opt_field_def hash_get_def get_text_def
    hash_keys_def submission_keys_def
  by (simp only: set_append list.set ball_Un ball_simps Set.ball_empty)

lemma job_to_hash_keys:
  assumes "job_to_hash j = Inr h"
  shows "set (map fst h) = set hash_keys" "distinct (map fst h)" "map_of h ''attempt'' = Some (HNum (attempt j))"
  using assms by (auto simp: job_to_hash_def and_then_eq_Inr hash_keys_def submission_keys_def)

lemma job_to_hash_no_result: "result_ref j = None \<Longrightarrow> \<exists>h. job_to_hash j = Inr h"
  by (simp add: job_to_hash_def result_text_def)

subsection \<open>The writes of the methods\<close>

lemmas reads_simps = reads_ok_def readable_core

lemma claim_writes:
  "reads_ok h \<Longrightarrow> reads_ok (h ++ map_of (rev
     [(''status'', HText (status_value s)), (''claimed_by'', HText c), (''meta'', HJson (PDict m)),
      (''updated_at'', HIso now), (''started_at'', HIso now), (''last_heartbeat_at'', HIso now)]))"
  by (simp add: reads_simps)

lemma status_writes:
  "reads_ok h \<Longrightarrow> reads_ok (h ++ map_of (rev [(''status'', HText (status_value s)), (''claimed_by'', HText []), (''updated_at'', HIso now)]))"
  "reads_ok h \<Longrightarrow> reads_ok (h ++ map_of (rev ([(''status'', HText (status_value s)), (''updated_at'', HIso now)] @
     (if fin then [(''finished_at'', HIso now)] else []))))"
  by (simp_all add: reads_simps)

lemma note_writes:
  "reads_ok h \<Longrightarrow> reads_ok (h ++ map_of (rev [(''updated_at'', HIso now), (''last_heartbeat_at'', HIso now)]))"
  "reads_ok h \<Longrightarrow> reads_ok (h ++ map_of (rev [(''progress'', HJson v), (''updated_at'', HIso now)]))"
  "reads_ok h \<Longrightarrow> reads_ok (h ++ map_of (rev [(''result_ref'', x), (''updated_at'', HIso now)]))"
  "reads_ok h \<Longrightarrow> reads_ok (h ++ map_of (rev ((''updated_at'', HIso now) #
     (case err of None \<Rightarrow> [] | Some e \<Rightarrow> [(''last_error'', HJson (PDict [(''message'', PStr e)]))]))))"
  "reads_ok h \<Longrightarrow> reads_ok (h(''attempt'' \<mapsto> HNum n))"
  by (simp_all add: reads_simps split: option.split)

end
