(* ===== verification/Redis_Backend.thy ===== *)
theory Redis_Backend
  imports Redis_Codec
begin

section \<open>The Redis backend meets the contract\<close>

text \<open>
  What the code relies on of the server, over the keys the backend uses: hashes, a sorted set and keys
  that expire, with the documented effect of each command (\<open>redis_server\<close>). \<open>hashes\<close>, \<open>index\<close> and
  \<open>leases\<close> are the jobs, the queue and the instants at which the leases end. Over every such server the
  backend meets the contract \<open>queue_backend\<close>; it does not meet \<open>listing_backend\<close> or
  \<open>ordered_backend\<close>. A server kept in association lists is one.
\<close>

locale redis_server =
  fixes rd :: "'r redis_ops" and cfg :: redis_config
    and hashes :: "'r \<Rightarrow> string \<Rightarrow> hash_map"
    and index :: "'r \<Rightarrow> string \<Rightarrow> int option"
    and leases :: "'r \<Rightarrow> string \<Rightarrow> time option"
  assumes timeout_pos: "0 < rc_lease_timeout cfg"
    and hset_law: "\<exists>r'. rd_hset rd (job_key cfg i) kvs r = (Inr (), r') \<and> hashes r' = (hashes r)(i := hashes r i ++ map_of (rev kvs)) \<and>
      index r' = index r \<and> leases r' = leases r \<and> rd_clock rd r' = rd_clock rd r"
    and hget_law: "rd_hget rd (job_key cfg i) f r = (Inr (hashes r i f), r)"
    and hgetall_law: "\<exists>d. rd_hgetall rd (job_key cfg i) r = (Inr d, r) \<and> map_of d = hashes r i"
    and hincrby_law: "hashes r i f = Some (HNum n) \<Longrightarrow>
      \<exists>r'. rd_hincrby rd (job_key cfg i) f k r = (Inr (), r') \<and> hashes r' = (hashes r)(i := (hashes r i)(f \<mapsto> HNum (n + k))) \<and>
        index r' = index r \<and> leases r' = leases r \<and> rd_clock rd r' = rd_clock rd r"
    and exists_job: "rd_exists rd (job_key cfg i) r = (Inr (hashes r i \<noteq> Map.empty), r)"
    and exists_lease: "rd_exists rd (lease_key cfg i) r =
      (Inr (case leases r i of None \<Rightarrow> False | Some t \<Rightarrow> rd_clock rd r < t), r)"
    and delete_lease: "\<exists>r'. rd_delete rd [lease_key cfg i] r = (Inr (), r') \<and> hashes r' = hashes r \<and> index r' = index r \<and>
      leases r' = (leases r)(i := None) \<and> rd_clock rd r' = rd_clock rd r"
    and zadd_law: "\<exists>r'. rd_zadd rd (queue_key cfg) i score r = (Inr (), r') \<and> hashes r' = hashes r \<and>
      index r' = (index r)(i \<mapsto> score) \<and> leases r' = leases r \<and> rd_clock rd r' = rd_clock rd r"
    and zrem_law: "\<exists>r'. rd_zrem rd (queue_key cfg) i r = (Inr (), r') \<and> hashes r' = hashes r \<and>
      index r' = (index r)(i := None) \<and> leases r' = leases r \<and> rd_clock rd r' = rd_clock rd r"
    and zrevrange_law: "0 \<le> n \<Longrightarrow> \<exists>ids. rd_zrevrange rd (queue_key cfg) 0 n r = (Inr ids, r) \<and> distinct ids \<and>
      set ids \<subseteq> dom (index r) \<and> int (length ids) \<le> n + 1 \<and> sorted_wrt (\<lambda>a b. the (index r b) \<le> the (index r a)) ids \<and>
      (\<forall>i s. index r i = Some s \<longrightarrow> i \<notin> set ids \<longrightarrow> int (length ids) = n + 1 \<and> (\<forall>k \<in> set ids. s \<le> the (index r k)))"
    and set_ex_law: "0 < secs \<Longrightarrow> \<exists>r'. rd_set_ex rd (lease_key cfg i) v secs r = (Inr (), r') \<and> hashes r' = hashes r \<and>
      index r' = index r \<and> leases r' = (leases r)(i \<mapsto> rd_clock rd r + secs * second) \<and> rd_clock rd r' = rd_clock rd r"
    and expire_law: "0 < secs \<Longrightarrow> \<exists>r'. rd_expire rd (lease_key cfg i) secs r = (Inr (), r') \<and> hashes r' = hashes r \<and>
      index r' = index r \<and> rd_clock rd r' = rd_clock rd r \<and>
      leases r' = (case leases r i of None \<Rightarrow> leases r
        | Some t \<Rightarrow> if rd_clock rd r < t then (leases r)(i \<mapsto> rd_clock rd r + secs * second) else leases r)"
    and scan_law: "\<exists>ks. rd_scan rd (rc_prefix cfg @ '':job:'') r = (Inr ks, r) \<and>
      set ks = job_key cfg ` {i. hashes r i \<noteq> Map.empty}"

subsection \<open>Invariant and view\<close>

definition hash_ok :: "string \<Rightarrow> hash_map \<Rightarrow> bool" where
  "hash_ok i h \<longleftrightarrow> (\<exists>j. hash_to_job h = Inr j \<and> job_id j = i) \<and> (\<exists>n. h ''attempt'' = Some (HNum n))"

definition redis_inv :: "('r \<Rightarrow> string \<Rightarrow> hash_map) \<Rightarrow> 'r \<Rightarrow> bool" where
  "redis_inv hashes r \<longleftrightarrow> (\<forall>i. hashes r i \<noteq> Map.empty \<longrightarrow> hash_ok i (hashes r i))"

definition redis_view :: "('r \<Rightarrow> string \<Rightarrow> hash_map) \<Rightarrow> 'r \<Rightarrow> string \<Rightarrow> job option" where
  "redis_view hashes r i =
     (if hashes r i = Map.empty then None else case hash_to_job (hashes r i) of Inl _ \<Rightarrow> None | Inr j \<Rightarrow> Some j)"

definition redis_stored :: "job \<Rightarrow> job" where
  "redis_stored j =
     j\<lparr>claimed_by := truthy_text (claimed_by j), next_run_at := None, last_error := truthy_val (last_error j),
       result_ref := result_read (result_ref j), progress := truthy_val (progress j), trace_id := truthy_text (trace_id j)\<rparr>"

lemma job_hash_nonempty: "hash_ok i h \<Longrightarrow> h \<noteq> Map.empty"
  by (auto simp: hash_ok_def)

text \<open>A write of fields other than the identifier and the attempts, on a hash that is a job.\<close>

lemma hash_ok_write:
  assumes "hash_ok i h" and "reads_ok h'" and "\<forall>k \<in> set submission_keys. h' k = h k" and "\<exists>n. h' ''attempt'' = Some (HNum n)"
    and "hash_to_job h = Inr j"
  shows "\<exists>j'. hash_to_job h' = Inr j' \<and> hash_ok i h' \<and> same_submission j j' \<and> claimed_by j' = get_text h' ''claimed_by'' \<and>
    (\<forall>s. h' ''status'' = Some (HText (status_value s)) \<longrightarrow> status j' = s) \<and>
    (h' ''status'' = h ''status'' \<longrightarrow> status j' = status j)"
proof -
  obtain j' where j': "hash_to_job h' = Inr j'" "same_submission j j'" "claimed_by j' = get_text h' ''claimed_by''"
      "and_then (hash_field h' ''status'') (\<lambda>v. job_status_of (hval_text v)) = Inr (status j')"
    using hash_write [OF assms(5,2,3)] by blast
  have "job_id j' = i" using assms(1,5) j'(2) by (auto simp: hash_ok_def same_submission_def)
  with j'(1) assms(4) have "hash_ok i h'" by (simp add: hash_ok_def)
  moreover have "status j' = s" if "h' ''status'' = Some (HText (status_value s))" for s
    using j'(4) that by (simp add: hash_field_def)
  moreover have "status j' = status j" if "h' ''status'' = h ''status''"
    using hash_status [OF assms(5)] hash_status [OF j'(1)] that by auto
  ultimately show ?thesis using j' by blast
qed

lemma reads_ok_of: "hash_to_job h = Inr j \<Longrightarrow> reads_ok h"
  using readable_job [of h] by (simp add: readable_def)

lemma loads_meta_field: "loads_meta (h ''meta'') = field_or loads_dict h ''meta'' []"
  by (simp add: loads_meta_def field_or_def hash_get_def split: option.split)

lemma loads_meta_ok: "reads_ok h \<Longrightarrow> \<exists>meta. loads_meta (h ''meta'') = Inr meta"
  unfolding loads_meta_field reads_ok_def readable_def by (elim conjE)

lemma map_filter_ids:
  assumes "distinct ids" and "\<And>i j. f i = Some j \<Longrightarrow> job_id j = i"
  shows "distinct (map job_id (List.map_filter f ids))"
proof -
  have "map job_id (List.map_filter f ids) = filter (\<lambda>i. f i \<noteq> None) ids"
    using assms(2) by (induction ids) (auto simp: List.map_filter_def)
  then show ?thesis using assms(1) by simp
qed

lemma distinct_take_filter: "distinct (map f xs) \<Longrightarrow> distinct (map f (take n (filter P xs)))"
  by (simp add: distinct_map_filter take_map [symmetric])

context redis_server
begin

abbreviation rinv :: "'r \<Rightarrow> bool" where "rinv \<equiv> redis_inv hashes"

abbreviation rview :: "'r \<Rightarrow> string \<Rightarrow> job option" where "rview \<equiv> redis_view hashes"

lemma view_hash:
  assumes "rinv r"
  shows "rview r i = Some j \<longleftrightarrow> hash_to_job (hashes r i) = Inr j \<and> hashes r i \<noteq> Map.empty"
    and "rview r i = None \<longleftrightarrow> hashes r i = Map.empty"
  using assms by (auto simp: redis_view_def redis_inv_def hash_ok_def split: sum.splits)

lemma inv_upd:
  assumes "rinv r" and "hashes r' = (hashes r)(i := h')" and "hash_ok i h'" and "hash_to_job h' = Inr j'"
  shows "rinv r'" "rview r' = (rview r)(i \<mapsto> j')"
proof -
  show "rinv r'" using assms by (simp add: redis_inv_def)
  have "rview r' k = ((rview r)(i \<mapsto> j')) k" for k
    using assms(2,4) job_hash_nonempty [OF assms(3)] by (simp add: redis_view_def)
  then show "rview r' = (rview r)(i \<mapsto> j')" by (rule ext)
qed

lemma inv_same: "rinv r \<Longrightarrow> hashes r' = hashes r \<Longrightarrow> rinv r' \<and> rview r' = rview r"
  by (simp add: redis_inv_def redis_view_def [abs_def] cong: if_cong)

lemma get_run: "rinv r \<Longrightarrow> redis_get rd cfg i r = (Inr (rview r i), r)"
proof -
  assume inv: "rinv r"
  obtain d where d: "rd_hgetall rd (job_key cfg i) r = (Inr d, r)" "map_of d = hashes r i"
    using hgetall_law by blast
  have "d = [] \<longleftrightarrow> hashes r i = Map.empty" using d(2) by (metis map_of_eq_empty_iff)
  then show ?thesis
    using d inv by (auto simp: redis_get_def bind_py_def ret_def lift_res_def raise_exn_def redis_view_def redis_inv_def hash_ok_def)
qed

lemma id_of: "rinv r \<Longrightarrow> rview r i = Some j \<Longrightarrow> job_id j = i"
  using view_hash(1) by (auto simp: redis_inv_def hash_ok_def)

text \<open>The effect of a partial \<open>HSET\<close> on a job that is there.\<close>

lemma write_run:
  assumes inv: "rinv r" and j: "rview r i = Some j"
    and ok: "reads_ok (hashes r i ++ map_of (rev kvs))"
    and keys: "set (map fst kvs) \<inter> set (''attempt'' # submission_keys) = {}"
  shows "\<exists>r' j'. rd_hset rd (job_key cfg i) kvs r = (Inr (), r') \<and> rinv r' \<and> rview r' = (rview r)(i \<mapsto> j') \<and>
    same_submission j j' \<and> claimed_by j' = get_text (hashes r i ++ map_of (rev kvs)) ''claimed_by'' \<and>
    (\<forall>s. (hashes r i ++ map_of (rev kvs)) ''status'' = Some (HText (status_value s)) \<longrightarrow> status j' = s) \<and>
    (''status'' \<notin> set (map fst kvs) \<longrightarrow> status j' = status j) \<and>
    hashes r' = (hashes r)(i := hashes r i ++ map_of (rev kvs)) \<and>
    index r' = index r \<and> leases r' = leases r \<and> rd_clock rd r' = rd_clock rd r"
proof -
  let ?h = "hashes r i ++ map_of (rev kvs)"
  have h: "hash_to_job (hashes r i) = Inr j" "hash_ok i (hashes r i)"
    using j inv view_hash(1) [OF inv] by (auto simp: redis_inv_def)
  have keep: "?h k = hashes r i k" if "k \<notin> set (map fst kvs)" for k
  proof -
    have "map_of (rev kvs) k = None" using that by (simp add: map_of_eq_None_iff)
    then show ?thesis by (simp add: map_add_def)
  qed
  have att: "\<exists>n. ?h ''attempt'' = Some (HNum n)" using h(2) keep [of "''attempt''"] keys by (auto simp: hash_ok_def)
  have same: "\<forall>k \<in> set submission_keys. ?h k = hashes r i k" using keep keys by auto
  obtain j' where j': "hash_to_job ?h = Inr j'" "hash_ok i ?h" "same_submission j j'"
      "claimed_by j' = get_text ?h ''claimed_by''" "\<forall>s. ?h ''status'' = Some (HText (status_value s)) \<longrightarrow> status j' = s"
      "?h ''status'' = hashes r i ''status'' \<longrightarrow> status j' = status j"
    using hash_ok_write [OF h(2) ok same att h(1)] by blast
  obtain r' where r': "rd_hset rd (job_key cfg i) kvs r = (Inr (), r')" "hashes r' = (hashes r)(i := ?h)"
      "index r' = index r" "leases r' = leases r" "rd_clock rd r' = rd_clock rd r"
    using hset_law by blast
  have st: "''status'' \<notin> set (map fst kvs) \<longrightarrow> status j' = status j" using j'(6) keep [of "''status''"] by blast
  show ?thesis
    using inv_upd [OF inv r'(2) j'(2,1)] j'(3-5) r' st by (intro exI [of _ r'] exI [of _ j'] conjI)
qed

subsection \<open>The methods\<close>

lemma add_run:
  "\<exists>r'. redis_add rd cfg i prio r = (Inr (), r') \<and> hashes r' = hashes r \<and> leases r' = leases r \<and>
     index r' = (index r)(i \<mapsto> redis_score prio (rd_clock rd r)) \<and> rd_clock rd r' = rd_clock rd r"
  unfolding redis_add_def using zadd_law by blast

lemma enqueue_hash:
  assumes inv: "rinv r" and h: "job_to_hash j = Inr h"
  shows "\<exists>r'. redis_enqueue rd cfg j r = (Inr (job_id j), r') \<and> rinv r' \<and> rview r' = (rview r)(job_id j \<mapsto> redis_stored j) \<and>
    index r' = (index r)(job_id j \<mapsto> redis_score (priority j) (rd_clock rd r))"
proof -
  let ?h = "hashes r (job_id j) ++ map_of (rev h)"
  have "map_of (rev h) = map_of h" using job_to_hash_keys(2) [OF h] by (simp add: map_of_inject_set rev_map [symmetric])
  then have keys: "\<forall>k \<in> set hash_keys. ?h k = map_of h k"
    using job_to_hash_keys(1) [OF h] by (metis map_add_dom_app_simps(1) dom_map_of_conv_image_fst set_map)
  then have dec: "hash_to_job ?h = Inr (redis_stored j)"
    using hash_to_job_cong [OF keys] hash_roundtrip [OF h] by (simp add: redis_stored_def)
  have "?h ''attempt'' = Some (HNum (attempt j))"
    using keys job_to_hash_keys(3) [OF h] by (simp add: hash_keys_def)
  with dec have ok: "hash_ok (job_id j) ?h" by (simp add: hash_ok_def redis_stored_def)
  obtain r1 where r1: "rd_hset rd (job_key cfg (job_id j)) h r = (Inr (), r1)" "hashes r1 = (hashes r)(job_id j := ?h)"
      "index r1 = index r" "rd_clock rd r1 = rd_clock rd r"
    using hset_law by blast
  obtain r2 where r2: "redis_add rd cfg (job_id j) (priority j) r1 = (Inr (), r2)" "hashes r2 = hashes r1"
      "index r2 = (index r1)(job_id j \<mapsto> redis_score (priority j) (rd_clock rd r1))"
    using add_run by blast
  have "redis_enqueue rd cfg j r = (Inr (job_id j), r2)"
    using r1(1) r2(1) h by (simp add: redis_enqueue_def lift_res_def bind_py_def seq_py_def ret_def)
  moreover have "rinv r2" "rview r2 = (rview r)(job_id j \<mapsto> redis_stored j)"
    using inv_upd [OF inv r1(2) ok dec] inv_same [OF _ r2(2)] by simp_all
  ultimately show ?thesis using r1 r2 by auto
qed

lemma enqueue_frame_run:
  assumes "rinv r" and "redis_enqueue rd cfg j r = (res, r')"
  shows "rinv r' \<and> (\<forall>i. i \<noteq> job_id j \<longrightarrow> rview r' i = rview r i)"
proof (cases "job_to_hash j")
  case (Inl e)
  with assms show ?thesis by (auto simp: redis_enqueue_def lift_res_def bind_py_def raise_exn_def)
next
  case (Inr h)
  with enqueue_hash [OF assms(1)] assms(2) show ?thesis by fastforce
qed

lemma claim_run:
  assumes inv: "rinv r" and j: "rview r i = Some j" and q: "status j = QUEUED"
  shows "\<exists>r' j'. redis_claim rd cfg now i host worker r = (Inr True, r') \<and> rinv r' \<and> rview r' = (rview r)(i \<mapsto> j') \<and>
    same_submission j j' \<and> status j' = RUNNING \<and> claimed_by j' = Some (host @ '':'' @ worker) \<and>
    index r' = (index r)(i := None) \<and> leases r' = (leases r)(i \<mapsto> rd_clock rd r + rc_lease_timeout cfg * second)"
proof -
  have h: "hash_to_job (hashes r i) = Inr j" using view_hash(1) [OF inv] j by simp
  obtain meta where meta: "loads_meta (hashes r i ''meta'') = Inr meta" using loads_meta_ok [OF reads_ok_of [OF h]] by blast
  define m where "m = dict_set (dict_set meta ''host_id'' (PStr host)) ''worker_id'' (PStr worker)"
  let ?kvs = "[(''status'', HText (status_value RUNNING)), (''claimed_by'', HText (host @ '':'' @ worker)), (''meta'', HJson (PDict m)),
      (''updated_at'', HIso now), (''started_at'', HIso now), (''last_heartbeat_at'', HIso now)]"
  have keys: "set (map fst ?kvs) \<inter> set (''attempt'' # submission_keys) = {}" by (simp add: submission_keys_def)
  obtain r1 j' where r1: "rd_hset rd (job_key cfg i) ?kvs r = (Inr (), r1)" "rinv r1" "rview r1 = (rview r)(i \<mapsto> j')"
      "same_submission j j'" "claimed_by j' = get_text (hashes r i ++ map_of (rev ?kvs)) ''claimed_by''"
      "\<forall>s. (hashes r i ++ map_of (rev ?kvs)) ''status'' = Some (HText (status_value s)) \<longrightarrow> status j' = s"
      "index r1 = index r" "leases r1 = leases r" "rd_clock rd r1 = rd_clock rd r"
    using write_run [OF inv j claim_writes [OF reads_ok_of [OF h]] keys] by (elim exE conjE) (rule that, assumption+)
  obtain r2 where r2: "rd_zrem rd (queue_key cfg) i r1 = (Inr (), r2)" "hashes r2 = hashes r1" "index r2 = (index r1)(i := None)"
      "leases r2 = leases r1" "rd_clock rd r2 = rd_clock rd r1"
    using zrem_law by blast
  obtain r3 where r3: "rd_set_ex rd (lease_key cfg i) (host @ '':'' @ worker) (rc_lease_timeout cfg) r2 = (Inr (), r3)"
      "hashes r3 = hashes r2" "index r3 = index r2" "leases r3 = (leases r2)(i \<mapsto> rd_clock rd r2 + rc_lease_timeout cfg * second)"
    using set_ex_law [OF timeout_pos] by blast
  have "is_text (hashes r i ''status'') (status_value QUEUED)" using hash_status [OF h] q by (auto simp: is_text_def)
  then have "redis_claim rd cfg now i host worker r = (Inr True, r3)"
    using r1(1) r2(1) r3(1) hget_law meta
    by (simp add: redis_claim_def claim_script_def except_redis_def try_except_def lift_res_def bind_py_def seq_py_def ret_def
        Let_def m_def del: status_value.simps)
  moreover have "status j' = RUNNING" using r1(6) by (simp del: status_value.simps)
  moreover have "claimed_by j' = Some (host @ '':'' @ worker)" using r1(5) by simp
  moreover have "rinv r3 \<and> rview r3 = rview r1" using inv_same [OF r1(2), of r3] r2(2) r3(2) by simp
  ultimately show ?thesis using r1 r2 r3 by (intro exI [of _ r3] exI [of _ j']) simp
qed

lemma claim_lost_run:
  assumes inv: "rinv r" and q: "\<And>j. rview r i = Some j \<Longrightarrow> status j \<noteq> QUEUED"
  shows "redis_claim rd cfg now i host worker r = (Inr False, r)"
proof -
  obtain meta where meta: "loads_meta (hashes r i ''meta'') = Inr meta" "\<not> is_text (hashes r i ''status'') (status_value QUEUED)"
  proof (cases "rview r i")
    case None
    then have "hashes r i = Map.empty" using view_hash(2) [OF inv] by simp
    then show ?thesis using that [of "[]"] by (simp add: loads_meta_def is_text_def)
  next
    case (Some j)
    then have h: "hash_to_job (hashes r i) = Inr j" using view_hash(1) [OF inv] by simp
    have "\<not> is_text (hashes r i ''status'') (status_value QUEUED)"
      using hash_status [OF h] q [OF Some] by (auto simp: is_text_def simp del: status_value.simps)
    moreover obtain meta where "loads_meta (hashes r i ''meta'') = Inr meta" using loads_meta_ok [OF reads_ok_of [OF h]] by blast
    ultimately show ?thesis using that by blast
  qed
  then show ?thesis
    by (simp add: hget_law redis_claim_def claim_script_def except_redis_def try_except_def lift_res_def bind_py_def seq_py_def ret_def
        Let_def del: status_value.simps)
qed

text \<open>A bookkeeping write: the job stays in its status, and so do the queue and the leases.\<close>

lemma note_run:
  assumes inv: "rinv r" and j: "rview r i = Some j" and ok: "reads_ok (hashes r i ++ map_of (rev kvs))"
    and keys: "set (map fst kvs) \<inter> set (''status'' # ''attempt'' # submission_keys) = {}"
  shows "\<exists>r'. rd_hset rd (job_key cfg i) kvs r = (Inr (), r') \<and> rinv r' \<and> touched (rview r) (rview r') \<and>
    index r' = index r \<and> leases r' = leases r \<and> rd_clock rd r' = rd_clock rd r"
proof -
  have k: "set (map fst kvs) \<inter> set (''attempt'' # submission_keys) = {}" "''status'' \<notin> set (map fst kvs)" using keys by auto
  obtain r' j' where w: "rd_hset rd (job_key cfg i) kvs r = (Inr (), r')" "rinv r'" "rview r' = (rview r)(i \<mapsto> j')"
      "same_submission j j'" "''status'' \<notin> set (map fst kvs) \<longrightarrow> status j' = status j"
      "index r' = index r" "leases r' = leases r" "rd_clock rd r' = rd_clock rd r"
    using write_run [OF inv j ok k(1)] by (elim exE conjE) (rule that, assumption+)
  have "touched (rview r) (rview r')" using touched_upd [of "rview r" i j j'] j w(3-5) k(2) by simp
  with w show ?thesis by (intro exI [of _ r'] conjI)
qed

lemma exists_run: "rinv r \<Longrightarrow> rd_exists rd (job_key cfg i) r = (Inr (rview r i \<noteq> None), r)"
  using exists_job view_hash(2) by auto

lemma reads_view: "rinv r \<Longrightarrow> rview r i = Some j \<Longrightarrow> reads_ok (hashes r i)"
  using reads_ok_of view_hash(1) by blast

lemma heartbeat_run:
  assumes inv: "rinv r"
  shows "\<exists>ok r'. redis_heartbeat rd cfg now i r = (Inr ok, r') \<and> rinv r' \<and> touched (rview r) (rview r') \<and>
    index r' = index r \<and> rd_clock rd r' = rd_clock rd r \<and> (ok \<longleftrightarrow> (\<exists>j. rview r i = Some j \<and> status j = RUNNING)) \<and>
    leases r' = (if ok \<and> (\<exists>t. leases r i = Some t \<and> rd_clock rd r < t)
      then (leases r)(i \<mapsto> rd_clock rd r + rc_lease_timeout cfg * second) else leases r)"
proof (cases "\<exists>j. rview r i = Some j \<and> status j = RUNNING")
  case True
  then obtain j where j: "rview r i = Some j" "status j = RUNNING" by blast
  then have "hash_to_job (hashes r i) = Inr j" using view_hash(1) [OF inv] by simp
  then have st: "is_text (hashes r i ''status'') (status_value RUNNING)" using hash_status j(2) by (fastforce simp: is_text_def)
  let ?kvs = "[(''updated_at'', HIso now), (''last_heartbeat_at'', HIso now)]"
  have k: "set (map fst ?kvs) \<inter> set (''status'' # ''attempt'' # submission_keys) = {}" by (simp add: submission_keys_def)
  obtain r1 where r1: "rd_hset rd (job_key cfg i) ?kvs r = (Inr (), r1)" "rinv r1" "touched (rview r) (rview r1)"
      "index r1 = index r" "leases r1 = leases r" "rd_clock rd r1 = rd_clock rd r"
    using note_run [OF inv j(1) note_writes(1) [OF reads_view [OF inv j(1)]] k] by (elim exE conjE) (rule that, assumption+)
  obtain r2 where r2: "rd_expire rd (lease_key cfg i) (rc_lease_timeout cfg) r1 = (Inr (), r2)" "hashes r2 = hashes r1"
      "index r2 = index r1" "rd_clock rd r2 = rd_clock rd r1"
      "leases r2 = (case leases r1 i of None \<Rightarrow> leases r1
        | Some t \<Rightarrow> if rd_clock rd r1 < t then (leases r1)(i \<mapsto> rd_clock rd r1 + rc_lease_timeout cfg * second) else leases r1)"
    using expire_law [OF timeout_pos, of i r1] by (elim exE conjE) (rule that, assumption+)
  have "redis_heartbeat rd cfg now i r = (Inr True, r2)"
    using r1(1) r2(1) st hget_law
    by (simp add: redis_heartbeat_def heartbeat_script_def except_redis_def try_except_def bind_py_def seq_py_def ret_def
        del: status_value.simps)
  moreover have "rinv r2 \<and> rview r2 = rview r1" using inv_same [OF r1(2), of r2] r2(2) by simp
  moreover have "leases r2 = (if True \<and> (\<exists>t. leases r i = Some t \<and> rd_clock rd r < t)
      then (leases r)(i \<mapsto> rd_clock rd r + rc_lease_timeout cfg * second) else leases r)"
    using r2(5) r1(5,6) by (simp split: option.splits)
  ultimately show ?thesis using r1(3-6) r2(3,4) True by (intro exI [of _ True] exI [of _ r2]) simp
next
  case False
  have "\<not> is_text (hashes r i ''status'') (status_value RUNNING)"
  proof (cases "rview r i")
    case None
    then show ?thesis using view_hash(2) [OF inv] by (simp add: is_text_def)
  next
    case (Some j)
    with False have "status j \<noteq> RUNNING" "hash_to_job (hashes r i) = Inr j" using view_hash(1) [OF inv] by auto
    then show ?thesis using hash_status by (fastforce simp: is_text_def simp del: status_value.simps)
  qed
  then have "redis_heartbeat rd cfg now i r = (Inr False, r)"
    using hget_law
    by (simp add: redis_heartbeat_def heartbeat_script_def except_redis_def try_except_def bind_py_def seq_py_def ret_def
        del: status_value.simps)
  with False inv show ?thesis by (intro exI [of _ False] exI [of _ r]) auto
qed

lemma status_run:
  assumes inv: "rinv r" and j: "rview r i = Some j"
  shows "\<exists>r' j'. redis_update_status rd cfg now i (status_value s) r = (Inr True, r') \<and> rinv r' \<and>
    rview r' = (rview r)(i \<mapsto> j') \<and> same_submission j j' \<and> status j' = s \<and>
    index r' = (if s = QUEUED then index r else (index r)(i := None)) \<and>
    leases r' = (if status_value s \<in> set redis_terminal then (leases r)(i := None) else leases r)"
proof -
  let ?fin = "status_value s \<in> set redis_terminal"
  let ?kvs = "[(''status'', HText (status_value s)), (''updated_at'', HIso now)] @ (if ?fin then [(''finished_at'', HIso now)] else [])"
  have k: "set (map fst ?kvs) \<inter> set (''attempt'' # submission_keys) = {}" by (cases ?fin) (simp_all add: submission_keys_def)
  obtain r1 j' where r1: "rd_hset rd (job_key cfg i) ?kvs r = (Inr (), r1)" "rinv r1" "rview r1 = (rview r)(i \<mapsto> j')"
      "same_submission j j'" "\<forall>s'. (hashes r i ++ map_of (rev ?kvs)) ''status'' = Some (HText (status_value s')) \<longrightarrow> status j' = s'"
      "index r1 = index r" "leases r1 = leases r"
    using write_run [OF inv j status_writes(2) [OF reads_view [OF inv j]] k] by (elim exE conjE) (rule that, assumption+)
  obtain r2 where r2: "(if status_value s \<noteq> status_value QUEUED then rd_zrem rd (queue_key cfg) i else ret ()) r1 = (Inr (), r2)"
      "hashes r2 = hashes r1" "index r2 = (if s = QUEUED then index r1 else (index r1)(i := None))" "leases r2 = leases r1"
    using zrem_law [of i r1] by (cases "s = QUEUED") (auto simp: ret_def simp del: status_value.simps)
  obtain r3 where r3: "(if ?fin then rd_delete rd [lease_key cfg i] else ret ()) r2 = (Inr (), r3)"
      "hashes r3 = hashes r2" "index r3 = index r2" "leases r3 = (if ?fin then (leases r2)(i := None) else leases r2)"
    using delete_lease [of i r2] by (cases ?fin) (auto simp: ret_def)
  have "redis_update_status rd cfg now i (status_value s) r = (Inr True, r3)"
    using exists_run [OF inv, of i] j r1(1) r2(1) r3(1) unfolding redis_update_status_def bind_py_def seq_py_def
    by (simp add: ret_def)
  moreover have "status j' = s" using r1(5) by (cases ?fin) simp_all
  moreover have "rinv r3 \<and> rview r3 = rview r1" using inv_same [OF r1(2), of r3] r2(2) r3(2) by simp
  ultimately show ?thesis using r1 r2 r3 by (intro exI [of _ r3] exI [of _ j']) simp
qed

lemma release_run:
  assumes inv: "rinv r" and j: "rview r i = Some j"
  shows "\<exists>r' j'. redis_release rd cfg now i r = (Inr True, r') \<and> rinv r' \<and> rview r' = (rview r)(i \<mapsto> j') \<and>
    same_submission j j' \<and> status j' = QUEUED \<and> claimed_by j' = None \<and>
    index r' = (index r)(i \<mapsto> redis_score (priority j) (rd_clock rd r)) \<and> leases r' = (leases r)(i := None) \<and>
    rd_clock rd r' = rd_clock rd r"
proof -
  let ?kvs = "[(''status'', HText (status_value QUEUED)), (''claimed_by'', HText []), (''updated_at'', HIso now)]"
  have k: "set (map fst ?kvs) \<inter> set (''attempt'' # submission_keys) = {}" by (simp add: submission_keys_def)
  obtain r1 j' where r1: "rd_hset rd (job_key cfg i) ?kvs r = (Inr (), r1)" "rinv r1" "rview r1 = (rview r)(i \<mapsto> j')"
      "same_submission j j'" "claimed_by j' = get_text (hashes r i ++ map_of (rev ?kvs)) ''claimed_by''"
      "\<forall>s. (hashes r i ++ map_of (rev ?kvs)) ''status'' = Some (HText (status_value s)) \<longrightarrow> status j' = s"
      "index r1 = index r" "leases r1 = leases r" "rd_clock rd r1 = rd_clock rd r"
    using write_run [OF inv j status_writes(1) [OF reads_view [OF inv j]] k] by (elim exE conjE) (rule that, assumption+)
  obtain r2 where r2: "redis_add rd cfg i (priority j) r1 = (Inr (), r2)" "hashes r2 = hashes r1" "leases r2 = leases r1"
      "index r2 = (index r1)(i \<mapsto> redis_score (priority j) (rd_clock rd r1))" "rd_clock rd r2 = rd_clock rd r1"
    using add_run by blast
  obtain r3 where r3: "rd_delete rd [lease_key cfg i] r2 = (Inr (), r3)" "hashes r3 = hashes r2" "index r3 = index r2"
      "leases r3 = (leases r2)(i := None)" "rd_clock rd r3 = rd_clock rd r2"
    using delete_lease by blast
  have "redis_release rd cfg now i r = (Inr True, r3)"
    using get_run [OF inv, of i] j r1(1) r2(1) r3(1) by (simp add: redis_release_def bind_py_def seq_py_def ret_def)
  moreover have "status j' = QUEUED" using r1(6) by (simp del: status_value.simps)
  moreover have "claimed_by j' = None" using r1(5) by simp
  moreover have "rinv r3 \<and> rview r3 = rview r1" using inv_same [OF r1(2), of r3] r2(2) r3(2) by simp
  ultimately show ?thesis using r1 r2 r3 by (intro exI [of _ r3] exI [of _ j']) simp
qed

lemma attempt_run:
  assumes inv: "rinv r"
  shows "\<exists>ok r'. redis_record_attempt rd cfg now i err r = (Inr ok, r') \<and> rinv r' \<and> touched (rview r) (rview r')"
proof (cases "rview r i")
  case None
  then have "redis_record_attempt rd cfg now i err r = (Inr False, r)"
    using exists_run [OF inv, of i] by (simp add: redis_record_attempt_def bind_py_def ret_def)
  then show ?thesis using inv by auto
next
  case (Some j)
  have h: "hash_to_job (hashes r i) = Inr j" "hash_ok i (hashes r i)" using Some inv view_hash(1) [OF inv] by (auto simp: redis_inv_def)
  then obtain n where n: "hashes r i ''attempt'' = Some (HNum n)" by (auto simp: hash_ok_def)
  let ?h = "(hashes r i)(''attempt'' \<mapsto> HNum (n + 1))"
  have same: "\<forall>k \<in> set submission_keys. ?h k = hashes r i k" by (simp add: submission_keys_def)
  have att: "\<exists>m. ?h ''attempt'' = Some (HNum m)" by simp
  obtain j1 where j1: "hash_to_job ?h = Inr j1" "hash_ok i ?h" "same_submission j j1"
      "?h ''status'' = hashes r i ''status'' \<longrightarrow> status j1 = status j"
    using hash_ok_write [OF h(2) note_writes(5) [OF reads_ok_of [OF h(1)]] same att h(1)] by blast
  obtain r1 where r1: "rd_hincrby rd (job_key cfg i) ''attempt'' 1 r = (Inr (), r1)" "hashes r1 = (hashes r)(i := ?h)"
    using hincrby_law [OF n, of 1] by blast
  have v1: "rinv r1" "rview r1 = (rview r)(i \<mapsto> j1)" using inv_upd [OF inv r1(2) j1(2,1)] by simp_all
  then have j1v: "rview r1 i = Some j1" by simp
  let ?kvs = "(''updated_at'', HIso now) # (case err of None \<Rightarrow> [] | Some e \<Rightarrow> [(''last_error'', HJson (PDict [(''message'', PStr e)]))])"
  have k: "set (map fst ?kvs) \<inter> set (''status'' # ''attempt'' # submission_keys) = {}"
    by (cases err) (simp_all add: submission_keys_def)
  obtain r2 where r2: "rd_hset rd (job_key cfg i) ?kvs r1 = (Inr (), r2)" "rinv r2" "touched (rview r1) (rview r2)"
    using note_run [OF v1(1) j1v note_writes(4) [OF reads_view [OF v1(1) j1v]] k] by (elim exE conjE) (rule that, assumption+)
  have "redis_record_attempt rd cfg now i err r = (Inr True, r2)"
    using exists_run [OF inv, of i] Some r1(1) r2(1) by (simp add: redis_record_attempt_def bind_py_def seq_py_def ret_def)
  moreover have "touched (rview r) (rview r1)" using touched_upd [of "rview r" i j j1] Some j1(3,4) v1(2) by simp
  ultimately show ?thesis using r2(2,3) touched_trans by blast
qed

lemma progress_run:
  assumes inv: "rinv r"
  shows "\<exists>ok r'. redis_update_progress rd cfg now i p r = (Inr ok, r') \<and> rinv r' \<and> touched (rview r) (rview r')"
proof (cases "rview r i")
  case None
  then have "redis_update_progress rd cfg now i p r = (Inr False, r)"
    using exists_run [OF inv, of i] by (simp add: redis_update_progress_def bind_py_def ret_def)
  then show ?thesis using inv by auto
next
  case (Some j)
  let ?kvs = "[(''progress'', HJson (PDict p)), (''updated_at'', HIso now)]"
  have k: "set (map fst ?kvs) \<inter> set (''status'' # ''attempt'' # submission_keys) = {}" by (simp add: submission_keys_def)
  obtain r1 where r1: "rd_hset rd (job_key cfg i) ?kvs r = (Inr (), r1)" "rinv r1" "touched (rview r) (rview r1)"
    using note_run [OF inv Some note_writes(2) [OF reads_view [OF inv Some]] k] by (elim exE conjE) (rule that, assumption+)
  then have "redis_update_progress rd cfg now i p r = (Inr True, r1)"
    using exists_run [OF inv, of i] Some by (simp add: redis_update_progress_def bind_py_def seq_py_def ret_def)
  with r1 show ?thesis by blast
qed

lemma result_run:
  assumes inv: "rinv r"
  shows "\<exists>res r'. redis_store_result rd cfg now i v r = (res, r') \<and> rinv r' \<and> touched (rview r) (rview r') \<and>
    (case stored_result v of Inl e \<Rightarrow> r' = r | Inr _ \<Rightarrow> res = Inr (rview r i \<noteq> None))"
proof (cases "rview r i")
  case None
  then have "redis_store_result rd cfg now i v r = (Inr False, r)"
    using exists_run [OF inv, of i] by (simp add: redis_store_result_def bind_py_def ret_def)
  then show ?thesis using inv None by (auto split: sum.splits)
next
  case (Some j)
  note there = exists_run [OF inv, of i] Some
  show ?thesis
  proof (cases "stored_result v")
    case (Inl e)
    then have "redis_store_result rd cfg now i v r = (Inl e, r)"
      using there by (simp add: redis_store_result_def bind_py_def ret_def lift_res_def raise_exn_def)
    then show ?thesis using inv Inl by auto
  next
    case (Inr h)
    let ?kvs = "[(''result_ref'', h), (''updated_at'', HIso now)]"
    have k: "set (map fst ?kvs) \<inter> set (''status'' # ''attempt'' # submission_keys) = {}" by (simp add: submission_keys_def)
    obtain r1 where r1: "rd_hset rd (job_key cfg i) ?kvs r = (Inr (), r1)" "rinv r1" "touched (rview r) (rview r1)"
      using note_run [OF inv Some note_writes(3) [OF reads_view [OF inv Some]] k] by (elim exE conjE) (rule that, assumption+)
    then have "redis_store_result rd cfg now i v r = (Inr True, r1)"
      using there Inr by (simp add: redis_store_result_def bind_py_def seq_py_def ret_def lift_res_def)
    then show ?thesis using r1 Some Inr by auto
  qed
qed

lemma pick_run:
  assumes inv: "rinv r"
  shows "redis_pick rd cfg n jt qn ids acc r =
    (Inr (acc @ take (nat (n - int (length acc)))
       (filter (dispatchable jt qn) (List.map_filter (rview r) ids))), r)"
proof (induction ids arbitrary: acc)
  case Nil
  then show ?case by (simp add: ret_def List.map_filter_def)
next
  case (Cons i ids)
  show ?case
  proof (cases "n \<le> int (length acc)")
    case True
    then show ?thesis by (simp add: ret_def)
  next
    case False
    then have step: "nat (n - int (length acc)) = Suc (nat (n - int (length acc + 1)))" by simp
    have cond: "(status j = QUEUED \<and> (jt = None \<or> Some (job_type j) = jt) \<and> (qn = None \<or> Some (queue_name j) = qn))
        \<longleftrightarrow> dispatchable jt qn j" for j
      by (auto simp: dispatchable_def passes_def split: option.split)
    show ?thesis
      using False step by (simp add: bind_py_def get_run [OF inv] cond Cons.IH List.map_filter_def split: option.split)
  qed
qed

lemma dequeue_run:
  assumes inv: "rinv r" and n: "0 \<le> n"
  shows "\<exists>ids. rd_zrevrange rd (queue_key cfg) 0 (max 0 (n * 3 - 1)) r = (Inr ids, r) \<and> distinct ids \<and>
    set ids \<subseteq> dom (index r) \<and>
    redis_dequeue rd cfg n jt qn r =
      (Inr (take (nat n) (filter (dispatchable jt qn) (List.map_filter (rview r) ids))), r)"
proof -
  obtain ids where ids: "rd_zrevrange rd (queue_key cfg) 0 (max 0 (n * 3 - 1)) r = (Inr ids, r)" "distinct ids" "set ids \<subseteq> dom (index r)"
    using zrevrange_law [of "max 0 (n * 3 - 1)" r] by auto
  then show ?thesis
    by (auto simp: redis_dequeue_def bind_py_def pick_run [OF inv])
qed

end

sublocale redis_server \<subseteq> redisb: queue_backend "redis_backend rd cfg" "redis_inv hashes" "redis_view hashes" redis_stored
proof (unfold_locales, goal_cases)
  case (1 b jid)
  then show ?case by (simp add: redis_backend_def get_run)
next
  case (2 b jid j)
  then show ?case by (rule id_of)
next
  case (3 b j)
  obtain h where "job_to_hash j = Inr h" using job_to_hash_no_result [OF 3(3)] by blast
  with enqueue_hash [OF 3(1)] show ?case by (auto simp: redis_backend_def)
next
  case (4 b j r b')
  then show ?case using enqueue_frame_run by (simp add: redis_backend_def)
next
  case (5 j)
  then show ?case by (simp add: redis_stored_def)
next
  case (6 b n jt qn)
  then obtain ids where ids: "distinct ids" "redis_dequeue rd cfg n jt qn b =
      (Inr (take (nat n) (filter (dispatchable jt qn) (List.map_filter (rview b) ids))), b)"
    using dequeue_run [of b n jt qn] by blast
  let ?js = "take (nat n) (filter (dispatchable jt qn) (List.map_filter (rview b) ids))"
  have "int (length ?js) \<le> n" using 6(2) by simp
  moreover have "distinct (map job_id ?js)"
    using map_filter_ids [OF ids(1), of "rview b"] id_of [OF 6(1)] by (simp add: distinct_take_filter)
  moreover have "\<forall>j \<in> set ?js. rview b (job_id j) = Some j \<and> dispatchable jt qn j"
  proof
    fix j assume "j \<in> set ?js"
    then have "j \<in> set (filter (dispatchable jt qn) (List.map_filter (rview b) ids))" by (rule in_set_takeD)
    then obtain i where "dispatchable jt qn j" "rview b i = Some j" by (auto simp: List.map_filter_def)
    moreover from this have "job_id j = i" using id_of [OF 6(1)] by simp
    ultimately show "rview b (job_id j) = Some j \<and> dispatchable jt qn j" by simp
  qed
  moreover have "be_dequeue (redis_backend rd cfg) n jt qn b = (Inr ?js, b)" using ids(2) by (simp add: redis_backend_def)
  ultimately show ?case by (intro exI [of _ ?js] conjI)
next
  case (7 b jid j now h w)
  then show ?case using claim_run [of b jid j now h w] by (simp add: redis_backend_def) blast
next
  case (8 b jid now h w)
  then show ?case by (simp add: redis_backend_def claim_lost_run)
next
  case (9 b jid j now s)
  then show ?case using status_run [of b jid j now s] by (simp add: redis_backend_def) blast
next
  case (10 b jid now s)
  then show ?case using exists_run [of b jid] by (simp add: redis_backend_def redis_update_status_def bind_py_def ret_def)
next
  case (11 b jid j now)
  then show ?case using release_run [of b jid j now] by (simp add: redis_backend_def) blast
next
  case (12 b jid now)
  then show ?case using get_run [of b jid] by (simp add: redis_backend_def redis_release_def bind_py_def ret_def)
next
  case (13 b now jid)
  then show ?case using heartbeat_run [of b now jid] by (simp add: redis_backend_def) blast
next
  case (14 b now jid err)
  then show ?case using attempt_run [of b now jid err] by (simp add: redis_backend_def)
next
  case (15 b now jid p)
  then show ?case using progress_run [of b now jid p] by (simp add: redis_backend_def)
next
  case (16 b now jid res)
  then show ?case using result_run [of b now jid res] by (simp add: redis_backend_def) blast
next
  case (17 b j j')
  then show ?case by (simp add: redis_backend_def)
next
  case (18 b jid j f)
  then show ?case by (simp add: redis_backend_def)
next
  case (19 b j)
  then show ?case by (simp add: redis_backend_def)
qed

end
