(* ===== verification/Redis_Lease.thy ===== *)
theory Redis_Lease
  imports Redis_Backend "HOL-Library.Sublist"
begin

section \<open>The Redis backend: leases, listing and a server\<close>

text \<open>
  The lease reaper and the listing, whose identifiers are cut out of the scanned keys, and a server of
  association lists that meets \<open>redis_server\<close>. A pass of the reaper is several commands; it is followed here
  without other clients in between, except that \<open>SCAN\<close> may report a key more than once.
\<close>

subsection \<open>Identifiers in keys\<close>

definition plain_id :: "string \<Rightarrow> bool" where
  "plain_id i \<longleftrightarrow> CHR '':'' \<notin> set i"

lemma last_part_plain: "plain_id i \<Longrightarrow> last_part (job_key cfg i) = i"
proof -
  assume "plain_id i"
  then have "takeWhile (\<lambda>c. c \<noteq> CHR '':'') (rev i @ CHR '':'' # xs) = rev i" for xs
    by (subst takeWhile_append2) (auto simp: plain_id_def)
  then show ?thesis by (simp add: last_part_def job_key_def)
qed

lemma job_key_inject [simp]: "job_key cfg i = job_key cfg k \<longleftrightarrow> i = k"
  by (simp add: job_key_def)

lemma lease_key_inject [simp]: "lease_key cfg i = lease_key cfg k \<longleftrightarrow> i = k"
  by (simp add: lease_key_def)

lemma keys_apart [simp]:
  "job_key cfg i \<noteq> lease_key cfg k" "lease_key cfg k \<noteq> job_key cfg i" "queue_key cfg \<noteq> job_key cfg i"
  "queue_key cfg \<noteq> lease_key cfg i" "job_key cfg i \<noteq> queue_key cfg" "lease_key cfg i \<noteq> queue_key cfg"
  by (simp_all add: job_key_def lease_key_def queue_key_def)

lemma set_map_filter_ran: "set xs = dom m \<Longrightarrow> set (List.map_filter m xs) = ran m"
  by (force simp: List.map_filter_def ran_def)

subsection \<open>The reaper\<close>

text \<open>A running job whose lease has ended.\<close>

definition lapsed :: "(string \<rightharpoonup> job) \<Rightarrow> (string \<rightharpoonup> time) \<Rightarrow> time \<Rightarrow> string \<Rightarrow> bool" where
  "lapsed view ls now i \<longleftrightarrow>
     (\<exists>j. view i = Some j \<and> status j = RUNNING) \<and> \<not> (\<exists>t. ls i = Some t \<and> now < t)"

text \<open>The job \<open>i\<close> of the first view has been handed back in the second: queued again, without a claimant.\<close>

definition handed_back :: "(string \<rightharpoonup> job) \<Rightarrow> (string \<rightharpoonup> job) \<Rightarrow> string \<Rightarrow> bool" where
  "handed_back view view' i \<longleftrightarrow>
     (\<exists>j j'. view i = Some j \<and> view' i = Some j' \<and> same_submission j j' \<and> status j' = QUEUED \<and> claimed_by j' = None)"

context redis_server
begin

lemma status_text: "rinv r \<Longrightarrow> is_text (hashes r i ''status'') (status_value s) \<longleftrightarrow> (\<exists>j. rview r i = Some j \<and> status j = s)"
proof (cases "rview r i")
  case None
  moreover assume "rinv r"
  ultimately show ?thesis using view_hash(2) [of r i] by (simp add: is_text_def)
next
  case (Some j)
  moreover assume "rinv r"
  ultimately have "hash_to_job (hashes r i) = Inr j" using view_hash(1) by blast
  then show ?thesis using hash_status Some by (fastforce simp: is_text_def simp del: status_value.simps)
qed

lemma reap_key_kept:
  assumes "rinv r" and "plain_id i" and "\<not> lapsed (rview r) (leases r) (rd_clock rd r) i"
  shows "reap_key rd cfg clk (job_key cfg i) acc r = (Inr acc, r)"
  using assms hget_law exists_lease status_text [OF assms(1), of i RUNNING]
  by (auto simp: reap_key_def last_part_plain bind_py_def ret_def lapsed_def Let_def simp del: status_value.simps split: option.splits)

lemma reap_key_lapsed:
  assumes inv: "rinv r" and "plain_id i" and l: "lapsed (rview r) (leases r) (rd_clock rd r) i"
  shows "\<exists>r'. reap_key rd cfg clk (job_key cfg i) acc r = (Inr (acc @ [i]), r') \<and> rinv r' \<and> handed_back (rview r) (rview r') i \<and>
    (\<forall>k. k \<noteq> i \<longrightarrow> rview r' k = rview r k \<and> leases r' k = leases r k) \<and>
    dom (index r') = insert i (dom (index r)) \<and> rd_clock rd r' = rd_clock rd r"
proof -
  obtain j where j: "rview r i = Some j" "status j = RUNNING" using l by (auto simp: lapsed_def)
  obtain r' j' where r': "redis_release rd cfg (clk i) i r = (Inr True, r')" "rinv r'" "rview r' = (rview r)(i \<mapsto> j')"
      "same_submission j j'" "status j' = QUEUED" "claimed_by j' = None"
      "index r' = (index r)(i \<mapsto> redis_score (priority j) (rd_clock rd r))" "leases r' = (leases r)(i := None)"
      "rd_clock rd r' = rd_clock rd r"
    using release_run [OF inv j(1), of "clk i"] by (elim exE conjE) (rule that, assumption+)
  have st: "is_text (hashes r i ''status'') (status_value RUNNING)" using status_text [OF inv, of i RUNNING] j by simp
  have ex: "rd_exists rd (lease_key cfg i) r = (Inr False, r)"
    using exists_lease [of i r] l by (auto simp: lapsed_def split: option.splits)
  have "reap_key rd cfg clk (job_key cfg i) acc r = (Inr (acc @ [i]), r')"
    using hget_law r'(1) st ex assms(2)
    by (simp add: reap_key_def last_part_plain bind_py_def ret_def Let_def del: status_value.simps)
  moreover have "handed_back (rview r) (rview r') i" using j(1) r'(3-6) by (simp add: handed_back_def)
  ultimately show ?thesis using r' by (intro exI [of _ r']) simp
qed

lemma reap_fold:
  assumes "rinv r" and "\<forall>k \<in> set ks. \<exists>i. k = job_key cfg i \<and> plain_id i"
  shows "\<exists>reaped r'. fold_py (reap_key rd cfg clk) ks acc r = (Inr (acc @ reaped), r') \<and> rinv r' \<and> distinct reaped \<and>
    set reaped = {i. job_key cfg i \<in> set ks \<and> lapsed (rview r) (leases r) (rd_clock rd r) i} \<and>
    (\<forall>i \<in> set reaped. handed_back (rview r) (rview r') i) \<and> dom (index r') = dom (index r) \<union> set reaped \<and>
    (\<forall>i. i \<notin> set reaped \<longrightarrow> rview r' i = rview r i \<and> leases r' i = leases r i)"
  using assms
proof (induction ks arbitrary: acc r)
  case Nil
  then show ?case by (simp add: ret_def)
next
  case (Cons k ks)
  obtain i where i: "k = job_key cfg i" "plain_id i" using Cons.prems(2) by auto
  have ks: "\<forall>k \<in> set ks. \<exists>i. k = job_key cfg i \<and> plain_id i" using Cons.prems(2) by simp
  show ?case
  proof (cases "lapsed (rview r) (leases r) (rd_clock rd r) i")
    case False
    have keep: "reap_key rd cfg clk k acc r = (Inr acc, r)" unfolding i(1) by (rule reap_key_kept [OF Cons.prems(1) i(2) False])
    have "{i'. job_key cfg i' \<in> set (k # ks) \<and> lapsed (rview r) (leases r) (rd_clock rd r) i'} =
        {i'. job_key cfg i' \<in> set ks \<and> lapsed (rview r) (leases r) (rd_clock rd r) i'}"
      using i(1) False by auto
    with Cons.IH [OF Cons.prems(1) ks, of acc] keep show ?thesis by (simp add: bind_py_def)
  next
    case True
    obtain r1 where r1: "reap_key rd cfg clk k acc r = (Inr (acc @ [i]), r1)" "rinv r1" "handed_back (rview r) (rview r1) i"
        "\<forall>k. k \<noteq> i \<longrightarrow> rview r1 k = rview r k \<and> leases r1 k = leases r k" "dom (index r1) = insert i (dom (index r))" "rd_clock rd r1 = rd_clock rd r"
      using reap_key_lapsed [OF Cons.prems(1) i(2) True, of clk acc, folded i(1)] by (elim exE conjE) (rule that, assumption+)
    have here: "\<not> lapsed (rview r1) (leases r1) (rd_clock rd r1) i" using r1(3) by (auto simp: handed_back_def lapsed_def)
    have there: "lapsed (rview r1) (leases r1) (rd_clock rd r1) i' \<longleftrightarrow> lapsed (rview r) (leases r) (rd_clock rd r) i'" if "i' \<noteq> i" for i'
      using r1(4,6) that by (simp add: lapsed_def)
    obtain reaped r' where r': "fold_py (reap_key rd cfg clk) ks (acc @ [i]) r1 = (Inr ((acc @ [i]) @ reaped), r')" "rinv r'" "distinct reaped"
        "set reaped = {i. job_key cfg i \<in> set ks \<and> lapsed (rview r1) (leases r1) (rd_clock rd r1) i}"
        "\<forall>i \<in> set reaped. handed_back (rview r1) (rview r') i" "dom (index r') = dom (index r1) \<union> set reaped"
        "\<forall>i. i \<notin> set reaped \<longrightarrow> rview r' i = rview r1 i \<and> leases r' i = leases r1 i"
      using Cons.IH [OF r1(2) ks, of "acc @ [i]"] by (elim exE conjE) (rule that, assumption+)
    have notin: "i \<notin> set reaped" using r'(4) here by simp
    then have hb: "handed_back (rview r) (rview r') i'" if "i' \<in> set (i # reaped)" for i'
      using that r'(5,7) r1(3,4) by (cases "i' = i") (auto simp: handed_back_def)
    have "set (i # reaped) = {i. job_key cfg i \<in> set (k # ks) \<and> lapsed (rview r) (leases r) (rd_clock rd r) i}"
    proof (rule set_eqI)
      fix x
      show "x \<in> set (i # reaped) \<longleftrightarrow> x \<in> {i. job_key cfg i \<in> set (k # ks) \<and> lapsed (rview r) (leases r) (rd_clock rd r) i}"
        using r'(4) there [of x] True here i(1) by (cases "x = i") simp_all
    qed
    moreover have "\<forall>i'. i' \<notin> set (i # reaped) \<longrightarrow> rview r' i' = rview r i' \<and> leases r' i' = leases r i'"
      using r'(7) r1(4) by simp
    moreover have "dom (index r') = dom (index r) \<union> set (i # reaped)" using r'(6) r1(5) by auto
    moreover have "fold_py (reap_key rd cfg clk) (k # ks) acc r = (Inr (acc @ i # reaped), r')" using r1(1) r'(1) by (simp add: bind_py_def)
    moreover have "distinct (i # reaped)" using notin r'(3) by simp
    ultimately show ?thesis using r'(2) hb by (intro exI [of _ "i # reaped"] exI [of _ r'] conjI ballI)
  qed
qed


text \<open>The reaper releases the running jobs without a lease, and no other job changes.\<close>

lemma reap_exact:
  assumes "rinv r" and "\<forall>i \<in> dom (rview r). plain_id i"
  shows "\<exists>reaped r'. reap_expired_leases rd cfg clk r = (Inr reaped, r') \<and> rinv r' \<and> distinct reaped \<and>
    set reaped = {i. lapsed (rview r) (leases r) (rd_clock rd r) i} \<and>
    (\<forall>i \<in> set reaped. handed_back (rview r) (rview r') i) \<and> dom (index r') = dom (index r) \<union> set reaped \<and>
    (\<forall>i. i \<notin> set reaped \<longrightarrow> rview r' i = rview r i \<and> leases r' i = leases r i)"
proof -
  obtain ks where ks: "rd_scan rd (rc_prefix cfg @ '':job:'') r = (Inr ks, r)" "set ks = job_key cfg ` {i. hashes r i \<noteq> Map.empty}"
    using scan_law by blast
  have d: "hashes r i \<noteq> Map.empty \<longleftrightarrow> i \<in> dom (rview r)" for i using view_hash(2) [OF assms(1), of i] by (auto simp: domIff)
  then have "\<forall>k \<in> set ks. \<exists>i. k = job_key cfg i \<and> plain_id i" using ks(2) assms(2) by auto
  note run = reap_fold [OF assms(1) this, of clk "[]"]
  have "{i. job_key cfg i \<in> set ks \<and> lapsed (rview r) (leases r) (rd_clock rd r) i} = {i. lapsed (rview r) (leases r) (rd_clock rd r) i}"
    using ks(2) d by (auto simp: lapsed_def)
  with run ks(1) show ?thesis by (simp add: reap_expired_leases_def bind_py_def)
qed

text \<open>A job that was just claimed, or that is still leased and heartbeats, is not reaped before its lease timeout.\<close>

lemma claim_leases:
  assumes inv: "rinv r" and j: "rview r i = Some j" "status j = QUEUED" and r': "redis_claim rd cfg now i host worker r = (Inr True, r')"
    and later: "t < rd_clock rd r + rc_lease_timeout cfg * second"
  shows "\<not> lapsed (rview r') (leases r') t i"
  using claim_run [OF inv j, of now host worker] r' later by (auto simp: lapsed_def)

lemma heartbeat_leases:
  assumes inv: "rinv r" and live: "leases r i = Some e" "rd_clock rd r < e" and r': "redis_heartbeat rd cfg now i r = (Inr True, r')"
    and later: "t < rd_clock rd r + rc_lease_timeout cfg * second"
  shows "\<not> lapsed (rview r') (leases r') t i"
  using heartbeat_run [OF inv, of now i] r' live later by (auto simp: lapsed_def)

text \<open>\<open>EXPIRE\<close> does not bring back a lease that has ended: a late heartbeat succeeds and the job stays reapable.\<close>

lemma late_heartbeat:
  assumes inv: "rinv r" and l: "lapsed (rview r) (leases r) (rd_clock rd r) i"
  shows "\<exists>r'. redis_heartbeat rd cfg now i r = (Inr True, r') \<and> lapsed (rview r') (leases r') (rd_clock rd r') i"
proof -
  obtain ok r' where r': "redis_heartbeat rd cfg now i r = (Inr ok, r')" "touched (rview r) (rview r')" "rd_clock rd r' = rd_clock rd r"
      "ok \<longleftrightarrow> (\<exists>j. rview r i = Some j \<and> status j = RUNNING)"
      "leases r' = (if ok \<and> (\<exists>t. leases r i = Some t \<and> rd_clock rd r < t)
        then (leases r)(i \<mapsto> rd_clock rd r + rc_lease_timeout cfg * second) else leases r)"
    using heartbeat_run [OF inv, of now i] by (elim exE conjE) (rule that, assumption+)
  have dead: "\<not> (\<exists>t. leases r i = Some t \<and> rd_clock rd r < t)" and run: "\<exists>j. rview r i = Some j \<and> status j = RUNNING"
    using l by (simp_all add: lapsed_def)
  have ok: "ok" using r'(4) run by simp
  have "leases r' = leases r" using r'(5) dead by simp
  moreover have "\<exists>j. rview r' i = Some j \<and> status j = RUNNING" using run r'(2) unfolding touched_def by metis
  ultimately have "lapsed (rview r') (leases r') (rd_clock rd r') i" using dead r'(3) by (simp add: lapsed_def)
  with r'(1) ok show ?thesis by simp
qed

lemma collect_run:
  assumes "rinv r" and "\<forall>k \<in> set ks. \<exists>i. k = job_key cfg i \<and> plain_id i"
  shows "fold_py (collect_job rd cfg) ks acc r = (Inr (acc @ List.map_filter (rview r) (map last_part ks)), r)"
  using assms(2)
proof (induction ks arbitrary: acc)
  case Nil
  then show ?case by (simp add: ret_def List.map_filter_def)
next
  case (Cons k ks)
  then show ?case
    by (auto simp: bind_py_def collect_job_def get_run [OF assms(1)] ret_def List.map_filter_def split: option.splits)
qed

lemma all_jobs_run:
  assumes "rinv r" and "\<forall>i \<in> dom (rview r). plain_id i"
  shows "\<exists>js. redis_all_jobs rd cfg r = (Inr js, r) \<and> set js = ran (rview r)"
proof -
  obtain ks where ks: "rd_scan rd (rc_prefix cfg @ '':job:'') r = (Inr ks, r)" "set ks = job_key cfg ` {i. hashes r i \<noteq> Map.empty}"
    using scan_law by blast
  have d0: "hashes r i \<noteq> Map.empty \<longleftrightarrow> i \<in> dom (rview r)" for i using view_hash(2) [OF assms(1), of i] by (auto simp: domIff)
  then have d: "{i. hashes r i \<noteq> Map.empty} = dom (rview r)" using d0 by blast
  then have k: "\<forall>k \<in> set ks. \<exists>i. k = job_key cfg i \<and> plain_id i" using ks(2) assms(2) by auto
  have "last_part ` set ks = dom (rview r)"
    unfolding ks(2) d image_image using assms(2) by (simp add: last_part_plain cong: image_cong)
  then have "set (List.map_filter (rview r) (map last_part ks)) = ran (rview r)"
    using set_map_filter_ran [of "map last_part ks" "rview r"] by simp
  with collect_run [OF assms(1) k, of "[]"] ks(1) show ?thesis by (simp add: redis_all_jobs_def bind_py_def)
qed

end

subsection \<open>A server of association lists\<close>

text \<open>
  A server that keeps hashes, sorted sets and expiring texts in three stores, by the kind of key, and a
  clock. A later entry of a store shadows an earlier one.
\<close>

record redis_state =
  rs_hashes :: "(string, hash) dict"
  rs_sets :: "(string, (string, int) dict) dict"
  rs_texts :: "(string, string \<times> time) dict"
  rs_clock :: time

definition st_hash :: "redis_state \<Rightarrow> string \<Rightarrow> hash" where
  "st_hash r k = dict_get_or (rs_hashes r) k []"

definition st_set :: "redis_state \<Rightarrow> string \<Rightarrow> (string, int) dict" where
  "st_set r k = dict_get_or (rs_sets r) k []"

definition st_live :: "redis_state \<Rightarrow> string \<Rightarrow> bool" where
  "st_live r k = (case map_of (rs_texts r) k of None \<Rightarrow> False | Some (_, t) \<Rightarrow> rs_clock r < t)"

definition top_members :: "(string, int) dict \<Rightarrow> string list" where
  "top_members z = sort_key (\<lambda>i. - dict_get_or z i 0) (remdups (dict_keys z))"

definition list_redis :: "redis_config \<Rightarrow> redis_state redis_ops" where
  "list_redis cfg =
     \<lparr>rd_hset = (\<lambda>k kvs r. (Inr (), r\<lparr>rs_hashes := dict_set (rs_hashes r) k (rev kvs @ st_hash r k)\<rparr>)),
      rd_hget = (\<lambda>k f r. (Inr (map_of (st_hash r k) f), r)),
      rd_hgetall = (\<lambda>k r. (Inr (st_hash r k), r)),
      rd_hincrby = (\<lambda>k f n r.
        (case map_of (st_hash r k) f of
           Some (HNum m) \<Rightarrow> (Inr (), r\<lparr>rs_hashes := dict_set (rs_hashes r) k ((f, HNum (m + n)) # st_hash r k)\<rparr>)
         | None \<Rightarrow> (Inr (), r\<lparr>rs_hashes := dict_set (rs_hashes r) k ((f, HNum n) # st_hash r k)\<rparr>)
         | _ \<Rightarrow> (Inl (RedisError ''hash value is not an integer''), r))),
      rd_exists = (\<lambda>k r. (Inr (if prefix (rc_prefix cfg @ '':lease:'') k then st_live r k else st_hash r k \<noteq> []), r)),
      rd_delete = (\<lambda>ks r. (Inr (), fold (\<lambda>k r. r\<lparr>rs_hashes := (if prefix (rc_prefix cfg @ '':lease:'') k then rs_hashes r else dict_pop (rs_hashes r) k),
          rs_sets := dict_pop (rs_sets r) k, rs_texts := dict_pop (rs_texts r) k\<rparr>) ks r)),
      rd_zadd = (\<lambda>k m s r. (Inr (), r\<lparr>rs_sets := dict_set (rs_sets r) k (dict_set (st_set r k) m s)\<rparr>)),
      rd_zrem = (\<lambda>k m r. (Inr (), r\<lparr>rs_sets := dict_set (rs_sets r) k (dict_pop (st_set r k) m)\<rparr>)),
      rd_zrevrange = (\<lambda>k lo hi r. (Inr (drop (nat lo) (take (nat (hi + 1)) (top_members (st_set r k)))), r)),
      rd_set_ex = (\<lambda>k v secs r. (Inr (), r\<lparr>rs_texts := dict_set (rs_texts r) k (v, rs_clock r + secs * second)\<rparr>)),
      rd_expire = (\<lambda>k secs r.
        (Inr (), if st_live r k
           then r\<lparr>rs_texts := dict_set (rs_texts r) k (fst (the (map_of (rs_texts r) k)), rs_clock r + secs * second)\<rparr> else r)),
      rd_ttl = (\<lambda>k r. (Inr (if st_live r k then (snd (the (map_of (rs_texts r) k)) - rs_clock r) div second else - 2), r)),
      rd_scan = (\<lambda>p r. (Inr (filter (prefix p) (remdups
        (filter (\<lambda>k. st_hash r k \<noteq> []) (dict_keys (rs_hashes r)) @
         filter (\<lambda>k. prefix (rc_prefix cfg @ '':lease:'') k \<and> st_live r k) (dict_keys (rs_texts r))))), r)),
      rd_ping = (\<lambda>r. (Inr True, r)),
      rd_clock = rs_clock\<rparr>"

definition st_hashes :: "redis_config \<Rightarrow> redis_state \<Rightarrow> string \<Rightarrow> hash_map" where
  "st_hashes cfg r i = map_of (st_hash r (job_key cfg i))"

definition st_index :: "redis_config \<Rightarrow> redis_state \<Rightarrow> string \<Rightarrow> int option" where
  "st_index cfg r = map_of (st_set r (queue_key cfg))"

definition st_leases :: "redis_config \<Rightarrow> redis_state \<Rightarrow> string \<Rightarrow> time option" where
  "st_leases cfg r i = map_option snd (map_of (rs_texts r) (lease_key cfg i))"

lemmas st_defs = st_hashes_def [abs_def] st_index_def [abs_def] st_leases_def [abs_def] st_hash_def st_set_def

lemma lease_prefix [simp]:
  "prefix (rc_prefix cfg @ '':lease:'') (lease_key cfg i)" "\<not> prefix (rc_prefix cfg @ '':lease:'') (job_key cfg i)"
  by (simp_all add: lease_key_def job_key_def)

lemma prefix_job_key: "prefix (rc_prefix cfg @ '':job:'') k \<longleftrightarrow> (\<exists>i. k = job_key cfg i)"
  by (auto simp: prefix_def job_key_def)

lemma prefix_apart: "prefix (rc_prefix cfg @ '':job:'') k \<Longrightarrow> \<not> prefix (rc_prefix cfg @ '':lease:'') k" for cfg :: redis_config
  using prefix_job_key [of cfg k] by (elim iffE) auto

lemma top_members_take:
  fixes z :: "(string, int) dict" and m :: nat
  defines "ids \<equiv> take m (top_members z)"
  shows "distinct ids \<and> set ids \<subseteq> dom (map_of z) \<and> length ids \<le> m \<and>
    sorted_wrt (\<lambda>a b. the (map_of z b) \<le> the (map_of z a)) ids"
    and "map_of z i = Some s \<Longrightarrow> i \<notin> set ids \<Longrightarrow> length ids = m \<and> (\<forall>k \<in> set ids. s \<le> the (map_of z k))"
proof -
  let ?t = "top_members z"
  have dom: "set ?t = dom (map_of z)" by (simp add: top_members_def dom_map_of_conv_image_fst)
  have key: "dict_get_or z a 0 = the (map_of z a)" if "a \<in> set ?t" for a
    using that dom by (auto simp: dict_get_or_def)
  have "sorted (map (\<lambda>i. - dict_get_or z i 0) ?t)" by (simp add: top_members_def)
  then have "sorted_wrt (\<lambda>a b. dict_get_or z b 0 \<le> dict_get_or z a 0) ?t" by (simp add: sorted_wrt_map)
  then have st: "sorted_wrt (\<lambda>a b. the (map_of z b) \<le> the (map_of z a)) ?t"
    by (rule sorted_wrt_mono_rel [rotated]) (simp add: key)
  then have split: "sorted_wrt (\<lambda>a b. the (map_of z b) \<le> the (map_of z a)) (ids @ drop m ?t)" by (simp add: ids_def)
  have "distinct ?t" by (simp add: top_members_def)
  then have "distinct ids" by (simp add: ids_def)
  moreover have "set ids \<subseteq> dom (map_of z)" using dom set_take_subset [of m ?t] by (auto simp: ids_def)
  ultimately show "distinct ids \<and> set ids \<subseteq> dom (map_of z) \<and> length ids \<le> m \<and>
      sorted_wrt (\<lambda>a b. the (map_of z b) \<le> the (map_of z a)) ids"
    using split by (simp add: sorted_wrt_append ids_def)
  assume i: "map_of z i = Some s" "i \<notin> set ids"
  then have "i \<in> set (ids @ drop m ?t)" using dom by (auto simp: ids_def)
  then have i': "i \<in> set (drop m ?t)" using i(2) by simp
  have later: "\<forall>k \<in> set ids. the (map_of z i) \<le> the (map_of z k)" using split i' unfolding sorted_wrt_append by blast
  from i' show "length ids = m \<and> (\<forall>k \<in> set ids. s \<le> the (map_of z k))"
    using later i(1) by (auto simp: ids_def min_def not_le dest: length_pos_if_in_set)
qed

lemma list_redis_server:
  assumes "0 < rc_lease_timeout cfg"
  shows "redis_server (list_redis cfg) cfg (st_hashes cfg) (st_index cfg) (st_leases cfg)"
proof (unfold_locales, goal_cases)
  case 1
  show ?case by (rule assms)
next
  case (2 i kvs r)
  show ?case by (auto simp: list_redis_def st_defs)
next
  case (3 i f r)
  show ?case by (simp add: list_redis_def st_defs)
next
  case (4 i r)
  show ?case by (simp add: list_redis_def st_defs)
next
  case (5 r i f n k)
  then show ?case by (auto simp: list_redis_def st_defs)
next
  case (6 i r)
  then show ?case by (simp add: list_redis_def st_defs)
next
  case (7 i r)
  then show ?case by (simp add: list_redis_def st_defs st_live_def split: option.split prod.split)
next
  case (8 i r)
  then show ?case by (auto simp: list_redis_def st_defs)
next
  case (9 i score r)
  then show ?case by (auto simp: list_redis_def st_defs map_of_dict_set)
next
  case (10 i r)
  then show ?case by (auto simp: list_redis_def st_defs)
next
  case (11 n r)
  define ids where "ids = take (nat (n + 1)) (top_members (st_set r (queue_key cfg)))"
  note facts = top_members_take [where z = "st_set r (queue_key cfg)" and m = "nat (n + 1)", folded ids_def]
  have "rd_zrevrange (list_redis cfg) (queue_key cfg) 0 n r = (Inr ids, r)" by (simp add: list_redis_def ids_def)
  moreover have "int (length ids) \<le> n + 1" using facts(1) 11 by linarith
  moreover have "int (length ids) = n + 1 \<and> (\<forall>k \<in> set ids. s \<le> the (st_index cfg r k))"
    if "st_index cfg r i = Some s" "i \<notin> set ids" for i s
    using facts(2) [of i s] that 11 by (simp add: st_index_def)
  ultimately show ?case
    using facts(1) by (intro exI [of _ ids]) (simp add: st_index_def)
next
  case (12 secs i v r)
  then show ?case by (auto simp: list_redis_def st_defs)
next
  case (13 secs i r)
  then show ?case by (auto simp: list_redis_def st_defs st_live_def split: option.split prod.split)
next
  case (14 r)
  let ?ks = "filter (prefix (rc_prefix cfg @ '':job:'')) (remdups
        (filter (\<lambda>k. st_hash r k \<noteq> []) (dict_keys (rs_hashes r)) @
         filter (\<lambda>k. prefix (rc_prefix cfg @ '':lease:'') k \<and> st_live r k) (dict_keys (rs_texts r))))"
  have "k \<in> set (dict_keys (rs_hashes r))" if "st_hash r k \<noteq> []" for k
    using that by (auto simp: st_hash_def dict_get_or_def rev_image_eqI dest!: map_of_SomeD split: option.splits)
  then have "set ?ks = {k. prefix (rc_prefix cfg @ '':job:'') k \<and> st_hash r k \<noteq> []}"
    using prefix_apart by auto
  also have "\<dots> = job_key cfg ` {i. st_hashes cfg r i \<noteq> Map.empty}"
    unfolding prefix_job_key by (auto simp: st_hashes_def)
  finally show ?case by (simp add: list_redis_def)
qed

text \<open>The constructor's default prefix and lease timeout.\<close>

definition default_redis :: redis_config where
  "default_redis = new_redis_config ''cloud_dog_ai_jobs'' 120"

interpretation listr: redis_server "list_redis default_redis" default_redis
  "st_hashes default_redis" "st_index default_redis"
  "st_leases default_redis"
  by (rule list_redis_server) (simp add: default_redis_def new_redis_config_def)

end
