(* ===== verification/Hybrid_Backend.thy ===== *)
theory Hybrid_Backend
  imports Backend_Spec
begin

section \<open>The hybrid backend and the choice of a backend\<close>

text \<open>
  \<open>backends/hybrid_backend.py\<close> and \<open>backends/registry.py\<close>. The hybrid backend is written over the
  methods of two backends, one for dispatch (Redis) and one for the durable state (SQL); its state is the
  pair of theirs. It is no \<open>queue_backend\<close>: a dequeued job is the dispatch copy, which the attempts,
  the progress and the result, recorded in the durable copy only, never reach. What it promises, when each of its
  methods runs as one step, is that the two copies stay in step (\<open>in_step\<close>) and that claims are exclusive, whatever the
  backends; \<open>Hybrid_Process\<close> has the methods split into their calls.
\<close>

subsection \<open>The methods\<close>

definition on_redis :: "('r, 'a) py \<Rightarrow> ('r \<times> 's, 'a) py" where
  "on_redis m = on_field fst (\<lambda>r (_, s). (r, s)) m"

definition on_sql :: "('s, 'a) py \<Rightarrow> ('r \<times> 's, 'a) py" where
  "on_sql m = on_field snd (\<lambda>s (r, _). (r, s)) m"

definition hybrid_enqueue :: "'r backend_ops \<Rightarrow> 's backend_ops \<Rightarrow> job \<Rightarrow> ('r \<times> 's, string) py" where
  "hybrid_enqueue R S j = seq_py (on_sql (be_enqueue S j)) (on_redis (be_enqueue R j))"

definition hybrid_claim ::
  "'r backend_ops \<Rightarrow> 's backend_ops \<Rightarrow> time \<Rightarrow> string \<Rightarrow> string \<Rightarrow> string \<Rightarrow> ('r \<times> 's, bool) py" where
  "hybrid_claim R S now jid host worker =
     bind_py (on_redis (be_claim R now jid host worker)) (\<lambda>ok.
       if \<not> ok then ret False
       else seq_py (on_sql (be_claim S now jid host worker)) (ret True))"

definition hybrid_release :: "'r backend_ops \<Rightarrow> 's backend_ops \<Rightarrow> time \<Rightarrow> string \<Rightarrow> ('r \<times> 's, bool) py" where
  "hybrid_release R S now jid = seq_py (on_sql (be_release S now jid)) (on_redis (be_release R now jid))"

definition hybrid_heartbeat :: "'r backend_ops \<Rightarrow> 's backend_ops \<Rightarrow> time \<Rightarrow> string \<Rightarrow> ('r \<times> 's, bool) py" where
  "hybrid_heartbeat R S now jid = seq_py (on_sql (be_heartbeat S now jid)) (on_redis (be_heartbeat R now jid))"

definition hybrid_update_status ::
  "'r backend_ops \<Rightarrow> 's backend_ops \<Rightarrow> time \<Rightarrow> string \<Rightarrow> string \<Rightarrow> ('r \<times> 's, bool) py" where
  "hybrid_update_status R S now jid st =
     seq_py (on_redis (be_update_status R now jid st)) (on_sql (be_update_status S now jid st))"

definition hybrid_health_check :: "'r backend_ops \<Rightarrow> 's backend_ops \<Rightarrow> ('r \<times> 's, bool) py" where
  "hybrid_health_check R S =
     bind_py (on_sql (be_health_check S)) (\<lambda>ok. if ok then on_redis (be_health_check R) else ret False)"

definition hybrid_backend :: "'r backend_ops \<Rightarrow> 's backend_ops \<Rightarrow> ('r \<times> 's) backend_ops" where
  "hybrid_backend R S =
     \<lparr>be_enqueue = hybrid_enqueue R S,
      be_dequeue = (\<lambda>n jt qn. on_redis (be_dequeue R n jt qn)),
      be_claim = hybrid_claim R S,
      be_release = hybrid_release R S,
      be_heartbeat = hybrid_heartbeat R S,
      be_get = (\<lambda>jid. on_sql (be_get S jid)),
      be_update_status = hybrid_update_status R S,
      be_get_queue_status = on_sql (be_get_queue_status S),
      be_health_check = hybrid_health_check R S,
      be_all_jobs = on_sql (be_all_jobs S),
      be_record_attempt = (\<lambda>now jid err. on_sql (be_record_attempt S now jid err)),
      be_update_progress = (\<lambda>now jid p. on_sql (be_update_progress S now jid p)),
      be_store_result = (\<lambda>now jid res. on_sql (be_store_result S now jid res)),
      be_live = (\<lambda>_ j. j),
      be_poke = (\<lambda>_ _ b. b)\<rparr>"

subsection \<open>The choice of a backend\<close>

text \<open>
  \<open>select_backend\<close>: the constructed object is its kind with the URL it was built from. \<open>healthy\<close> is the
  answer of the new Redis backend's health check.
\<close>

datatype backend_choice = RedisChoice string | SqlChoice string | MemoryChoice

definition select_backend :: "(string \<Rightarrow> bool) \<Rightarrow> string \<Rightarrow> string option \<Rightarrow> string option \<Rightarrow> backend_choice" where
  "select_backend healthy preferred sql_url redis_url =
     (case (preferred = ''redis'', redis_url) of
        (True, Some (c # u)) \<Rightarrow>
          if healthy (c # u) then RedisChoice (c # u)
          else (case sql_url of Some (d # v) \<Rightarrow> SqlChoice (d # v) | _ \<Rightarrow> MemoryChoice)
      | _ \<Rightarrow> (case (preferred = ''sql'', sql_url) of
          (True, Some (d # v)) \<Rightarrow> SqlChoice (d # v)
        | _ \<Rightarrow> MemoryChoice))"

subsection \<open>The copies stay in step\<close>

definition same_core :: "job \<Rightarrow> job \<Rightarrow> bool" where
  "same_core a b \<longleftrightarrow>
     status a = status b \<and> job_id a = job_id b \<and> job_type a = job_type b \<and> queue_name a = queue_name b \<and>
     payload a = payload b \<and> priority a = priority b \<and> created_at a = created_at b"

definition in_step :: "(string \<rightharpoonup> job) \<Rightarrow> (string \<rightharpoonup> job) \<Rightarrow> bool" where
  "in_step vr vs \<longleftrightarrow> (\<forall>i. rel_option same_core (vr i) (vs i))"

lemma rel_option_Some_left: "rel_option P (Some a) y \<longleftrightarrow> (\<exists>b. y = Some b \<and> P a b)"
  by (cases y) auto

lemma rel_option_None_left [simp]: "rel_option P None y \<longleftrightarrow> y = None"
  by (cases y) auto

lemma in_step_upd:
  "in_step vr vs \<Longrightarrow> same_core a b \<Longrightarrow> in_step (vr(i \<mapsto> a)) (vs(i \<mapsto> b))"
  by (simp add: in_step_def)

lemma same_core_step:
  "same_core a b \<Longrightarrow> same_submission a a' \<Longrightarrow> same_submission b b' \<Longrightarrow> status a' = status b' \<Longrightarrow> same_core a' b'"
  by (simp add: same_core_def same_submission_def)

lemma in_step_touched:
  assumes "in_step vr vs" and "touched vr vr'" and "touched vs vs'"
  shows "in_step vr' vs'"
  unfolding in_step_def
proof
  fix i
  have st: "rel_option same_core (vr i) (vs i)" using assms(1) by (simp add: in_step_def)
  show "rel_option same_core (vr' i) (vs' i)"
  proof (cases "vr i")
    case None
    then have "vs i = None" using st by simp
    with None assms(2,3) have "i \<notin> dom vr'" "i \<notin> dom vs'" by (auto simp: touched_def)
    then show ?thesis by (simp add: domIff)
  next
    case (Some a)
    with st obtain b where b: "vs i = Some b" "same_core a b" by (auto simp: rel_option_Some_left)
    obtain a' b' where "vr' i = Some a'" "same_submission a a'" "status a' = status a" "vs' i = Some b'" "same_submission b b'" "status b' = status b"
      using assms(2,3) Some b(1) unfolding touched_def by blast
    with b(2) same_core_step [OF b(2)] show ?thesis by (simp add: same_core_def)
  qed
qed

text \<open>The jobs that a run enqueues.\<close>

fun enqueued :: "backend_call list \<Rightarrow> job list" where
  "enqueued [] = []"
| "enqueued (CallEnqueue j # cs) = j # enqueued cs"
| "enqueued (_ # cs) = enqueued cs"

definition fresh_for :: "(string \<rightharpoonup> job) \<Rightarrow> backend_call list \<Rightarrow> bool" where
  "fresh_for v cs \<longleftrightarrow>
     distinct (map job_id (enqueued cs)) \<and> (\<forall>j \<in> set (enqueued cs). v (job_id j) = None \<and> result_ref j = None)"

lemma fresh_cong:
  assumes "fresh_for v (c # cs)" and "dom v' = dom v" and "\<And>j. c \<noteq> CallEnqueue j"
  shows "fresh_for v' cs"
proof -
  have "enqueued (c # cs) = enqueued cs" using assms(3) by (cases c) auto
  moreover have "v' i = None \<longleftrightarrow> v i = None" for i using assms(2) by (metis domIff)
  ultimately show ?thesis using assms(1) by (simp add: fresh_for_def)
qed

locale hybrid = redis: queue_backend R invR viewR storedR + sql: queue_backend S invS viewS storedS
  for R :: "'r backend_ops" and invR viewR storedR and S :: "'s backend_ops" and invS viewS storedS
begin

abbreviation synced :: "'r \<Rightarrow> 's \<Rightarrow> bool" where
  "synced r s \<equiv> invR r \<and> invS s \<and> in_step (viewR r) (viewS s)"

lemmas hybrid_defs = hybrid_backend_def hybrid_enqueue_def hybrid_claim_def hybrid_release_def hybrid_heartbeat_def
  hybrid_update_status_def on_redis_def on_sql_def on_field_def bind_py_def seq_py_def ret_def

lemma enqueue_sync:
  assumes "synced r s" and "viewR r (job_id j) = None" and "result_ref j = None"
  shows "\<exists>r' s'. do_call (hybrid_backend R S) (CallEnqueue j) (r, s) = (Inr True, (r', s')) \<and> synced r' s' \<and>
    dom (viewR r') = insert (job_id j) (dom (viewR r)) \<and> viewS s' = (viewS s)(job_id j \<mapsto> storedS j)"
proof -
  have "viewS s (job_id j) = None" using assms(1,2) by (metis in_step_def rel_option_None_left)
  then obtain s' where s': "be_enqueue S j s = (Inr (job_id j), s')" "invS s'" "viewS s' = (viewS s)(job_id j \<mapsto> storedS j)"
    using sql.enqueue_fresh assms(1,3) by blast
  obtain r' where r': "be_enqueue R j r = (Inr (job_id j), r')" "invR r'" "viewR r' = (viewR r)(job_id j \<mapsto> storedR j)"
    using redis.enqueue_fresh assms by blast
  have "same_core (storedR j) (storedS j)" using redis.stored_law [of j] sql.stored_law [of j] by (simp add: same_core_def)
  then have "in_step (viewR r') (viewS s')" unfolding r'(3) s'(3) using assms(1) by (blast intro: in_step_upd)
  with r' s' show ?thesis by (simp add: hybrid_defs)
qed

lemma both:
  assumes "synced r s" and "viewR r i = Some a"
  obtains b where "viewS s i = Some b" "same_core a b"
  using assms that unfolding in_step_def by (metis rel_option_Some_left)

lemma neither: "synced r s \<Longrightarrow> viewR r i = None \<Longrightarrow> viewS s i = None"
  unfolding in_step_def by (metis rel_option_None_left)

lemma claim_sync:
  assumes sync: "synced r s"
  shows "\<exists>ok r' s'. hybrid_claim R S now i host worker (r, s) = (Inr ok, (r', s')) \<and> synced r' s' \<and> dom (viewR r') = dom (viewR r) \<and>
    (ok \<longleftrightarrow> (\<exists>b. viewS s i = Some b \<and> status b = QUEUED)) \<and>
    (ok \<longrightarrow> (\<exists>b. viewS s' i = Some b \<and> status b = RUNNING \<and> claimed_by b = Some (host @ '':'' @ worker)))"
proof (cases "\<exists>a. viewR r i = Some a \<and> status a = QUEUED")
  case True
  then obtain a where a: "viewR r i = Some a" "status a = QUEUED" by blast
  obtain b where b: "viewS s i = Some b" "same_core a b" using both [OF sync a(1)] .
  have bq: "status b = QUEUED" using a(2) b(2) by (simp add: same_core_def)
  obtain r' a' where r': "be_claim R now i host worker r = (Inr True, r')" "invR r'" "viewR r' = (viewR r)(i \<mapsto> a')"
      "same_submission a a'" "status a' = RUNNING"
    using redis.claim_won a sync by blast
  obtain s' b' where s': "be_claim S now i host worker s = (Inr True, s')" "invS s'" "viewS s' = (viewS s)(i \<mapsto> b')"
      "same_submission b b'" "status b' = RUNNING" "claimed_by b' = Some (host @ '':'' @ worker)"
    using sql.claim_won b(1) bq sync by blast
  have run: "hybrid_claim R S now i host worker (r, s) = (Inr True, (r', s'))" using r'(1) s'(1) by (simp add: hybrid_defs)
  have "in_step (viewR r') (viewS s')"
    unfolding r'(3) s'(3) using sync same_core_step [OF b(2) r'(4) s'(4)] r'(5) s'(5) by (simp add: in_step_upd)
  moreover have "dom (viewR r') = dom (viewR r)" using r'(3) a(1) by auto
  ultimately show ?thesis using run r'(2) s' b(1) bq by (intro exI [of _ True] exI [of _ r'] exI [of _ s']) simp
next
  case False
  then have "hybrid_claim R S now i host worker (r, s) = (Inr False, (r, s))"
    using redis.claim_lost [of r i now host worker] sync by (simp add: hybrid_defs)
  moreover have "\<not> (\<exists>b. viewS s i = Some b \<and> status b = QUEUED)"
    using False both [OF sync, of i] neither [OF sync, of i] by (cases "viewR r i") (fastforce simp: same_core_def)+
  ultimately show ?thesis using sync by (intro exI [of _ False] exI [of _ r] exI [of _ s]) simp
qed

lemma release_sync:
  assumes sync: "synced r s"
  shows "\<exists>ok r' s'. hybrid_release R S now i (r, s) = (Inr ok, (r', s')) \<and> synced r' s' \<and> dom (viewR r') = dom (viewR r)"
proof (cases "viewR r i")
  case None
  then have "hybrid_release R S now i (r, s) = (Inr False, (r, s))"
    using redis.release_absent [of r i now] sql.release_absent [of s i now] neither [OF sync None] sync by (simp add: hybrid_defs)
  with sync show ?thesis by blast
next
  case (Some a)
  obtain b where b: "viewS s i = Some b" "same_core a b" using both [OF sync Some] .
  obtain r' a' where r': "be_release R now i r = (Inr True, r')" "invR r'" "viewR r' = (viewR r)(i \<mapsto> a')"
      "same_submission a a'" "status a' = QUEUED"
    using redis.release_law Some sync by blast
  obtain s' b' where s': "be_release S now i s = (Inr True, s')" "invS s'" "viewS s' = (viewS s)(i \<mapsto> b')"
      "same_submission b b'" "status b' = QUEUED"
    using sql.release_law b(1) sync by blast
  have run: "hybrid_release R S now i (r, s) = (Inr True, (r', s'))" using r'(1) s'(1) by (simp add: hybrid_defs)
  have "in_step (viewR r') (viewS s')"
    unfolding r'(3) s'(3) using sync same_core_step [OF b(2) r'(4) s'(4)] r'(5) s'(5) by (simp add: in_step_upd)
  moreover have "dom (viewR r') = dom (viewR r)" using r'(3) Some by auto
  ultimately show ?thesis using run r'(2) s'(2) by blast
qed

lemma status_sync:
  assumes sync: "synced r s"
  shows "\<exists>ok r' s'. hybrid_update_status R S now i (status_value t) (r, s) = (Inr ok, (r', s')) \<and> synced r' s' \<and> dom (viewR r') = dom (viewR r)"
proof (cases "viewR r i")
  case None
  then have "hybrid_update_status R S now i (status_value t) (r, s) = (Inr False, (r, s))"
    using redis.update_status_absent [of r i now t] sql.update_status_absent [of s i now t] neither [OF sync None] sync
    by (simp add: hybrid_defs)
  with sync show ?thesis by blast
next
  case (Some a)
  obtain b where b: "viewS s i = Some b" "same_core a b" using both [OF sync Some] .
  obtain r' a' where r': "be_update_status R now i (status_value t) r = (Inr True, r')" "invR r'" "viewR r' = (viewR r)(i \<mapsto> a')"
      "same_submission a a'" "status a' = t"
    using redis.update_status_law Some sync by blast
  obtain s' b' where s': "be_update_status S now i (status_value t) s = (Inr True, s')" "invS s'" "viewS s' = (viewS s)(i \<mapsto> b')"
      "same_submission b b'" "status b' = t"
    using sql.update_status_law b(1) sync by blast
  have run: "hybrid_update_status R S now i (status_value t) (r, s) = (Inr True, (r', s'))" using r'(1) s'(1) by (simp add: hybrid_defs)
  have "in_step (viewR r') (viewS s')"
    unfolding r'(3) s'(3) using sync same_core_step [OF b(2) r'(4) s'(4)] r'(5) s'(5) by (simp add: in_step_upd)
  moreover have "dom (viewR r') = dom (viewR r)" using r'(3) Some by auto
  ultimately show ?thesis using run r'(2) s'(2) by blast
qed

lemma touched_dom: "touched v v' \<Longrightarrow> dom v' = dom v"
  by (simp add: touched_def)

lemma heartbeat_sync:
  assumes sync: "synced r s"
  shows "\<exists>ok r' s'. hybrid_heartbeat R S now i (r, s) = (Inr ok, (r', s')) \<and> synced r' s' \<and> dom (viewR r') = dom (viewR r)"
proof -
  obtain x s' where s': "be_heartbeat S now i s = (Inr x, s')" "invS s'" "touched (viewS s) (viewS s')"
    using sql.heartbeat_law sync by blast
  obtain y r' where r': "be_heartbeat R now i r = (Inr y, r')" "invR r'" "touched (viewR r) (viewR r')"
    using redis.heartbeat_law sync by blast
  have "hybrid_heartbeat R S now i (r, s) = (Inr y, (r', s'))" using r'(1) s'(1) by (simp add: hybrid_defs)
  moreover have "in_step (viewR r') (viewS s')" using in_step_touched r'(3) s'(3) sync by blast
  ultimately show ?thesis using r'(2) s'(2) touched_dom [OF r'(3)] by blast
qed

lemma sql_only_sync:
  assumes sync: "synced r s" and "m s = (x, s')" and "invS s'" and "touched (viewS s) (viewS s')"
  shows "\<exists>r'' s''. on_sql m (r, s) = (x, (r'', s'')) \<and> synced r'' s'' \<and> dom (viewR r'') = dom (viewR r)"
proof -
  have "in_step (viewR r) (viewS s')" using in_step_touched [OF _ touched_refl assms(4)] sync by blast
  with assms(2,3) sync show ?thesis by (simp add: on_sql_def on_field_def)
qed

lemma do_call_sync:
  assumes sync: "synced r s" and fresh: "fresh_for (viewR r) (c # cs)"
  shows "\<exists>x r' s'. do_call (hybrid_backend R S) c (r, s) = (x, (r', s')) \<and> synced r' s' \<and> fresh_for (viewR r') cs"
proof (cases c)
  case (CallEnqueue j)
  then obtain r' s' where r': "do_call (hybrid_backend R S) (CallEnqueue j) (r, s) = (Inr True, (r', s'))" "synced r' s'"
      "dom (viewR r') = insert (job_id j) (dom (viewR r))"
    using enqueue_sync [OF sync, of j] fresh by (auto simp: fresh_for_def)
  have "viewR r' (job_id k) = None" if "k \<in> set (enqueued cs)" for k
  proof -
    have "job_id k \<noteq> job_id j" using fresh that CallEnqueue by (auto simp: fresh_for_def intro: rev_image_eqI)
    moreover have "viewR r (job_id k) = None" using fresh that CallEnqueue by (simp add: fresh_for_def)
    ultimately have "job_id k \<notin> dom (viewR r')" using r'(3) by auto
    then show ?thesis by (simp add: domIff)
  qed
  then have "fresh_for (viewR r') cs" using fresh CallEnqueue by (simp add: fresh_for_def)
  with r' CallEnqueue show ?thesis by blast
next
  case (CallClaim now i h w)
  then show ?thesis using claim_sync [OF sync, of now i h w] fresh fresh_cong by (fastforce simp: hybrid_backend_def)
next
  case (CallRelease now i)
  then show ?thesis using release_sync [OF sync, of now i] fresh fresh_cong by (fastforce simp: hybrid_backend_def)
next
  case (CallHeartbeat now i)
  then show ?thesis using heartbeat_sync [OF sync, of now i] fresh fresh_cong by (fastforce simp: hybrid_backend_def)
next
  case (CallStatus now i t)
  then show ?thesis using status_sync [OF sync, of now i t] fresh fresh_cong by (fastforce simp: hybrid_backend_def)
next
  case (CallAttempt now i err)
  then show ?thesis using sql.attempt_law [of s now i err] sync sql_only_sync [OF sync] fresh fresh_cong
    by (fastforce simp: hybrid_backend_def)
next
  case (CallProgress now i p)
  then show ?thesis using sql.progress_law [of s now i p] sync sql_only_sync [OF sync] fresh fresh_cong
    by (fastforce simp: hybrid_backend_def)
next
  case (CallResult now i res)
  then show ?thesis using sql.result_law [of s now i res] sync sql_only_sync [OF sync] fresh fresh_cong
    by (fastforce simp: hybrid_backend_def)
qed

lemma run_sync:
  assumes "synced r s" and "fresh_for (viewR r) cs"
  shows "\<exists>xs r' s'. run_calls (hybrid_backend R S) cs (r, s) = (xs, (r', s')) \<and> synced r' s'"
  using assms
proof (induction cs arbitrary: r s)
  case Nil
  then show ?case by simp
next
  case (Cons c cs)
  obtain x r1 s1 where step: "do_call (hybrid_backend R S) c (r, s) = (x, (r1, s1))" "synced r1 s1" "fresh_for (viewR r1) cs"
    using do_call_sync [OF Cons.prems] by blast
  obtain xs r' s' where "run_calls (hybrid_backend R S) cs (r1, s1) = (xs, (r', s'))" "synced r' s'"
    using Cons.IH [OF step(2,3)] by blast
  with step(1) show ?case by simp
qed

lemma dequeue_sync:
  assumes "synced r s" and "0 \<le> n" and "jt \<noteq> Some []" and "qn \<noteq> Some []"
  shows "\<exists>js. be_dequeue (hybrid_backend R S) n jt qn (r, s) = (Inr js, (r, s)) \<and> int (length js) \<le> n \<and> distinct (map job_id js) \<and>
    (\<forall>j \<in> set js. \<exists>b. viewS s (job_id j) = Some b \<and> same_core j b \<and> dispatchable jt qn b)"
proof -
  obtain js where js: "be_dequeue R n jt qn r = (Inr js, r)" "int (length js) \<le> n" "distinct (map job_id js)"
      "\<forall>j \<in> set js. viewR r (job_id j) = Some j \<and> dispatchable jt qn j"
    using redis.dequeue_law [of r n jt qn] assms by blast
  have "\<exists>b. viewS s (job_id j) = Some b \<and> same_core j b \<and> dispatchable jt qn b" if j: "j \<in> set js" for j
  proof -
    obtain b where b: "viewS s (job_id j) = Some b" "same_core j b" using both [OF assms(1), of "job_id j" j] js(4) j by blast
    moreover have "dispatchable jt qn b" using js(4) j b(2) by (auto simp: dispatchable_def same_core_def)
    ultimately show ?thesis by blast
  qed
  with js(1-3) show ?thesis by (simp add: hybrid_defs)
qed

text \<open>
  Seen from the dispatch backend, a run of the hybrid backend is a run of some of its calls, with the same
  claims won. So claims are exclusive even when the two copies disagree.
\<close>

lemma redis_step:
  assumes "invR r" and "invS s" and run: "do_call (hybrid_backend R S) c (r, s) = (x, (r', s'))"
  shows "invS s' \<and> (r' = r \<and> \<not> claims_of jid c \<or> (\<exists>y. do_call R c r = (y, r') \<and> (claims_of jid c \<longrightarrow> y = x)))"
proof (cases c)
  case (CallEnqueue j)
  obtain y s1 where s1: "be_enqueue S j s = (y, s1)" by (cases "be_enqueue S j s")
  obtain z r1 where r1: "be_enqueue R j r = (z, r1)" by (cases "be_enqueue R j r")
  show ?thesis
    using sql.enqueue_frame [OF assms(2) s1] s1 r1 run CallEnqueue by (cases y; cases z) (auto simp: hybrid_defs)
next
  case (CallClaim now i h w)
  obtain y r1 where r1: "be_claim R now i h w r = (Inr y, r1)"
    using redis.claim_won [OF assms(1), of i _ now h w] redis.claim_lost [OF assms(1), of i now h w] by blast
  obtain z s1 where s1: "be_claim S now i h w s = (Inr z, s1)" "invS s1"
    using sql.claim_won [OF assms(2), of i _ now h w] sql.claim_lost [OF assms(2), of i now h w] assms(2) by blast
  show ?thesis using r1 s1 run CallClaim assms(2) by (cases y) (auto simp: hybrid_defs)
next
  case (CallRelease now i)
  obtain z s1 where s1: "be_release S now i s = (Inr z, s1)" "invS s1"
    using sql.release_law [OF assms(2), of i _ now] sql.release_absent [OF assms(2), of i now] assms(2) by (cases "viewS s i") blast+
  show ?thesis using s1 run CallRelease by (auto simp: hybrid_defs split: prod.splits)
next
  case (CallHeartbeat now i)
  obtain z s1 where s1: "be_heartbeat S now i s = (Inr z, s1)" "invS s1" using sql.heartbeat_law [OF assms(2)] by blast
  show ?thesis using s1 run CallHeartbeat by (auto simp: hybrid_defs split: prod.splits)
next
  case (CallStatus now i t)
  obtain z r1 where r1: "be_update_status R now i (status_value t) r = (Inr z, r1)"
    using redis.update_status_gen [OF assms(1)] by blast
  obtain y s1 where s1: "be_update_status S now i (status_value t) s = (Inr y, s1)" "invS s1"
    using sql.update_status_gen [OF assms(2)] by blast
  show ?thesis using r1 s1 run CallStatus by (auto simp: hybrid_defs)
next
  case (CallAttempt now i err)
  obtain y s1 where s1: "be_record_attempt S now i err s = (Inr y, s1)" "invS s1" using sql.attempt_law [OF assms(2)] by blast
  show ?thesis using s1 run CallAttempt by (auto simp: hybrid_defs)
next
  case (CallProgress now i p)
  obtain y s1 where s1: "be_update_progress S now i p s = (Inr y, s1)" "invS s1" using sql.progress_law [OF assms(2)] by blast
  show ?thesis using s1 run CallProgress by (auto simp: hybrid_defs)
next
  case (CallResult now i res)
  obtain y s1 where s1: "be_store_result S now i res s = (y, s1)" "invS s1" using sql.result_law [OF assms(2)] by blast
  show ?thesis using s1 run CallResult by (auto simp: hybrid_defs)
qed

lemma run_projects:
  assumes "invR r" and "invS s"
  shows "\<exists>ds. set ds \<subseteq> set cs \<and>
    won_claims jid cs (fst (run_calls (hybrid_backend R S) cs (r, s))) = won_claims jid ds (fst (run_calls R ds r))"
  using assms
proof (induction cs arbitrary: r s)
  case Nil
  then show ?case by (intro exI [of _ "[]"]) simp
next
  case (Cons c cs)
  obtain x r' s' where run: "do_call (hybrid_backend R S) c (r, s) = (x, (r', s'))" by (metis prod.collapse)
  have count: "won_claims jid (c # cs) (fst (run_calls (hybrid_backend R S) (c # cs) (r, s))) =
      (if claims_of jid c \<and> x = Inr True then 1 else 0) + won_claims jid cs (fst (run_calls (hybrid_backend R S) cs (r', s')))"
    using run by (auto simp: won_claims_def split: prod.splits)
  note step = redis_step [OF Cons.prems run, of jid]
  then consider (skip) "r' = r" "\<not> claims_of jid c" | (call) y where "do_call R c r = (y, r')" "claims_of jid c \<longrightarrow> y = x" by blast
  then show ?case
  proof cases
    case skip
    obtain ds where "set ds \<subseteq> set cs"
        "won_claims jid cs (fst (run_calls (hybrid_backend R S) cs (r, s'))) = won_claims jid ds (fst (run_calls R ds r))"
      using Cons.IH [OF Cons.prems(1), of s'] step by blast
    with skip count show ?thesis by (intro exI [of _ ds]) auto
  next
    case call
    have "invR r'" using redis.do_call_inv [OF Cons.prems(1) call(1)] .
    then obtain ds where ds: "set ds \<subseteq> set cs"
        "won_claims jid cs (fst (run_calls (hybrid_backend R S) cs (r', s'))) = won_claims jid ds (fst (run_calls R ds r'))"
      using Cons.IH [of r' s'] step by blast
    have "won_claims jid (c # ds) (fst (run_calls R (c # ds) r)) =
        (if claims_of jid c \<and> y = Inr True then 1 else 0) + won_claims jid ds (fst (run_calls R ds r'))"
      using call(1) by (auto simp: won_claims_def split: prod.splits)
    with ds call(2) count show ?thesis by (intro exI [of _ "c # ds"]) auto
  qed
qed

lemma hybrid_exclusive:
  assumes "invR r" and "invS s" and "\<forall>c \<in> set cs. \<not> requeues jid c"
  shows "won_claims jid cs (fst (run_calls (hybrid_backend R S) cs (r, s))) \<le> 1"
proof -
  obtain ds where "set ds \<subseteq> set cs"
      "won_claims jid cs (fst (run_calls (hybrid_backend R S) cs (r, s))) = won_claims jid ds (fst (run_calls R ds r))"
    using run_projects [OF assms(1,2)] by blast
  with redis.claim_exclusive [OF assms(1), of ds jid] assms(3) show ?thesis by auto
qed

end

end
