(* ===== verification/Redis_Properties.thy ===== *)
theory Redis_Properties
  imports Redis_Lease Hybrid_Backend Queue_Properties
begin

section \<open>Properties of the Redis and hybrid backends\<close>

text \<open>
  The clients of the queue over every Redis server, and the properties of the leases. What a server
  does is the hypothesis \<open>redis_server\<close>; the witnesses use the server of association lists.
\<close>

sublocale redis_server \<subseteq> redisq: fanning_out "redis_backend rd cfg" "redis_inv hashes" "redis_view hashes" redis_stored
  by unfold_locales

sublocale redis_server \<subseteq> redisw: working "redis_backend rd cfg" "redis_inv hashes" "redis_view hashes" redis_stored
  by unfold_locales

subsection \<open>A server to evaluate\<close>

definition empty_redis :: "time \<Rightarrow> redis_state" where
  "empty_redis now = \<lparr>rs_hashes = [], rs_sets = [], rs_texts = [], rs_clock = now\<rparr>"

abbreviation demo_redis :: "redis_state redis_ops" where
  "demo_redis \<equiv> list_redis default_redis"

lemma empty_redis_inv: "redis_inv (st_hashes default_redis) (empty_redis now)"
  by (simp add: redis_inv_def st_hashes_def st_hash_def empty_redis_def)

abbreviation demo_inv :: "redis_state \<Rightarrow> bool" where
  "demo_inv \<equiv> redis_inv (st_hashes default_redis)"

abbreviation demo_view :: "redis_state \<Rightarrow> string \<Rightarrow> job option" where
  "demo_view \<equiv> redis_view (st_hashes default_redis)"

text \<open>One queued job at time \<open>0\<close>, and the same job claimed at time \<open>0\<close>, seen at a later time.\<close>

definition demo_queued :: redis_state where
  "demo_queued = snd (redis_enqueue demo_redis default_redis (demo_job ''a'' 1) (empty_redis 0))"

definition demo_claimed :: "time \<Rightarrow> redis_state" where
  "demo_claimed t = (snd (redis_claim demo_redis default_redis 0 ''a'' ''h'' ''w'' demo_queued))\<lparr>rs_clock := t\<rparr>"

lemma lapsed_single:
  assumes "dom v = {a}" and "\<exists>j. v a = Some j \<and> status j = RUNNING" and "ls a = Some t" and "\<not> now < t"
  shows "{i. lapsed v ls now i} = {a}"
  using assms by (auto simp: lapsed_def)

lemma demo_stored:
  "(demo_job i n)\<lparr>claimed_by := truthy_text (claimed_by (demo_job i n)), next_run_at := None,
     last_error := truthy_val (last_error (demo_job i n)), result_ref := result_read (result_ref (demo_job i n)),
     progress := truthy_val (progress (demo_job i n)), trace_id := truthy_text (trace_id (demo_job i n))\<rparr> = demo_job i n"
  by (simp add: demo_job_def new_job_def truthy_text_def truthy_val_def result_read_def result_text_def)

lemma demo_queued_facts:
  "demo_inv demo_queued" "demo_view demo_queued = [''a'' \<mapsto> redis_stored (demo_job ''a'' 1)]"
proof -
  obtain h where h: "job_to_hash (demo_job ''a'' 1) = Inr h"
    using job_to_hash_no_result [of "demo_job ''a'' 1"] by (auto simp: demo_job_def new_job_def)
  have v: "demo_view (empty_redis 0) = Map.empty"
    by (auto simp: redis_view_def [abs_def] st_hashes_def st_hash_def empty_redis_def)
  obtain r' where r': "redis_enqueue demo_redis default_redis (demo_job ''a'' 1) (empty_redis 0) = (Inr (job_id (demo_job ''a'' 1)), r')"
      "demo_inv r'" "demo_view r' = (demo_view (empty_redis 0))(job_id (demo_job ''a'' 1) \<mapsto> redis_stored (demo_job ''a'' 1))"
    using listr.enqueue_hash [OF empty_redis_inv [of 0] h] by (elim exE conjE) (rule that, assumption+)
  then have "demo_queued = r'" by (simp add: demo_queued_def)
  with r' v show "demo_inv demo_queued" "demo_view demo_queued = [''a'' \<mapsto> redis_stored (demo_job ''a'' 1)]" by simp_all
qed

lemma demo_clock: "rs_clock demo_queued = 0"
proof -
  have "job_to_hash (demo_job ''a'' 1) = Inr h \<Longrightarrow> ?thesis" for h
    by (simp add: demo_queued_def redis_enqueue_def redis_add_def list_redis_def empty_redis_def lift_res_def bind_py_def seq_py_def ret_def)
  then show ?thesis using job_to_hash_no_result [of "demo_job ''a'' 1"] by (auto simp: demo_job_def new_job_def)
qed

lemma demo_claimed_facts:
  "demo_inv (demo_claimed t)" "dom (demo_view (demo_claimed t)) = {''a''}"
  "\<exists>j. demo_view (demo_claimed t) ''a'' = Some j \<and> status j = RUNNING"
  "st_leases default_redis (demo_claimed t) ''a'' = Some (120 * second)"
  "st_index default_redis (demo_claimed t) ''a'' = None"
proof -
  have a: "demo_view demo_queued ''a'' = Some (redis_stored (demo_job ''a'' 1))" "status (redis_stored (demo_job ''a'' 1)) = QUEUED"
    using demo_queued_facts(2) by (simp_all add: redis_stored_def)
  obtain r' j' where r': "redis_claim demo_redis default_redis 0 ''a'' ''h'' ''w'' demo_queued = (Inr True, r')" "demo_inv r'"
      "demo_view r' = (demo_view demo_queued)(''a'' \<mapsto> j')" "status j' = RUNNING"
      "st_index default_redis r' = (st_index default_redis demo_queued)(''a'' := None)"
      "st_leases default_redis r' = (st_leases default_redis demo_queued)
        (''a'' \<mapsto> rd_clock demo_redis demo_queued + rc_lease_timeout default_redis * second)"
    using listr.claim_run [OF demo_queued_facts(1) a, of 0 "''h''" "''w''"] by (elim exE conjE) (rule that, assumption+)
  have e: "demo_claimed t = r'\<lparr>rs_clock := t\<rparr>" using r'(1) by (simp add: demo_claimed_def)
  then have h: "st_hashes default_redis (demo_claimed t) = st_hashes default_redis r'"
      "st_index default_redis (demo_claimed t) = st_index default_redis r'"
      "st_leases default_redis (demo_claimed t) = st_leases default_redis r'"
    by (simp_all add: st_defs)
  have v: "demo_inv (demo_claimed t) \<and> demo_view (demo_claimed t) = demo_view r'" using listr.inv_same [OF r'(2) h(1)] .
  then show "demo_inv (demo_claimed t)" "dom (demo_view (demo_claimed t)) = {''a''}"
      "\<exists>j. demo_view (demo_claimed t) ''a'' = Some j \<and> status j = RUNNING"
    using r'(3,4) demo_queued_facts(2) by simp_all
  have "rd_clock demo_redis demo_queued = 0" using demo_clock by (simp add: list_redis_def)
  then show "st_leases default_redis (demo_claimed t) ''a'' = Some (120 * second)" "st_index default_redis (demo_claimed t) ''a'' = None"
    using h(2,3) r'(5,6) by (simp_all add: default_redis_def new_redis_config_def)
qed

context redis_server
begin

lemma redis_contract: "queue_backend (redis_backend rd cfg) (redis_inv hashes) (redis_view hashes) redis_stored"
  by (rule redisb.queue_backend_axioms)

lemma requeue_hidden:
  assumes inv: "rinv r" and j: "rview r i = Some j" and idx: "index r i = None" and n: "0 \<le> n"
  shows "\<exists>r' j' js. redis_update_status rd cfg now i (status_value QUEUED) r = (Inr True, r') \<and>
    rview r' i = Some j' \<and> status j' = QUEUED \<and> redis_dequeue rd cfg n jt qn r' = (Inr js, r') \<and> i \<notin> job_id ` set js"
proof -
  obtain r' j' where r': "redis_update_status rd cfg now i (status_value QUEUED) r = (Inr True, r')" "rinv r'"
      "rview r' = (rview r)(i \<mapsto> j')" "status j' = QUEUED" "index r' = (if QUEUED = QUEUED then index r else (index r)(i := None))"
    using status_run [OF inv j, of now QUEUED] by (elim exE conjE) (rule that, assumption+)
  obtain ids where ids: "set ids \<subseteq> dom (index r')"
      "redis_dequeue rd cfg n jt qn r' = (Inr (take (nat n) (filter (dispatchable jt qn) (List.map_filter (rview r') ids))), r')"
    using dequeue_run [OF r'(2) n, of jt qn] by (elim exE conjE) (rule that, assumption+)
  let ?js = "take (nat n) (filter (dispatchable jt qn) (List.map_filter (rview r') ids))"
  have "i \<notin> job_id ` set ?js"
  proof
    assume "i \<in> job_id ` set ?js"
    then obtain k where k: "k \<in> set ?js" "job_id k = i" by blast
    from k(1) have "k \<in> set (filter (dispatchable jt qn) (List.map_filter (rview r') ids))" by (rule in_set_takeD)
    then obtain i' where "i' \<in> set ids" "rview r' i' = Some k" by (auto simp: List.map_filter_def)
    then have "i \<in> set ids" using id_of [OF r'(2)] k(2) by auto
    then show False using ids(1) r'(5) idx by auto
  qed
  with r' ids(2) show ?thesis by (intro exI [of _ r'] exI [of _ j'] exI [of _ ?js]) simp
qed

lemma enqueue_get:
  assumes "rinv r" and "job_to_hash j = Inr h"
  shows "\<exists>r'. redis_enqueue rd cfg j r = (Inr (job_id j), r') \<and> rinv r' \<and> redis_get rd cfg (job_id j) r' = (Inr (Some (redis_stored j)), r')"
proof -
  obtain r' where r': "redis_enqueue rd cfg j r = (Inr (job_id j), r')" "rinv r'" "rview r' = (rview r)(job_id j \<mapsto> redis_stored j)"
    using enqueue_hash [OF assms] by (elim exE conjE) (rule that, assumption+)
  then show ?thesis using get_run [OF r'(2), of "job_id j"] by auto
qed

end

subsection \<open>Claims\<close>

text \<open>
  C3. The Redis backend has the guarantee too, over every server with the documented commands: in every
  interleaving of calls that does not requeue a job, the claim script lets at most one worker win.
\<close>

theorem redis_claim_exclusive:
  assumes "redis_server rd cfg hashes index leases" and "redis_inv hashes r" and "\<forall>c \<in> set cs. \<not> requeues jid c"
  shows "won_claims jid cs (fst (run_calls (redis_backend rd cfg) cs r)) \<le> 1"
  using queue_backend.claim_exclusive [OF redis_server.redis_contract [OF assms(1)] assms(2,3)] .

theorem redis_claim_exclusive_witness:
  "won_claims ''a'' [CallClaim 1 ''a'' ''h'' ''w1'', CallHeartbeat 2 ''a'', CallClaim 3 ''a'' ''h'' ''w2'']
     (fst (run_calls (redis_backend demo_redis default_redis)
       [CallClaim 1 ''a'' ''h'' ''w1'', CallHeartbeat 2 ''a'', CallClaim 3 ''a'' ''h'' ''w2''] demo_queued)) \<le> 1"
  by (rule redis_claim_exclusive [OF listr.redis_server_axioms demo_queued_facts(1)]) simp

subsection \<open>The stored job\<close>

text \<open>
  C14. A job stored in Redis reads back as it was submitted: every field of the hash decodes to the value
  that was encoded, whatever the payload, the metadata and the texts contain; an empty text, a false
  error or progress and the next run time, which the hash has no field for, read as missing. Only a
  result that is neither a text nor a number is refused.
\<close>

theorem redis_job_roundtrip:
  assumes "redis_server rd cfg hashes index leases" and "redis_inv hashes r" and "job_to_hash j = Inr h"
  shows "\<exists>r'. redis_enqueue rd cfg j r = (Inr (job_id j), r') \<and> redis_inv hashes r' \<and>
    redis_get rd cfg (job_id j) r' =
      (Inr (Some (j\<lparr>claimed_by := truthy_text (claimed_by j), next_run_at := None, last_error := truthy_val (last_error j),
        result_ref := result_read (result_ref j), progress := truthy_val (progress j), trace_id := truthy_text (trace_id j)\<rparr>)), r')"
  using redis_server.enqueue_get [OF assms] unfolding redis_stored_def .

theorem redis_job_roundtrip_witness:
  "\<exists>r'. redis_enqueue demo_redis default_redis (demo_job ''a'' 1) (empty_redis 0) = (Inr ''a'', r') \<and>
    redis_get demo_redis default_redis ''a'' r' = (Inr (Some (demo_job ''a'' 1)), r')"
proof -
  obtain h where h: "job_to_hash (demo_job ''a'' 1) = Inr h"
    using job_to_hash_no_result [of "demo_job ''a'' 1"] by (auto simp: demo_job_def new_job_def)
  show ?thesis
    using redis_job_roundtrip [OF listr.redis_server_axioms empty_redis_inv [of 0] h] unfolding demo_stored by auto
qed

subsection \<open>Leases\<close>

text \<open>
  C12. A pass of the lease reaper hands back exactly the running jobs whose lease has ended: each of them
  is queued again without a claimant, with the submission it had, is back in the sorted set and is
  reported once, and no other job or lease changes. The identifiers must not contain a colon, since the
  reaper cuts them out of the keys.
\<close>

theorem redis_reap_exact:
  assumes "redis_server rd cfg hashes index leases" and "redis_inv hashes r" and "\<forall>i \<in> dom (redis_view hashes r). plain_id i"
  shows "\<exists>reaped r'. reap_expired_leases rd cfg clk r = (Inr reaped, r') \<and> redis_inv hashes r' \<and> distinct reaped \<and>
    set reaped = {i. lapsed (redis_view hashes r) (leases r) (rd_clock rd r) i} \<and>
    (\<forall>i \<in> set reaped. handed_back (redis_view hashes r) (redis_view hashes r') i) \<and>
    dom (index r') = dom (index r) \<union> set reaped \<and>
    (\<forall>i. i \<notin> set reaped \<longrightarrow> redis_view hashes r' i = redis_view hashes r i \<and> leases r' i = leases r i)"
  by (rule redis_server.reap_exact [OF assms])

theorem redis_reap_exact_witness:
  "\<exists>r'. reap_expired_leases demo_redis default_redis (\<lambda>_. 0) (demo_claimed (120 * second)) = (Inr [''a''], r') \<and>
     handed_back (demo_view (demo_claimed (120 * second))) (demo_view r') ''a''"
proof -
  have plain: "\<forall>i \<in> dom (demo_view (demo_claimed (120 * second))). plain_id i"
    using demo_claimed_facts(2) by (simp add: plain_id_def)
  have clk: "rd_clock demo_redis (demo_claimed (120 * second)) = 120 * second" by (simp add: list_redis_def demo_claimed_def)
  have "{i. lapsed (demo_view (demo_claimed (120 * second))) (st_leases default_redis (demo_claimed (120 * second)))
      (rd_clock demo_redis (demo_claimed (120 * second))) i} = {''a''}"
    unfolding clk
    by (rule lapsed_single [of "demo_view (demo_claimed (120 * second))" "''a''" "st_leases default_redis (demo_claimed (120 * second))"])
      (rule demo_claimed_facts(2), rule demo_claimed_facts(3), rule demo_claimed_facts(4), simp)
  with redis_reap_exact [OF listr.redis_server_axioms demo_claimed_facts(1) plain, of "\<lambda>_. 0"]
  obtain reaped r' where "reap_expired_leases demo_redis default_redis (\<lambda>_. 0) (demo_claimed (120 * second)) = (Inr reaped, r')"
      "distinct reaped" "set reaped = {''a''}" "\<forall>i \<in> set reaped. handed_back (demo_view (demo_claimed (120 * second))) (demo_view r') i"
    by (elim exE conjE) (rule that, assumption+, simp, assumption+)
  moreover have "reaped = [''a'']" using calculation(2,3) by (cases reaped) (auto simp: subset_singleton_iff)
  ultimately show ?thesis by auto
qed

text \<open>
  C13. The lease protects a worker: after a claim, and after a heartbeat made while the lease is alive, the
  job is not reapable at any time before the lease timeout has passed.
\<close>

theorem redis_lease_protects:
  assumes "redis_server rd cfg hashes index leases" and "redis_inv hashes r"
    and "t < rd_clock rd r + rc_lease_timeout cfg * second"
    and "(\<exists>j. redis_view hashes r i = Some j \<and> status j = QUEUED) \<and> redis_claim rd cfg now i host worker r = (Inr True, r') \<or>
      (\<exists>e. leases r i = Some e \<and> rd_clock rd r < e) \<and> redis_heartbeat rd cfg now i r = (Inr True, r')"
  shows "\<not> lapsed (redis_view hashes r') (leases r') t i"
  using assms(4)
proof (elim disjE conjE exE)
  fix j assume "redis_view hashes r i = Some j" "status j = QUEUED" "redis_claim rd cfg now i host worker r = (Inr True, r')"
  then show ?thesis by (rule redis_server.claim_leases [OF assms(1,2) _ _ _ assms(3)])
next
  fix e assume "leases r i = Some e" "rd_clock rd r < e" "redis_heartbeat rd cfg now i r = (Inr True, r')"
  then show ?thesis by (rule redis_server.heartbeat_leases [OF assms(1,2) _ _ _ assms(3)])
qed

theorem redis_lease_protects_witness:
  "\<exists>r'. redis_heartbeat demo_redis default_redis 60 ''a'' (demo_claimed (60 * second)) = (Inr True, r') \<and>
     \<not> lapsed (demo_view r') (st_leases default_redis r') (170 * second) ''a''"
proof -
  have clk: "rd_clock demo_redis (demo_claimed (60 * second)) = 60 * second" by (simp add: list_redis_def demo_claimed_def)
  obtain ok r' where r': "redis_heartbeat demo_redis default_redis 60 ''a'' (demo_claimed (60 * second)) = (Inr ok, r')"
      "ok \<longleftrightarrow> (\<exists>j. demo_view (demo_claimed (60 * second)) ''a'' = Some j \<and> status j = RUNNING)"
    using listr.heartbeat_run [OF demo_claimed_facts(1), of 60 "''a''" "60 * second"] by (elim exE conjE) (rule that, assumption+)
  have ok: "ok" unfolding r'(2) by (rule demo_claimed_facts(3))
  have "\<not> lapsed (demo_view r') (st_leases default_redis r') (170 * second) ''a''"
  proof (rule redis_lease_protects [OF listr.redis_server_axioms demo_claimed_facts(1)])
    show "170 * second < rd_clock demo_redis (demo_claimed (60 * second)) + rc_lease_timeout default_redis * second"
      unfolding clk by (simp add: default_redis_def new_redis_config_def)
    show "(\<exists>j. demo_view (demo_claimed (60 * second)) ''a'' = Some j \<and> status j = QUEUED) \<and>
        redis_claim demo_redis default_redis 60 ''a'' ''h'' ''w'' (demo_claimed (60 * second)) = (Inr True, r') \<or>
      (\<exists>e. st_leases default_redis (demo_claimed (60 * second)) ''a'' = Some e \<and> rd_clock demo_redis (demo_claimed (60 * second)) < e) \<and>
        redis_heartbeat demo_redis default_redis 60 ''a'' (demo_claimed (60 * second)) = (Inr True, r')"
      using r'(1) ok demo_claimed_facts(4) [of "60 * second"] unfolding clk by (intro disjI2 conjI) simp_all
  qed
  with r'(1) ok show ?thesis by auto
qed

text \<open>
  A job that has left the sorted set and is put back with \<open>update_status(job_id, "queued")\<close>, as
  a retry and a reschedule do, reads as queued and is never dispatched: whatever a dequeue asks for, its
  result does not contain the job.
\<close>

theorem redis_requeue_hidden:
  assumes "redis_server rd cfg hashes index leases" and "redis_inv hashes r" and "redis_view hashes r i = Some j"
    and "index r i = None" and "0 \<le> n"
  shows "\<exists>r' j' js. redis_update_status rd cfg now i (status_value QUEUED) r = (Inr True, r') \<and>
    redis_view hashes r' i = Some j' \<and> status j' = QUEUED \<and> redis_dequeue rd cfg n jt qn r' = (Inr js, r') \<and> i \<notin> job_id ` set js"
  by (rule redis_server.requeue_hidden [OF assms])

theorem redis_requeue_hidden_witness:
  "\<exists>r' j' js. redis_update_status demo_redis default_redis 9 ''a'' ''queued'' (demo_claimed 5) = (Inr True, r') \<and>
    demo_view r' ''a'' = Some j' \<and> status j' = QUEUED \<and> redis_dequeue demo_redis default_redis 10 None None r' = (Inr js, r') \<and>
    ''a'' \<notin> job_id ` set js"
proof -
  obtain j where j: "demo_view (demo_claimed 5) ''a'' = Some j" using demo_claimed_facts(3) by blast
  show ?thesis
    using redis_requeue_hidden [OF listr.redis_server_axioms demo_claimed_facts(1) j demo_claimed_facts(5), of 10 9 None None] by simp
qed

subsection \<open>The hybrid backend\<close>

lemma hybrid_of:
  assumes "redis_server rd cfg hashes index leases" and "job_table tb rows"
  shows "hybrid (redis_backend rd cfg) (redis_inv hashes) (redis_view hashes) redis_stored
    (sql_ops tb) (sql_inv rows) (sql_view rows) sql_stored"
  unfolding hybrid_def
  using redis_server.redis_contract [OF assms(1)] ordered_backend.axioms(1) [OF job_table.sql_contract [OF assms(2)]] by simp

interpretation listh: hybrid "redis_backend demo_redis default_redis" "redis_inv (st_hashes default_redis)" "redis_view (st_hashes default_redis)"
  redis_stored "sql_ops list_table" "sql_inv find_row" "sql_view find_row" sql_stored
  by (rule hybrid_of [OF listr.redis_server_axioms listt.job_table_axioms])

text \<open>Both stores empty, and one queued job in both.\<close>

lemma empty_both:
  "demo_view (empty_redis 0) = Map.empty" "sql_view find_row [] = Map.empty" "sql_inv find_row []"
  "in_step (demo_view (empty_redis 0)) (sql_view find_row [])"
proof -
  show v: "demo_view (empty_redis 0) = Map.empty"
    by (auto simp: redis_view_def [abs_def] st_hashes_def st_hash_def empty_redis_def)
  show w: "sql_view find_row [] = Map.empty" by (auto simp: sql_view_def find_row_def fun_eq_iff)
  show "sql_inv find_row []" by (simp add: sql_inv_def find_row_def)
  show "in_step (demo_view (empty_redis 0)) (sql_view find_row [])" by (simp add: in_step_def v w)
qed

definition demo_hybrid :: "redis_state \<times> job_row list" where
  "demo_hybrid = snd (do_call (hybrid_backend (redis_backend demo_redis default_redis) (sql_ops list_table))
     (CallEnqueue (demo_job ''a'' 1)) (empty_redis 0, []))"

lemma demo_hybrid_facts:
  "demo_inv (fst demo_hybrid)" "sql_inv find_row (snd demo_hybrid)" "in_step (demo_view (fst demo_hybrid)) (sql_view find_row (snd demo_hybrid))"
  "sql_view find_row (snd demo_hybrid) ''a'' = Some (sql_stored (demo_job ''a'' 1))"
proof -
  have sync: "demo_inv (empty_redis 0) \<and> sql_inv find_row [] \<and> in_step (demo_view (empty_redis 0)) (sql_view find_row [])"
    using empty_redis_inv empty_both(3,4) by blast
  obtain r' d' where e: "do_call (hybrid_backend (redis_backend demo_redis default_redis) (sql_ops list_table))
        (CallEnqueue (demo_job ''a'' 1)) (empty_redis 0, []) = (Inr True, (r', d'))"
      "demo_inv r' \<and> sql_inv find_row d' \<and> in_step (demo_view r') (sql_view find_row d')"
      "sql_view find_row d' = (sql_view find_row [])(job_id (demo_job ''a'' 1) \<mapsto> sql_stored (demo_job ''a'' 1))"
    using listh.enqueue_sync [OF sync, of "demo_job ''a'' 1"] empty_both(1) by (auto simp: demo_job_def new_job_def)
  have eq: "fst demo_hybrid = r'" "snd demo_hybrid = d'" unfolding demo_hybrid_def e(1) by simp_all
  show "demo_inv (fst demo_hybrid)" "sql_inv find_row (snd demo_hybrid)"
      "in_step (demo_view (fst demo_hybrid)) (sql_view find_row (snd demo_hybrid))"
    unfolding eq using e(2) by simp_all
  show "sql_view find_row (snd demo_hybrid) ''a'' = Some (sql_stored (demo_job ''a'' 1))"
    unfolding eq e(3) by simp
qed

text \<open>
  C4. The hybrid backend keeps its two copies in step: after any interleaving of calls whose new jobs have new
  identifiers, Redis and the SQL table hold the same jobs in the same status with the same submission.
\<close>

theorem hybrid_in_step:
  assumes "redis_server rd cfg hashes index leases" and "job_table tb rows"
    and "redis_inv hashes r" and "sql_inv rows d" and "in_step (redis_view hashes r) (sql_view rows d)"
    and "fresh_for (redis_view hashes r) cs"
  shows "\<exists>xs r' d'. run_calls (hybrid_backend (redis_backend rd cfg) (sql_ops tb)) cs (r, d) = (xs, (r', d')) \<and>
    redis_inv hashes r' \<and> sql_inv rows d' \<and> in_step (redis_view hashes r') (sql_view rows d')"
  using hybrid.run_sync [OF hybrid_of [OF assms(1,2)]] assms(3-6) by blast

theorem hybrid_in_step_witness:
  "\<exists>xs r' d'. run_calls (hybrid_backend (redis_backend demo_redis default_redis) (sql_ops list_table))
      [CallEnqueue (demo_job ''a'' 1), CallClaim 1 ''a'' ''h'' ''w'', CallAttempt 2 ''a'' None, CallStatus 3 ''a'' FAILED]
      (empty_redis 0, []) = (xs, (r', d')) \<and> in_step (demo_view r') (sql_view find_row d')"
proof -
  have f: "fresh_for (demo_view (empty_redis 0))
      [CallEnqueue (demo_job ''a'' 1), CallClaim 1 ''a'' ''h'' ''w'', CallAttempt 2 ''a'' None, CallStatus 3 ''a'' FAILED]"
    by (simp add: fresh_for_def empty_both demo_job_def new_job_def)
  show ?thesis
    using hybrid_in_step [OF listr.redis_server_axioms listt.job_table_axioms empty_redis_inv empty_both(3,4) f] by blast
qed

text \<open>
  While the copies are in step, a claim through the hybrid backend succeeds exactly when the durable job is
  queued, and then the durable job is running for that worker; and in every interleaving without a requeue
  at most one claim of a job is won.
\<close>

theorem hybrid_claim_exact:
  assumes "redis_server rd cfg hashes index leases" and "job_table tb rows" and "redis_inv hashes r" and "sql_inv rows d"
  shows "(in_step (redis_view hashes r) (sql_view rows d) \<longrightarrow>
      (\<exists>ok r' d'. hybrid_claim (redis_backend rd cfg) (sql_ops tb) now i host worker (r, d) = (Inr ok, (r', d')) \<and>
        (ok \<longleftrightarrow> (\<exists>b. sql_view rows d i = Some b \<and> status b = QUEUED)) \<and>
        (ok \<longrightarrow> (\<exists>b. sql_view rows d' i = Some b \<and> status b = RUNNING \<and> claimed_by b = Some (host @ '':'' @ worker))))) \<and>
    ((\<forall>c \<in> set cs. \<not> requeues i c) \<longrightarrow>
      won_claims i cs (fst (run_calls (hybrid_backend (redis_backend rd cfg) (sql_ops tb)) cs (r, d))) \<le> 1)"
  using hybrid.claim_sync [OF hybrid_of [OF assms(1,2)], of r d now i host worker]
    hybrid.hybrid_exclusive [OF hybrid_of [OF assms(1,2)] assms(3,4), of cs i] assms(3,4) by blast

theorem hybrid_claim_exact_witness:
  "\<exists>r' d' b. hybrid_claim (redis_backend demo_redis default_redis) (sql_ops list_table) 1 ''a'' ''h'' ''w''
      (fst demo_hybrid, snd demo_hybrid) = (Inr True, (r', d')) \<and> sql_view find_row d' ''a'' = Some b \<and> claimed_by b = Some ''h:w''"
proof -
  have q: "\<exists>b. sql_view find_row (snd demo_hybrid) ''a'' = Some b \<and> status b = QUEUED"
    using demo_hybrid_facts(4) listt.sqlb.stored_law [of "demo_job ''a'' 1"] by simp
  show ?thesis
    using hybrid_claim_exact [OF listr.redis_server_axioms listt.job_table_axioms demo_hybrid_facts(1,2), of 1 "''a''" "''h''" "''w''" "[]"]
      demo_hybrid_facts(3) q by fastforce
qed

end
