(* ===== verification/Hybrid_Process.thy ===== *)
theory Hybrid_Process
  imports Worker_Process Hybrid_Backend
begin

section \<open>The hybrid backend under interleaving\<close>

text \<open>
  A method of \<open>HybridQueueBackend\<close> is not one step: it calls a method of the Redis backend and a method of
  the SQL backend, one after the other and without a lock, and other threads may run in between. Here a
  thread is a tree of calls to the two stores; \<open>split_proc\<close> cuts the calls of a thread over the hybrid
  backend into these, in the order of \<open>backends/hybrid_backend.py\<close>.

  \<open>run_split\<close> shows that a split thread, run alone, is the thread over \<open>hybrid_backend\<close>. For the
  interleavings, a run over both stores is seen from Redis as a run over Redis alone, in which the answers
  of SQL are part of the threads (\<open>redis_view_of_run\<close>, a backward simulation, since a thread is
  fixed before its answers are known); so what \<open>Call_Process\<close> proves of one backend holds of Redis. The SQL copy of
  a job follows the thread that won the claim in Redis.
\<close>

subsection \<open>Trees of calls to two stores\<close>

datatype store = InRedis | InSql

datatype 'a duo =
    Stop "exn + 'a"
  | Ask store backend_call "exn + bool \<Rightarrow> 'a duo"
  | Pick int "string option" "string option" "exn + job list \<Rightarrow> 'a duo"
  | Start job "'a duo"

definition ask_then :: "store \<Rightarrow> backend_call \<Rightarrow> (bool \<Rightarrow> 'a duo) \<Rightarrow> (exn + bool \<Rightarrow> 'a duo) \<Rightarrow> 'a duo" where
  "ask_then st c f k = Ask st c (\<lambda>r. case r of Inl e \<Rightarrow> k (Inl e) | Inr x \<Rightarrow> f x)"

text \<open>The methods of the hybrid backend; \<open>k\<close> is what the thread does with the answer.\<close>

fun split_call :: "backend_call \<Rightarrow> (exn + bool \<Rightarrow> 'a duo) \<Rightarrow> 'a duo" where
  "split_call (CallEnqueue j) k = ask_then InSql (CallEnqueue j) (\<lambda>_. Ask InRedis (CallEnqueue j) k) k"
| "split_call (CallClaim now i h w) k =
     ask_then InRedis (CallClaim now i h w)
       (\<lambda>ok. if \<not> ok then k (Inr False)
             else ask_then InSql (CallClaim now i h w) (\<lambda>_. k (Inr True)) k) k"
| "split_call (CallRelease now i) k = ask_then InSql (CallRelease now i) (\<lambda>_. Ask InRedis (CallRelease now i) k) k"
| "split_call (CallHeartbeat now i) k =
     ask_then InSql (CallHeartbeat now i) (\<lambda>_. Ask InRedis (CallHeartbeat now i) k) k"
| "split_call (CallStatus now i s) k = ask_then InRedis (CallStatus now i s) (\<lambda>_. Ask InSql (CallStatus now i s) k) k"
| "split_call (CallAttempt now i err) k = Ask InSql (CallAttempt now i err) k"
| "split_call (CallProgress now i p) k = Ask InSql (CallProgress now i p) k"
| "split_call (CallResult now i res) k = Ask InSql (CallResult now i res) k"

text \<open>A dequeued job is a copy, so that looking at it again shows the same.\<close>

primrec split_proc :: "'a proc \<Rightarrow> 'a duo" where
  "split_proc (Done r) = Stop r"
| "split_proc (Make c k) = split_call c (\<lambda>r. split_proc (k r))"
| "split_proc (Fetch n jt qn k) = Pick n jt qn (\<lambda>r. split_proc (k r))"
| "split_proc (Look j k) = split_proc (k j)"
| "split_proc (Begin j p) = Start j (split_proc p)"

subsection \<open>A split thread, run alone\<close>

fun ask_store :: "'r backend_ops \<Rightarrow> 's backend_ops \<Rightarrow> store \<Rightarrow> backend_call \<Rightarrow> ('r \<times> 's, bool) py" where
  "ask_store R S InRedis c = on_redis (do_call R c)"
| "ask_store R S InSql c = on_sql (do_call S c)"

primrec run_duo :: "'r backend_ops \<Rightarrow> 's backend_ops \<Rightarrow> 'a duo \<Rightarrow> ('r \<times> 's, 'a) py" where
  "run_duo R S (Stop r) = (\<lambda>b. (r, b))"
| "run_duo R S (Ask st c k) = (\<lambda>b. case ask_store R S st c b of (r, b') \<Rightarrow> run_duo R S (k r) b')"
| "run_duo R S (Pick n jt qn k) = (\<lambda>b. case on_redis (be_dequeue R n jt qn) b of (r, b') \<Rightarrow> run_duo R S (k r) b')"
| "run_duo R S (Start j p) = run_duo R S p"

lemmas store_calls = on_redis_def on_sql_def on_field_def

lemma run_split_call:
  "run_duo R S (split_call c k) b = (case do_call (hybrid_backend R S) c b of (r, b') \<Rightarrow> run_duo R S (k r) b')"
  by (cases c; cases b)
    (auto simp: ask_then_def hybrid_backend_def hybrid_enqueue_def hybrid_claim_def hybrid_release_def hybrid_heartbeat_def
      hybrid_update_status_def store_calls bind_py_def seq_py_def ret_def split: prod.splits sum.splits)

lemma run_split: "run_duo R S (split_proc p) = run_proc (hybrid_backend R S) p"
proof (rule ext)
  show "run_duo R S (split_proc p) b = run_proc (hybrid_backend R S) p b" for b
  proof (induction p arbitrary: b)
    case (Make c k)
    then show ?case by (simp add: run_split_call split: prod.split)
  next
    case (Fetch n jt qn k)
    then show ?case by (simp add: hybrid_backend_def split: prod.split)
  next
    case (Look j k)
    then show ?case by (simp add: hybrid_backend_def)
  qed simp_all
qed

subsection \<open>Interleaving over two stores\<close>

datatype duo_event =
    Entered
  | Asked nat store backend_call "exn + bool"
  | Picked nat
  | Started nat job

type_synonym ('a, 'r, 's) duo_system = "'a duo list \<times> 'r \<times> 's"

inductive duo_step ::
  "'r backend_ops \<Rightarrow> 's backend_ops \<Rightarrow> ('a duo \<Rightarrow> bool) \<Rightarrow> ('a, 'r, 's) duo_system \<Rightarrow> duo_event \<Rightarrow>
   ('a, 'r, 's) duo_system \<Rightarrow> bool"
  for R :: "'r backend_ops" and S :: "'s backend_ops" and starts :: "'a duo \<Rightarrow> bool" where
  enter: "starts p \<Longrightarrow> duo_step R S starts (ps, r, s) Entered (ps @ [p], r, s)"
| ask_redis: "i < length ps \<Longrightarrow> ps ! i = Ask InRedis c k \<Longrightarrow> do_call R c r = (x, r') \<Longrightarrow>
    duo_step R S starts (ps, r, s) (Asked i InRedis c x) (ps[i := k x], r', s)"
| ask_sql: "i < length ps \<Longrightarrow> ps ! i = Ask InSql c k \<Longrightarrow> do_call S c s = (x, s') \<Longrightarrow>
    duo_step R S starts (ps, r, s) (Asked i InSql c x) (ps[i := k x], r, s')"
| pick: "i < length ps \<Longrightarrow> ps ! i = Pick n jt qn k \<Longrightarrow> be_dequeue R n jt qn r = (x, r') \<Longrightarrow>
    duo_step R S starts (ps, r, s) (Picked i) (ps[i := k x], r', s)"
| start: "i < length ps \<Longrightarrow> ps ! i = Start j p \<Longrightarrow>
    duo_step R S starts (ps, r, s) (Started i j) (ps[i := p], r, s)"

inductive duo_trace ::
  "'r backend_ops \<Rightarrow> 's backend_ops \<Rightarrow> ('a duo \<Rightarrow> bool) \<Rightarrow> ('a, 'r, 's) duo_system \<Rightarrow> duo_event list \<Rightarrow>
   ('a, 'r, 's) duo_system \<Rightarrow> bool"
  for R :: "'r backend_ops" and S :: "'s backend_ops" and starts :: "'a duo \<Rightarrow> bool"
    and x :: "('a, 'r, 's) duo_system" where
  duo_nil [intro]: "duo_trace R S starts x [] x"
| duo_snoc [intro]: "duo_trace R S starts x es y \<Longrightarrow> duo_step R S starts y e z \<Longrightarrow> duo_trace R S starts x (es @ [e]) z"

text \<open>The rules with the successor as an equation, and runs put together.\<close>

lemma ask_redis_at:
  "ps ! i = Ask InRedis c k \<Longrightarrow> i < length ps \<Longrightarrow> do_call R c r = (x, r') \<Longrightarrow> qs = ps[i := k x] \<Longrightarrow>
     duo_step R S starts (ps, r, s) (Asked i InRedis c x) (qs, r', s)"
  by (simp add: duo_step.ask_redis)

lemma ask_sql_at:
  "ps ! i = Ask InSql c k \<Longrightarrow> i < length ps \<Longrightarrow> do_call S c s = (x, s') \<Longrightarrow> qs = ps[i := k x] \<Longrightarrow>
     duo_step R S starts (ps, r, s) (Asked i InSql c x) (qs, r, s')"
  by (simp add: duo_step.ask_sql)

lemma pick_at:
  "ps ! i = Pick n jt qn k \<Longrightarrow> i < length ps \<Longrightarrow> be_dequeue R n jt qn r = (x, r') \<Longrightarrow> qs = ps[i := k x] \<Longrightarrow>
     duo_step R S starts (ps, r, s) (Picked i) (qs, r', s)"
  by (simp add: duo_step.pick)

lemma start_at:
  "ps ! i = Start j p \<Longrightarrow> i < length ps \<Longrightarrow> qs = ps[i := p] \<Longrightarrow> duo_step R S starts (ps, r, s) (Started i j) (qs, r, s)"
  by (simp add: duo_step.start)

lemma duo_one: "duo_step R S starts x e y \<Longrightarrow> duo_trace R S starts x [e] y"
  using duo_snoc [OF duo_nil] by fastforce

lemma duo_append: "duo_trace R S starts y fs z \<Longrightarrow> duo_trace R S starts x es y \<Longrightarrow> duo_trace R S starts x (es @ fs) z"
proof (induction rule: duo_trace.induct)
  case (duo_snoc fs y1 e y2)
  from duo_trace.duo_snoc [OF duo_snoc.IH [OF duo_snoc.prems] duo_snoc.hyps(2)] show ?case by simp
qed simp

lemma duo_cons: "duo_step R S starts x e y \<Longrightarrow> duo_trace R S starts y es z \<Longrightarrow> duo_trace R S starts x (e # es) z"
  using duo_append [OF _ duo_one [of R S starts x e y]] by simp

lemma duo_first:
  assumes "duo_step R S starts x e y" and "\<exists>es. duo_trace R S starts y es z"
  shows "\<exists>es. duo_trace R S starts x es z"
  using assms duo_cons by blast

text \<open>A split thread that runs alone is one of the interleavings.\<close>

lemma run_duo_trace:
  assumes "i < length ps" and "ps ! i = p" and "run_duo R S p (r, s) = (v, (r', s'))"
  shows "\<exists>es. duo_trace R S starts (ps, r, s) es (ps[i := Stop v], r', s')"
  using assms
proof (induction p arbitrary: ps r s)
  case (Stop x)
  then have "ps[i := Stop v] = ps" "r' = r" "s' = s" by (auto simp: list_update_same_conv)
  then show ?case by (metis duo_nil)
next
  case (Ask st c k)
  show ?case
  proof (cases st)
    case InRedis
    obtain x r1 where x: "do_call R c r = (x, r1)" by (cases "do_call R c r")
    have "\<exists>es. duo_trace R S starts (ps[i := k x], r1, s) es ((ps[i := k x])[i := Stop v], r', s')"
      using Ask.prems x InRedis by (intro Ask.IH) (auto simp: store_calls)
    then show ?thesis using duo_first [OF duo_step.ask_redis [OF Ask.prems(1) Ask.prems(2) [unfolded InRedis] x]] by simp
  next
    case InSql
    obtain x s1 where x: "do_call S c s = (x, s1)" by (cases "do_call S c s")
    have "\<exists>es. duo_trace R S starts (ps[i := k x], r, s1) es ((ps[i := k x])[i := Stop v], r', s')"
      using Ask.prems x InSql by (intro Ask.IH) (auto simp: store_calls)
    then show ?thesis using duo_first [OF duo_step.ask_sql [OF Ask.prems(1) Ask.prems(2) [unfolded InSql] x]] by simp
  qed
next
  case (Pick n jt qn k)
  obtain x r1 where x: "be_dequeue R n jt qn r = (x, r1)" by (cases "be_dequeue R n jt qn r")
  have "\<exists>es. duo_trace R S starts (ps[i := k x], r1, s) es ((ps[i := k x])[i := Stop v], r', s')"
    using Pick.prems x by (intro Pick.IH) (auto simp: store_calls)
  then show ?case using duo_first [OF duo_step.pick [OF Pick.prems(1,2) x]] by simp
next
  case (Start j p)
  have "\<exists>es. duo_trace R S starts (ps[i := p], r, s) es ((ps[i := p])[i := Stop v], r', s')"
    using Start.prems by (intro Start.IH) auto
  then show ?case using duo_first [OF duo_step.start [OF Start.prems(1,2)]] by simp
qed

subsection \<open>The run as Redis sees it\<close>

fun redis_event :: "duo_event \<Rightarrow> event list" where
  "redis_event Entered = [Spawned]"
| "redis_event (Asked i InRedis c x) = [Made i c x]"
| "redis_event (Asked i InSql c x) = []"
| "redis_event (Picked i) = [Fetched i]"
| "redis_event (Started i j) = [Began i j]"

definition redis_events :: "duo_event list \<Rightarrow> event list" where
  "redis_events es = concat (map redis_event es)"

lemma redis_events_simps [simp]:
  "redis_events [] = []" "redis_events (es @ fs) = redis_events es @ redis_events fs"
  "redis_events [e] = redis_event e"
  by (simp_all add: redis_events_def)

text \<open>
  The answers the SQL backend may give: only an insertion and the storing of a result can raise. A tree over
  Redis alone resolves a split thread when it is the thread with some such answers put in.
\<close>

fun calm :: "backend_call \<Rightarrow> exn + bool \<Rightarrow> bool" where
  "calm (CallEnqueue j) x = True"
| "calm (CallResult now i res) x = True"
| "calm _ x = (\<exists>b. x = Inr b)"

inductive resolves :: "'a duo \<Rightarrow> 'a proc \<Rightarrow> bool" where
  resolves_stop [intro]: "resolves (Stop r) (Done r)"
| resolves_redis [intro]: "(\<And>x. resolves (k x) (f x)) \<Longrightarrow> resolves (Ask InRedis c k) (Make c f)"
| resolves_sql [intro]: "calm c x \<Longrightarrow> resolves (k x) q \<Longrightarrow> resolves (Ask InSql c k) q"
| resolves_pick [intro]: "(\<And>x. resolves (k x) (f x)) \<Longrightarrow> resolves (Pick n jt qn k) (Fetch n jt qn f)"
| resolves_start [intro]: "resolves p q \<Longrightarrow> resolves (Start j p) (Begin j q)"

inductive_simps resolves_iff:
  "resolves (Stop r) q" "resolves (Ask InRedis c k) q" "resolves (Ask InSql c k) q"
  "resolves (Pick n jt qn k) q" "resolves (Start j p) q"

lemma calm_answer: "\<exists>x. calm c x"
  by (cases c) auto

lemma resolves_total: "\<exists>q. resolves p q"
proof (induction p)
  case (Ask st c k)
  then have "\<forall>x. \<exists>q. resolves (k x) q" by simp
  from choice [OF this] obtain f where f: "\<And>x. resolves (k x) (f x)" by blast
  show ?case
  proof (cases st)
    case InRedis
    with f show ?thesis by blast
  next
    case InSql
    with f calm_answer [of c] show ?thesis by blast
  qed
next
  case (Pick n jt qn k)
  then have "\<forall>x. \<exists>q. resolves (k x) q" by simp
  from choice [OF this] obtain f where "\<And>x. resolves (k x) (f x)" by blast
  then show ?case by blast
qed blast+

lemma resolves_all: "\<exists>qs. list_all2 resolves ps qs"
  by (induction ps) (auto simp: list_all2_Cons1 intro: resolves_total)

text \<open>A resolution of every continuation that is a given one at the answer that came.\<close>

lemma resolves_at:
  assumes "resolves (k x) q"
  shows "\<exists>f. (\<forall>y. resolves (k y) (f y)) \<and> f x = q"
proof -
  have "\<forall>y. \<exists>q. resolves (k y) q" using resolves_total by blast
  from choice [OF this] obtain f where "\<And>y. resolves (k y) (f y)" by blast
  then show ?thesis using assms by (intro exI [of _ "f(x := q)"]) auto
qed

lemma list_all2_back:
  assumes "list_all2 P (ps[i := p]) qs" and "i < length ps"
  shows "P p (qs ! i)" and "P (ps ! i) q \<Longrightarrow> list_all2 P ps (qs[i := q])" and "i < length qs"
    and "P (ps ! i) (qs ! i) \<Longrightarrow> list_all2 P ps qs"
  using assms by (auto simp: list_all2_conv_all_nth nth_list_update split: if_splits)

context queue_backend
begin

lemma do_call_calm: "inv b \<Longrightarrow> do_call ops c b = (x, b') \<Longrightarrow> calm c x"
proof (cases c)
  fix now jid h w assume "inv b" "do_call ops c b = (x, b')" "c = CallClaim now jid h w"
  then show ?thesis
    using claim_won [of b jid _ now h w] claim_lost [of b jid now h w]
    by (cases "\<exists>j. view b jid = Some j \<and> status j = QUEUED") fastforce+
next
  fix now jid assume "inv b" "do_call ops c b = (x, b')" "c = CallRelease now jid"
  then show ?thesis using release_law [of b jid _ now] release_absent [of b jid now] by (cases "view b jid") fastforce+
next
  fix now jid assume "inv b" "do_call ops c b = (x, b')" "c = CallHeartbeat now jid"
  then show ?thesis using heartbeat_law [of b now jid] by fastforce
next
  fix now jid s assume "inv b" "do_call ops c b = (x, b')" "c = CallStatus now jid s"
  then show ?thesis using update_status_gen [of b now jid s] by fastforce
next
  fix now jid err assume "inv b" "do_call ops c b = (x, b')" "c = CallAttempt now jid err"
  then show ?thesis using attempt_law [of b now jid err] by fastforce
next
  fix now jid p assume "inv b" "do_call ops c b = (x, b')" "c = CallProgress now jid p"
  then show ?thesis using progress_law [of b now jid p] by fastforce
qed simp_all

end

text \<open>
  What a resolution of a hybrid call is: the call to Redis with the answer the thread then sees, or, for the
  calls that only SQL gets, the rest of the thread. A claim is seen as Redis answers it.
\<close>

lemma sql_first_resolved:
  assumes "resolves (ask_then InSql c (\<lambda>_. Ask InRedis c k) k) q"
  shows "(\<exists>y. resolves (k y) q) \<or> (\<exists>f. q = Make c f \<and> (\<forall>x. resolves (k x) (f x)))"
proof -
  obtain x :: "exn + bool" where x: "resolves (case x of Inl e \<Rightarrow> k (Inl e) | Inr _ \<Rightarrow> Ask InRedis c k) q"
    using assms unfolding ask_then_def resolves_iff by auto
  then show ?thesis by (cases x) (auto simp: resolves_iff)
qed

lemma split_call_resolved:
  assumes "resolves (split_call c k) q"
  shows "(\<exists>y. resolves (k y) q \<and> (\<forall>jid. \<not> claims_of jid c) \<and> (\<forall>jid st. status_after jid c y st = st)) \<or>
    (\<exists>f. q = Make c f \<and> (\<forall>x. \<exists>y. resolves (k y) (f x) \<and> (\<forall>jid. claims_of jid c \<longrightarrow> y = x) \<and>
       (\<forall>jid st. status_after jid c y st = status_after jid c x st)))"
proof (cases c)
  case (CallEnqueue j)
  with assms sql_first_resolved [of c k q] show ?thesis by auto
next
  case (CallClaim now i h w)
  obtain f where q: "q = Make c f"
      "\<And>x. resolves (case x of Inl e \<Rightarrow> k (Inl e) | Inr ok \<Rightarrow> if \<not> ok then k (Inr False)
         else Ask InSql c (\<lambda>y. case y of Inl e \<Rightarrow> k (Inl e) | Inr _ \<Rightarrow> k (Inr True))) (f x)"
    using assms unfolding CallClaim split_call.simps ask_then_def resolves_iff by blast
  have "resolves (k x) (f x)" for x
    using q(2) [of x] CallClaim by (cases x) (auto simp: resolves_iff split: if_splits)
  with q(1) show ?thesis by blast
next
  case (CallRelease now i)
  with assms sql_first_resolved [of c k q] show ?thesis by auto
next
  case (CallHeartbeat now i)
  with assms sql_first_resolved [of c k q] show ?thesis by auto
next
  case (CallStatus now i s)
  with assms obtain f where q: "q = Make c f"
      "\<And>x. resolves (case x of Inl e \<Rightarrow> k (Inl e) | Inr _ \<Rightarrow> Ask InSql c k) (f x)"
    by (auto simp: ask_then_def resolves_iff)
  have "\<exists>y. resolves (k y) (f x)" for x
    using q(2) [of x] by (cases x) (auto simp: resolves_iff)
  with q(1) CallStatus show ?thesis by simp
qed (use assms in \<open>auto simp: resolves_iff\<close>)

lemma proper_resolved: "proper t \<Longrightarrow> resolves (split_proc t) q \<Longrightarrow> proper q"
proof (induction t arbitrary: q)
  case (Make c k)
  have k: "proper (k r)" for r using Make.prems(1) by simp
  from split_call_resolved [OF Make.prems(2) [unfolded split_proc.simps]] show ?case
  proof (elim disjE exE conjE)
    fix y assume "resolves (split_proc (k y)) q"
    then show ?thesis by (rule Make.IH [OF _ k, rotated]) simp
  next
    fix f assume f: "q = Make c f" "\<forall>x. \<exists>y. resolves (split_proc (k y)) (f x) \<and> (\<forall>jid. claims_of jid c \<longrightarrow> y = x) \<and>
       (\<forall>jid st. status_after jid c y st = status_after jid c x st)"
    have "proper (f x)" for x
    proof -
      obtain y where y: "resolves (split_proc (k y)) (f x)" using f(2) by blast
      show ?thesis by (rule Make.IH [OF _ k y]) simp
    qed
    then show ?thesis using f(1) by simp
  qed
next
  case (Fetch n jt qn k)
  then show ?case unfolding split_proc.simps resolves_iff by (elim exE conjE) (simp, meson rangeI)
next
  case (Look j k)
  show ?case by (rule Look.IH [of "k j"]) (use Look.prems in simp_all)
qed (auto simp: resolves_iff)

lemma covered_resolved: "covered t jid n \<Longrightarrow> resolves (split_proc t) q \<Longrightarrow> covered q jid n"
proof (induction t arbitrary: q n)
  case (Make c k)
  have k: "covered (k r) jid (if claims_of jid c \<and> r = Inr True then Suc n else n)" for r using Make.prems(1) by simp
  from split_call_resolved [OF Make.prems(2) [unfolded split_proc.simps]] show ?case
  proof (elim disjE exE conjE)
    fix y assume y: "resolves (split_proc (k y)) q" "\<forall>jid. \<not> claims_of jid c"
    then show ?thesis using Make.IH [of "k y" n q] k [of y] by simp
  next
    fix f assume f: "q = Make c f" "\<forall>x. \<exists>y. resolves (split_proc (k y)) (f x) \<and> (\<forall>jid. claims_of jid c \<longrightarrow> y = x) \<and>
       (\<forall>jid st. status_after jid c y st = status_after jid c x st)"
    have "covered (f x) jid (if claims_of jid c \<and> x = Inr True then Suc n else n)" for x
    proof -
      obtain y where y: "resolves (split_proc (k y)) (f x)" "claims_of jid c \<longrightarrow> y = x" using f(2) by blast
      have "covered (f x) jid (if claims_of jid c \<and> y = Inr True then Suc n else n)"
        by (rule Make.IH [OF _ k [of y] y(1)]) simp
      then show ?thesis using y(2) by (simp cong: if_cong conj_cong)
    qed
    then show ?thesis using f(1) by simp
  qed
next
  case (Fetch n jt qn k)
  then show ?case unfolding split_proc.simps resolves_iff by (elim exE conjE) (simp, meson rangeI)
next
  case (Look j k)
  show ?case by (rule Look.IH [of "k j"]) (use Look.prems in simp_all)
qed (auto simp: resolves_iff split: if_splits)

lemma guarded_resolved: "guarded t jid own \<Longrightarrow> resolves (split_proc t) q \<Longrightarrow> guarded q jid own"
proof (induction t arbitrary: q own)
  case (Make c k)
  have k: "guarded (k r) jid (own \<or> claims_of jid c \<and> r = Inr True)" and own: "writes jid c \<longrightarrow> own" for r
    using Make.prems(1) by simp_all
  from split_call_resolved [OF Make.prems(2) [unfolded split_proc.simps]] show ?case
  proof (elim disjE exE conjE)
    fix y assume y: "resolves (split_proc (k y)) q" "\<forall>jid. \<not> claims_of jid c"
    then show ?thesis using Make.IH [of "k y" own q] k [of y] by simp
  next
    fix f assume f: "q = Make c f" "\<forall>x. \<exists>y. resolves (split_proc (k y)) (f x) \<and> (\<forall>jid. claims_of jid c \<longrightarrow> y = x) \<and>
       (\<forall>jid st. status_after jid c y st = status_after jid c x st)"
    have "guarded (f x) jid (own \<or> claims_of jid c \<and> x = Inr True)" for x
    proof -
      obtain y where y: "resolves (split_proc (k y)) (f x)" "claims_of jid c \<longrightarrow> y = x" using f(2) by blast
      have "guarded (f x) jid (own \<or> claims_of jid c \<and> y = Inr True)" 
        by (rule Make.IH [OF _ k [of y] y(1)]) simp
      then show ?thesis using y(2) by (simp cong: conj_cong)
    qed
    then show ?thesis using f(1) own by simp
  qed
next
  case (Fetch n jt qn k)
  then show ?case unfolding split_proc.simps resolves_iff by (elim exE conjE) (simp, meson rangeI)
next
  case (Look j k)
  show ?case by (rule Look.IH [of "k j"]) (use Look.prems in simp_all)
qed (auto simp: resolves_iff)

lemma settled_resolved: "settled t jid st Q \<Longrightarrow> resolves (split_proc t) q \<Longrightarrow> settled q jid st Q"
proof (induction t arbitrary: q st)
  case (Make c k)
  have k: "settled (k r) jid (status_after jid c r st) Q" for r using Make.prems(1) by simp
  from split_call_resolved [OF Make.prems(2) [unfolded split_proc.simps]] show ?case
  proof (elim disjE exE conjE)
    fix y assume y: "resolves (split_proc (k y)) q" "\<forall>jid st. status_after jid c y st = st"
    then show ?thesis using Make.IH [of "k y" st q] k [of y] by simp
  next
    fix f assume f: "q = Make c f" "\<forall>x. \<exists>y. resolves (split_proc (k y)) (f x) \<and> (\<forall>jid. claims_of jid c \<longrightarrow> y = x) \<and>
       (\<forall>jid st. status_after jid c y st = status_after jid c x st)"
    have "settled (f x) jid (status_after jid c x st) Q" for x
    proof -
      obtain y where y: "resolves (split_proc (k y)) (f x)" "status_after jid c y st = status_after jid c x st" using f(2) by blast
      have "settled (f x) jid (status_after jid c y st) Q" by (rule Make.IH [OF _ k [of y] y(1)]) simp
      then show ?thesis using y(2) by simp
    qed
    then show ?thesis using f(1) by simp
  qed
next
  case (Fetch n jt qn k)
  then show ?case unfolding split_proc.simps resolves_iff by (elim exE conjE) (simp, meson rangeI)
next
  case (Look j k)
  show ?case by (rule Look.IH [of "k j"]) (use Look.prems in simp_all)
qed (auto simp: resolves_iff)

context hybrid
begin

lemma duo_inv_sql: "duo_trace R S starts x es y \<Longrightarrow> invS (snd (snd x)) \<Longrightarrow> invS (snd (snd y))"
  by (induction rule: duo_trace.induct) (auto elim!: duo_step.cases dest: sql.do_call_inv)

text \<open>
  The backward simulation: from threads of Redis that resolve the threads at the end of a run, threads at
  its start and a run of Redis between them.
\<close>

lemma redis_view_of_run:
  assumes "duo_trace R S starts x es y" and "invS (snd (snd x))" and "list_all2 resolves (fst y) qs'"
  shows "\<exists>qs. list_all2 resolves (fst x) qs \<and>
    trace R (\<lambda>q. \<exists>p. starts p \<and> resolves p q) (qs, fst (snd x)) (redis_events es) (qs', fst (snd y))"
  using assms
proof (induction arbitrary: qs' rule: duo_trace.induct)
  case duo_nil
  then show ?case by auto
next
  case (duo_snoc es y e z)
  let ?T = "\<lambda>q. \<exists>p. starts p \<and> resolves p q"
  have by_step: ?case if "list_all2 resolves (fst y) qs"
      and "trace R ?T (qs, fst (snd y)) (redis_event e) (qs', fst (snd z))" for qs
    using duo_snoc.IH [OF duo_snoc.prems(1) that(1)] trace_append [OF that(2)] by auto
  have inv: "invS (snd (snd y))" using duo_inv_sql [OF duo_snoc.hyps(1) duo_snoc.prems(1)] .
  from duo_snoc.hyps(2) show ?case
  proof cases
    case (enter p ps r s)
    obtain qs q where q: "qs' = qs @ [q]" "list_all2 resolves ps qs" "resolves p q"
      using duo_snoc.prems(2) enter by (auto simp: list_all2_append1 list_all2_Cons1)
    then show ?thesis using enter trace_step [OF step.spawn [of ?T q R qs r]] by (intro by_step [of qs]) auto
  next
    case (ask_redis i ps c k r a r' s)
    note all = duo_snoc.prems(2) [unfolded ask_redis fst_conv]
    obtain f where f: "\<And>u. resolves (k u) (f u)" "f a = qs' ! i"
      using resolves_at [of k a, OF list_all2_back(1) [OF all ask_redis(4)]] by blast
    have "list_all2 resolves ps (qs'[i := Make c f])"
      using f(1) ask_redis(5) by (intro list_all2_back(2) [OF all ask_redis(4)]) auto
    moreover have "step R ?T (qs'[i := Make c f], r) (Made i c a) (qs', r')"
      using f(2) list_all2_back(3) [OF all ask_redis(4)] ask_redis(6) by (intro make_at [where k = f]) auto
    ultimately show ?thesis using ask_redis trace_step by (intro by_step) auto
  next
    case (ask_sql i ps c k s a s' r)
    note all = duo_snoc.prems(2) [unfolded ask_sql fst_conv]
    have "calm c a" using sql.do_call_calm ask_sql inv by simp
    then have "resolves (ps ! i) (qs' ! i)" using list_all2_back(1) [OF all ask_sql(4)] ask_sql(5) by auto
    then have "list_all2 resolves ps qs'" by (rule list_all2_back(4) [OF all ask_sql(4)])
    then show ?thesis using ask_sql by (intro by_step [of qs']) auto
  next
    case (pick i ps n jt qn k r a r' s)
    note all = duo_snoc.prems(2) [unfolded pick fst_conv]
    obtain f where f: "\<And>u. resolves (k u) (f u)" "f a = qs' ! i"
      using resolves_at [of k a, OF list_all2_back(1) [OF all pick(4)]] by blast
    have "list_all2 resolves ps (qs'[i := Fetch n jt qn f])"
      using f(1) pick(5) by (intro list_all2_back(2) [OF all pick(4)]) auto
    moreover have "step R ?T (qs'[i := Fetch n jt qn f], r) (Fetched i) (qs', r')"
      using f(2) list_all2_back(3) [OF all pick(4)] pick(6) by (intro fetch_at [where k = f]) auto
    ultimately show ?thesis using pick trace_step by (intro by_step) auto
  next
    case (start i ps j p r s)
    note all = duo_snoc.prems(2) [unfolded start fst_conv]
    have "list_all2 resolves ps (qs'[i := Begin j (qs' ! i)])"
      using list_all2_back(1) [OF all start(4)] start(5) by (intro list_all2_back(2) [OF all start(4)]) auto
    moreover have "step R ?T (qs'[i := Begin j (qs' ! i)], r) (Began i j) (qs', r)"
      using list_all2_back(3) [OF all start(4)] by (intro begin_at) auto
    ultimately show ?thesis using start trace_step by (intro by_step) auto
  qed
qed

end

subsection \<open>The SQL copy of a job\<close>

text \<open>
  A thread writes or claims the SQL copy of a job only after it won a claim of it in Redis. \<open>duo_settled\<close>
  follows the status of the SQL copy, \<open>None\<close> before that claim: when a thread wins it, the SQL copy is queued, so
  that the claim in SQL succeeds as well; later claims in Redis are lost.
\<close>

primrec duo_guarded :: "'a duo \<Rightarrow> string \<Rightarrow> bool \<Rightarrow> bool" where
  "duo_guarded (Stop r) jid own = True"
| "duo_guarded (Ask st c k) jid own =
     ((writes jid c \<or> st = InSql \<and> claims_of jid c \<longrightarrow> own) \<and>
      (\<forall>x. duo_guarded (k x) jid (own \<or> st = InRedis \<and> claims_of jid c \<and> x = Inr True)))"
| "duo_guarded (Pick n jt qn k) jid own = (\<forall>x. duo_guarded (k x) jid own)"
| "duo_guarded (Start j p) jid own = ((job_id j = jid \<longrightarrow> own) \<and> duo_guarded p jid own)"

definition fair :: "string \<Rightarrow> store \<Rightarrow> backend_call \<Rightarrow> job_status option \<Rightarrow> exn + bool \<Rightarrow> bool" where
  "fair jid store c st x \<longleftrightarrow> calm c x \<and>
     (claims_of jid c \<longrightarrow>
       (case store of InRedis \<Rightarrow> x = Inr True \<longrightarrow> st = None | InSql \<Rightarrow> st = Some QUEUED \<longrightarrow> x = Inr True))"

definition sql_after :: "string \<Rightarrow> store \<Rightarrow> backend_call \<Rightarrow> exn + bool \<Rightarrow> job_status option \<Rightarrow> job_status option" where
  "sql_after jid store c x st =
     (case store of
        InRedis \<Rightarrow> if claims_of jid c \<and> x = Inr True then Some QUEUED else st
      | InSql \<Rightarrow> status_after jid c x st)"

primrec duo_settled ::
  "'a duo \<Rightarrow> string \<Rightarrow> job_status option \<Rightarrow> (exn + 'a \<Rightarrow> job_status \<Rightarrow> bool) \<Rightarrow> bool" where
  "duo_settled (Stop r) jid st Q = (\<forall>s. st = Some s \<longrightarrow> Q r s)"
| "duo_settled (Ask store c k) jid st Q =
     (\<forall>x. fair jid store c st x \<longrightarrow> duo_settled (k x) jid (sql_after jid store c x st) Q)"
| "duo_settled (Pick n jt qn k) jid st Q = (\<forall>x. duo_settled (k x) jid st Q)"
| "duo_settled (Start j p) jid st Q = duo_settled p jid st Q"

lemma duo_guarded_own [simp]: "duo_guarded p jid True"
  by (induction p) auto

lemma duo_guarded_split: "guarded t jid own \<Longrightarrow> duo_guarded (split_proc t) jid own"
proof (induction t arbitrary: own)
  case (Make c k)
  have k: "duo_guarded (split_proc (k r)) jid (own \<or> claims_of jid c \<and> r = Inr True)" for r
    using Make.prems by (intro Make.IH) simp_all
  have own: "writes jid c \<longrightarrow> own" using Make.prems by simp
  have k0: "duo_guarded (split_proc (k r)) jid own" if "\<not> (claims_of jid c \<and> r = Inr True)" for r
    using k [of r] that by simp
  show ?case
  proof (cases "claims_of jid c")
    case True
    then show ?thesis using k0 by (cases c) (auto simp: ask_then_def split: sum.split)
  next
    case False
    then show ?thesis using k0 own by (cases c) (auto simp: ask_then_def split: sum.split)
  qed
qed auto

lemma duo_settled_split: "settled t jid st Q \<Longrightarrow> duo_settled (split_proc t) jid st Q"
proof (induction t arbitrary: st)
  case (Make c k)
  have k: "duo_settled (split_proc (k r)) jid (status_after jid c r st) Q" for r
    using Make.prems by (intro Make.IH) simp_all
  show ?case
  proof (cases c)
    case (CallClaim now i h w)
    have "duo_settled (split_proc (k (Inr True))) jid (status_after jid c (Inr True) st) Q" by (rule k)
    then show ?thesis
      using k [of "Inl _"] k [of "Inr False"] CallClaim
      by (auto simp: ask_then_def fair_def sql_after_def split: sum.split if_splits)
  next
    case (CallStatus now i s)
    then show ?thesis using k by (auto simp: ask_then_def fair_def sql_after_def split: sum.split)
  qed (use k in \<open>auto simp: ask_then_def fair_def sql_after_def split: sum.split\<close>)
qed auto

text \<open>The calls that put a job into a queue, and the events that act on it, in either store.\<close>

fun duo_puts_back :: "string \<Rightarrow> duo_event \<Rightarrow> bool" where
  "duo_puts_back jid (Asked i st c x) = requeues jid c"
| "duo_puts_back jid _ = False"

fun duo_acts :: "string \<Rightarrow> nat \<Rightarrow> duo_event \<Rightarrow> bool" where
  "duo_acts jid n (Asked i st c x) = (n = i \<and> (writes jid c \<or> st = InSql \<and> claims_of jid c))"
| "duo_acts jid n (Started i j) = (n = i \<and> job_id j = jid)"
| "duo_acts jid n _ = False"

lemma redis_puts_back: "\<forall>e \<in> set es. \<not> duo_puts_back jid e \<Longrightarrow> \<forall>e \<in> set (redis_events es). \<not> puts_back jid e"
proof -
  have "\<not> duo_puts_back jid e \<Longrightarrow> \<forall>f \<in> set (redis_event e). \<not> puts_back jid f" for e
    by (cases e rule: redis_event.cases) auto
  then show "\<forall>e \<in> set es. \<not> duo_puts_back jid e \<Longrightarrow> \<forall>e \<in> set (redis_events es). \<not> puts_back jid e"
    by (auto simp: redis_events_def)
qed

text \<open>The state of the threads: each follows the SQL copy if it won the claim, and leaves it alone otherwise.\<close>

definition follow_sql ::
  "string \<Rightarrow> (exn + 'a \<Rightarrow> job_status \<Rightarrow> bool) \<Rightarrow> nat set \<Rightarrow> job_status option \<Rightarrow> 'a duo list \<Rightarrow> bool" where
  "follow_sql jid Q W st ps \<longleftrightarrow>
     (\<forall>n < length ps. duo_guarded (ps ! n) jid (n \<in> W) \<and> duo_settled (ps ! n) jid (if n \<in> W then st else None) Q)"

lemma follow_sqlD:
  "follow_sql jid Q W st ps \<Longrightarrow> n < length ps \<Longrightarrow>
     duo_guarded (ps ! n) jid (n \<in> W) \<and> duo_settled (ps ! n) jid (if n \<in> W then st else None) Q"
  by (simp add: follow_sql_def)

lemma follow_sql_update:
  assumes "follow_sql jid Q W st ps"
    and "duo_guarded p jid (i \<in> W')" and "duo_settled p jid (if i \<in> W' then st' else None) Q"
    and "\<And>n. n < length ps \<Longrightarrow> n \<noteq> i \<Longrightarrow> (n \<in> W' \<longleftrightarrow> n \<in> W) \<and> (n \<in> W \<longrightarrow> st' = st)"
  shows "follow_sql jid Q W' st' (ps[i := p])"
  unfolding follow_sql_def
proof (intro allI impI)
  fix n assume n: "n < length (ps[i := p])"
  show "duo_guarded (ps[i := p] ! n) jid (n \<in> W') \<and> duo_settled (ps[i := p] ! n) jid (if n \<in> W' then st' else None) Q"
  proof (cases "n = i")
    case True
    then show ?thesis using assms(2,3) n by simp
  next
    case False
    then show ?thesis using follow_sqlD [OF assms(1), of n] assms(4) [of n] n by auto
  qed
qed

lemma follow_sql_ask:
  assumes f: "follow_sql jid Q W st ps" and i: "i < length ps" and p: "ps ! i = Ask store c k"
    and x: "fair jid store c (if i \<in> W then st else None) x"
  shows "duo_guarded (k x) jid (i \<in> W \<or> store = InRedis \<and> claims_of jid c \<and> x = Inr True)"
    and "duo_settled (k x) jid (sql_after jid store c x (if i \<in> W then st else None)) Q"
    and "writes jid c \<or> store = InSql \<and> claims_of jid c \<Longrightarrow> i \<in> W"
  using follow_sqlD [OF f i] x unfolding p by auto

lemma follow_redis_call:
  assumes f: "follow_sql jid Q W st ps" and n: "n < length ps" and p: "ps ! n = Ask InRedis c k" and calm: "calm c x"
    and none: "claims_of jid c \<Longrightarrow> x = Inr True \<Longrightarrow> W = {} \<and> st = Some QUEUED"
  shows "follow_sql jid Q (won_after jid W n c x) st (ps[n := k x])"
    and "writes jid c \<Longrightarrow> n \<in> W"
proof -
  have "fair jid InRedis c (if n \<in> W then st else None) x" using calm none by (auto simp: fair_def)
  note g = follow_sql_ask [OF f n p this]
  show "writes jid c \<Longrightarrow> n \<in> W" using g(3) by simp
  show "follow_sql jid Q (won_after jid W n c x) st (ps[n := k x])"
    using g(1,2) none by (intro follow_sql_update [OF f]) (auto simp: sql_after_def won_after_def split: if_splits)
qed

lemma follow_sql_call:
  assumes f: "follow_sql jid Q W st ps" and n: "n < length ps" and p: "ps ! n = Ask InSql c k" and calm: "calm c x"
    and claim: "claims_of jid c \<Longrightarrow> st = Some QUEUED \<Longrightarrow> x = Inr True"
    and one: "\<And>n m. n \<in> W \<Longrightarrow> m \<in> W \<Longrightarrow> n = m"
  shows "follow_sql jid Q W (status_after jid c x st) (ps[n := k x])"
    and "writes jid c \<or> claims_of jid c \<Longrightarrow> n \<in> W" and "n \<notin> W \<Longrightarrow> status_after jid c x st = st"
proof -
  have "fair jid InSql c (if n \<in> W then st else None) x" using calm claim by (auto simp: fair_def split: if_splits)
  note g = follow_sql_ask [OF f n p this]
  show own: "writes jid c \<or> claims_of jid c \<Longrightarrow> n \<in> W" using g(3) by simp
  have same: "status_after jid c x v = v" if "n \<notin> W" for v using own that by (auto intro: status_after_off)
  then show "n \<notin> W \<Longrightarrow> status_after jid c x st = st" .
  show "follow_sql jid Q W (status_after jid c x st) (ps[n := k x])"
  proof (rule follow_sql_update [OF f])
    show "duo_guarded (k x) jid (n \<in> W)" using g(1) by simp
    show "duo_settled (k x) jid (if n \<in> W then status_after jid c x st else None) Q"
      using g(2) same by (auto simp: sql_after_def split: if_splits)
    show "(m \<in> W \<longleftrightarrow> m \<in> W) \<and> (m \<in> W \<longrightarrow> status_after jid c x st = st)" if "m \<noteq> n" for m
      using same one that by blast
  qed
qed

context hybrid
begin

text \<open>What Redis decides, for every prefix of a run.\<close>

lemma redis_owner:
  assumes "duo_trace R S starts ([], r0, s0) es y" and "invR r0" and "invS s0"
    and ok: "\<And>p. starts p \<Longrightarrow> \<exists>t. p = split_proc t \<and> proper t \<and> guarded t jid False"
    and once: "\<forall>e \<in> set es. \<not> duo_puts_back jid e"
  shows "invR (fst (snd y))" and "winners jid (redis_events es) \<subseteq> {..<length (fst y)}"
    and "winners jid (redis_events es) \<noteq> {} \<Longrightarrow> redis.unqueued jid (fst (snd y))"
    and "\<And>n m. n \<in> winners jid (redis_events es) \<Longrightarrow> m \<in> winners jid (redis_events es) \<Longrightarrow> n = m"
proof -
  obtain qs' where qs': "list_all2 resolves (fst y) qs'" using resolves_all by blast
  let ?T = "\<lambda>q. \<exists>p. starts p \<and> resolves p q"
  have tr: "trace R ?T ([], r0) (redis_events es) (qs', fst (snd y))"
    using redis_view_of_run [OF assms(1) _ qs'] assms(3) by auto
  have "proper q \<and> guarded q jid False" if "?T q" for q
    using that ok by (metis proper_resolved guarded_resolved)
  note own = redis.owner [OF tr refl assms(2) this redis_puts_back [OF once]]
  show "invR (fst (snd y))" "winners jid (redis_events es) \<subseteq> {..<length (fst y)}"
    "winners jid (redis_events es) \<noteq> {} \<Longrightarrow> redis.unqueued jid (fst (snd y))"
    "\<And>n m. n \<in> winners jid (redis_events es) \<Longrightarrow> m \<in> winners jid (redis_events es) \<Longrightarrow> n = m"
    using own list_all2_lengthD [OF qs'] by auto
qed

lemma sql_claim_fair:
  assumes "invS s" and "do_call S c s = (x, s')" and "claims_of jid c" and "sql.status_of jid s = Some QUEUED"
  shows "x = Inr True"
proof -
  obtain now h w where c: "c = CallClaim now jid h w" using assms(3) by (cases c) auto
  obtain j where "viewS s jid = Some j" "status j = QUEUED" using assms(4) by auto
  from sql.claim_won [OF assms(1) this, of now h w] assms(2) c show ?thesis by auto
qed

lemma follow_step:
  assumes tr: "duo_trace R S starts ([], r0, s0) es y" and st: "duo_step R S starts y e z"
    and i: "invR r0" "invS s0"
    and ok: "\<And>p. starts p \<Longrightarrow> \<exists>t. p = split_proc t \<and> proper t \<and> guarded t jid False \<and> settled t jid None Q"
    and once: "\<forall>e \<in> set (es @ [e]). \<not> duo_puts_back jid e"
    and IH: "follow_sql jid Q (winners jid (redis_events es)) (sql.status_of jid (snd (snd y))) (fst y)"
    and q: "winners jid (redis_events es) = {} \<Longrightarrow> sql.status_of jid (snd (snd y)) = Some QUEUED"
  shows "follow_sql jid Q (winners jid (redis_events (es @ [e]))) (sql.status_of jid (snd (snd z))) (fst z) \<and>
    (winners jid (redis_events (es @ [e])) = {} \<longrightarrow> sql.status_of jid (snd (snd z)) = Some QUEUED) \<and>
    (\<forall>n. duo_acts jid n e \<longrightarrow> n \<in> winners jid (redis_events es))"
proof -
  let ?W = "winners jid (redis_events es)"
  have ok2: "\<exists>t. p = split_proc t \<and> proper t \<and> guarded t jid False" if "starts p" for p using ok [OF that] by blast
  have once1: "\<forall>e \<in> set es. \<not> duo_puts_back jid e" using once by simp
  note own = redis_owner [OF tr i ok2 once1]
  have inv: "invS (snd (snd y))" using duo_inv_sql [OF tr] i by simp
  from st show ?thesis
  proof cases
    case (enter p ps r s)
    obtain t where t: "p = split_proc t" "guarded t jid False" "settled t jid None Q" using ok [OF enter(4)] by blast
    have "length ps \<notin> ?W" using own(2) enter by auto
    then have "follow_sql jid Q ?W (sql.status_of jid s) (ps @ [p])"
      using IH enter t duo_guarded_split [OF t(2)] duo_settled_split [OF t(3)]
      by (auto simp: follow_sql_def nth_append less_Suc_eq)
    then show ?thesis using enter q by (simp add: winners_snoc)
  next
    case (ask_redis n ps c k r x r' s)
    have nq: "\<not> requeues jid c" using once ask_redis by simp
    have ir: "invR r" and run: "do_call R c r = (x, r')" using own(1) ask_redis by simp_all
    have none: "?W = {} \<and> sql.status_of jid s = Some QUEUED" if "claims_of jid c" "x = Inr True"
      using own(3) redis.do_call_unqueued [OF ir run nq] that q ask_redis by auto
    note f = follow_redis_call [OF IH [unfolded ask_redis snd_conv fst_conv] ask_redis(4,5) redis.do_call_calm [OF ir run] none]
    have "winners jid (redis_events (es @ [e])) = won_after jid ?W n c x" using ask_redis by (simp add: winners_made)
    then show ?thesis using f ask_redis q by (auto simp: won_after_def)
  next
    case (ask_sql n ps c k s x s' r)
    have nq: "\<not> requeues jid c" using once ask_sql by simp
    have inv_s: "invS s" and run: "do_call S c s = (x, s')" using inv ask_sql by simp_all
    note f = follow_sql_call [OF IH [unfolded ask_sql snd_conv fst_conv] ask_sql(4,5) sql.do_call_calm [OF inv_s run]
        sql_claim_fair [OF inv_s run] own(4)]
    have "sql.status_of jid s' = status_after jid c x (sql.status_of jid s)" by (rule sql.do_call_status [OF inv_s run nq])
    then show ?thesis using f ask_sql q by auto
  next
    case (pick n ps m jt qn k r x r' s)
    have "duo_guarded (k x) jid (n \<in> ?W) \<and> duo_settled (k x) jid (if n \<in> ?W then sql.status_of jid s else None) Q"
      using follow_sqlD [OF IH [unfolded pick snd_conv fst_conv] pick(4)]
      unfolding pick(5) duo_guarded.simps duo_settled.simps by blast
    then have "follow_sql jid Q ?W (sql.status_of jid s) (ps[n := k x])"
      by (intro follow_sql_update [OF IH [unfolded pick snd_conv fst_conv]]) auto
    then show ?thesis using pick q by (simp add: winners_snoc)
  next
    case (start n ps j p r s)
    have "duo_guarded p jid (n \<in> ?W) \<and> duo_settled p jid (if n \<in> ?W then sql.status_of jid s else None) Q"
      and own: "job_id j = jid \<longrightarrow> n \<in> ?W"
      using follow_sqlD [OF IH [unfolded start snd_conv fst_conv] start(4)]
      unfolding start(5) duo_guarded.simps duo_settled.simps by blast+
    then have "follow_sql jid Q ?W (sql.status_of jid s) (ps[n := p])"
      by (intro follow_sql_update [OF IH [unfolded start snd_conv fst_conv]]) auto
    then show ?thesis using start q own by (simp add: winners_snoc)
  qed
qed

lemma follow_run:
  assumes tr: "duo_trace R S starts x es y" and x: "x = ([], r0, s0)" and i: "invR r0" "invS s0"
    and ok: "\<And>p. starts p \<Longrightarrow> \<exists>t. p = split_proc t \<and> proper t \<and> guarded t jid False \<and> settled t jid None Q"
    and once: "\<forall>e \<in> set es. \<not> duo_puts_back jid e" and q: "sql.status_of jid s0 = Some QUEUED"
  shows "follow_sql jid Q (winners jid (redis_events es)) (sql.status_of jid (snd (snd y))) (fst y) \<and>
    (winners jid (redis_events es) = {} \<longrightarrow> sql.status_of jid (snd (snd y)) = Some QUEUED) \<and>
    (\<forall>n. \<forall>e \<in> set es. duo_acts jid n e \<longrightarrow> n \<in> winners jid (redis_events es))"
  using tr once
proof (induction rule: duo_trace.induct)
  case duo_nil
  then show ?case using x q by (simp add: follow_sql_def)
next
  case (duo_snoc es y e z)
  have tr: "duo_trace R S starts ([], r0, s0) es y" using duo_snoc.hyps(1) x by simp
  have IH: "follow_sql jid Q (winners jid (redis_events es)) (sql.status_of jid (snd (snd y))) (fst y)"
    "winners jid (redis_events es) = {} \<Longrightarrow> sql.status_of jid (snd (snd y)) = Some QUEUED"
    "\<And>n e. e \<in> set es \<Longrightarrow> duo_acts jid n e \<Longrightarrow> n \<in> winners jid (redis_events es)"
    using duo_snoc.IH duo_snoc.prems by auto
  have "winners jid (redis_events es) \<subseteq> winners jid (redis_events (es @ [e]))" by (auto simp: winners_def)
  then show ?case
    using follow_step [OF tr duo_snoc.hyps(2) i ok duo_snoc.prems IH(1,2)] IH(3) by (auto 4 3)
qed

lemma duo_status_kept:
  assumes "duo_trace R S starts x es y" and "invS (snd (snd x))" and "\<forall>e \<in> set es. \<not> duo_puts_back jid e"
    and "sql.status_of jid (snd (snd x)) \<noteq> None"
  shows "sql.status_of jid (snd (snd y)) \<noteq> None"
  using assms
proof (induction rule: duo_trace.induct)
  case (duo_snoc es y e z)
  have "invS (snd (snd y))" using duo_inv_sql [OF duo_snoc.hyps(1)] duo_snoc.prems(1) by simp
  moreover have "sql.status_of jid (snd (snd y)) \<noteq> None" using duo_snoc.IH duo_snoc.prems by simp
  moreover have "sql.status_of jid s' \<noteq> None"
    if "invS s" "do_call S c s = (a, s')" "sql.status_of jid s \<noteq> None" "\<not> requeues jid c" for s c a s'
    using sql.do_call_status [OF that(1,2,4)] that(3) status_after_some [of jid c a] by fastforce
  ultimately show ?case
    using duo_snoc.hyps(2) duo_snoc.prems(2) by (elim duo_step.cases) simp_all
qed simp

text \<open>
  A job that is queued in SQL, that nothing puts back and no client writes: one thread writes both copies and
  starts its handler, and when its pass has ended both copies are as its result says.
\<close>

lemma split_owned:
  assumes tr: "duo_trace R S starts ([], r0, s0) es y" and i: "invR r0" "invS s0"
    and ok: "\<And>p. starts p \<Longrightarrow> \<exists>t. p = split_proc t \<and> proper t \<and> guarded t jid False \<and> settled t jid None Q"
    and once: "\<forall>e \<in> set es. \<not> duo_puts_back jid e" and q: "sql.status_of jid s0 = Some QUEUED"
  shows "(\<forall>n m. \<forall>e \<in> set es. \<forall>f \<in> set es. duo_acts jid n e \<longrightarrow> duo_acts jid m f \<longrightarrow> n = m) \<and>
    (\<forall>n v. n \<in> winners jid (redis_events es) \<longrightarrow> fst y ! n = Stop v \<longrightarrow>
       (\<exists>a b. viewR (fst (snd y)) jid = Some a \<and> Q v (status a) \<and> viewS (snd (snd y)) jid = Some b \<and> Q v (status b)))"
proof (intro conjI allI impI)
  have ok2: "\<exists>t. p = split_proc t \<and> proper t \<and> guarded t jid False" if "starts p" for p using ok [OF that] by blast
  note own = redis_owner [OF tr i ok2 once]
  note run = follow_run [OF tr refl i ok once q]
  show "\<forall>e \<in> set es. \<forall>f \<in> set es. duo_acts jid n e \<longrightarrow> duo_acts jid m f \<longrightarrow> n = m" for n m using run own(4) by blast
  fix n v assume n: "n \<in> winners jid (redis_events es)" and v: "fst y ! n = Stop v"
  have len: "n < length (fst y)" using own(2) n by auto
  obtain x where x: "sql.status_of jid (snd (snd y)) = Some x" using duo_status_kept [OF tr _ once] i q by auto
  have "duo_settled (fst y ! n) jid (Some x) Q" using run n len x by (auto simp: follow_sql_def)
  then have "Q v x" unfolding v by simp
  then obtain b where b: "viewS (snd (snd y)) jid = Some b" "Q v (status b)" using x by auto
  obtain qs' where qs': "list_all2 resolves (fst y) qs'" using resolves_all by blast
  have tr': "trace R (\<lambda>q. \<exists>p. starts p \<and> resolves p q) ([], r0) (redis_events es) (qs', fst (snd y))"
    using redis_view_of_run [OF tr _ qs'] i by auto
  have "proper q \<and> guarded q jid False \<and> settled q jid None Q" if "\<exists>p. starts p \<and> resolves p q" for q
    using that ok by (metis proper_resolved guarded_resolved settled_resolved)
  note red = redis.owned [OF i(1) tr' this redis_puts_back [OF once]]
  have "resolves (Stop v) (qs' ! n)" using list_all2_nthD [OF qs' len] v by simp
  then have "qs' ! n = Done v" by (simp add: resolves_iff)
  then obtain a where "viewR (fst (snd y)) jid = Some a" "Q v (status a)" using red n by fastforce
  with b show "\<exists>a b. viewR (fst (snd y)) jid = Some a \<and> Q v (status a) \<and> viewS (snd (snd y)) jid = Some b \<and> Q v (status b)"
    by blast
qed

text \<open>The handlers that are started, and the calls that put a job into the queue of Redis.\<close>

lemma split_starts:
  assumes tr: "duo_trace R S starts ([], r0, s0) es y" and i: "invR r0" "invS s0"
    and ok: "\<And>p. starts p \<Longrightarrow> \<exists>t. p = split_proc t \<and> proper t \<and> covered t jid 0"
  shows "handler_starts jid (redis_events es) \<le> requeue_calls jid (redis_events es) + redis.in_queue jid r0"
proof -
  obtain qs' where qs': "list_all2 resolves (fst y) qs'" using resolves_all by blast
  have tr': "trace R (\<lambda>q. \<exists>p. starts p \<and> resolves p q) ([], r0) (redis_events es) (qs', fst (snd y))"
    using redis_view_of_run [OF tr _ qs'] i by auto
  have "proper q \<and> covered q jid 0" if "\<exists>p. starts p \<and> resolves p q" for q
    using that ok by (metis proper_resolved covered_resolved)
  from redis.tickets [OF tr' refl i(1) this] show ?thesis by auto
qed

text \<open>
  Two writers of one job: each of them writes Redis first and SQL second, and the two may cross, so that
  Redis keeps the status of one and SQL the status of the other.
\<close>

lemma writers_cross:
  assumes i: "invR r" "invS s" and a: "viewR r jid = Some a" and b: "viewS s jid = Some b"
    and p: "starts (split_proc (call_proc (CallStatus t jid u)))" and q: "starts (split_proc (call_proc (CallStatus t' jid u')))"
  shows "\<exists>es r' s' a' b'. duo_trace R S starts ([], r, s) es ([Stop (Inr True), Stop (Inr True)], r', s') \<and>
    viewR r' jid = Some a' \<and> status a' = u' \<and> viewS s' jid = Some b' \<and> status b' = u"
proof -
  let ?c = "CallStatus t jid u" and ?d = "CallStatus t' jid u'"
  let ?k = "\<lambda>c v. case v of Inl e \<Rightarrow> Stop (Inl e) | Inr _ \<Rightarrow> Ask InSql c Stop"
  have tree: "split_proc (call_proc (CallStatus n i v)) = Ask InRedis (CallStatus n i v) (?k (CallStatus n i v))" for n i v
    by (simp add: call_proc_def ask_then_def)
  obtain r1 a1 where r1: "do_call R ?c r = (Inr True, r1)" "invR r1" "viewR r1 jid = Some a1"
    using redis.update_status_law [OF i(1) a, of t u] by auto
  obtain r2 a2 where r2: "do_call R ?d r1 = (Inr True, r2)" "viewR r2 jid = Some a2" "status a2 = u'"
    using redis.update_status_law [OF r1(2,3), of t' u'] by auto
  obtain s1 b1 where s1: "do_call S ?d s = (Inr True, s1)" "invS s1" "viewS s1 jid = Some b1"
    using sql.update_status_law [OF i(2) b, of t' u'] by auto
  obtain s2 b2 where s2: "do_call S ?c s1 = (Inr True, s2)" "viewS s2 jid = Some b2" "status b2 = u"
    using sql.update_status_law [OF s1(2,3), of t u] by auto
  let ?p = "split_proc (call_proc ?c)" and ?q = "split_proc (call_proc ?d)"
  let ?step = "duo_step R S starts"
  have 1: "?step ([], r, s) Entered ([?p], r, s)" using duo_step.enter [of starts ?p R S "[]" r s, OF p] by simp
  have 2: "?step ([?p], r, s) Entered ([?p, ?q], r, s)" using duo_step.enter [of starts ?q R S "[?p]" r s, OF q] by simp
  have 3: "?step ([?p, ?q], r, s) (Asked 0 InRedis ?c (Inr True)) ([Ask InSql ?c Stop, ?q], r1, s)"
    by (rule ask_redis_at [where k = "?k ?c"]) (use r1 in \<open>simp_all add: tree\<close>)
  have 4: "?step ([Ask InSql ?c Stop, ?q], r1, s) (Asked 1 InRedis ?d (Inr True)) ([Ask InSql ?c Stop, Ask InSql ?d Stop], r2, s)"
    by (rule ask_redis_at [where k = "?k ?d"]) (use r2 in \<open>simp_all add: tree\<close>)
  have 5: "?step ([Ask InSql ?c Stop, Ask InSql ?d Stop], r2, s) (Asked 1 InSql ?d (Inr True)) ([Ask InSql ?c Stop, Stop (Inr True)], r2, s1)"
    by (rule ask_sql_at [where k = Stop]) (use s1 in simp_all)
  have 6: "?step ([Ask InSql ?c Stop, Stop (Inr True)], r2, s1) (Asked 0 InSql ?c (Inr True)) ([Stop (Inr True), Stop (Inr True)], r2, s2)"
    by (rule ask_sql_at [where k = Stop]) (use s2 in simp_all)
  show ?thesis
    using duo_cons [OF 1 duo_cons [OF 2 duo_cons [OF 3 duo_cons [OF 4 duo_cons [OF 5 duo_one [OF 6]]]]]] r2(2,3) s2(2,3) by blast
qed

end

end
