(* ===== verification/Hybrid_Properties.thy ===== *)
theory Hybrid_Properties
  imports Redis_Properties Run_Properties Hybrid_Process
begin

section \<open>Properties of workers over the hybrid backend\<close>

text \<open>
  Workers and clients over the hybrid backend, whose methods are not atomic: the calls to Redis and to SQL
  of different threads interleave in any order. The two backends are any that meet the contract.
\<close>

definition split_of :: "('a proc \<Rightarrow> bool) \<Rightarrow> 'a duo \<Rightarrow> bool" where
  "split_of starts p \<longleftrightarrow> (\<exists>t. starts t \<and> p = split_proc t)"

text \<open>
  Two workers over two stores, which hold the same two jobs: both pick the job \<open>b\<close>, the first wins the claim in
  Redis, the second loses it before the first has claimed the job in SQL.
\<close>

definition cross_events :: "duo_event list" where
  "cross_events =
     (let claim = CallClaim 3 ''b'' ''h'' ''w''; beat = CallHeartbeat 3 ''b''; fin = CallStatus 3 ''b'' SUCCEEDED in
      [Entered, Entered, Picked 0, Picked 1, Asked 0 InRedis claim (Inr True), Asked 1 InRedis claim (Inr False),
       Asked 0 InSql claim (Inr True), Asked 0 InSql beat (Inr True), Asked 0 InRedis beat (Inr True),
       Started 0 (demo_job ''b'' 5), Asked 0 InRedis fin (Inr True), Asked 0 InSql fin (Inr True)])"

text \<open>The first worker from one call to the next.\<close>

abbreviation cross_after_claim :: "exn + bool \<Rightarrow> bool duo" where
  "cross_after_claim r \<equiv> split_proc (case r of Inl e \<Rightarrow> Done (Inl e) | Inr won \<Rightarrow> if \<not> won then Done (Inr False) else race_execute)"

abbreviation cross_after_status :: "exn + bool \<Rightarrow> bool duo" where
  "cross_after_status r \<equiv> split_proc (then_proc (case r of Inl e \<Rightarrow> Done (Inl e) | Inr _ \<Rightarrow> Done (Inr True))
     (\<lambda>r. case r of Inl e \<Rightarrow> failed_proc race_config ''u'' (\<lambda>_. 3) (demo_job ''b'' 5) e | Inr x \<Rightarrow> Done (Inr x)))"

abbreviation cross_after_beat :: "exn + bool \<Rightarrow> bool duo" where
  "cross_after_beat r \<equiv> split_proc (then_proc (case r of Inl e \<Rightarrow> Done (Inl e) | Inr _ \<Rightarrow> Begin (demo_job ''b'' 5)
        (Make (CallStatus 3 ''b'' SUCCEEDED) (\<lambda>r. case r of Inl e \<Rightarrow> Done (Inl e) | Inr _ \<Rightarrow> Done (Inr True))))
        (\<lambda>r. case r of Inl e \<Rightarrow> failed_proc race_config ''u'' (\<lambda>_. 3) (demo_job ''b'' 5) e | Inr x \<Rightarrow> Done (Inr x)))"

lemma cross_pass: "split_proc race_pass = Pick 1 None None (\<lambda>r. split_proc (case r of Inl e \<Rightarrow> Done (Inl e)
    | Inr [] \<Rightarrow> Done (Inr False) | Inr (j # _) \<Rightarrow> take_proc race_config [(''mail'', \<lambda>ctx. Done (Inr PNone))] ''u'' (\<lambda>_. 3) j))"
  unfolding race_pass_tree by simp

lemma cross_take: "split_proc race_take = split_call (CallClaim 3 ''b'' ''h'' ''w'') cross_after_claim"
  unfolding race_take_tree by simp

lemma cross_execute: "split_proc race_execute = split_call (CallHeartbeat 3 ''b'') cross_after_beat"
  unfolding race_execute_tree by simp

lemma cross_begin: "cross_after_beat (Inr x) = Start (demo_job ''b'' 5) (split_call (CallStatus 3 ''b'' SUCCEEDED) cross_after_status)"
  by simp

lemma cross_trace:
  assumes "starts (split_proc race_pass)"
  shows "duo_trace memory_ops memory_ops starts ([], demo_backend, demo_backend) cross_events
    ([Stop (Inr True), Stop (Inr False)], race_finished, race_finished)"
proof -
  let ?step = "duo_step memory_ops memory_ops starts"
  let ?claim = "CallClaim 3 ''b'' ''h'' ''w''" and ?beat = "CallHeartbeat 3 ''b''" and ?fin = "CallStatus 3 ''b'' SUCCEEDED"
  let ?pass = "split_proc race_pass" and ?take = "split_proc race_take" and ?b = demo_backend and ?lost = "Stop (Inr False)"
  let ?sql_claim = "ask_then InSql ?claim (\<lambda>_. cross_after_claim (Inr True)) cross_after_claim"
  let ?status = "split_call ?fin cross_after_status"
  have 1: "?step ([], ?b, ?b) Entered ([?pass], ?b, ?b)"
    using duo_step.enter [where starts = starts and p = ?pass and ps = "[]"] assms by simp
  have 2: "?step ([?pass], ?b, ?b) Entered ([?pass, ?pass], ?b, ?b)"
    using duo_step.enter [where starts = starts and p = ?pass and ps = "[?pass]"] assms by simp
  have 3: "?step ([?pass, ?pass], ?b, ?b) (Picked 0) ([?take, ?pass], ?b, ?b)"
    by (rule pick_at, subst nth_Cons_0, rule cross_pass, simp, rule race_fetch) simp
  have 4: "?step ([?take, ?pass], ?b, ?b) (Picked 1) ([?take, ?take], ?b, ?b)"
    by (rule pick_at, subst One_nat_def, subst nth_Cons_Suc, subst nth_Cons_0, rule cross_pass, simp, rule race_fetch) simp
  have 5: "?step ([?take, ?take], ?b, ?b) (Asked 0 InRedis ?claim (Inr True)) ([?sql_claim, ?take], race_claimed, ?b)"
    by (rule ask_redis_at [OF _ _ race_claims(1)], subst nth_Cons_0, subst cross_take, subst split_call.simps, subst ask_then_def,
        rule refl) simp_all
  have 6: "?step ([?sql_claim, ?take], race_claimed, ?b) (Asked 1 InRedis ?claim (Inr False)) ([?sql_claim, ?lost], race_claimed, ?b)"
    by (rule ask_redis_at [OF _ _ race_claims(2)], subst One_nat_def, subst nth_Cons_Suc, subst nth_Cons_0, subst cross_take,
        subst split_call.simps, subst (2) ask_then_def, rule refl) simp_all
  have 7: "?step ([?sql_claim, ?lost], race_claimed, ?b) (Asked 0 InSql ?claim (Inr True))
      ([split_proc race_execute, ?lost], race_claimed, race_claimed)"
    by (rule ask_sql_at [OF _ _ race_claims(1)], subst nth_Cons_0, subst ask_then_def, rule refl) simp_all
  have 8: "?step ([split_proc race_execute, ?lost], race_claimed, race_claimed) (Asked 0 InSql ?beat (Inr True))
      ([Ask InRedis ?beat cross_after_beat, ?lost], race_claimed, race_beaten)"
    by (rule ask_sql_at [OF _ _ race_writes(1)], subst nth_Cons_0, subst cross_execute, subst split_call.simps, subst ask_then_def,
        rule refl) simp_all
  have 9: "?step ([Ask InRedis ?beat cross_after_beat, ?lost], race_claimed, race_beaten) (Asked 0 InRedis ?beat (Inr True))
      ([Start (demo_job ''b'' 5) ?status, ?lost], race_beaten, race_beaten)"
    by (rule ask_redis_at [OF _ _ race_writes(1)], rule nth_Cons_0) simp_all
  have 10: "?step ([Start (demo_job ''b'' 5) ?status, ?lost], race_beaten, race_beaten) (Started 0 (demo_job ''b'' 5))
      ([?status, ?lost], race_beaten, race_beaten)"
    by (rule start_at, rule nth_Cons_0) simp_all
  have 11: "?step ([?status, ?lost], race_beaten, race_beaten) (Asked 0 InRedis ?fin (Inr True))
      ([Ask InSql ?fin cross_after_status, ?lost], race_finished, race_beaten)"
    by (rule ask_redis_at [OF _ _ race_writes(2)], subst nth_Cons_0, subst split_call.simps, subst ask_then_def, rule refl) simp_all
  have 12: "?step ([Ask InSql ?fin cross_after_status, ?lost], race_finished, race_beaten) (Asked 0 InSql ?fin (Inr True))
      ([Stop (Inr True), ?lost], race_finished, race_finished)"
    by (rule ask_sql_at [OF _ _ race_writes(2)], rule nth_Cons_0) simp_all
  show ?thesis
    unfolding cross_events_def Let_def
    by (rule duo_cons [OF 1] duo_cons [OF 2] duo_cons [OF 3] duo_cons [OF 4] duo_cons [OF 5] duo_cons [OF 6] duo_cons [OF 7]
        duo_cons [OF 8] duo_cons [OF 9] duo_cons [OF 10] duo_cons [OF 11] duo_one [OF 12])+
qed

text \<open>
  C8. In every interleaving of the Redis and SQL calls of any number of workers and clients over the hybrid
  backend, with crashes anywhere, the handler of a job is started at most as often as the job was put into
  the queue of Redis: once when it was queued there at the start, and once more for every call to
  Redis that enqueues, releases or requeues it.
\<close>

theorem hybrid_starts_bounded:
  assumes "hybrid R invR viewR storedR S invS viewS storedS" and "invR r" and "invS s"
    and "duo_trace R S (split_of thread) ([], r, s) es y"
  shows "handler_starts jid (redis_events es) \<le> requeue_calls jid (redis_events es) +
    (if \<exists>j. viewR r jid = Some j \<and> status j = QUEUED then 1 else 0)"
proof -
  have "\<exists>t. p = split_proc t \<and> proper t \<and> covered t jid 0" if "split_of thread p" for p
    using that thread_ok by (auto simp: split_of_def)
  from hybrid.split_starts [OF assms(1,4,2,3) this] show ?thesis
    using queue_backend.unqueued_def [OF hybrid.axioms(1) [OF assms(1)], of jid r] by (auto split: if_splits)
qed

interpretation memh: hybrid memory_ops mem_inv mem_view "\<lambda>j. j" memory_ops mem_inv mem_view "\<lambda>j. j"
  by unfold_locales

theorem hybrid_starts_bounded_witness:
  "handler_starts ''b'' (redis_events cross_events) = 1 \<and>
    handler_starts ''b'' (redis_events cross_events) \<le> requeue_calls ''b'' (redis_events cross_events) +
      (if \<exists>j. mem_view demo_backend ''b'' = Some j \<and> status j = QUEUED then 1 else 0)"
proof (rule conjI)
  show "handler_starts ''b'' (redis_events cross_events) = 1"
    by (simp add: handler_starts_def redis_events_def cross_events_def Let_def)
  have "split_of thread (split_proc race_pass)" using race_thread by (auto simp: split_of_def)
  from hybrid_starts_bounded [OF memh.hybrid_axioms demo_inv demo_inv cross_trace [where starts = "split_of thread", OF this]]
  show "handler_starts ''b'' (redis_events cross_events) \<le> requeue_calls ''b'' (redis_events cross_events) +
      (if \<exists>j. mem_view demo_backend ''b'' = Some j \<and> status j = QUEUED then 1 else 0)" .
qed

text \<open>
  C7. Over the hybrid backend, a job that is queued in SQL, that nothing puts back into a queue and that no client
  writes has one owner, in every interleaving of the Redis and SQL calls of workers without fallback policies
  and of clients: one thread makes all the writes of both copies and starts the handler, and once the
  pass that won the claim in Redis has ended, Redis and SQL both store the job as succeeded when
  the pass returned, and as failed when it raised (or still running when its type had no handler).
\<close>

theorem hybrid_job_settles:
  assumes "hybrid R invR viewR storedR S invS viewS storedS" and "invR r" and "invS s"
    and "viewS s jid = Some j" and "status j = QUEUED"
    and "duo_trace R S (split_of (thread_apart jid)) ([], r, s) es y" and "\<forall>e \<in> set es. \<not> duo_puts_back jid e"
  shows "(\<forall>n m. \<forall>e \<in> set es. \<forall>f \<in> set es. duo_acts jid n e \<longrightarrow> duo_acts jid m f \<longrightarrow> n = m) \<and>
    (\<forall>n v. n \<in> winners jid (redis_events es) \<longrightarrow> fst y ! n = Stop v \<longrightarrow>
       (\<exists>a b. viewR (fst (snd y)) jid = Some a \<and> verdict_stored v (status a) \<and>
              viewS (snd (snd y)) jid = Some b \<and> verdict_stored v (status b)))"
proof -
  have "\<exists>t. p = split_proc t \<and> proper t \<and> guarded t jid False \<and> settled t jid None verdict_stored"
    if "split_of (thread_apart jid) p" for p
    using that thread_apart_ok by (auto simp: split_of_def)
  moreover have "map_option status (viewS s jid) = Some QUEUED" using assms(4,5) by simp
  ultimately show ?thesis using hybrid.split_owned [OF assms(1,6,2,3) _ assms(7)] by blast
qed

theorem hybrid_job_settles_witness:
  "{n. \<exists>e. e \<in> set cross_events \<and> duo_acts ''b'' n e} = {0} \<and>
    (\<exists>a b. mem_view race_finished ''b'' = Some a \<and> verdict_stored (Inr True) (status a) \<and>
           mem_view race_finished ''b'' = Some b \<and> verdict_stored (Inr True) (status b))"
proof -
  have "split_of (thread_apart ''b'') (split_proc race_pass)" using race_apart [of "''b''"] by (auto simp: split_of_def)
  note tr = cross_trace [where starts = "split_of (thread_apart ''b'')", OF this]
  have "mem_view demo_backend ''b'' = Some (demo_job ''b'' 5)" by (simp add: mem_view_def demo_backend_def)
  moreover have "\<forall>e \<in> set cross_events. \<not> duo_puts_back ''b'' e" by (simp add: cross_events_def Let_def)
  ultimately have out: "(\<forall>n m. \<forall>e \<in> set cross_events. \<forall>f \<in> set cross_events. duo_acts ''b'' n e \<longrightarrow> duo_acts ''b'' m f \<longrightarrow> n = m) \<and>
    (\<forall>n v. n \<in> winners ''b'' (redis_events cross_events) \<longrightarrow> [Stop (Inr True), Stop (Inr False)] ! n = Stop v \<longrightarrow>
       (\<exists>a b. mem_view race_finished ''b'' = Some a \<and> verdict_stored v (status a) \<and>
              mem_view race_finished ''b'' = Some b \<and> verdict_stored v (status b)))"
    using hybrid_job_settles [OF memh.hybrid_axioms demo_inv demo_inv _ _ tr] by simp
  have own: "Started 0 (demo_job ''b'' 5) \<in> set cross_events" "duo_acts ''b'' 0 (Started 0 (demo_job ''b'' 5))"
    by (simp_all add: cross_events_def Let_def)
  have "n = 0" if "e \<in> set cross_events" and "duo_acts ''b'' n e" for n e
    using conjunct1 [OF out] that own by blast
  then have "{n. \<exists>e. e \<in> set cross_events \<and> duo_acts ''b'' n e} = {0}" using own by blast
  moreover have "0 \<in> winners ''b'' (redis_events cross_events)"
    by (auto simp: winners_def redis_events_def cross_events_def Let_def intro!: exI [of _ "CallClaim 3 ''b'' ''h'' ''w''"])
  ultimately show ?thesis using conjunct2 [OF out] by fastforce
qed

text \<open>
  C9. The copies of the hybrid backend do not stay in step under concurrent writers: for any stores and any job
  stored in both, two calls of \<open>update_status\<close> with different states can cross, so that both answer \<open>True\<close> and
  Redis keeps the state of the one and SQL the state of the other.
\<close>

theorem hybrid_writers_cross:
  assumes "hybrid R invR viewR storedR S invS viewS storedS" and "invR r" and "invS s"
    and "viewR r jid = Some a" and "viewS s jid = Some b" and "u \<noteq> u'"
  shows "\<exists>es r' s' a' b'. duo_trace R S
      (\<lambda>p. p = split_proc (call_proc (CallStatus t jid u)) \<or> p = split_proc (call_proc (CallStatus t' jid u')))
      ([], r, s) es ([Stop (Inr True), Stop (Inr True)], r', s') \<and>
    viewR r' jid = Some a' \<and> status a' = u' \<and> viewS s' jid = Some b' \<and> status b' = u \<and> \<not> in_step (viewR r') (viewS s')"
proof -
  obtain es r' s' a' b' where out: "duo_trace R S
      (\<lambda>p. p = split_proc (call_proc (CallStatus t jid u)) \<or> p = split_proc (call_proc (CallStatus t' jid u')))
      ([], r, s) es ([Stop (Inr True), Stop (Inr True)], r', s')"
      "viewR r' jid = Some a'" "status a' = u'" "viewS s' jid = Some b'" "status b' = u"
    using hybrid.writers_cross [OF assms(1-5), of "\<lambda>p. p = split_proc (call_proc (CallStatus t jid u)) \<or>
        p = split_proc (call_proc (CallStatus t' jid u'))" t u t' u'] by blast
  have "\<not> rel_option same_core (viewR r' jid) (viewS s' jid)" using out(2-5) assms(6) by (simp add: same_core_def)
  then have "\<not> in_step (viewR r') (viewS s')" unfolding in_step_def by blast
  with out show ?thesis by blast
qed

theorem hybrid_writers_cross_witness:
  "\<exists>es r' s' a' b'. duo_trace (redis_backend demo_redis default_redis) (sql_ops list_table)
      (\<lambda>p. p = split_proc (call_proc (CallStatus 5 ''a'' SUCCEEDED)) \<or> p = split_proc (call_proc (CallStatus 6 ''a'' CANCELLED)))
      ([], fst demo_hybrid, snd demo_hybrid) es ([Stop (Inr True), Stop (Inr True)], r', s') \<and>
    demo_view r' ''a'' = Some a' \<and> status a' = CANCELLED \<and> sql_view find_row s' ''a'' = Some b' \<and> status b' = SUCCEEDED \<and>
    \<not> in_step (demo_view r') (sql_view find_row s')"
proof -
  have "rel_option same_core (demo_view (fst demo_hybrid) ''a'') (sql_view find_row (snd demo_hybrid) ''a'')"
    using demo_hybrid_facts(3) unfolding in_step_def by blast
  then obtain a where "demo_view (fst demo_hybrid) ''a'' = Some a"
    unfolding demo_hybrid_facts(4) by (cases "demo_view (fst demo_hybrid) ''a''") auto
  from hybrid_writers_cross [OF listh.hybrid_axioms demo_hybrid_facts(1,2) this demo_hybrid_facts(4)] show ?thesis by simp
qed





end
