(* ===== verification/Interfaces.thy ===== *)
theory Interfaces
  imports Job_Queue Admin
begin

section \<open>MCP tools and the HTTP API\<close>

text \<open>
  \<open>mcp/job_tools.py\<close>, \<open>api/fastapi/router.py\<close> and \<open>api/fastapi/middleware.py\<close>. A tool is a name, a
  description, an input schema and a handler from its arguments to a JSON value, over the queue that
  \<open>create_job_tools\<close> is given; the endpoints run over the admin service. The web framework, which finds
  the endpoint of a request and decodes its parameters, is not modelled; \<open>HTTPException\<close> is the
  response \<open>Refused\<close>. The keys of a dictionary are texts, and a \<open>job_type\<close> filter is a text or
  \<open>None\<close>, as the schema of \<open>jobs.list\<close> says.
\<close>

subsection \<open>MCP tools\<close>

type_synonym json_object = "(string, pyval) dict"

definition mcp_error :: "string \<Rightarrow> string \<Rightarrow> pyval" where
  "mcp_error message code = PDict [(''error'', PDict [(''code'', PStr code), (''message'', PStr message)])]"

definition lift_exn :: "exn + 'a \<Rightarrow> ('s, 'a) py" where
  "lift_exn r = (case r of Inl e \<Rightarrow> raise_exn e | Inr x \<Rightarrow> ret x)"

definition arg :: "json_object \<Rightarrow> string \<Rightarrow> ('s, pyval) py" where
  "arg arguments k = (case dict_get arguments k of None \<Rightarrow> raise_exn (KeyError k) | Some v \<Rightarrow> ret v)"

text \<open>\<open>dict(v)\<close>: a dictionary, or a sequence of pairs.\<close>

definition pair_of :: "nat \<Rightarrow> pyval \<Rightarrow> exn + (string \<times> pyval)" where
  "pair_of i v =
     (let wrong = (\<lambda>n. Inl (ValueError (''dictionary update sequence element #'' @ nat_str i @ '' has length '' @
              nat_str n @ ''; 2 is required''))) in
      case v of
        PList [PStr k, x] \<Rightarrow> Inr (k, x)
      | PList xs \<Rightarrow> if length xs = 2 then Inl (OtherException ''key is not a string'') else wrong (length xs)
      | PStr s \<Rightarrow> (case s of [c, d] \<Rightarrow> Inr ([c], PStr [d]) | _ \<Rightarrow> wrong (length s))
      | PDict [(k, _), (k', _)] \<Rightarrow> Inr (k, PStr k')
      | PDict d \<Rightarrow> wrong (length d)
      | _ \<Rightarrow> Inl (OtherException (''cannot convert dictionary update sequence element #'' @ nat_str i @ '' to a sequence'')))"

fun pairs_dict :: "nat \<Rightarrow> pyval list \<Rightarrow> json_object \<Rightarrow> exn + json_object" where
  "pairs_dict i [] acc = Inr acc"
| "pairs_dict i (v # vs) acc =
     (case pair_of i v of Inl e \<Rightarrow> Inl e | Inr (k, x) \<Rightarrow> pairs_dict (Suc i) vs (dict_set acc k x))"

definition py_dict :: "pyval \<Rightarrow> exn + json_object" where
  "py_dict v =
     (case v of
        PDict d \<Rightarrow> Inr d
      | PList vs \<Rightarrow> pairs_dict 0 vs []
      | PStr s \<Rightarrow> pairs_dict 0 (map (\<lambda>c. PStr [c]) s) []
      | _ \<Rightarrow> Inl (OtherException (repr_str (py_type v) @ '' object is not iterable'')))"

definition create_handler ::
  "'b backend_ops \<Rightarrow> (string \<Rightarrow> exn + int) \<Rightarrow> string \<Rightarrow> (nat \<Rightarrow> time) \<Rightarrow> json_object \<Rightarrow> ('b job_queue, pyval) py" where
  "create_handler ops fint uuid clk arguments =
     try_except
       (bind_py (arg arguments ''job_type'') (\<lambda>jt.
        bind_py (lift_exn (py_dict (py_or (dict_get arguments ''payload'') (PDict [])))) (\<lambda>pl.
        bind_py (lift_exn (py_int fint (py_or (dict_get arguments ''priority'') (PInt 0)))) (\<lambda>prio.
        bind_py (jq_submit ops uuid clk
            ((default_request (py_str jt))
               \<lparr>rq_payload := pl, rq_queue_name := py_str (py_or (dict_get arguments ''queue_name'') (PStr ''default'')),
                rq_priority := prio\<rparr>)) (\<lambda>jid.
          ret (PDict [(''job_id'', PStr jid)]))))))
       (\<lambda>e. ret (mcp_error (exn_str e) ''invalid_request''))"

definition status_handler :: "'b backend_ops \<Rightarrow> json_object \<Rightarrow> ('b job_queue, pyval) py" where
  "status_handler ops arguments =
     try_except
       (bind_py (arg arguments ''job_id'') (\<lambda>jid.
        bind_py (jq_get ops (py_str jid)) (\<lambda>job.
          case job of
            None \<Rightarrow> ret (mcp_error ''job not found'' ''not_found'')
          | Some j \<Rightarrow> ret (PDict [(''job_id'', PStr (job_id j)), (''status'', PStr (status_value (status j))),
              (''job_type'', PStr (job_type j)), (''queue_name'', PStr (queue_name j))]))))
       (\<lambda>e. ret (mcp_error (exn_str e) ''internal_error''))"

definition cancel_handler :: "'b backend_ops \<Rightarrow> (nat \<Rightarrow> time) \<Rightarrow> json_object \<Rightarrow> ('b job_queue, pyval) py" where
  "cancel_handler ops clk arguments =
     try_except
       (bind_py (arg arguments ''job_id'') (\<lambda>jid.
        bind_py (jq_cancel ops clk (py_str jid)) (\<lambda>ok.
          ret (PDict [(''job_id'', PStr (py_str jid)), (''cancelled'', PBool ok)]))))
       (\<lambda>e. ret (mcp_error (exn_str e) ''internal_error''))"

definition text_filter :: "pyval option \<Rightarrow> string option" where
  "text_filter v = (case v of Some (PStr s) \<Rightarrow> Some s | _ \<Rightarrow> None)"

definition job_item :: "job \<Rightarrow> pyval" where
  "job_item j =
     PDict [(''job_id'', PStr (job_id j)), (''job_type'', PStr (job_type j)), (''status'', PStr (status_value (status j))),
       (''queue_name'', PStr (queue_name j)), (''priority'', PInt (priority j))]"

definition list_handler :: "'b backend_ops \<Rightarrow> (string \<Rightarrow> exn + int) \<Rightarrow> json_object \<Rightarrow> ('b job_queue, pyval) py" where
  "list_handler ops fint arguments =
     try_except
       (bind_py (lift_exn (py_int fint (py_or (dict_get arguments ''limit'') (PInt 50)))) (\<lambda>limit.
        bind_py (jq_list ops limit (text_filter (dict_get arguments ''job_type''))) (\<lambda>jobs.
          ret (PDict [(''items'', PList (map job_item jobs))]))))
       (\<lambda>e. ret (mcp_error (exn_str e) ''internal_error''))"

record 'b mcp_tool =
  tool_name :: string
  tool_description :: string
  tool_schema :: pyval
  tool_handler :: "json_object \<Rightarrow> ('b job_queue, pyval) py"

definition schema_type :: "string \<Rightarrow> pyval" where
  "schema_type t = PDict [(''type'', PStr t)]"

definition object_schema :: "json_object \<Rightarrow> string list \<Rightarrow> pyval" where
  "object_schema props req =
     PDict [(''type'', PStr ''object''), (''properties'', PDict props), (''required'', PList (map PStr req))]"

definition create_job_tools ::
  "'b backend_ops \<Rightarrow> (string \<Rightarrow> exn + int) \<Rightarrow> string \<Rightarrow> (nat \<Rightarrow> time) \<Rightarrow> 'b mcp_tool list" where
  "create_job_tools ops fint uuid clk =
     [\<lparr>tool_name = ''jobs.create'', tool_description = ''Create a new background job.'',
       tool_schema = object_schema
         [(''job_type'', schema_type ''string''), (''payload'', schema_type ''object''),
          (''queue_name'', schema_type ''string''), (''priority'', schema_type ''integer'')] [''job_type''],
       tool_handler = create_handler ops fint uuid clk\<rparr>,
      \<lparr>tool_name = ''jobs.status'', tool_description = ''Get status for a job by identifier.'',
       tool_schema = object_schema [(''job_id'', schema_type ''string'')] [''job_id''],
       tool_handler = status_handler ops\<rparr>,
      \<lparr>tool_name = ''jobs.cancel'', tool_description = ''Cancel an existing job.'',
       tool_schema = object_schema [(''job_id'', schema_type ''string'')] [''job_id''],
       tool_handler = cancel_handler ops clk\<rparr>,
      \<lparr>tool_name = ''jobs.list'', tool_description = ''List jobs in queue order.'',
       tool_schema = object_schema
         [(''limit'', PDict [(''type'', PStr ''integer''), (''minimum'', PInt 1), (''maximum'', PInt 200)]),
          (''job_type'', schema_type ''string'')] [],
       tool_handler = list_handler ops fint\<rparr>]"

subsection \<open>The HTTP API\<close>

datatype 'a http_result = Answer 'a | Refused int string

definition http_queue_status :: "'b backend_ops \<Rightarrow> ('b admin_service, pyval http_result) py" where
  "http_queue_status ops =
     bind_py (admin_queue_status ops) (\<lambda>d. ret (Answer (PDict (map (\<lambda>(k, n). (k, PInt n)) d))))"

definition http_item :: "job \<Rightarrow> pyval" where
  "http_item j =
     PDict [(''job_id'', PStr (job_id j)), (''job_type'', PStr (job_type j)), (''status'', PStr (status_value (status j))),
       (''priority'', PInt (priority j))]"

definition http_list_jobs :: "'b backend_ops \<Rightarrow> int \<Rightarrow> ('b admin_service, pyval http_result) py" where
  "http_list_jobs ops limit = bind_py (admin_list ops limit) (\<lambda>jobs. ret (Answer (PList (map http_item jobs))))"

definition http_get_job :: "'b backend_ops \<Rightarrow> string \<Rightarrow> ('b admin_service, pyval http_result) py" where
  "http_get_job ops jid =
     bind_py (admin_get ops jid) (\<lambda>job.
       ret (case job of None \<Rightarrow> Refused 404 ''Job not found'' | Some j \<Rightarrow> Answer (http_item j)))"

definition http_delete_job :: "'b backend_ops \<Rightarrow> checker \<Rightarrow> time \<Rightarrow> string \<Rightarrow> ('b admin_service, pyval http_result) py" where
  "http_delete_job ops chk now jid =
     bind_py (admin_delete ops chk now jid) (\<lambda>ok. ret (Answer (PDict [(''deleted'', PBool ok)])))"

definition http_resubmit_job ::
  "'b backend_ops \<Rightarrow> checker \<Rightarrow> string \<Rightarrow> time \<Rightarrow> string \<Rightarrow> ('b admin_service, pyval http_result) py" where
  "http_resubmit_job ops chk uuid now jid =
     bind_py (admin_resubmit ops chk uuid now jid) (\<lambda>new.
       ret (case new of None \<Rightarrow> Refused 404 ''Job not found'' | Some i \<Rightarrow> Answer (PDict [(''job_id'', PStr i)])))"

definition http_stop_job :: "'b backend_ops \<Rightarrow> checker \<Rightarrow> (nat \<Rightarrow> time) \<Rightarrow> string \<Rightarrow> ('b admin_service, pyval http_result) py" where
  "http_stop_job ops chk clk jid =
     bind_py (admin_cancel ops chk clk jid) (\<lambda>ok. ret (Answer (PDict [(''cancelled'', PBool ok)])))"

text \<open>The middleware, over the rest of the application \<open>call_next\<close>.\<close>

record http_request =
  hr_method :: string
  hr_path :: string

definition required_permission :: "http_request \<Rightarrow> string option" where
  "required_permission rq =
     (if \<not> starts_with ''/jobs'' (hr_path rq) then None
      else if hr_method rq = ''GET'' then Some ''jobs.read''
      else if hr_method rq = ''POST'' then Some ''jobs.write''
      else if hr_method rq = ''DELETE'' then Some ''jobs.delete''
      else Some ''jobs.write'')"

definition rbac_dispatch ::
  "(http_request \<Rightarrow> string \<Rightarrow> bool) \<Rightarrow> (http_request \<Rightarrow> ('s, 'a http_result) py) \<Rightarrow> http_request \<Rightarrow> ('s, 'a http_result) py" where
  "rbac_dispatch checker call_next rq =
     (case required_permission rq of
        Some perm \<Rightarrow> if \<not> checker rq perm then ret (Refused 403 ''Forbidden'') else call_next rq
      | None \<Rightarrow> call_next rq)"

text \<open>The endpoints with the method and path that \<open>build_router\<close> declares for each.\<close>

datatype endpoint =
  EpStatus | EpList int | EpGet string | EpDelete string | EpResubmit string | EpStop string

fun endpoint_request :: "endpoint \<Rightarrow> http_request" where
  "endpoint_request EpStatus = \<lparr>hr_method = ''GET'', hr_path = ''/jobs/queue/status''\<rparr>"
| "endpoint_request (EpList _) = \<lparr>hr_method = ''GET'', hr_path = ''/jobs''\<rparr>"
| "endpoint_request (EpGet jid) = \<lparr>hr_method = ''GET'', hr_path = ''/jobs/'' @ jid\<rparr>"
| "endpoint_request (EpDelete jid) = \<lparr>hr_method = ''DELETE'', hr_path = ''/jobs/'' @ jid\<rparr>"
| "endpoint_request (EpResubmit jid) = \<lparr>hr_method = ''POST'', hr_path = ''/jobs/'' @ jid @ ''/resubmit''\<rparr>"
| "endpoint_request (EpStop jid) = \<lparr>hr_method = ''POST'', hr_path = ''/jobs/'' @ jid @ ''/stop''\<rparr>"

fun run_endpoint ::
  "'b backend_ops \<Rightarrow> checker \<Rightarrow> string \<Rightarrow> (nat \<Rightarrow> time) \<Rightarrow> endpoint \<Rightarrow> ('b admin_service, pyval http_result) py" where
  "run_endpoint ops chk uuid clk EpStatus = http_queue_status ops"
| "run_endpoint ops chk uuid clk (EpList limit) = http_list_jobs ops limit"
| "run_endpoint ops chk uuid clk (EpGet jid) = http_get_job ops jid"
| "run_endpoint ops chk uuid clk (EpDelete jid) = http_delete_job ops chk (clk 0) jid"
| "run_endpoint ops chk uuid clk (EpResubmit jid) = http_resubmit_job ops chk uuid (clk 0) jid"
| "run_endpoint ops chk uuid clk (EpStop jid) = http_stop_job ops chk clk jid"

definition serve_endpoint ::
  "(http_request \<Rightarrow> string \<Rightarrow> bool) \<Rightarrow> 'b backend_ops \<Rightarrow> checker \<Rightarrow> string \<Rightarrow> (nat \<Rightarrow> time) \<Rightarrow> endpoint \<Rightarrow>
   ('b admin_service, pyval http_result) py" where
  "serve_endpoint checker ops chk uuid clk e =
     rbac_dispatch checker (\<lambda>_. run_endpoint ops chk uuid clk e) (endpoint_request e)"

fun endpoint_permission :: "endpoint \<Rightarrow> string" where
  "endpoint_permission (EpDelete _) = ''jobs.delete''"
| "endpoint_permission (EpResubmit _) = ''jobs.write''"
| "endpoint_permission (EpStop _) = ''jobs.write''"
| "endpoint_permission _ = ''jobs.read''"

lemma endpoint_required: "required_permission (endpoint_request e) = Some (endpoint_permission e)"
  by (cases e) (simp_all add: required_permission_def starts_with_def)

lemma serve_endpoint_eq:
  "serve_endpoint checker ops chk uuid clk e =
     (if checker (endpoint_request e) (endpoint_permission e) then run_endpoint ops chk uuid clk e
      else ret (Refused 403 ''Forbidden''))"
  by (simp add: serve_endpoint_def rbac_dispatch_def endpoint_required)

subsection \<open>The tools over any backend that meets the contract\<close>

lemma py_return_total: "\<exists>v s'. try_except m (\<lambda>e. ret (f e)) s = (Inr v, s')"
  by (cases "m s"; cases "fst (m s)") (auto simp: try_except_def ret_def)

lemma tools_total:
  assumes "t \<in> set (create_job_tools ops fint uuid clk)"
  shows "\<exists>v q'. tool_handler t arguments q = (Inr v, q')"
  using assms
  by (auto simp: create_job_tools_def create_handler_def status_handler_def cancel_handler_def list_handler_def py_return_total)

definition created_request :: "(string \<Rightarrow> exn + int) \<Rightarrow> json_object \<Rightarrow> exn + job_request" where
  "created_request fint arguments =
     (case dict_get arguments ''job_type'' of
        None \<Rightarrow> Inl (KeyError ''job_type'')
      | Some jt \<Rightarrow>
          (case py_dict (py_or (dict_get arguments ''payload'') (PDict [])) of
             Inl e \<Rightarrow> Inl e
           | Inr pl \<Rightarrow>
               (case py_int fint (py_or (dict_get arguments ''priority'') (PInt 0)) of
                  Inl e \<Rightarrow> Inl e
                | Inr prio \<Rightarrow>
                    Inr ((default_request (py_str jt))
                      \<lparr>rq_payload := pl, rq_queue_name := py_str (py_or (dict_get arguments ''queue_name'') (PStr ''default'')),
                       rq_priority := prio\<rparr>))))"

lemma create_handler_eq:
  "create_handler ops fint uuid clk arguments q =
     (case created_request fint arguments of
        Inl e \<Rightarrow> (Inr (mcp_error (exn_str e) ''invalid_request''), q)
      | Inr req \<Rightarrow>
          (case jq_submit ops uuid clk req q of
             (Inl e, q') \<Rightarrow> (Inr (mcp_error (exn_str e) ''invalid_request''), q')
           | (Inr jid, q') \<Rightarrow> (Inr (PDict [(''job_id'', PStr jid)]), q')))"
  unfolding create_handler_def created_request_def
  by (auto simp: arg_def lift_exn_def py_defs split: option.split sum.split prod.split)

locale tooling = submitting
begin

lemma create_then_status:
  assumes req: "created_request fint arguments = Inr req" and acc: "payload_accepted (jq_payload_max q) req"
    and i: "inv (jq_backend q)" and fresh: "view (jq_backend q) uuid = None"
  shows "\<exists>q'. create_handler ops fint uuid clk arguments q = (Inr (PDict [(''job_id'', PStr uuid)]), q') \<and> inv (jq_backend q') \<and>
    view (jq_backend q') = (view (jq_backend q))(uuid \<mapsto> stored (from_request uuid (clk 0) req)) \<and>
    status_handler ops [(''job_id'', PStr uuid)] q' =
      (Inr (PDict [(''job_id'', PStr uuid), (''status'', PStr ''queued''), (''job_type'', PStr (rq_job_type req)),
         (''queue_name'', PStr (rq_queue_name req))]), q')"
proof -
  have dflt: "rq_depends_on req = []" "rq_idempotency_key req = None"
    using req by (auto simp: created_request_def default_request_def split: option.splits sum.splits)
  have deps: "deps_acceptable q uuid (rq_depends_on req)" by (simp add: deps_acceptable_def detect_cycle_iff dflt)
  obtain q' where q': "jq_submit ops uuid clk req q = (Inr uuid, q')" "inv (jq_backend q')"
      "view (jq_backend q') = (view (jq_backend q))(uuid \<mapsto> stored (from_request uuid (clk 0) req))"
    using jq_submit_ok [OF acc i fresh deps, of clk] dflt(2) by auto
  have "status_handler ops [(''job_id'', PStr uuid)] q' =
      (Inr (PDict [(''job_id'', PStr uuid), (''status'', PStr ''queued''), (''job_type'', PStr (rq_job_type req)),
         (''queue_name'', PStr (rq_queue_name req))]), q')"
    using get_law [OF q'(2), of uuid] q'(3) stored_law [of "from_request uuid (clk 0) req"]
    by (simp add: status_handler_def arg_def jq_get_def jq_on_backend_def py_str_def py_defs)
  with q' req show ?thesis by (simp add: create_handler_eq)
qed

lemma rejected_create:
  assumes "created_request fint arguments = Inl e \<or> (\<exists>req. created_request fint arguments = Inr req \<and> \<not> payload_accepted (jq_payload_max q) req)"
  shows "\<exists>m. create_handler ops fint uuid clk arguments q = (Inr (mcp_error m ''invalid_request''), q)"
  using assms
proof
  assume "\<exists>req. created_request fint arguments = Inr req \<and> \<not> payload_accepted (jq_payload_max q) req"
  then obtain req where r: "created_request fint arguments = Inr req" "\<not> payload_accepted (jq_payload_max q) req" by blast
  obtain m where "jq_submit ops uuid clk req q = (Inl (ValueError m), q)" using jq_submit_rejects [OF r(2)] by blast
  with r(1) show ?thesis by (auto simp: create_handler_eq)
qed (auto simp: create_handler_eq)

end

end
