(* ===== verification/Service_Registry.thy ===== *)
theory Service_Registry
  imports Jobs_Prelude
begin

section \<open>Broker: the service registry\<close>

text \<open>
  \<open>broker/registry.py\<close>. A registry keeps records in its own dictionary and, when it was given a Redis
  client, in one Redis hash that every process of the broker network shares. The client is the
  parameter \<open>service_redis\<close>. An entry of the hash is the JSON text of a dictionary, represented by the
  dictionary: \<open>json.loads\<close> gives back what \<open>json.dumps\<close> was given, since a float is printed exactly and
  the other values are texts, integers, lists of texts and payload dictionaries. Times and the timeout
  are in microseconds. \<open>clk\<close> gives the clock readings of a call; \<open>now\<close> is the default for a time that an
  entry does not have.
\<close>

subsection \<open>Records\<close>

record service_record =
  sr_service_id :: string
  sr_service_type :: string
  sr_endpoint :: string
  sr_capabilities :: "string list"
  sr_max_concurrent :: int
  sr_registered_at :: time
  sr_last_heartbeat :: time
  sr_metadata :: "(string, pyval) dict"

definition is_alive :: "time \<Rightarrow> time \<Rightarrow> service_record \<Rightarrow> bool" where
  "is_alive now timeout r \<longleftrightarrow> now - sr_last_heartbeat r < timeout"

datatype wire = WText string | WTexts "string list" | WInt int | WClock time | WDict "(string, pyval) dict"

type_synonym wire_dict = "(string, wire) dict"

definition service_to_dict :: "service_record \<Rightarrow> wire_dict" where
  "service_to_dict r =
     [(''service_id'', WText (sr_service_id r)), (''service_type'', WText (sr_service_type r)),
      (''endpoint'', WText (sr_endpoint r)), (''capabilities'', WTexts (sr_capabilities r)),
      (''max_concurrent'', WInt (sr_max_concurrent r)), (''registered_at'', WClock (sr_registered_at r)),
      (''last_heartbeat'', WClock (sr_last_heartbeat r)), (''metadata'', WDict (sr_metadata r))]"

text \<open>
  \<open>cls(**fields)\<close>: fields that the class does not have are dropped, a missing one takes its default, and
  a missing identifier, type or endpoint is a \<open>TypeError\<close>. A field of another type than the class
  declares, which no registry writes, is an error here.
\<close>

definition missing_field :: "string \<Rightarrow> exn + 'a" where
  "missing_field k = Inl (OtherException (''missing required argument: '' @ k))"

definition wire_text :: "wire_dict \<Rightarrow> string \<Rightarrow> exn + string" where
  "wire_text d k = (case dict_get d k of Some (WText s) \<Rightarrow> Inr s | _ \<Rightarrow> missing_field k)"

definition wire_clock :: "wire_dict \<Rightarrow> string \<Rightarrow> time \<Rightarrow> exn + time" where
  "wire_clock d k now = (case dict_get d k of None \<Rightarrow> Inr now | Some (WClock t) \<Rightarrow> Inr t | _ \<Rightarrow> missing_field k)"

definition wire_texts :: "wire_dict \<Rightarrow> string \<Rightarrow> exn + string list" where
  "wire_texts d k = (case dict_get d k of None \<Rightarrow> Inr [] | Some (WTexts xs) \<Rightarrow> Inr xs | _ \<Rightarrow> missing_field k)"

definition wire_int :: "wire_dict \<Rightarrow> string \<Rightarrow> int \<Rightarrow> exn + int" where
  "wire_int d k dflt = (case dict_get d k of None \<Rightarrow> Inr dflt | Some (WInt n) \<Rightarrow> Inr n | _ \<Rightarrow> missing_field k)"

definition wire_object :: "wire_dict \<Rightarrow> string \<Rightarrow> exn + (string, pyval) dict" where
  "wire_object d k = (case dict_get d k of None \<Rightarrow> Inr [] | Some (WDict m) \<Rightarrow> Inr m | _ \<Rightarrow> missing_field k)"

definition service_from_dict :: "time \<Rightarrow> wire_dict \<Rightarrow> exn + service_record" where
  "service_from_dict now d =
     (case (wire_text d ''service_id'', wire_text d ''service_type'', wire_text d ''endpoint'', wire_texts d ''capabilities'',
            wire_int d ''max_concurrent'' 10, wire_clock d ''registered_at'' now, wire_clock d ''last_heartbeat'' now,
            wire_object d ''metadata'') of
        (Inr i, Inr t, Inr e, Inr caps, Inr maxc, Inr reg, Inr hb, Inr m) \<Rightarrow>
          Inr \<lparr>sr_service_id = i, sr_service_type = t, sr_endpoint = e, sr_capabilities = caps, sr_max_concurrent = maxc,
            sr_registered_at = reg, sr_last_heartbeat = hb, sr_metadata = m\<rparr>
      | _ \<Rightarrow> Inl (OtherException ''not a service record''))"

subsection \<open>The registry\<close>

record 'r service_redis =
  sv_hset :: "string \<Rightarrow> wire_dict \<Rightarrow> ('r, unit) py"
  sv_hdel :: "string \<Rightarrow> ('r, unit) py"
  sv_hget :: "string \<Rightarrow> ('r, wire_dict option) py"
  sv_hgetall :: "('r, (string, wire_dict) dict) py"

record 'r service_registry =
  rg_local :: "(string, service_record) dict"
  rg_redis :: 'r

definition on_hash :: "('r, 'a) py \<Rightarrow> ('r service_registry, 'a) py" where
  "on_hash m = on_field rg_redis (\<lambda>r g. g\<lparr>rg_redis := r\<rparr>) m"

definition service_register :: "'r service_redis option \<Rightarrow> service_record \<Rightarrow> ('r service_registry, unit) py" where
  "service_register rd rec =
     seq_py (modify (\<lambda>g. g\<lparr>rg_local := dict_set (rg_local g) (sr_service_id rec) rec\<rparr>))
       (case rd of None \<Rightarrow> ret () | Some ops \<Rightarrow> on_hash (sv_hset ops (sr_service_id rec) (service_to_dict rec)))"

definition service_deregister :: "'r service_redis option \<Rightarrow> string \<Rightarrow> ('r service_registry, unit) py" where
  "service_deregister rd sid =
     seq_py (modify (\<lambda>g. g\<lparr>rg_local := dict_pop (rg_local g) sid\<rparr>))
       (case rd of None \<Rightarrow> ret () | Some ops \<Rightarrow> on_hash (sv_hdel ops sid))"

definition local_beat :: "time \<Rightarrow> string \<Rightarrow> ('r service_registry, bool) py" where
  "local_beat now sid =
     (\<lambda>g. case dict_get (rg_local g) sid of
        None \<Rightarrow> (Inr False, g)
      | Some rec \<Rightarrow> (Inr True, g\<lparr>rg_local := dict_set (rg_local g) sid (rec\<lparr>sr_last_heartbeat := now\<rparr>)\<rparr>))"

definition service_heartbeat :: "'r service_redis option \<Rightarrow> (nat \<Rightarrow> time) \<Rightarrow> string \<Rightarrow> ('r service_registry, bool) py" where
  "service_heartbeat rd clk sid =
     bind_py (local_beat (clk 0) sid) (\<lambda>known.
       case rd of
         None \<Rightarrow> ret known
       | Some ops \<Rightarrow>
           bind_py (on_hash (sv_hget ops sid)) (\<lambda>raw.
             case raw of
               None \<Rightarrow> ret known
             | Some data \<Rightarrow>
                 seq_py (on_hash (sv_hset ops sid (dict_set data ''last_heartbeat'' (WClock (clk 1))))) (ret True)))"

fun decode_all :: "time \<Rightarrow> wire_dict list \<Rightarrow> exn + service_record list" where
  "decode_all now [] = Inr []"
| "decode_all now (d # ds) =
     (case service_from_dict now d of
        Inl e \<Rightarrow> Inl e
      | Inr r \<Rightarrow> (case decode_all now ds of Inl e \<Rightarrow> Inl e | Inr rs \<Rightarrow> Inr (r # rs)))"

definition service_records :: "'r service_redis option \<Rightarrow> time \<Rightarrow> ('r service_registry, service_record list) py" where
  "service_records rd now =
     (case rd of
        None \<Rightarrow> (\<lambda>g. (Inr (dict_values (rg_local g)), g))
      | Some ops \<Rightarrow>
          bind_py (on_hash (sv_hgetall ops)) (\<lambda>raw g. (decode_all now (dict_values raw), g)))"

definition list_services ::
  "'r service_redis option \<Rightarrow> time \<Rightarrow> time \<Rightarrow> (string \<Rightarrow> time) \<Rightarrow> string option \<Rightarrow> bool \<Rightarrow>
   ('r service_registry, service_record list) py" where
  "list_services rd timeout now clk stype alive_only =
     bind_py (service_records rd now) (\<lambda>records.
       let alive = (if alive_only then filter (\<lambda>r. is_alive (clk (sr_service_id r)) timeout r) records else records) in
       ret (case stype of
              Some t \<Rightarrow> if t = [] then alive else filter (\<lambda>r. sr_service_type r = t) alive
            | None \<Rightarrow> alive))"

definition service_get :: "'r service_redis option \<Rightarrow> time \<Rightarrow> string \<Rightarrow> ('r service_registry, service_record option) py" where
  "service_get rd now sid =
     (case rd of
        None \<Rightarrow> (\<lambda>g. (Inr (dict_get (rg_local g) sid), g))
      | Some ops \<Rightarrow>
          bind_py (on_hash (sv_hget ops sid)) (\<lambda>raw.
            case raw of
              None \<Rightarrow> ret None
            | Some d \<Rightarrow> (\<lambda>g. (map_sum (\<lambda>e. e) Some (service_from_dict now d), g))))"

subsection \<open>What the registry promises\<close>

text \<open>
  The registry as a map from identifiers to records, whichever store it has. The clients rely on it
  through \<open>discovery\<close>.
\<close>

locale discovery =
  fixes rd :: "'r service_redis option"
    and inv :: "'r service_registry \<Rightarrow> bool"
    and view :: "'r service_registry \<Rightarrow> string \<Rightarrow> service_record option"
  assumes register_law: "inv g \<Longrightarrow> \<exists>g'. service_register rd rec g = (Inr (), g') \<and> inv g' \<and> view g' = (view g)(sr_service_id rec \<mapsto> rec)"
    and deregister_law: "inv g \<Longrightarrow> \<exists>g'. service_deregister rd sid g = (Inr (), g') \<and> inv g' \<and> view g' = (view g)(sid := None)"
    and heartbeat_law: "inv g \<Longrightarrow> view g sid = Some rec \<Longrightarrow> \<exists>g' t. service_heartbeat rd clk sid g = (Inr True, g') \<and> inv g' \<and>
      t \<in> {clk 0, clk 1} \<and> view g' = (view g)(sid \<mapsto> rec\<lparr>sr_last_heartbeat := t\<rparr>)"
    and heartbeat_absent: "inv g \<Longrightarrow> view g sid = None \<Longrightarrow> \<exists>ok g'. service_heartbeat rd clk sid g = (Inr ok, g') \<and> inv g' \<and> view g' = view g"
    and get_law: "inv g \<Longrightarrow> service_get rd now sid g = (Inr (view g sid), g)"
    and records_law: "inv g \<Longrightarrow> \<exists>rs. service_records rd now g = (Inr rs, g) \<and> set rs = ran (view g) \<and> distinct (map sr_service_id rs)"
    and view_key: "inv g \<Longrightarrow> view g sid = Some rec \<Longrightarrow> sr_service_id rec = sid"
begin

lemma list_exact:
  assumes "inv g"
  shows "\<exists>rs. list_services rd timeout now clk stype alive_only g = (Inr rs, g) \<and> distinct (map sr_service_id rs) \<and>
    (\<forall>r. r \<in> set rs \<longleftrightarrow> view g (sr_service_id r) = Some r \<and> (alive_only \<longrightarrow> is_alive (clk (sr_service_id r)) timeout r) \<and>
       (\<forall>t. stype = Some t \<longrightarrow> t \<noteq> [] \<longrightarrow> sr_service_type r = t))"
proof -
  obtain rs where rs: "service_records rd now g = (Inr rs, g)" "set rs = ran (view g)" "distinct (map sr_service_id rs)"
    using records_law [OF assms] by blast
  have mem: "r \<in> set rs \<longleftrightarrow> view g (sr_service_id r) = Some r" for r
    unfolding rs(2) using view_key [OF assms] by (auto simp: ran_def)
  define alive where "alive = (if alive_only then filter (\<lambda>r. is_alive (clk (sr_service_id r)) timeout r) rs else rs)"
  define out where "out = (case stype of Some t \<Rightarrow> if t = [] then alive else filter (\<lambda>r. sr_service_type r = t) alive | None \<Rightarrow> alive)"
  have run: "list_services rd timeout now clk stype alive_only g = (Inr out, g)"
    by (simp add: list_services_def bind_py_def rs(1) ret_def alive_def out_def Let_def split: option.split)
  have "distinct (map sr_service_id out)"
    using rs(3) by (auto simp: out_def alive_def distinct_map_filter split: option.split)
  moreover have "r \<in> set out \<longleftrightarrow> view g (sr_service_id r) = Some r \<and> (alive_only \<longrightarrow> is_alive (clk (sr_service_id r)) timeout r) \<and>
       (\<forall>t. stype = Some t \<longrightarrow> t \<noteq> [] \<longrightarrow> sr_service_type r = t)" for r
    by (auto simp: out_def alive_def mem split: option.splits)
  ultimately show ?thesis using run by blast
qed

end

subsection \<open>The registry of one process\<close>

definition local_inv :: "'r service_registry \<Rightarrow> bool" where
  "local_inv g \<longleftrightarrow> dict_ok (rg_local g) \<and> (\<forall>k r. dict_get (rg_local g) k = Some r \<longrightarrow> sr_service_id r = k)"

definition local_view :: "'r service_registry \<Rightarrow> string \<Rightarrow> service_record option" where
  "local_view g = map_of (rg_local g)"

lemma ran_dict: "dict_ok d \<Longrightarrow> set (dict_values d) = ran (map_of d)"
  by (simp add: dict_ok_def ran_distinct)

lemma distinct_ids:
  assumes "dict_ok d" and "\<forall>k r. dict_get d k = Some r \<longrightarrow> sr_service_id r = k"
  shows "distinct (map sr_service_id (dict_values d))"
proof -
  have eq: "map sr_service_id (dict_values d) = dict_keys d"
    using assms dict_mem_iff [OF assms(1)] by auto
  show ?thesis using assms(1) by (simp only: eq dict_ok_def)
qed

interpretation localr: discovery None local_inv local_view
proof (unfold_locales, goal_cases)
  case (1 g rec)
  then show ?case
    by (auto simp: service_register_def local_inv_def local_view_def py_defs map_of_dict_set dict_ok_set)
next
  case (2 g sid)
  then show ?case
    by (auto simp: service_deregister_def local_inv_def local_view_def py_defs dict_ok_pop fun_eq_iff)
next
  case (3 g sid rec clk)
  then show ?case
    by (auto simp: service_heartbeat_def local_beat_def local_inv_def local_view_def py_defs map_of_dict_set dict_ok_set)
next
  case (4 g sid clk)
  then show ?case by (auto simp: service_heartbeat_def local_beat_def local_view_def py_defs)
next
  case (5 g now sid)
  then show ?case by (simp add: service_get_def local_view_def)
next
  case (6 g now)
  then show ?case using ran_dict distinct_ids by (auto simp: service_records_def local_inv_def local_view_def)
next
  case (7 g sid rec)
  then show ?case by (simp add: local_inv_def local_view_def)
qed

subsection \<open>The shared registry\<close>

text \<open>What the code relies on of the Redis hash.\<close>

locale service_hash =
  fixes ops :: "'r service_redis" and entries :: "'r \<Rightarrow> string \<Rightarrow> wire_dict option"
  assumes hset_entry: "\<exists>r'. sv_hset ops k d r = (Inr (), r') \<and> entries r' = (entries r)(k \<mapsto> d)"
    and hdel_entry: "\<exists>r'. sv_hdel ops k r = (Inr (), r') \<and> entries r' = (entries r)(k := None)"
    and hget_entry: "sv_hget ops k r = (Inr (entries r k), r)"
    and hgetall_entries: "\<exists>d. sv_hgetall ops r = (Inr d, r) \<and> dict_ok d \<and> map_of d = entries r"

definition reads_as :: "wire_dict \<Rightarrow> service_record \<Rightarrow> bool" where
  "reads_as d r \<longleftrightarrow> (\<forall>now. service_from_dict now d = Inr r)"

definition shared_inv :: "('r \<Rightarrow> string \<Rightarrow> wire_dict option) \<Rightarrow> 'r service_registry \<Rightarrow> bool" where
  "shared_inv entries g \<longleftrightarrow> (\<forall>i d. entries (rg_redis g) i = Some d \<longrightarrow> (\<exists>r. reads_as d r \<and> sr_service_id r = i))"

definition shared_view :: "('r \<Rightarrow> string \<Rightarrow> wire_dict option) \<Rightarrow> 'r service_registry \<Rightarrow> string \<Rightarrow> service_record option" where
  "shared_view entries g i =
     (case entries (rg_redis g) i of
        None \<Rightarrow> None
      | Some d \<Rightarrow> (case service_from_dict 0 d of Inl _ \<Rightarrow> None | Inr r \<Rightarrow> Some r))"

lemma from_dict_Inr:
  "service_from_dict now d = Inr r \<longleftrightarrow>
     wire_text d ''service_id'' = Inr (sr_service_id r) \<and> wire_text d ''service_type'' = Inr (sr_service_type r) \<and>
     wire_text d ''endpoint'' = Inr (sr_endpoint r) \<and> wire_texts d ''capabilities'' = Inr (sr_capabilities r) \<and>
     wire_int d ''max_concurrent'' 10 = Inr (sr_max_concurrent r) \<and>
     wire_clock d ''registered_at'' now = Inr (sr_registered_at r) \<and>
     wire_clock d ''last_heartbeat'' now = Inr (sr_last_heartbeat r) \<and> wire_object d ''metadata'' = Inr (sr_metadata r)"
  by (auto simp: service_from_dict_def split: sum.split)

lemma to_dict_reads: "reads_as (service_to_dict r) r"
  by (simp add: reads_as_def from_dict_Inr service_to_dict_def wire_text_def wire_texts_def wire_int_def wire_clock_def wire_object_def)

lemma beat_reads: "reads_as d r \<Longrightarrow> reads_as (dict_set d ''last_heartbeat'' (WClock t)) (r\<lparr>sr_last_heartbeat := t\<rparr>)"
  by (simp add: reads_as_def from_dict_Inr wire_text_def wire_texts_def wire_int_def wire_clock_def wire_object_def)

lemma local_beat_run: "\<exists>known g1. local_beat now sid g = (Inr known, g1) \<and> rg_redis g1 = rg_redis g"
  by (cases "dict_get (rg_local g) sid") (auto simp: local_beat_def)

lemma reads_asD: "reads_as d r \<Longrightarrow> service_from_dict now d = Inr r"
  by (simp add: reads_as_def)

lemma decode_reads:
  "list_all2 reads_as ds rs \<Longrightarrow> decode_all now ds = Inr rs"
  by (induction ds rs rule: list_all2_induct) (simp_all add: reads_asD)

lemma shared_view_reads: "entries (rg_redis g) i = Some d \<Longrightarrow> reads_as d r \<Longrightarrow> shared_view entries g i = Some r"
  by (simp add: shared_view_def reads_asD)

context service_hash
begin

lemma shared_upd:
  assumes "shared_inv entries g" and "entries (rg_redis g') = (entries (rg_redis g))(i \<mapsto> d)" and "reads_as d r" and "sr_service_id r = i"
  shows "shared_inv entries g' \<and> shared_view entries g' = (shared_view entries g)(i \<mapsto> r)"
  using assms by (auto simp: shared_inv_def shared_view_def [abs_def] fun_eq_iff reads_asD)

lemma shared_some:
  assumes "shared_inv entries g" and "shared_view entries g i = Some r"
  shows "\<exists>d. entries (rg_redis g) i = Some d \<and> reads_as d r \<and> sr_service_id r = i"
proof -
  obtain d where d: "entries (rg_redis g) i = Some d" "service_from_dict 0 d = Inr r"
    using assms(2) by (auto simp: shared_view_def split: option.splits sum.splits)
  then obtain r' where "reads_as d r'" "sr_service_id r' = i" using assms(1) by (auto simp: shared_inv_def)
  with d reads_asD [of d r' 0] show ?thesis by auto
qed

lemma shared_none:
  assumes "shared_inv entries g" and "shared_view entries g i = None"
  shows "entries (rg_redis g) i = None"
proof (cases "entries (rg_redis g) i")
  case (Some d)
  then obtain r where "reads_as d r" using assms(1) by (auto simp: shared_inv_def)
  with Some assms(2) shared_view_reads [of entries g i d r] show ?thesis by simp
qed

lemma records_shared:
  assumes "shared_inv entries g"
  shows "\<exists>rs. service_records (Some ops) now g = (Inr rs, g) \<and> set rs = ran (shared_view entries g) \<and> distinct (map sr_service_id rs)"
proof -
  obtain d where d: "sv_hgetall ops (rg_redis g) = (Inr d, rg_redis g)" "dict_ok d" "map_of d = entries (rg_redis g)"
    using hgetall_entries by blast
  define rec where "rec = (\<lambda>(k, w :: wire_dict). the (shared_view entries g k))"
  have each: "reads_as w (rec (k, w)) \<and> sr_service_id (rec (k, w)) = k \<and> shared_view entries g k = Some (rec (k, w))"
    if kw: "(k, w) \<in> set d" for k w
  proof -
    have "entries (rg_redis g) k = Some w" using kw d(2,3) by (metis dict_ok_def map_of_is_SomeI)
    moreover from this obtain r where "reads_as w r" "sr_service_id r = k" using assms by (auto simp: shared_inv_def)
    ultimately show ?thesis using shared_view_reads [of entries g k w r] by (simp add: rec_def)
  qed
  have "list_all2 reads_as (dict_values d) (map rec d)" using each by (auto simp: list_all2_map1 list_all2_map2 list_all2_same)
  then have "service_records (Some ops) now g = (Inr (map rec d), g)"
    using d(1) decode_reads by (simp add: service_records_def on_hash_def py_defs)
  moreover have "distinct (map sr_service_id (map rec d))"
  proof -
    have eq: "map sr_service_id (map rec d) = dict_keys d" using each by auto
    show ?thesis using d(2) by (simp only: eq dict_ok_def)
  qed
  moreover have "set (map rec d) = ran (shared_view entries g)"
  proof
    show "set (map rec d) \<subseteq> ran (shared_view entries g)" using each by (auto simp: ran_def)
    show "ran (shared_view entries g) \<subseteq> set (map rec d)"
    proof
      fix r assume "r \<in> ran (shared_view entries g)"
      then obtain i where i: "shared_view entries g i = Some r" by (auto simp: ran_def)
      then obtain w where "entries (rg_redis g) i = Some w" using shared_some [OF assms] by blast
      then have "(i, w) \<in> set d" using d(3) map_of_SomeD by metis
      then show "r \<in> set (map rec d)" using i by (force simp: rec_def)
    qed
  qed
  ultimately show ?thesis by blast
qed

end

sublocale service_hash \<subseteq> sharedr: discovery "Some ops" "shared_inv entries" "shared_view entries"
proof (unfold_locales, goal_cases)
  case (1 g rec)
  obtain r' where r': "sv_hset ops (sr_service_id rec) (service_to_dict rec) (rg_redis g) = (Inr (), r')"
      "entries r' = (entries (rg_redis g))(sr_service_id rec \<mapsto> service_to_dict rec)"
    using hset_entry by blast
  then show ?case
    using shared_upd [OF 1, of "g\<lparr>rg_local := dict_set (rg_local g) (sr_service_id rec) rec, rg_redis := r'\<rparr>", OF _ to_dict_reads]
    by (simp add: service_register_def on_hash_def py_defs)
next
  case (2 g sid)
  obtain r' where r': "sv_hdel ops sid (rg_redis g) = (Inr (), r')" "entries r' = (entries (rg_redis g))(sid := None)"
    using hdel_entry by blast
  with 2 show ?case
    by (auto simp: service_deregister_def on_hash_def py_defs shared_inv_def shared_view_def [abs_def] fun_eq_iff)
next
  case (3 g sid rec clk)
  obtain d where d: "entries (rg_redis g) sid = Some d" "reads_as d rec" "sr_service_id rec = sid" using shared_some [OF 3] by blast
  obtain known g1 where g1: "local_beat (clk 0) sid g = (Inr known, g1)" "rg_redis g1 = rg_redis g"
    using local_beat_run by blast
  obtain r' where r': "sv_hset ops sid (dict_set d ''last_heartbeat'' (WClock (clk 1))) (rg_redis g) = (Inr (), r')"
      "entries r' = (entries (rg_redis g))(sid \<mapsto> dict_set d ''last_heartbeat'' (WClock (clk 1)))"
    using hset_entry by blast
  have "service_heartbeat (Some ops) clk sid g = (Inr True, g1\<lparr>rg_redis := r'\<rparr>)"
    using g1 r'(1) d(1) hget_entry by (simp add: service_heartbeat_def on_hash_def py_defs)
  moreover have "shared_inv entries (g1\<lparr>rg_redis := r'\<rparr>) \<and>
      shared_view entries (g1\<lparr>rg_redis := r'\<rparr>) = (shared_view entries g)(sid \<mapsto> rec\<lparr>sr_last_heartbeat := clk 1\<rparr>)"
    using shared_upd [OF 3(1) _ beat_reads [OF d(2)]] r'(2) d(3) by simp
  ultimately show ?case by blast
next
  case (4 g sid clk)
  have none: "entries (rg_redis g) sid = None" using shared_none [OF 4] .
  obtain known g1 where g1: "local_beat (clk 0) sid g = (Inr known, g1)" "rg_redis g1 = rg_redis g"
    using local_beat_run by blast
  have "service_heartbeat (Some ops) clk sid g = (Inr known, g1)"
    using g1 none hget_entry by (simp add: service_heartbeat_def on_hash_def py_defs)
  with g1(2) 4(1) show ?case by (auto simp: shared_inv_def shared_view_def [abs_def])
next
  case (5 g now sid)
  show ?case
  proof (cases "entries (rg_redis g) sid")
    case None
    then show ?thesis using hget_entry by (simp add: service_get_def on_hash_def py_defs shared_view_def)
  next
    case (Some d)
    with 5 obtain r where "reads_as d r" by (auto simp: shared_inv_def)
    with Some show ?thesis using hget_entry by (simp add: service_get_def on_hash_def py_defs shared_view_def reads_asD)
  qed
next
  case (6 g now)
  then show ?case by (rule records_shared)
next
  case (7 g sid rec)
  then show ?case using shared_some by blast
qed

context service_hash
begin

lemma shared_discovery: "discovery (Some ops) (shared_inv entries) (shared_view entries)"
  by (rule sharedr.discovery_axioms)

end

text \<open>A hash of association lists.\<close>

definition list_hash :: "(string, wire_dict) dict service_redis" where
  "list_hash =
     \<lparr>sv_hset = (\<lambda>k d r. (Inr (), dict_set r k d)),
      sv_hdel = (\<lambda>k r. (Inr (), dict_pop r k)),
      sv_hget = (\<lambda>k r. (Inr (map_of r k), r)),
      sv_hgetall = (\<lambda>r. (Inr (map (\<lambda>k. (k, the (map_of r k))) (remdups (dict_keys r))), r))\<rparr>"

interpretation listsv: service_hash list_hash map_of
proof (unfold_locales, goal_cases)
  case (4 r)
  have "map_of (map (\<lambda>k. (k, the (map_of r k))) (remdups (dict_keys r))) = map_of r"
    by (auto simp: fun_eq_iff map_of_map_keys map_of_eq_None_iff dom_map_of_conv_image_fst restrict_map_def)
  then show ?case by (simp add: list_hash_def dict_ok_def comp_def)
qed (auto simp: list_hash_def map_of_dict_set fun_eq_iff)

end
