(* ===== verification/Config.thy ===== *)
theory Config
  imports Py_Text
begin

section \<open>Configuration\<close>

text \<open>
  \<open>config/models.py\<close>. The settings as records, and \<open>jobs_config_from_dict\<close>. A float is its \<open>repr\<close>;
  \<open>float(v)\<close> is the parameter \<open>ffloat\<close> and \<open>int\<close> of a float the parameter \<open>fint\<close>. The texts that the
  expressions raise come in the order in which Python evaluates the expressions.
\<close>

record backend_settings =
  bs_preferred :: string
  bs_sql_url :: "string option"
  bs_redis_url :: "string option"

record retry_settings =
  rs_max_attempts :: int
  rs_initial_delay :: string
  rs_max_delay :: string

record maintenance_settings =
  ms_claim_timeout :: int
  ms_max_age :: int

record concurrency_settings =
  cs_global_max :: int
  cs_per_type_max :: int
  cs_per_tenant_max :: int
  cs_per_user_max :: int

record resource_pool_settings =
  rp_limits :: "(string, int) dict option"

record jobs_config =
  jc_backend :: backend_settings
  jc_retry :: retry_settings
  jc_maintenance :: maintenance_settings
  jc_payload_max_bytes :: int
  jc_concurrency :: concurrency_settings
  jc_resource_pool :: resource_pool_settings

definition default_config :: jobs_config where
  "default_config =
     \<lparr>jc_backend = \<lparr>bs_preferred = ''memory'', bs_sql_url = None, bs_redis_url = None\<rparr>,
      jc_retry = \<lparr>rs_max_attempts = 3, rs_initial_delay = ''1.0'', rs_max_delay = ''30.0''\<rparr>,
      jc_maintenance = \<lparr>ms_claim_timeout = 60, ms_max_age = 86400\<rparr>,
      jc_payload_max_bytes = 16384,
      jc_concurrency = \<lparr>cs_global_max = 10, cs_per_type_max = 5, cs_per_tenant_max = 3, cs_per_user_max = 2\<rparr>,
      jc_resource_pool = \<lparr>rp_limits = None\<rparr>\<rparr>"

type_synonym raw_config = "(string, pyval) dict"

definition config_section :: "raw_config \<Rightarrow> string \<Rightarrow> raw_config" where
  "config_section raw k = (case dict_get raw k of Some (PDict d) \<Rightarrow> d | _ \<Rightarrow> [])"

definition int_setting :: "(string \<Rightarrow> exn + int) \<Rightarrow> raw_config \<Rightarrow> string \<Rightarrow> int \<Rightarrow> exn + int" where
  "int_setting fint d k dflt = py_int fint (dict_get_or d k (PInt dflt))"

definition url_setting :: "raw_config \<Rightarrow> string \<Rightarrow> string option" where
  "url_setting d k = (case dict_get d k of None \<Rightarrow> None | Some v \<Rightarrow> if py_truthy v then Some (py_str v) else None)"

fun pool_limits :: "(string \<Rightarrow> exn + int) \<Rightarrow> raw_config \<Rightarrow> exn + (string, int) dict" where
  "pool_limits fint [] = Inr []"
| "pool_limits fint ((k, v) # kvs) =
     and_then (py_int fint v) (\<lambda>n. and_then (pool_limits fint kvs) (\<lambda>d. Inr ((k, n) # d)))"

definition limits_setting :: "(string \<Rightarrow> exn + int) \<Rightarrow> raw_config \<Rightarrow> exn + (string, int) dict option" where
  "limits_setting fint d =
     (case dict_get d ''limits'' of
        Some (PDict kvs) \<Rightarrow> and_then (pool_limits fint kvs) (\<lambda>l. Inr (Some l))
      | _ \<Rightarrow> Inr None)"

definition retry_from :: "(string \<Rightarrow> exn + int) \<Rightarrow> (pyval \<Rightarrow> exn + string) \<Rightarrow> raw_config \<Rightarrow> exn + retry_settings" where
  "retry_from fint ffloat d =
     and_then (int_setting fint d ''max_attempts'' 3) (\<lambda>n.
     and_then (ffloat (dict_get_or d ''initial_delay_seconds'' (PFloat ''1.0''))) (\<lambda>i.
     and_then (ffloat (dict_get_or d ''max_delay_seconds'' (PFloat ''30.0''))) (\<lambda>m.
       Inr \<lparr>rs_max_attempts = n, rs_initial_delay = i, rs_max_delay = m\<rparr>)))"

definition maintenance_from :: "(string \<Rightarrow> exn + int) \<Rightarrow> raw_config \<Rightarrow> exn + maintenance_settings" where
  "maintenance_from fint d =
     and_then (int_setting fint d ''claim_timeout_seconds'' 60) (\<lambda>c.
     and_then (int_setting fint d ''max_age_seconds'' 86400) (\<lambda>a.
       Inr \<lparr>ms_claim_timeout = c, ms_max_age = a\<rparr>))"

definition concurrency_from :: "(string \<Rightarrow> exn + int) \<Rightarrow> raw_config \<Rightarrow> exn + concurrency_settings" where
  "concurrency_from fint d =
     and_then (int_setting fint d ''global_max'' 10) (\<lambda>g.
     and_then (int_setting fint d ''per_type_max'' 5) (\<lambda>t.
     and_then (int_setting fint d ''per_tenant_max'' 3) (\<lambda>n.
     and_then (int_setting fint d ''per_user_max'' 2) (\<lambda>u.
       Inr \<lparr>cs_global_max = g, cs_per_type_max = t, cs_per_tenant_max = n, cs_per_user_max = u\<rparr>))))"

definition jobs_config_from_dict :: "(string \<Rightarrow> exn + int) \<Rightarrow> (pyval \<Rightarrow> exn + string) \<Rightarrow> raw_config \<Rightarrow> exn + jobs_config" where
  "jobs_config_from_dict fint ffloat raw =
     and_then (limits_setting fint (config_section raw ''resource_pool'')) (\<lambda>limits.
     let b = config_section raw ''backend'';
         backend = \<lparr>bs_preferred = py_str (dict_get_or b ''preferred'' (PStr ''memory'')),
           bs_sql_url = url_setting b ''sql_url'', bs_redis_url = url_setting b ''redis_url''\<rparr> in
     and_then (retry_from fint ffloat (config_section raw ''retry'')) (\<lambda>retry.
     and_then (maintenance_from fint (config_section raw ''maintenance'')) (\<lambda>maint.
     and_then (int_setting fint raw ''payload_max_bytes'' 16384) (\<lambda>bytes.
     and_then (concurrency_from fint (config_section raw ''concurrency'')) (\<lambda>conc.
       Inr \<lparr>jc_backend = backend, jc_retry = retry, jc_maintenance = maint, jc_payload_max_bytes = bytes,
         jc_concurrency = conc, jc_resource_pool = \<lparr>rp_limits = limits\<rparr>\<rparr>)))))"

subsection \<open>What a configuration file says\<close>

text \<open>The dictionary that writes a configuration out.\<close>

definition url_entry :: "string \<Rightarrow> string option \<Rightarrow> raw_config" where
  "url_entry k v = (case v of None \<Rightarrow> [] | Some u \<Rightarrow> [(k, PStr u)])"

definition config_dict :: "jobs_config \<Rightarrow> raw_config" where
  "config_dict c =
     [(''backend'', PDict ((''preferred'', PStr (bs_preferred (jc_backend c))) #
         url_entry ''sql_url'' (bs_sql_url (jc_backend c)) @ url_entry ''redis_url'' (bs_redis_url (jc_backend c)))),
      (''retry'', PDict [(''max_attempts'', PInt (rs_max_attempts (jc_retry c))),
         (''initial_delay_seconds'', PFloat (rs_initial_delay (jc_retry c))), (''max_delay_seconds'', PFloat (rs_max_delay (jc_retry c)))]),
      (''maintenance'', PDict [(''claim_timeout_seconds'', PInt (ms_claim_timeout (jc_maintenance c))),
         (''max_age_seconds'', PInt (ms_max_age (jc_maintenance c)))]),
      (''payload_max_bytes'', PInt (jc_payload_max_bytes c)),
      (''concurrency'', PDict [(''global_max'', PInt (cs_global_max (jc_concurrency c))), (''per_type_max'', PInt (cs_per_type_max (jc_concurrency c))),
         (''per_tenant_max'', PInt (cs_per_tenant_max (jc_concurrency c))), (''per_user_max'', PInt (cs_per_user_max (jc_concurrency c)))]),
      (''resource_pool'', PDict (case rp_limits (jc_resource_pool c) of None \<Rightarrow> [] | Some l \<Rightarrow> [(''limits'', PDict (map (\<lambda>(k, n). (k, PInt n)) l))]))]"

lemma pool_limits_back: "pool_limits fint (map (\<lambda>(k, n). (k, PInt n)) l) = Inr l"
  by (induction l) (auto simp: py_int_def)

lemma url_back:
  "u \<noteq> Some [] \<Longrightarrow> v \<noteq> Some [] \<Longrightarrow> url_setting ((''preferred'', p) # url_entry ''sql_url'' u @ url_entry ''redis_url'' v) ''sql_url'' = u"
  "u \<noteq> Some [] \<Longrightarrow> v \<noteq> Some [] \<Longrightarrow> url_setting ((''preferred'', p) # url_entry ''sql_url'' u @ url_entry ''redis_url'' v) ''redis_url'' = v"
  by (cases u; cases v; simp add: url_setting_def url_entry_def py_str_def)+

lemma config_back:
  assumes "\<And>f. ffloat (PFloat f) = Inr f" and "bs_sql_url (jc_backend c) \<noteq> Some []" and "bs_redis_url (jc_backend c) \<noteq> Some []"
  shows "jobs_config_from_dict fint ffloat (config_dict c) = Inr c"
proof -
  have sec: "config_section (config_dict c) ''backend'' = (''preferred'', PStr (bs_preferred (jc_backend c))) #
         url_entry ''sql_url'' (bs_sql_url (jc_backend c)) @ url_entry ''redis_url'' (bs_redis_url (jc_backend c))"
    by (simp add: config_section_def config_dict_def)
  have lim: "limits_setting fint (config_section (config_dict c) ''resource_pool'') = Inr (rp_limits (jc_resource_pool c))"
    by (simp add: config_section_def config_dict_def limits_setting_def pool_limits_back split: option.split)
  have ret: "retry_from fint ffloat (config_section (config_dict c) ''retry'') = Inr (jc_retry c)"
    by (simp add: config_section_def config_dict_def retry_from_def int_setting_def dict_get_or_def py_int_def assms(1))
  have mnt: "maintenance_from fint (config_section (config_dict c) ''maintenance'') = Inr (jc_maintenance c)"
    by (simp add: config_section_def config_dict_def maintenance_from_def int_setting_def dict_get_or_def py_int_def)
  have con: "concurrency_from fint (config_section (config_dict c) ''concurrency'') = Inr (jc_concurrency c)"
    by (simp add: config_section_def config_dict_def concurrency_from_def int_setting_def dict_get_or_def py_int_def)
  have byt: "int_setting fint (config_dict c) ''payload_max_bytes'' 16384 = Inr (jc_payload_max_bytes c)"
    by (simp add: config_dict_def int_setting_def dict_get_or_def py_int_def)
  show ?thesis
    unfolding jobs_config_from_dict_def lim ret mnt con byt sec and_then_Inr Let_def
    using url_back assms(2,3) by (simp add: dict_get_or_def py_str_def)
qed

lemma config_empty:
  assumes "\<And>f. ffloat (PFloat f) = Inr f"
  shows "jobs_config_from_dict fint ffloat [] = Inr default_config"
  by (simp add: jobs_config_from_dict_def config_section_def limits_setting_def retry_from_def maintenance_from_def concurrency_from_def
      int_setting_def py_int_def py_str_def url_setting_def default_config_def assms)

end
