(* ===== verification/Retry_Policy.thy ===== *)
theory Retry_Policy
  imports Jobs_Prelude Complex_Main
begin

section \<open>Back-off\<close>

text \<open>
  \<open>scheduler/policies.py\<close>. A finite float is the rational number it stands for. \<open>2 ** n\<close> is an exact
  integer, and multiplying a float by it raises \<open>OverflowError\<close> when the integer does not fit a float;
  a product that is too large is infinite and loses against the maximum, as the rational product
  does. The sum with the jitter is taken exactly. \<open>uniform lo hi\<close> is what the random generator answers.
\<close>

definition float_of_int :: "int \<Rightarrow> exn + rat" where
  "float_of_int n =
     (if n < 2 ^ 1024 - 2 ^ 970 \<and> - n < 2 ^ 1024 - 2 ^ 970 then Inr (of_int n)
      else Inl (OtherException ''int too large to convert to float''))"

definition exponential_backoff_seconds :: "(rat \<Rightarrow> rat \<Rightarrow> rat) \<Rightarrow> int \<Rightarrow> rat \<Rightarrow> rat \<Rightarrow> bool \<Rightarrow> exn + rat" where
  "exponential_backoff_seconds uniform attempt base maximum jitter =
     (case float_of_int (2 ^ nat (max attempt 0)) of
        Inl e \<Rightarrow> Inl e
      | Inr p \<Rightarrow>
          let backoff = min (base * p) maximum in
          Inr (if jitter then backoff + uniform 0 (backoff / 10) else backoff))"

definition fixed_backoff_seconds :: "rat \<Rightarrow> rat" where
  "fixed_backoff_seconds v = max 0 v"

lemma float_of_power: "float_of_int (2 ^ n) = (if n < 1024 then Inr (2 ^ n) else Inl (OtherException ''int too large to convert to float''))"
proof (cases "n < 1024")
  case True
  then have "(2 :: int) ^ n \<le> 2 ^ 1023" by (intro power_increasing) auto
  moreover have "(2 :: int) ^ 970 < 2 ^ 1023" by (rule power_strict_increasing) simp_all
  moreover have "(2 :: int) ^ 1024 = 2 * 2 ^ 1023" by (simp flip: power_Suc)
  ultimately have lt: "(2 :: int) ^ n < 2 ^ 1024 - 2 ^ 970" by linarith
  moreover have "- ((2 :: int) ^ n) < 2 ^ n" by (simp add: less_trans [of _ 0])
  ultimately have "- ((2 :: int) ^ n) < 2 ^ 1024 - 2 ^ 970" by linarith
  with lt show ?thesis using True by (simp add: float_of_int_def)
next
  case False
  then have "(2 :: int) ^ 1024 \<le> 2 ^ n" by (intro power_increasing) auto
  moreover have "(0 :: int) < 2 ^ 970" by simp
  ultimately have "\<not> (2 :: int) ^ n < 2 ^ 1024 - 2 ^ 970" by linarith
  then show ?thesis using False by (simp add: float_of_int_def)
qed

lemma backoff_exact:
  "exponential_backoff_seconds uniform attempt base maximum jitter =
     (if attempt < 1024
      then let b = min (base * 2 ^ nat attempt) maximum in Inr (if jitter then b + uniform 0 (b / 10) else b)
      else Inl (OtherException ''int too large to convert to float''))"
proof -
  have "nat (max attempt 0) = nat attempt" by simp
  moreover have "nat attempt < 1024 \<longleftrightarrow> attempt < 1024" by linarith
  ultimately show ?thesis
    by (simp add: exponential_backoff_seconds_def float_of_power [of "nat attempt"])
qed

lemma backoff_step:
  assumes "0 \<le> base" and "attempt \<le> attempt'"
  shows "min (base * 2 ^ nat attempt) maximum \<le> min (base * 2 ^ nat attempt') (maximum :: rat)"
proof -
  have "(2 :: rat) ^ nat attempt \<le> 2 ^ nat attempt'" using assms(2) by (intro power_increasing) auto
  then have "base * 2 ^ nat attempt \<le> base * 2 ^ nat attempt'" using assms(1) by (rule mult_left_mono)
  then show ?thesis by (rule min.mono) simp
qed

end
