(* ===== verification/Interface_Properties.thy ===== *)
theory Interface_Properties
  imports Interfaces Service_Registry Config Retry_Policy Conformance Queue_Properties
begin

section \<open>Properties of the interfaces and of the services around the queue\<close>

text \<open>
  The MCP tools, the HTTP endpoints, the service registry, the configuration, the back-off, spans and the
  conformance check.
\<close>

interpretation memt: tooling memory_ops mem_inv mem_view "\<lambda>j. j"
  by unfold_locales

interpretation memc: conforming memory_ops mem_inv mem_view "\<lambda>j. j"
  by unfold_locales

sublocale job_table \<subseteq> sqlt: tooling "sql_ops tb" "sql_inv rows" "sql_view rows" sql_stored
  by unfold_locales

sublocale job_table \<subseteq> sqlc: conforming "sql_ops tb" "sql_inv rows" "sql_view rows" sql_stored
  by unfold_locales

subsection \<open>MCP tools\<close>

text \<open>
  Over every backend that meets the contract, \<open>jobs.create\<close> with acceptable arguments answers with the identifier
  of a queued job that has the type, queue, payload and priority of the arguments, and \<open>jobs.status\<close> with
  that identifier then reports it.
\<close>

theorem mcp_create_status:
  assumes "queue_backend ops binv bview bstored" and "created_request fint arguments = Inr req"
    and "payload_accepted (jq_payload_max q) req" and "binv (jq_backend q)" and "bview (jq_backend q) uuid = None"
  shows "\<exists>q' j. create_handler ops fint uuid clk arguments q = (Inr (PDict [(''job_id'', PStr uuid)]), q') \<and>
    bview (jq_backend q') = (bview (jq_backend q))(uuid \<mapsto> j) \<and> job_type j = rq_job_type req \<and> queue_name j = rq_queue_name req \<and>
    payload j = rq_payload req \<and> priority j = rq_priority req \<and> status j = QUEUED \<and>
    status_handler ops [(''job_id'', PStr uuid)] q' =
      (Inr (PDict [(''job_id'', PStr uuid), (''status'', PStr ''queued''), (''job_type'', PStr (rq_job_type req)),
         (''queue_name'', PStr (rq_queue_name req))]), q')"
proof -
  have t: "tooling ops binv bview bstored" using assms(1) by (simp add: tooling_def submitting_def)
  show ?thesis
    using tooling.create_then_status [OF t assms(2-5), of clk]
      queue_backend.stored_law [OF assms(1), of "from_request uuid (clk 0) req"] by auto
qed

definition no_floats :: "string \<Rightarrow> exn + int" where
  "no_floats f = Inl (ValueError f)"

theorem mcp_create_status_witness:
  "\<exists>q' j. create_handler memory_ops no_floats ''u'' (\<lambda>_. 0)
      [(''job_type'', PStr ''mail''), (''priority'', PStr '' 7 '')] (new_job_queue demo_backend None) =
      (Inr (PDict [(''job_id'', PStr ''u'')]), q') \<and> mem_view (jq_backend q') ''u'' = Some j \<and> priority j = 7"
proof -
  let ?args = "[(''job_type'', PStr ''mail''), (''priority'', PStr '' 7 '')]" and ?q = "new_job_queue demo_backend None"
  let ?req = "(default_request ''mail'')\<lparr>rq_payload := [], rq_queue_name := ''default'', rq_priority := 7\<rparr>"
  have r: "created_request no_floats ?args = Inr ?req" by code_simp
  have a: "payload_accepted (jq_payload_max ?q) ?req" by code_simp
  have i: "mem_inv (jq_backend ?q)" using demo_inv by (simp add: new_job_queue_def)
  have v: "mem_view (jq_backend ?q) ''u'' = None" by (simp add: new_job_queue_def demo_backend_def mem_view_def)
  show ?thesis
    using mcp_create_status [OF memb.queue_backend_axioms r a i v, of "\<lambda>_. 0"] by fastforce
qed

subsection \<open>HTTP\<close>

text \<open>
  Behind the middleware, a caller who is granted \<open>jobs.read\<close> and nothing else cannot change anything
  through the router: whatever the endpoint and its arguments, the service over the in-memory backend is
  as before, and an endpoint that would write answers 403.
\<close>

theorem http_reader_changes_nothing:
  assumes "\<forall>rq perm. checker rq perm \<longrightarrow> perm = ''jobs.read''"
  shows "snd (serve_endpoint checker memory_ops chk uuid clk e s) = s \<and>
    (hr_method (endpoint_request e) \<noteq> ''GET'' \<longrightarrow>
       fst (serve_endpoint checker memory_ops chk uuid clk e s) = Inr (Refused 403 ''Forbidden''))"
proof (cases "checker (endpoint_request e) (endpoint_permission e)")
  case True
  then have "endpoint_permission e = ''jobs.read''" using assms by blast
  then show ?thesis
    using True
    by (cases e) (simp_all add: serve_endpoint_eq http_queue_status_def http_list_jobs_def http_get_job_def admin_queue_status_def
        admin_list_def admin_get_def ad_on_backend_def memory_ops_def mem_get_queue_status_def mem_dequeue_def mem_get_def py_defs Let_def)
next
  case False
  then show ?thesis by (simp add: serve_endpoint_eq ret_def)
qed

theorem http_reader_changes_nothing_witness:
  "serve_endpoint (\<lambda>_ perm. perm = ''jobs.read'') memory_ops None ''u'' (\<lambda>_. 0) (EpStop ''a'')
     \<lparr>ad_backend = demo_backend, ad_audit = new_audit_emitter\<rparr> =
     (Inr (Refused 403 ''Forbidden''), \<lparr>ad_backend = demo_backend, ad_audit = new_audit_emitter\<rparr>)"
  using http_reader_changes_nothing [of "\<lambda>_ perm. perm = ''jobs.read''" None "''u''" "\<lambda>_. 0" "EpStop ''a''"
      "\<lparr>ad_backend = demo_backend, ad_audit = new_audit_emitter\<rparr>"]
  by (simp add: prod_eq_iff)

subsection \<open>The service registry\<close>

text \<open>
  C35. The shared service registry lists exactly the registered services, each once, that match the type
  filter and, unless asked otherwise, have sent a heartbeat within the timeout; and a service that was just
  registered is found by \<open>get\<close> and listed as long as its heartbeat is recent.
\<close>

theorem service_listing_exact:
  assumes "service_hash ops entries" and "shared_inv entries g"
  shows "(\<exists>rs. list_services (Some ops) timeout now clk stype alive_only g = (Inr rs, g) \<and> distinct (map sr_service_id rs) \<and>
      (\<forall>r. r \<in> set rs \<longleftrightarrow> shared_view entries g (sr_service_id r) = Some r \<and> (alive_only \<longrightarrow> is_alive (clk (sr_service_id r)) timeout r) \<and>
         (\<forall>t. stype = Some t \<longrightarrow> t \<noteq> [] \<longrightarrow> sr_service_type r = t))) \<and>
    (\<exists>g' rs. service_register (Some ops) r g = (Inr (), g') \<and> service_get (Some ops) now (sr_service_id r) g' = (Inr (Some r), g') \<and>
      list_services (Some ops) timeout now clk None True g' = (Inr rs, g') \<and> (r \<in> set rs \<longleftrightarrow> is_alive (clk (sr_service_id r)) timeout r))"
proof -
  have d: "discovery (Some ops) (shared_inv entries) (shared_view entries)" by (rule service_hash.shared_discovery [OF assms(1)])
  obtain g' where g': "service_register (Some ops) r g = (Inr (), g')" "shared_inv entries g'"
      "shared_view entries g' = (shared_view entries g)(sr_service_id r \<mapsto> r)"
    using discovery.register_law [OF d assms(2)] by blast
  obtain rs where rs: "list_services (Some ops) timeout now clk None True g' = (Inr rs, g')"
      "\<forall>x. x \<in> set rs \<longleftrightarrow> shared_view entries g' (sr_service_id x) = Some x \<and> (True \<longrightarrow> is_alive (clk (sr_service_id x)) timeout x) \<and>
         (\<forall>t. None = Some t \<longrightarrow> t \<noteq> [] \<longrightarrow> sr_service_type x = t)"
    using discovery.list_exact [OF d g'(2), of timeout now clk None True] by (elim exE conjE) (rule that, assumption+)
  have "service_get (Some ops) now (sr_service_id r) g' = (Inr (Some r), g')"
    using discovery.get_law [OF d g'(2), of now "sr_service_id r"] g'(3) by simp
  moreover have "r \<in> set rs \<longleftrightarrow> is_alive (clk (sr_service_id r)) timeout r" using rs(2) g'(3) by simp
  ultimately have "\<exists>g' rs. service_register (Some ops) r g = (Inr (), g') \<and> service_get (Some ops) now (sr_service_id r) g' = (Inr (Some r), g') \<and>
      list_services (Some ops) timeout now clk None True g' = (Inr rs, g') \<and> (r \<in> set rs \<longleftrightarrow> is_alive (clk (sr_service_id r)) timeout r)"
    using g'(1) rs(1) by (intro exI [of _ g'] exI [of _ rs] conjI)
  with discovery.list_exact [OF d assms(2), of timeout now clk stype alive_only] show ?thesis by (rule conjI)
qed

definition demo_service :: service_record where
  "demo_service = \<lparr>sr_service_id = ''s'', sr_service_type = ''ocr'', sr_endpoint = ''http://s'', sr_capabilities = [],
     sr_max_concurrent = 10, sr_registered_at = 0, sr_last_heartbeat = 0, sr_metadata = []\<rparr>"

definition demo_registry :: "(string, wire_dict) dict service_registry" where
  "demo_registry = \<lparr>rg_local = [(''s'', demo_service)], rg_redis = []\<rparr>"

lemma demo_registry_inv: "shared_inv map_of demo_registry"
  by (simp add: shared_inv_def demo_registry_def)

theorem service_listing_exact_witness:
  "\<exists>g' rs. service_register (Some list_hash) demo_service demo_registry = (Inr (), g') \<and>
     list_services (Some list_hash) (120 * second) 0 (\<lambda>_. 60 * second) None True g' = (Inr rs, g') \<and> demo_service \<in> set rs"
proof -
  have "is_alive (60 * second) (120 * second) demo_service" by (simp add: is_alive_def demo_service_def)
  then show ?thesis
    using service_listing_exact [OF listsv.service_hash_axioms demo_registry_inv, of "120 * second" 0 "\<lambda>_. 60 * second" None True demo_service]
    by blast
qed

text \<open>
  A heartbeat can succeed for a service that is not found: when the shared hash has lost a service (another
  process deregistered it, or the server was cleared) that this process still has, the heartbeat answers
  \<open>True\<close> and the service stays unregistered, although the method promises \<open>False\<close> for a service that is not
  found.
\<close>

theorem service_ghost_heartbeat:
  assumes "service_hash ops entries" and "entries (rg_redis g) sid = None" and "dict_get (rg_local g) sid = Some r"
  shows "\<exists>g'. service_heartbeat (Some ops) clk sid g = (Inr True, g') \<and> service_get (Some ops) now sid g' = (Inr None, g')"
  using service_hash.hget_entry [OF assms(1)] assms(2,3)
  by (simp add: service_heartbeat_def local_beat_def service_get_def on_hash_def py_defs)

theorem service_ghost_heartbeat_witness:
  "\<exists>g'. service_heartbeat (Some list_hash) (\<lambda>_. 5) ''s'' demo_registry = (Inr True, g') \<and>
     service_get (Some list_hash) 6 ''s'' g' = (Inr None, g')"
  by (rule service_ghost_heartbeat [OF listsv.service_hash_axioms]) (simp_all add: demo_registry_def)

subsection \<open>Spans\<close>

text \<open>
  A span changes the errors of what it wraps: when the OpenTelemetry library is there, every exception of the
  body reaches the caller as a \<open>RuntimeError\<close> about the generator; when it is not, or when the body returns
  and the span ends normally, the span is transparent.
\<close>

theorem span_replaces_errors:
  assumes "enter s = (opened, s1)" and "body s1 = (res, s2)" and "leave s2 = (Inr (), s3)"
  shows "with_span enter leave body s =
    (case opened of
       Inl _ \<Rightarrow> (res, s2)
     | Inr _ \<Rightarrow> (case res of Inl _ \<Rightarrow> Inl (RuntimeError ''generator didn't stop after throw()'') | Inr x \<Rightarrow> Inr x, s3))"
  using assms by (simp add: with_span_def split: sum.split)

theorem span_replaces_errors_witness:
  "with_span (ret ()) (ret ()) (raise_exn (PermissionError ''no'')) (0 :: nat) =
     (Inl (RuntimeError ''generator didn't stop after throw()''), 0)"
  using span_replaces_errors [of "ret ()" "0 :: nat" "Inr ()" 0 "raise_exn (PermissionError ''no'')" "Inl (PermissionError ''no'')" 0 "ret ()" 0]
  by (simp add: ret_def raise_exn_def)

subsection \<open>Conformance\<close>

text \<open>
  The conformance check that the package offers to backend authors passes on every empty backend that meets
  the contract with the dispatch order, so on the in-memory and on the SQL backend: none of its assertions
  fails and no call raises.
\<close>

theorem conformance_passes:
  assumes "ordered_backend ops binv bview bstored" and "binv b" and "bview b = Map.empty" and "uuid \<noteq> []"
  shows "\<exists>q'. run_basic_backend_conformance ops uuid clk (new_job_queue b None) = (Inr (), q')"
proof -
  have "conforming ops binv bview bstored"
    using assms(1) ordered_backend.axioms(1) [OF assms(1)] by (simp add: conforming_def submitting_def)
  then show ?thesis using assms(2-4) by (rule conforming.conformance_run)
qed

theorem conformance_passes_witness:
  "\<exists>q'. run_basic_backend_conformance memory_ops ''u'' (\<lambda>_. 0) (new_job_queue new_memory_backend None) = (Inr (), q')"
  by (rule conformance_passes [OF memb.ordered_backend_axioms])
    (simp_all add: mem_inv_def mem_view_def [abs_def] new_memory_backend_def)

end
