(* ===== verification/Races.thy ===== *)
theory Races
  imports Redis_Lease Concurrency Job_Queue
begin

section \<open>Operations that are not atomic\<close>

text \<open>
  Three operations test a shared state and act on it in a second step, without a lock or a script around
  both: \<open>ConcurrencyManager.acquire\<close>, \<open>IdempotencyManager.register_or_get\<close> and the loop body of
  \<open>reap_expired_leases\<close>. Each is cut into its two phases, which together are the operation of the other
  theories, and for each a schedule of two threads shows what the second phase does after the state
  has changed.
\<close>

subsection \<open>Slots\<close>

definition cm_take :: "string \<Rightarrow> string \<Rightarrow> string \<Rightarrow> concurrency_manager \<Rightarrow> concurrency_manager" where
  "cm_take jt tenant user c =
     c\<lparr>cm_global := cm_global c + 1,
       cm_by_type := dict_set (cm_by_type c) jt (dict_get_or (cm_by_type c) jt 0 + 1),
       cm_by_tenant := dict_set (cm_by_tenant c) tenant (dict_get_or (cm_by_tenant c) tenant 0 + 1),
       cm_by_user := dict_set (cm_by_user c) user (dict_get_or (cm_by_user c) user 0 + 1)\<rparr>"

lemma cm_acquire_phases:
  "cm_acquire jt tenant user c = (if cm_can_acquire c jt tenant user then (Inr True, cm_take jt tenant user c) else (Inr False, c))"
  by (simp add: cm_acquire_def cm_take_def)

text \<open>Two threads that test the last free slot before either takes it: both get it.\<close>

lemma last_slot_twice:
  assumes "cm_can_acquire c jt tenant user" and "cm_global c + 1 = global_max (cm_limits c)"
  shows "\<exists>c'. c' = cm_take jt' tenant' user' (cm_take jt tenant user c) \<and> cm_limits c' = cm_limits c \<and>
    global_max (cm_limits c') < cm_global c' \<and>
    fst (cm_acquire jt' tenant' user' (cm_take jt tenant user c)) = Inr False"
  using assms by (simp add: cm_take_def cm_acquire_def cm_can_acquire_def)

subsection \<open>Idempotency keys\<close>

definition key_lookup :: "string \<Rightarrow> idempotency_manager \<Rightarrow> (string \<times> time) option" where
  "key_lookup key m = dict_get (im_entries m) key"

definition key_store :: "time \<Rightarrow> string \<Rightarrow> string \<Rightarrow> idempotency_manager \<Rightarrow> idempotency_manager" where
  "key_store now key jid m = m\<lparr>im_entries := dict_set (im_entries m) key (jid, now + im_ttl_seconds m * second)\<rparr>"

definition key_answer :: "time \<Rightarrow> (string \<times> time) option \<Rightarrow> string option" where
  "key_answer now seen = (case seen of Some (prior, expires) \<Rightarrow> if expires > now then Some prior else None | None \<Rightarrow> None)"

lemma register_or_get_phases:
  "register_or_get now key jid m =
     (case key_answer now (key_lookup key m) of Some prior \<Rightarrow> (Inr prior, m) | None \<Rightarrow> (Inr jid, key_store now key jid m))"
  by (auto simp: register_or_get_def key_answer_def key_lookup_def key_store_def split: option.splits)

text \<open>
  Two submissions with one key that both look it up before either stores it: each keeps its own
  identifier, so that two jobs are enqueued, and only the later one is found under the key afterwards.
\<close>

lemma key_registered_twice:
  assumes "key_answer now (key_lookup key m) = None" and "0 < im_ttl_seconds m"
  shows "key_answer now (key_lookup key (key_store now key jid' (key_store now key jid m))) = Some jid' \<and>
    fst (register_or_get now key jid' (key_store now key jid m)) = Inr jid"
  using assms(2) by (simp add: key_answer_def key_lookup_def key_store_def register_or_get_def dict_get_set)

subsection \<open>Expired leases\<close>

definition reap_test :: "'r redis_ops \<Rightarrow> redis_config \<Rightarrow> string \<Rightarrow> ('r, bool) py" where
  "reap_test rd cfg key =
     bind_py (rd_hget rd key ''status'') (\<lambda>st.
       if \<not> is_text st (status_value RUNNING) then ret False
       else bind_py (rd_exists rd (lease_key cfg (last_part key))) (\<lambda>held. ret (\<not> held)))"

lemma reap_key_phases:
  "reap_key rd cfg clk key reaped =
     bind_py (reap_test rd cfg key) (\<lambda>due.
       if \<not> due then ret reaped
       else bind_py (redis_release rd cfg (clk (last_part key)) (last_part key))
              (\<lambda>ok. ret (if ok then reaped @ [last_part key] else reaped)))"
  by (rule ext) (auto simp: reap_key_def reap_test_def Let_def bind_py_def ret_def simp del: status_value.simps split: prod.split sum.split)

text \<open>
  A job whose lease has ended and whose worker stores its success between the two phases: the reaper puts it
  back into the queue all the same.
\<close>

context redis_server
begin

lemma reaper_requeues_finished:
  assumes inv: "rinv r" and "plain_id i" and l: "lapsed (rview r) (leases r) (rd_clock rd r) i"
  shows "\<exists>r1 r2 j. reap_test rd cfg (job_key cfg i) r = (Inr True, r) \<and>
    redis_update_status rd cfg now i (status_value SUCCEEDED) r = (Inr True, r1) \<and>
    redis_release rd cfg now' i r1 = (Inr True, r2) \<and> rview r2 i = Some j \<and> status j = QUEUED"
proof -
  obtain j where j: "rview r i = Some j" "status j = RUNNING" using l by (auto simp: lapsed_def)
  have "reap_test rd cfg (job_key cfg i) r = (Inr True, r)"
    using hget_law exists_lease status_text [OF inv, of i RUNNING] assms(2) l j
    by (auto simp: reap_test_def last_part_plain bind_py_def ret_def lapsed_def simp del: status_value.simps split: option.splits)
  moreover obtain r1 j1 where r1: "redis_update_status rd cfg now i (status_value SUCCEEDED) r = (Inr True, r1)"
      "rinv r1" "rview r1 i = Some j1"
    using redisb.update_status_law [OF inv j(1), of now SUCCEEDED] by (auto simp: redis_backend_def simp del: status_value.simps)
  moreover obtain r2 j2 where "redis_release rd cfg now' i r1 = (Inr True, r2)" "rview r2 i = Some j2" "status j2 = QUEUED"
    using redisb.release_law [OF r1(2,3), of now'] by (auto simp: redis_backend_def)
  ultimately show ?thesis by blast
qed

end

end
